(* ===== verification/Jsv.thy ===== *)
theory Jsv
  imports Complex_Main "HOL-Library.AList"
begin

text \<open>
  The JavaScript values the Node-RED function nodes compute with.

  \<^item> \<open>jnum\<close> is the type of numbers. A finite double is modelled by the exact rational it stands
    for; NaN and the infinities are values of their own, and every comparison with NaN is false.
    Rounding of doubles and the sign of zero are not modelled (the code computes with millisecond
    timestamps and metres, far below the range where integers stop being exact).
  \<^item> \<open>jv\<close> is the type of values: \<open>undefined\<close>, \<open>null\<close>, booleans, numbers, strings (Latin-1 code
    units), arrays and objects. An object is an association list in insertion order.
  \<^item> \<open>jget\<close> is the optional-chaining read \<open>o?.k\<close>, \<open>jset\<close> the assignment \<open>o.k = v\<close>, \<open>dflt\<close> the
    operator \<open>??\<close>, \<open>truthy\<close> the truth value and \<open>jseq\<close> the operator \<open>===\<close>.
\<close>

named_theorems evaluate \<open>definitions unfolded to run a node on a concrete message\<close>

section \<open>Numbers\<close>

datatype jnum = NaN | PInf | NInf | Fin rat

instantiation jnum :: "{zero, one, plus, minus, uminus, times, ord}"
begin

definition zero_jnum :: jnum where "zero_jnum = Fin 0"

definition one_jnum :: jnum where "one_jnum = Fin 1"

fun plus_jnum :: "jnum \<Rightarrow> jnum \<Rightarrow> jnum" where
  "plus_jnum NaN y = NaN"
| "plus_jnum x NaN = NaN"
| "plus_jnum (Fin a) (Fin b) = Fin (a + b)"
| "plus_jnum PInf NInf = NaN"
| "plus_jnum NInf PInf = NaN"
| "plus_jnum PInf y = PInf"
| "plus_jnum x PInf = PInf"
| "plus_jnum NInf y = NInf"
| "plus_jnum x NInf = NInf"

fun uminus_jnum :: "jnum \<Rightarrow> jnum" where
  "uminus_jnum NaN = NaN"
| "uminus_jnum PInf = NInf"
| "uminus_jnum NInf = PInf"
| "uminus_jnum (Fin a) = Fin (- a)"

definition minus_jnum :: "jnum \<Rightarrow> jnum \<Rightarrow> jnum" where
  "minus_jnum x y = x + (- y)"

text \<open>The sign of a number: the product of infinities goes by it.\<close>

fun jsgn :: "jnum \<Rightarrow> rat" where
  "jsgn NaN = 0"
| "jsgn PInf = 1"
| "jsgn NInf = -1"
| "jsgn (Fin a) = sgn a"

fun times_jnum :: "jnum \<Rightarrow> jnum \<Rightarrow> jnum" where
  "times_jnum (Fin a) (Fin b) = Fin (a * b)"
| "times_jnum NaN y = NaN"
| "times_jnum x NaN = NaN"
| "times_jnum x y = (let s = jsgn x * jsgn y in
     if s = 0 then NaN else if 0 < s then PInf else NInf)"

fun less_eq_jnum :: "jnum \<Rightarrow> jnum \<Rightarrow> bool" where
  "less_eq_jnum NaN y = False"
| "less_eq_jnum x NaN = False"
| "less_eq_jnum NInf y = True"
| "less_eq_jnum x PInf = True"
| "less_eq_jnum (Fin a) (Fin b) = (a \<le> b)"
| "less_eq_jnum (Fin a) NInf = False"
| "less_eq_jnum PInf y = False"

definition less_jnum :: "jnum \<Rightarrow> jnum \<Rightarrow> bool" where
  "less_jnum x y = (x \<noteq> NaN \<and> y \<noteq> NaN \<and> \<not> y \<le> x)"

instance ..

end

instance jnum :: comm_monoid_add
proof
  fix a b c :: jnum
  show "a + b + c = a + (b + c)" by (cases a; cases b; cases c) auto
  show "a + b = b + a" by (cases a; cases b) auto
  show "0 + a = a" by (cases a) (auto simp: zero_jnum_def)
qed

instance jnum :: numeral ..

text \<open>Literals are finite numbers; the simplifier computes with them as rationals.\<close>

lemma numeral_jnum [simp]: "(numeral n :: jnum) = Fin (numeral n)"
  by (induction n) (simp_all only: numeral.simps one_jnum_def plus_jnum.simps)

lemma zero_jnum [simp]: "(0 :: jnum) = Fin 0"
  by (rule zero_jnum_def)

lemma one_jnum [simp]: "(1 :: jnum) = Fin 1"
  by (rule one_jnum_def)

lemma minus_Fin [simp]: "Fin a - Fin b = Fin (a - b)"
  by (simp add: minus_jnum_def)

lemma minus_NaN [simp]: "NaN - x = NaN" "x - NaN = NaN"
  by (cases x; simp add: minus_jnum_def)+

lemma less_Fin [simp]: "Fin a < Fin b \<longleftrightarrow> a < b"
  by (auto simp: less_jnum_def)

lemma less_NaN [simp]: "\<not> NaN < x" "\<not> x < NaN"
  by (auto simp: less_jnum_def)

lemma le_NaN [simp]: "\<not> x \<le> NaN"
  by (cases x) auto

lemma PInf_le [simp]: "PInf \<le> x \<longleftrightarrow> x = PInf"
  by (cases x) auto

lemma le_NInf [simp]: "x \<le> NInf \<longleftrightarrow> x = NInf"
  by (cases x) auto

lemma less_PInf [simp]: "Fin a < PInf" "NInf < PInf" "NInf < Fin a"
  by (auto simp: less_jnum_def)

lemma PInf_less [simp]: "\<not> PInf < x" "\<not> x < NInf"
  by (cases x; auto simp: less_jnum_def)+

lemma jnum_not_le: "x \<noteq> NaN \<Longrightarrow> y \<noteq> NaN \<Longrightarrow> \<not> x \<le> y \<longleftrightarrow> y < (x::jnum)"
  by (auto simp: less_jnum_def)

lemma jnum_le_trans: "x \<le> y \<Longrightarrow> y \<le> z \<Longrightarrow> x \<le> (z::jnum)"
  by (cases x; cases y; cases z) auto

lemma jnum_less_le_trans: "x < y \<Longrightarrow> y \<le> z \<Longrightarrow> x < (z::jnum)"
  by (cases x; cases y; cases z) (auto simp: less_jnum_def)

lemma jnum_le_less_trans: "x \<le> y \<Longrightarrow> y < z \<Longrightarrow> x < (z::jnum)"
  by (cases x; cases y; cases z) (auto simp: less_jnum_def)

lemma jnum_less_imp_le: "x < y \<Longrightarrow> x \<le> (y::jnum)"
  by (cases x; cases y) (auto simp: less_jnum_def)

lemma jnum_less_irrefl [simp]: "\<not> x < (x::jnum)"
  by (cases x) auto

lemma jnum_less_asym: "x < y \<Longrightarrow> \<not> y \<le> (x::jnum)"
  by (auto simp: less_jnum_def)

text \<open>\<open>Number.isFinite\<close> and \<open>Number.isInteger\<close> on a number, \<open>Math.max\<close> and \<open>Math.min\<close>,
  \<open>Math.floor\<close>, \<open>Math.ceil\<close>, \<open>Math.round\<close> and division by a positive literal.\<close>

fun fin :: "jnum \<Rightarrow> bool" where
  "fin (Fin _) = True"
| "fin _ = False"

fun integral :: "jnum \<Rightarrow> bool" where
  "integral (Fin r) = (r = of_int \<lfloor>r\<rfloor>)"
| "integral _ = False"

definition jmax :: "jnum \<Rightarrow> jnum \<Rightarrow> jnum" where
  "jmax x y = (if x = NaN \<or> y = NaN then NaN else if x \<le> y then y else x)"

definition jmin :: "jnum \<Rightarrow> jnum \<Rightarrow> jnum" where
  "jmin x y = (if x = NaN \<or> y = NaN then NaN else if x \<le> y then x else y)"

fun jfloor :: "jnum \<Rightarrow> jnum" where
  "jfloor (Fin r) = Fin (of_int \<lfloor>r\<rfloor>)"
| "jfloor x = x"

fun jceil :: "jnum \<Rightarrow> jnum" where
  "jceil (Fin r) = Fin (of_int \<lceil>r\<rceil>)"
| "jceil x = x"

definition jround :: "jnum \<Rightarrow> jnum" where
  "jround x = jfloor (x + Fin (1 / 2))"

fun jdivc :: "jnum \<Rightarrow> rat \<Rightarrow> jnum" where
  "jdivc (Fin r) d = Fin (r / d)"
| "jdivc x d = x"

lemma fin_iff: "fin x \<longleftrightarrow> (\<exists>r. x = Fin r)"
  by (cases x) auto

lemma fin_imp_not_NaN [simp]: "fin x \<Longrightarrow> x \<noteq> NaN"
  by auto

lemma fin_plus [simp]: "fin (x + y) \<longleftrightarrow> fin x \<and> fin y"
  by (cases x; cases y) auto

lemma fin_minus [simp]: "fin (x - y) \<longleftrightarrow> fin x \<and> fin y"
  by (cases x; cases y) (auto simp: minus_jnum_def)

lemma fin_jmax [intro, simp]: "fin x \<Longrightarrow> fin y \<Longrightarrow> fin (jmax x y)"
  by (auto simp: jmax_def)

lemma fin_jmin [intro, simp]: "fin x \<Longrightarrow> fin y \<Longrightarrow> fin (jmin x y)"
  by (auto simp: jmin_def)

lemma jmax_Fin [simp]: "jmax (Fin a) (Fin b) = Fin (max a b)"
  by (auto simp: jmax_def max_def)

lemma jmin_Fin [simp]: "jmin (Fin a) (Fin b) = Fin (min a b)"
  by (auto simp: jmin_def min_def)

lemma fin_between: "Fin a \<le> x \<Longrightarrow> x \<le> Fin b \<Longrightarrow> fin x"
  by (cases x) auto

lemma jmax_ge1: "x \<noteq> NaN \<Longrightarrow> y \<noteq> NaN \<Longrightarrow> x \<le> jmax x y"
  by (cases x; cases y) (auto simp: jmax_def)

lemma jmax_ge2: "x \<noteq> NaN \<Longrightarrow> y \<noteq> NaN \<Longrightarrow> y \<le> jmax x y"
  by (cases x; cases y) (auto simp: jmax_def)

section \<open>Values\<close>

datatype jv =
    JUndef
  | JNull
  | JBool bool
  | JNum jnum
  | JStr string
  | JArr "jv list"
  | JObj "(string \<times> jv) list"

abbreviation JTrue :: jv where "JTrue \<equiv> JBool True"

abbreviation JFalse :: jv where "JFalse \<equiv> JBool False"

fun is_obj :: "jv \<Rightarrow> bool" where
  "is_obj (JObj _) = True"
| "is_obj _ = False"

fun nullish :: "jv \<Rightarrow> bool" where
  "nullish JUndef = True"
| "nullish JNull = True"
| "nullish _ = False"

text \<open>\<open>a ?? b\<close>\<close>

definition dflt :: "jv \<Rightarrow> jv \<Rightarrow> jv" where
  "dflt a b = (if nullish a then b else a)"

text \<open>\<open>typeof v === "object" && v !== null\<close>: arrays are objects too.\<close>

fun is_objectlike :: "jv \<Rightarrow> bool" where
  "is_objectlike (JObj _) = True"
| "is_objectlike (JArr _) = True"
| "is_objectlike _ = False"

fun is_bool :: "jv \<Rightarrow> bool" where
  "is_bool (JBool _) = True"
| "is_bool _ = False"

fun is_str :: "jv \<Rightarrow> bool" where
  "is_str (JStr _) = True"
| "is_str _ = False"

text \<open>\<open>Number.isFinite(v)\<close> on a value: no conversion, so only a finite number passes.\<close>

fun num_fin :: "jv \<Rightarrow> bool" where
  "num_fin (JNum x) = fin x"
| "num_fin _ = False"

fun truthy :: "jv \<Rightarrow> bool" where
  "truthy JUndef = False"
| "truthy JNull = False"
| "truthy (JBool b) = b"
| "truthy (JNum x) = (x \<noteq> NaN \<and> x \<noteq> Fin 0)"
| "truthy (JStr s) = (s \<noteq> [])"
| "truthy (JArr _) = True"
| "truthy (JObj _) = True"

text \<open>\<open>a || b\<close> as a value.\<close>

definition jor :: "jv \<Rightarrow> jv \<Rightarrow> jv" where
  "jor a b = (if truthy a then a else b)"

text \<open>\<open>a === b\<close>. Two objects are equal only when they are one object; the values here are trees
  without identity, and the code never compares two objects this way, so the answer is false.\<close>

fun jseq :: "jv \<Rightarrow> jv \<Rightarrow> bool" where
  "jseq (JNum x) (JNum y) = (x = y \<and> x \<noteq> NaN)"
| "jseq (JArr _) _ = False"
| "jseq (JObj _) _ = False"
| "jseq a b = (a = b)"

section \<open>Objects\<close>

fun jget :: "jv \<Rightarrow> string \<Rightarrow> jv" where
  "jget (JObj kvs) k = (case map_of kvs k of None \<Rightarrow> JUndef | Some v \<Rightarrow> v)"
| "jget _ k = JUndef"

text \<open>Assignment to a property of an object; on a primitive value it has no effect (the function
  nodes run in sloppy mode). On \<open>undefined\<close> and \<open>null\<close> the code raises, which the nodes that can
  meet it model as a branch of their own.\<close>

fun jset :: "jv \<Rightarrow> string \<Rightarrow> jv \<Rightarrow> jv" where
  "jset (JObj kvs) k v = JObj (AList.update k v kvs)"
| "jset o' k v = o'"

fun jdel :: "jv \<Rightarrow> string \<Rightarrow> jv" where
  "jdel (JObj kvs) k = JObj (AList.delete k kvs)"
| "jdel o' k = o'"

text \<open>A run of assignments, and \<open>Object.assign\<close> with a literal.\<close>

fun jsets :: "jv \<Rightarrow> (string \<times> jv) list \<Rightarrow> jv" where
  "jsets o' [] = o'"
| "jsets o' ((k, v) # kvs) = jsets (jset o' k v) kvs"

text \<open>The own enumerable properties of an object, as spread and \<open>Object.entries\<close> see them.\<close>

fun jentries :: "jv \<Rightarrow> (string \<times> jv) list" where
  "jentries (JObj kvs) = kvs"
| "jentries _ = []"

definition jkeys :: "jv \<Rightarrow> string list" where
  "jkeys o' = map fst (jentries o')"

definition jvalues :: "jv \<Rightarrow> jv list" where
  "jvalues o' = map snd (jentries o')"

text \<open>\<open>{ ...a, ...b }\<close>\<close>

definition jspread :: "jv \<Rightarrow> jv \<Rightarrow> jv" where
  "jspread a b = jsets (jsets (JObj []) (jentries a)) (jentries b)"

lemma jget_JObj_Nil [simp]: "jget (JObj []) k = JUndef"
  by simp

lemma is_obj_jset [simp]: "is_obj (jset a k v) = is_obj a"
  by (cases a) auto

lemma is_obj_jdel [simp]: "is_obj (jdel a k) = is_obj a"
  by (cases a) auto

lemma jget_not_obj: "\<not> is_obj a \<Longrightarrow> jget a k = JUndef"
  by (cases a) auto

lemma nullish_iff: "nullish v \<longleftrightarrow> v = JUndef \<or> v = JNull"
  by (cases v) auto

lemma is_obj_not_nullish [simp]: "is_obj a \<Longrightarrow> \<not> nullish a"
  by (cases a) auto

lemma jget_jset:
  "is_obj a \<Longrightarrow> jget (jset a k v) k' = (if k' = k then v else jget a k')"
  by (cases a) (auto simp: update_conv')

lemma jget_jset_same [simp]: "is_obj a \<Longrightarrow> jget (jset a k v) k = v"
  by (simp add: jget_jset)

lemma jget_jset_other [simp]: "k' \<noteq> k \<Longrightarrow> jget (jset a k v) k' = jget a k'"
  by (cases a) (auto simp: update_conv')

lemma jget_jdel [simp]: "jget (jdel a k) k' = (if k' = k then JUndef else jget a k')"
  by (cases a) (auto simp: delete_conv')

lemma is_obj_jsets [simp]: "is_obj (jsets a kvs) = is_obj a"
  by (induction a kvs rule: jsets.induct) auto

lemma jget_jsets_other [simp]: "k \<notin> fst ` set kvs \<Longrightarrow> jget (jsets a kvs) k = jget a k"
  by (induction a kvs rule: jsets.induct) auto

lemma jget_jsets:
  "is_obj a \<Longrightarrow> jget (jsets a kvs) k =
     (case map_of (rev kvs) k of None \<Rightarrow> jget a k | Some v \<Rightarrow> v)"
proof (induction a kvs rule: jsets.induct)
  case (2 a k1 v1 kvs)
  then show ?case by (auto simp: map_add_def jget_jset split: option.splits)
qed simp

lemma jsets_append: "jsets a (xs @ ys) = jsets (jsets a xs) ys"
  by (induction a xs rule: jsets.induct) auto

lemma is_obj_jspread [simp]: "is_obj (jspread a b)"
  by (simp add: jspread_def)

lemma jget_entries: "jget a k = (case map_of (jentries a) k of None \<Rightarrow> JUndef | Some v \<Rightarrow> v)"
  by (cases a) auto

lemma update_entries: "x \<in> set (AList.update k v xs) \<Longrightarrow> x = (k, v) \<or> x \<in> set xs"
  by (induction xs) (auto split: if_splits)

text \<open>An object is well formed when no key occurs twice; the objects the code builds are, since
  assignment replaces in place.\<close>

fun obj_wf :: "jv \<Rightarrow> bool" where
  "obj_wf (JObj kvs) = distinct (map fst kvs)"
| "obj_wf _ = True"

lemma obj_wf_jset [simp]: "obj_wf a \<Longrightarrow> obj_wf (jset a k v)"
  by (cases a) (auto simp: distinct_update)

lemma obj_wf_jdel [simp]: "obj_wf a \<Longrightarrow> obj_wf (jdel a k)"
  by (cases a) (auto simp: distinct_delete)

lemma obj_wf_jsets [simp]: "obj_wf a \<Longrightarrow> obj_wf (jsets a kvs)"
  by (induction a kvs rule: jsets.induct) auto

lemma obj_wf_spread [simp]: "obj_wf (jspread a b)"
  by (simp add: jspread_def)

lemma map_of_rev_distinct: "distinct (map fst xs) \<Longrightarrow> map_of (rev xs) = map_of xs"
proof (induction xs)
  case (Cons x xs)
  then have "map_of xs (fst x) = None" by (simp add: map_of_eq_None_iff)
  with Cons show ?case by (cases x) (auto simp: map_add_def fun_eq_iff split: option.splits)
qed simp

lemma obj_wf_entries: "obj_wf a \<Longrightarrow> map_of (rev (jentries a)) = map_of (jentries a)"
  by (cases a) (simp_all add: map_of_rev_distinct)

lemma jget_jspread:
  "obj_wf a \<Longrightarrow> obj_wf b \<Longrightarrow> jget (jspread a b) k =
     (case map_of (jentries b) k of Some v \<Rightarrow> v | None \<Rightarrow> jget a k)"
  by (simp add: jspread_def jget_jsets jget_entries [of a] obj_wf_entries split: option.splits)

lemmas jobj_simps = jget_jset jget_jsets jget_jdel

end
