(* ===== verification/JsText.thy ===== *)
theory JsText
  imports Jsv
begin

text \<open>
  The part of the JavaScript library on text that the function nodes use: \<open>String(v)\<close>,
  \<open>Number(v)\<close>, \<open>trim\<close>, case conversion, substring search, \<open>JSON.stringify\<close> and \<open>JSON.parse\<close>.
  Strings are lists of Latin-1 code units.

  A number is printed as the code prints it when it has a short decimal expansion (integers and
  terminating decimals, the only ones a policy or a clock yields); other rationals are cut after
  seventeen decimals. \<open>JSON.parse\<close> recurses on the rest of its input; every recursive call is
  guarded by the rest being shorter, which the parser of a value always makes true.
\<close>

section \<open>Characters and substrings\<close>

definition code :: "char \<Rightarrow> nat" where
  "code c = of_char c"

definition is_digit :: "char \<Rightarrow> bool" where
  "is_digit c = (48 \<le> code c \<and> code c \<le> 57)"

definition digit_val :: "char \<Rightarrow> nat" where
  "digit_val c = code c - 48"

definition is_space :: "char \<Rightarrow> bool" where
  "is_space c = (code c \<in> {9, 10, 11, 12, 13, 32, 160})"

definition js_trim :: "string \<Rightarrow> string" where
  "js_trim s = rev (dropWhile is_space (rev (dropWhile is_space s)))"

definition lower_char :: "char \<Rightarrow> char" where
  "lower_char c = (let n = code c in
     if 65 \<le> n \<and> n \<le> 90 \<or> 192 \<le> n \<and> n \<le> 222 \<and> n \<noteq> 215 then char_of (n + 32) else c)"

definition upper_char :: "char \<Rightarrow> char" where
  "upper_char c = (let n = code c in
     if 97 \<le> n \<and> n \<le> 122 \<or> 224 \<le> n \<and> n \<le> 254 \<and> n \<noteq> 247 then char_of (n - 32) else c)"

definition js_lower :: "string \<Rightarrow> string" where
  "js_lower s = map lower_char s"

definition js_upper :: "string \<Rightarrow> string" where
  "js_upper s = map upper_char s"

fun starts_with :: "string \<Rightarrow> string \<Rightarrow> bool" where
  "starts_with s [] = True"
| "starts_with [] (p # ps) = False"
| "starts_with (c # s) (p # ps) = (c = p \<and> starts_with s ps)"

fun contains :: "string \<Rightarrow> string \<Rightarrow> bool" where
  "contains [] p = (p = [])"
| "contains (c # s) p = (starts_with (c # s) p \<or> contains s p)"

text \<open>Case-insensitive search, a regular expression of alternatives without operators.\<close>

definition icontains :: "string \<Rightarrow> string \<Rightarrow> bool" where
  "icontains s p = contains (js_lower s) p"

definition icontains_any :: "string \<Rightarrow> string list \<Rightarrow> bool" where
  "icontains_any s ps = list_ex (icontains s) ps"

fun join_with :: "string \<Rightarrow> string list \<Rightarrow> string" where
  "join_with sep [] = []"
| "join_with sep [x] = x"
| "join_with sep (x # xs) = x @ sep @ join_with sep xs"

section \<open>Printing numbers\<close>

fun nat_str :: "nat \<Rightarrow> string" where
  "nat_str n = (if n < 10 then [char_of (48 + n)] else nat_str (n div 10) @ [char_of (48 + n mod 10)])"

declare nat_str.simps [simp del]

fun frac_digits :: "nat \<Rightarrow> rat \<Rightarrow> string" where
  "frac_digits 0 r = []"
| "frac_digits (Suc k) r = (if r = 0 then [] else
     char_of (48 + nat \<lfloor>r * 10\<rfloor>) # frac_digits k (r * 10 - of_int \<lfloor>r * 10\<rfloor>))"

definition pos_str :: "rat \<Rightarrow> string" where
  "pos_str r = (let i = \<lfloor>r\<rfloor>; f = r - of_int i in
     if f = 0 then nat_str (nat i) else nat_str (nat i) @ ''.'' @ frac_digits 17 f)"

fun num_str :: "jnum \<Rightarrow> string" where
  "num_str NaN = ''NaN''"
| "num_str PInf = ''Infinity''"
| "num_str NInf = ''-Infinity''"
| "num_str (Fin r) = (if r < 0 then ''-'' @ pos_str (- r) else pos_str r)"

section \<open>Reading numbers\<close>

definition digits_val :: "string \<Rightarrow> nat" where
  "digits_val ds = foldl (\<lambda>n c. 10 * n + digit_val c) 0 ds"

definition scale10 :: "rat \<Rightarrow> nat \<Rightarrow> bool \<Rightarrow> rat" where
  "scale10 r e neg = (if neg then r / 10 ^ e else r * 10 ^ e)"

definition parse_exponent :: "string \<Rightarrow> (nat \<times> bool) option" where
  "parse_exponent s = (case s of
       [] \<Rightarrow> Some (0, False)
     | c # r \<Rightarrow> if c = CHR ''e'' \<or> c = CHR ''E'' then
         (let neg = (r \<noteq> [] \<and> hd r = CHR ''-'');
              ds = (if r \<noteq> [] \<and> (hd r = CHR ''-'' \<or> hd r = CHR ''+'') then tl r else r)
          in if ds \<noteq> [] \<and> list_all is_digit ds then Some (digits_val ds, neg) else None)
       else None)"

definition parse_decimal :: "string \<Rightarrow> rat option" where
  "parse_decimal s =
    (let ip = takeWhile is_digit s; r = dropWhile is_digit s;
         dot = (r \<noteq> [] \<and> hd r = CHR ''.'');
         fp = (if dot then takeWhile is_digit (tl r) else []);
         r' = (if dot then dropWhile is_digit (tl r) else r)
     in if ip = [] \<and> fp = [] then None
        else case parse_exponent r' of
          None \<Rightarrow> None
        | Some (e, neg) \<Rightarrow>
            Some (scale10 (of_nat (digits_val (ip @ fp)) / 10 ^ length fp) e neg))"

definition radix_digit :: "char \<Rightarrow> nat option" where
  "radix_digit c = (let n = code c in
     if is_digit c then Some (n - 48)
     else if 97 \<le> n \<and> n \<le> 102 then Some (n - 87)
     else if 65 \<le> n \<and> n \<le> 70 then Some (n - 55) else None)"

fun parse_radix :: "nat \<Rightarrow> nat \<Rightarrow> string \<Rightarrow> rat option" where
  "parse_radix b acc [] = Some (of_nat acc)"
| "parse_radix b acc (c # s) = (case radix_digit c of
     None \<Rightarrow> None
   | Some d \<Rightarrow> if d < b then parse_radix b (acc * b + d) s else None)"

definition parse_prefixed :: "string \<Rightarrow> rat option" where
  "parse_prefixed s = (case s of
       z # x # d # ds \<Rightarrow> if z \<noteq> CHR ''0'' then None
         else if x = CHR ''x'' \<or> x = CHR ''X'' then parse_radix 16 0 (d # ds)
         else if x = CHR ''o'' \<or> x = CHR ''O'' then parse_radix 8 0 (d # ds)
         else if x = CHR ''b'' \<or> x = CHR ''B'' then parse_radix 2 0 (d # ds)
         else None
     | _ \<Rightarrow> None)"

definition str_num :: "string \<Rightarrow> jnum" where
  "str_num s =
    (let t = js_trim s in
     if t = [] then Fin 0
     else case parse_prefixed t of
       Some r \<Rightarrow> Fin r
     | None \<Rightarrow>
        (let neg = (hd t = CHR ''-'');
             u = (if hd t = CHR ''-'' \<or> hd t = CHR ''+'' then tl t else t)
         in if u = ''Infinity'' then (if neg then NInf else PInf)
            else case parse_decimal u of
              None \<Rightarrow> NaN
            | Some r \<Rightarrow> Fin (if neg then - r else r)))"

section \<open>Conversions of values\<close>

text \<open>\<open>String(v)\<close>: in an array, \<open>undefined\<close> and \<open>null\<close> print as nothing.\<close>

fun to_str :: "jv \<Rightarrow> string" where
  "to_str JUndef = ''undefined''"
| "to_str JNull = ''null''"
| "to_str (JBool b) = (if b then ''true'' else ''false'')"
| "to_str (JNum x) = num_str x"
| "to_str (JStr s) = s"
| "to_str (JArr xs) = join_with '','' (map (\<lambda>x. if nullish x then [] else to_str x) xs)"
| "to_str (JObj kvs) = ''[object Object]''"

text \<open>\<open>Number(v)\<close>: an array goes through its text, an object is NaN.\<close>

fun to_num :: "jv \<Rightarrow> jnum" where
  "to_num JUndef = NaN"
| "to_num JNull = Fin 0"
| "to_num (JBool b) = (if b then Fin 1 else Fin 0)"
| "to_num (JNum x) = x"
| "to_num (JStr s) = str_num s"
| "to_num (JArr xs) = str_num (to_str (JArr xs))"
| "to_num (JObj kvs) = NaN"

abbreviation jnum_of :: "jv \<Rightarrow> string \<Rightarrow> jnum" where
  "jnum_of s k \<equiv> to_num (jget s k)"

text \<open>\<open>Number(v ?? d)\<close> for a numeric literal \<open>d\<close>.\<close>

definition num_or :: "jv \<Rightarrow> jnum \<Rightarrow> jnum" where
  "num_or v d = (if nullish v then d else to_num v)"

lemma num_or_num [simp]: "num_or (JNum x) d = x"
  by (simp add: num_or_def)

lemma num_or_nullish [simp]: "num_or JUndef d = d" "num_or JNull d = d"
  by (simp_all add: num_or_def)

lemma num_fin_to_num: "num_fin v \<Longrightarrow> fin (to_num v)"
  by (cases v) auto

lemma num_fin_iff: "num_fin v \<longleftrightarrow> (\<exists>r. v = JNum (Fin r))"
  by (cases v) (auto simp: fin_iff)

lemma not_num_fin_nullish [simp]: "num_fin v \<Longrightarrow> \<not> nullish v"
  by (cases v) auto

section \<open>JSON\<close>

definition hex_digit :: "nat \<Rightarrow> char" where
  "hex_digit n = (if n < 10 then char_of (48 + n) else char_of (87 + n))"

definition json_escape :: "char \<Rightarrow> string" where
  "json_escape c = (let n = code c in
     if n = 34 then [CHR 0x5C, c]
     else if n = 92 then [CHR 0x5C, c]
     else if n = 8 then [CHR 0x5C, CHR ''b'']
     else if n = 9 then [CHR 0x5C, CHR ''t'']
     else if n = 10 then [CHR 0x5C, CHR ''n'']
     else if n = 12 then [CHR 0x5C, CHR ''f'']
     else if n = 13 then [CHR 0x5C, CHR ''r'']
     else if n < 32 then [CHR 0x5C, CHR ''u'', CHR ''0'', CHR ''0'', hex_digit (n div 16), hex_digit (n mod 16)]
     else [c])"

definition json_quote :: "string \<Rightarrow> string" where
  "json_quote s = [CHR 0x22] @ concat (map json_escape s) @ [CHR 0x22]"

text \<open>\<open>JSON.stringify\<close>: properties that are \<open>undefined\<close> are left out, as array elements they print
  as \<open>null\<close>, and so do the numbers that are not finite.\<close>

function json_str :: "jv \<Rightarrow> string" where
  "json_str JUndef = ''undefined''"
| "json_str JNull = ''null''"
| "json_str (JBool b) = (if b then ''true'' else ''false'')"
| "json_str (JNum x) = (if fin x then num_str x else ''null'')"
| "json_str (JStr s) = json_quote s"
| "json_str (JArr xs) =
    ''['' @ join_with '','' (map (\<lambda>x. if x = JUndef then ''null'' else json_str x) xs) @ '']''"
| "json_str (JObj kvs) =
    ''{'' @ join_with '','' (map (\<lambda>kv. json_quote (fst kv) @ '':'' @ json_str (snd kv))
       (filter (\<lambda>kv. snd kv \<noteq> JUndef) kvs)) @ ''}''"
  by pat_completeness auto
termination
proof (relation "measure size", goal_cases)
  case 1
  show ?case by simp
next
  case (2 xs x)
  then have "size x < Suc (size_list size xs)"
    by (meson le_imp_less_Suc size_list_estimation' order_refl)
  then show ?case by simp
next
  case (3 kvs kv)
  then have "size kv \<le> size_list (size_prod (\<lambda>_. 0) size) kvs \<or> True" by simp
  have "size_prod (\<lambda>_. 0) size kv \<le> size_list (size_prod (\<lambda>_. 0) size) kvs"
    using 3 by (intro size_list_estimation' [OF _ order_refl]) auto
  moreover have "size (snd kv) < size_prod (\<lambda>_. 0) size kv"
    by (cases kv) simp
  ultimately show ?case by simp
qed

text \<open>Two values have the same JSON text in particular when they are equal.\<close>

definition json_same :: "jv \<Rightarrow> jv \<Rightarrow> bool" where
  "json_same a b = (json_str a = json_str b)"

lemma json_same_refl [simp]: "json_same a a"
  by (simp add: json_same_def)

subsection \<open>Parsing\<close>

definition is_json_ws :: "char \<Rightarrow> bool" where
  "is_json_ws c = (code c \<in> {9, 10, 13, 32})"

definition skip_ws :: "string \<Rightarrow> string" where
  "skip_ws s = dropWhile is_json_ws s"

definition unescape :: "char \<Rightarrow> char option" where
  "unescape c = (let n = code c in
     if n = 34 \<or> n = 92 \<or> n = 47 then Some c
     else if n = 98 then Some (char_of (8::nat))
     else if n = 116 then Some (char_of (9::nat))
     else if n = 110 then Some (char_of (10::nat))
     else if n = 102 then Some (char_of (12::nat))
     else if n = 114 then Some (char_of (13::nat)) else None)"

text \<open>The text after an opening quote: the string and what follows the closing quote. An escape
  \<open>\uXXXX\<close> is read when its code unit is in Latin-1.\<close>

fun json_string :: "string \<Rightarrow> (string \<times> string) option" where
  "json_string [] = None"
| "json_string (c # s) =
    (if code c = 34 then Some ([], s)
     else if code c = 92 then
       (case s of
          [] \<Rightarrow> None
        | d # t \<Rightarrow>
          if code d = 117 then
            (case t of
               h1 # h2 # h3 # h4 # t' \<Rightarrow>
                 (case (radix_digit h1, radix_digit h2, radix_digit h3, radix_digit h4) of
                    (Some a, Some b, Some x, Some y) \<Rightarrow>
                      if a = 0 \<and> b = 0 then
                        map_option (\<lambda>(r, rest). (char_of (16 * x + y) # r, rest)) (json_string t')
                      else None
                  | _ \<Rightarrow> None)
             | _ \<Rightarrow> None)
          else (case unescape d of
              None \<Rightarrow> None
            | Some e \<Rightarrow> map_option (\<lambda>(r, rest). (e # r, rest)) (json_string t)))
     else if code c < 32 then None
     else map_option (\<lambda>(r, rest). (c # r, rest)) (json_string s))"

definition is_num_char :: "char \<Rightarrow> bool" where
  "is_num_char c = (is_digit c \<or> c \<in> {CHR ''+'', CHR ''-'', CHR ''.'', CHR ''e'', CHR ''E''})"

definition json_number :: "string \<Rightarrow> (jv \<times> string) option" where
  "json_number s =
    (let t = takeWhile is_num_char s; neg = (t \<noteq> [] \<and> hd t = CHR ''-'');
         u = (if neg then tl t else t) in
     if u = [] \<or> \<not> is_digit (hd u) then None
     else if hd u = CHR ''0'' \<and> length u > 1 \<and> is_digit (u ! 1) then None
     else case parse_decimal u of
         None \<Rightarrow> None
       | Some r \<Rightarrow> Some (JNum (Fin (if neg then - r else r)), dropWhile is_num_char s))"

function json_value :: "string \<Rightarrow> (jv \<times> string) option"
  and json_elems :: "string \<Rightarrow> (jv list \<times> string) option"
  and json_members :: "string \<Rightarrow> ((string \<times> jv) list \<times> string) option"
where
  "json_value s =
    (case skip_ws s of
       [] \<Rightarrow> None
     | c # r \<Rightarrow>
       if length r < length s then
         (if c = CHR ''{'' then
            (case skip_ws r of
               [] \<Rightarrow> None
             | d # r' \<Rightarrow> if d = CHR ''}'' then Some (JObj [], r')
                 else map_option (\<lambda>(kvs, t). (jsets (JObj []) kvs, t)) (json_members r))
          else if c = CHR ''['' then
            (case skip_ws r of
               [] \<Rightarrow> None
             | d # r' \<Rightarrow> if d = CHR '']'' then Some (JArr [], r')
                 else map_option (\<lambda>(xs, t). (JArr xs, t)) (json_elems r))
          else if code c = 34 then map_option (\<lambda>(x, t). (JStr x, t)) (json_string r)
          else if starts_with (c # r) ''true'' then Some (JTrue, drop 4 (c # r))
          else if starts_with (c # r) ''false'' then Some (JFalse, drop 5 (c # r))
          else if starts_with (c # r) ''null'' then Some (JNull, drop 4 (c # r))
          else json_number (c # r))
       else None)"
| "json_elems s =
    (case json_value s of
       None \<Rightarrow> None
     | Some (v, t) \<Rightarrow>
       (case skip_ws t of
          [] \<Rightarrow> None
        | c # r \<Rightarrow>
          if c = CHR '']'' then Some ([v], r)
          else if c = CHR '','' \<and> length r < length s then
            map_option (\<lambda>(vs, u). (v # vs, u)) (json_elems r)
          else None))"
| "json_members s =
    (case skip_ws s of
       [] \<Rightarrow> None
     | q # s1 \<Rightarrow>
       if code q \<noteq> 34 then None
       else (case json_string s1 of
           None \<Rightarrow> None
         | Some (k, t1) \<Rightarrow>
           (case skip_ws t1 of
              [] \<Rightarrow> None
            | c # s2 \<Rightarrow>
              if c = CHR '':'' \<and> length s2 < length s then
                (case json_value s2 of
                   None \<Rightarrow> None
                 | Some (v, t2) \<Rightarrow>
                   (case skip_ws t2 of
                      [] \<Rightarrow> None
                    | d # r \<Rightarrow>
                      if d = CHR ''}'' then Some ([(k, v)], r)
                      else if d = CHR '','' \<and> length r < length s then
                        map_option (\<lambda>(kvs, u). ((k, v) # kvs, u)) (json_members r)
                      else None))
              else None)))"
  by pat_completeness auto
termination
  by (relation "measure (\<lambda>x. case x of
        Inl s \<Rightarrow> 2 * length s
      | Inr (Inl s) \<Rightarrow> 2 * length s + 1
      | Inr (Inr s) \<Rightarrow> 2 * length s + 1)") auto

declare json_value.simps [simp del] json_elems.simps [simp del] json_members.simps [simp del]

text \<open>\<open>JSON.parse\<close>: \<open>None\<close> is the \<open>SyntaxError\<close> it raises.\<close>

definition json_parse :: "string \<Rightarrow> jv option" where
  "json_parse s = (case json_value s of
     None \<Rightarrow> None
   | Some (v, rest) \<Rightarrow> if skip_ws rest = [] then Some v else None)"

subsection \<open>Reading back\<close>

lemma radix_hex: "d < 16 \<Longrightarrow> radix_digit (hex_digit d) = Some d"
  by (auto simp: radix_digit_def hex_digit_def is_digit_def code_def Let_def)

lemma char_of_code [simp]: "char_of (code c) = c"
  by (simp add: code_def)

lemma json_string_escape [simp]:
  "json_string (json_escape c @ u) = map_option (\<lambda>(r, rest). (c # r, rest)) (json_string u)"
proof -
  have c: "c = char_of (code c)" by simp
  consider "code c \<in> {34, 92, 8, 9, 10, 12, 13}" | "code c < 32" "code c \<notin> {8, 9, 10, 12, 13}"
    | "32 \<le> code c" "code c \<notin> {34, 92}" by fastforce
  then show ?thesis
  proof cases
    case 1
    then obtain n where n: "c = char_of n" "n \<in> {34, 92, 8, 9, 10, 12, 13 :: nat}" using c by metis
    have "code (CHR 0x5C) = 92" "code (CHR ''b'') = 98" "code (CHR ''t'') = 116" "code (CHR ''n'') = 110"
      "code (CHR ''f'') = 102" "code (CHR ''r'') = 114" by code_simp+
    moreover have "code (char_of n) = n" if "n < 256" for n :: nat using that by (simp add: code_def)
    ultimately show ?thesis
      using n(2) unfolding n(1) by (elim insertE emptyE; simp add: json_escape_def unescape_def Let_def)
  next
    case 2
    have "radix_digit (CHR ''0'') = Some 0" by code_simp
    moreover have "code c div 16 < 16" "code c mod 16 < 16" using 2 by simp_all
    moreover have "code (CHR 0x5C) = 92" "code (CHR ''u'') = 117" by code_simp+
    ultimately show ?thesis using 2 by (simp add: json_escape_def Let_def radix_hex)
  next
    case 3
    then show ?thesis by (simp add: json_escape_def Let_def)
  qed
qed

lemma json_string_quote: "json_string (concat (map json_escape s) @ CHR 0x22 # t) = Some (s, t)"
  by (induction s) (simp_all add: code_def)

text \<open>An object of two texts comes back from its JSON text.\<close>

lemma json_object_texts:
  assumes "k \<noteq> l"
  shows "json_parse (json_str (JObj [(k, JStr x), (l, JStr y)])) = Some (JObj [(k, JStr x), (l, JStr y)])"
proof -
  have ws: "skip_ws (c # s) = c # s" if "c \<in> {CHR 0x22, CHR '':'', CHR '','', CHR ''{'', CHR ''}''}" for c s
    using that by (auto simp: skip_ws_def is_json_ws_def code_def)
  have q: "code (CHR 0x22) = 34" by code_simp
  have mo: "code c \<noteq> 34" if "c \<in> {CHR '':'', CHR '','', CHR ''{'', CHR ''}''}" for c
    using that by (auto simp: code_def)
  show ?thesis
    using assms
    by (simp add: mo json_parse_def json_quote_def json_value.simps [of "_ # _"] json_members.simps [of "_ # _"] ws q json_string_quote
        skip_ws_def [of "[]"])
qed

lemma json_object_text:
  "js_trim (json_str (JObj kvs)) = json_str (JObj kvs)" "starts_with (json_str (JObj kvs)) [CHR 0x7B]"
proof -
  have "\<not> is_space (CHR ''{'')" "\<not> is_space (CHR ''}'')" by code_simp+
  then show "js_trim (json_str (JObj kvs)) = json_str (JObj kvs)" by (simp add: js_trim_def)
  show "starts_with (json_str (JObj kvs)) [CHR 0x7B]" by simp
qed

end
