(* ===== verification/NodeRed.thy ===== *)
theory NodeRed
  imports JsText
begin

text \<open>
  The runtime the function nodes see (\<open>nodered/settings.js\<close>, \<open>contextStorage\<close>): the flow context in
  its two stores (the default \<open>memoryOnly\<close> and the file-backed \<open>persistent\<close>), the persistent global
  context, and the calls \<open>node.error\<close>, \<open>node.warn\<close>, \<open>node.log\<close>, recorded by kind. Canvas badges
  (\<open>node.status\<close>) are not modelled.

  A node is a function from the environment, the context and its input to a \<open>run\<close>: it emits a
  value, stops (\<open>return null\<close>) or raises (an uncaught \<open>TypeError\<close>, which the runtime reports while
  the context changes made so far stay). A context read yields a value; the writes a node makes
  become visible through \<open>flow.set\<close>. The clock is read once per node run.
\<close>

section \<open>Environment and context\<close>

text \<open>The host functions: \<open>Date.now()\<close>, \<open>Date.parse\<close>, the local hour of a time stamp,
  \<open>toISOString\<close>, and the wording of messages for people (a template name and its arguments).\<close>

record env =
  clock :: jnum
  date_parse :: "string \<Rightarrow> jnum"
  hour_of :: "jnum \<Rightarrow> jnum"
  iso :: "jnum \<Rightarrow> string"
  wording :: "string \<Rightarrow> string list \<Rightarrow> string"

datatype effect = NodeError | NodeWarn | NodeLog

record ctx =
  fmem :: "string \<Rightarrow> jv"
  fper :: "string \<Rightarrow> jv"
  glob :: "string \<Rightarrow> jv"
  trace :: "effect list"

definition empty_ctx :: ctx where
  "empty_ctx = \<lparr>fmem = (\<lambda>_. JUndef), fper = (\<lambda>_. JUndef), glob = (\<lambda>_. JUndef), trace = []\<rparr>"

definition fset :: "ctx \<Rightarrow> string \<Rightarrow> jv \<Rightarrow> ctx" where
  "fset c k v = c\<lparr>fmem := (fmem c)(k := v)\<rparr>"

definition pset :: "ctx \<Rightarrow> string \<Rightarrow> jv \<Rightarrow> ctx" where
  "pset c k v = c\<lparr>fper := (fper c)(k := v)\<rparr>"

definition gset :: "ctx \<Rightarrow> string \<Rightarrow> jv \<Rightarrow> ctx" where
  "gset c k v = c\<lparr>glob := (glob c)(k := v)\<rparr>"

definition logged :: "effect \<Rightarrow> ctx \<Rightarrow> ctx" where
  "logged x c = c\<lparr>trace := x # trace c\<rparr>"

text \<open>The idiom \<open>TEST_MODE ? flow.get(key + "__test") : flow.get(key, "persistent")\<close> (\<open>sget\<close>), and
  the same with the default store on both sides (\<open>mget\<close>).\<close>

definition tkey :: "bool \<Rightarrow> string \<Rightarrow> string" where
  "tkey t k = (if t then k @ ''__test'' else k)"

definition mget :: "bool \<Rightarrow> ctx \<Rightarrow> string \<Rightarrow> jv" where
  "mget t c k = fmem c (tkey t k)"

definition mset :: "bool \<Rightarrow> ctx \<Rightarrow> string \<Rightarrow> jv \<Rightarrow> ctx" where
  "mset t c k v = fset c (tkey t k) v"

definition sget :: "bool \<Rightarrow> ctx \<Rightarrow> string \<Rightarrow> jv" where
  "sget t c k = (if t then fmem c (tkey True k) else fper c k)"

definition sset :: "bool \<Rightarrow> ctx \<Rightarrow> string \<Rightarrow> jv \<Rightarrow> ctx" where
  "sset t c k v = (if t then fset c (tkey True k) v else pset c k v)"

lemma ctx_reads [simp]:
  "fmem (fset c k v) = (fmem c)(k := v)" "fper (fset c k v) = fper c" "glob (fset c k v) = glob c"
  "fmem (pset c k v) = fmem c" "fper (pset c k v) = (fper c)(k := v)" "glob (pset c k v) = glob c"
  "fmem (gset c k v) = fmem c" "fper (gset c k v) = fper c" "glob (gset c k v) = (glob c)(k := v)"
  "fmem (logged x c) = fmem c" "fper (logged x c) = fper c" "glob (logged x c) = glob c"
  by (simp_all add: fset_def pset_def gset_def logged_def)

lemma ctx_traces [simp]:
  "trace (fset c k v) = trace c" "trace (pset c k v) = trace c" "trace (gset c k v) = trace c"
  "trace (logged x c) = x # trace c"
  by (simp_all add: fset_def pset_def gset_def logged_def)

lemma tkey_eq [simp]: "tkey t k = tkey t k' \<longleftrightarrow> k = k'"
  by (simp add: tkey_def)

lemma mget_logged [simp]: "mget t (logged x c) k = mget t c k"
  by (simp add: mget_def)

lemma sget_logged [simp]: "sget t (logged x c) k = sget t c k"
  by (simp add: sget_def)

section \<open>Runs of nodes\<close>

datatype 'a run = Emit ctx 'a | Stop ctx | Raise ctx

fun ctx_of :: "'a run \<Rightarrow> ctx" where
  "ctx_of (Emit c x) = c"
| "ctx_of (Stop c) = c"
| "ctx_of (Raise c) = c"

fun emits :: "'a run \<Rightarrow> bool" where
  "emits (Emit c x) = True"
| "emits _ = False"

fun raises :: "'a run \<Rightarrow> bool" where
  "raises (Raise c) = True"
| "raises _ = False"

fun sent :: "'a run \<Rightarrow> 'a option" where
  "sent (Emit c x) = Some x"
| "sent _ = None"

lemma run_eqI: "sent r = Some x \<Longrightarrow> r = Emit (ctx_of r) x"
  by (cases r) simp_all

text \<open>Two nodes connected by a wire.\<close>

fun wire :: "'a run \<Rightarrow> (ctx \<Rightarrow> 'a \<Rightarrow> 'b run) \<Rightarrow> 'b run" where
  "wire (Emit c x) f = f c x"
| "wire (Stop c) f = Stop c"
| "wire (Raise c) f = Raise c"

lemma wire_Emit_iff: "wire r f = Emit c y \<longleftrightarrow> (\<exists>c1 x. r = Emit c1 x \<and> f c1 x = Emit c y)"
  by (cases r) auto

lemma emits_iff: "emits r \<longleftrightarrow> (\<exists>c x. r = Emit c x)"
  by (cases r) auto

lemma emits_run: "emits r \<Longrightarrow> \<exists>x. r = Emit (ctx_of r) x"
  by (cases r) simp_all

text \<open>The messages a node sends, port by port.\<close>

type_synonym ports = "jv list list"

definition port :: "nat \<Rightarrow> ports \<Rightarrow> jv list" where
  "port i ps = (if i < length ps then ps ! i else [])"

definition one_of :: "jv option \<Rightarrow> jv list" where
  "one_of x = (case x of None \<Rightarrow> [] | Some m \<Rightarrow> [m])"

lemma port_simps [simp]:
  "port 0 (x # xs) = x" "port (Suc i) (x # xs) = port i xs" "port i [] = []"
  by (simp_all add: port_def)

section \<open>Stores\<close>

locale store =
  fixes get :: "'s \<Rightarrow> 'k \<Rightarrow> 'v" and set_at :: "'s \<Rightarrow> 'k \<Rightarrow> 'v \<Rightarrow> 's"
  assumes get_set: "get (set_at s k v) k' = (if k' = k then v else get s k')"
begin

fun set_all :: "'s \<Rightarrow> ('k \<times> 'v) list \<Rightarrow> 's" where
  "set_all s [] = s"
| "set_all s ((k, v) # kvs) = set_all (set_at s k v) kvs"

lemma read_written: "get (set_at s k v) k = v"
  by (simp add: get_set)

lemma read_other: "k' \<noteq> k \<Longrightarrow> get (set_at s k v) k' = get s k'"
  by (simp add: get_set)

lemma last_write_wins: "get (set_at (set_at s k v) k w) = get (set_at s k w)"
  by (rule ext) (simp add: get_set)

lemma writes_commute: "k \<noteq> k' \<Longrightarrow>
  get (set_at (set_at s k v) k' w) = get (set_at (set_at s k' w) k v)"
  by (rule ext) (simp add: get_set)

lemma frame_all: "k \<notin> fst ` set kvs \<Longrightarrow> get (set_all s kvs) k = get s k"
  by (induction s kvs rule: set_all.induct) (auto simp: get_set)

end

text \<open>A store beside another one: what is written to one is not seen in the other.\<close>

locale store_pair = a: store geta seta + b: store getb setb
  for geta :: "'s \<Rightarrow> 'k \<Rightarrow> 'v" and seta and getb :: "'s \<Rightarrow> 'k \<Rightarrow> 'v" and setb +
  assumes apart: "geta (setb s k v) = geta s" "getb (seta s k v) = getb s"
begin

lemma apart_all: "geta (b.set_all s kvs) = geta s"
  by (induction s kvs rule: b.set_all.induct) (auto simp: apart)

end

interpretation mem: store fmem fset
  by unfold_locales simp

interpretation per: store fper pset
  by unfold_locales simp

interpretation gl: store glob gset
  by unfold_locales simp

interpretation mem_per: store_pair fmem fset fper pset
  by unfold_locales simp_all

interpretation mset_store: store "mget t" "mset t" for t
  by unfold_locales (simp add: mget_def mset_def)

interpretation sset_store: store "sget t" "sset t" for t
  by unfold_locales (simp add: sget_def sset_def)

lemmas store_simps [simp] = mset_store.get_set sset_store.get_set

lemma key_parts [simp]: "tkey True k \<noteq> k"
  by (simp add: tkey_def)

lemma cross_reads:
  "mget t (sset False c k v) k' = mget t c k'"
  "sget False (mset t c k v) k' = sget False c k'"
  "sget False (fset c k v) k' = sget False c k'"
  "sget t (gset c k v) k' = sget t c k'"
  "mget t (gset c k v) k' = mget t c k'"
  "mget t (pset c k v) k' = mget t c k'"
  by (simp_all add: mget_def mset_def sget_def sset_def)

lemma glob_writes [simp]:
  "glob (mset t c k v) = glob c" "glob (sset t c k v) = glob c"
  by (simp_all add: mset_def sset_def)

section \<open>Isolation of dry runs\<close>

text \<open>A key of the test name space, and the relation \<open>isolated c c'\<close>: nothing a production message
  reads has changed.\<close>

definition test_key :: "string \<Rightarrow> bool" where
  "test_key k = (6 \<le> length k \<and> drop (length k - 6) k = ''__test'')"

definition isolated :: "ctx \<Rightarrow> ctx \<Rightarrow> bool" where
  "isolated c c' = (fper c' = fper c \<and> glob c' = glob c \<and>
     (\<forall>k. \<not> test_key k \<longrightarrow> fmem c' k = fmem c k))"

lemma test_key_tkey [simp]: "test_key (tkey True k)"
  by (simp add: test_key_def tkey_def)

lemma isolated_refl [simp, intro]: "isolated c c"
  by (simp add: isolated_def)

lemma isolated_trans [trans]: "isolated c c' \<Longrightarrow> isolated c' c'' \<Longrightarrow> isolated c c''"
  by (auto simp: isolated_def)

lemma isolated_writes [simp, intro]:
  "isolated c c' \<Longrightarrow> isolated c (mset True c' k v)"
  "isolated c c' \<Longrightarrow> isolated c (sset True c' k v)"
  "isolated c c' \<Longrightarrow> isolated c (logged x c')"
  by (auto simp: isolated_def mset_def sset_def)

lemma isolated_reads: "isolated c c' \<Longrightarrow> sget False c' k = sget False c k"
  by (simp add: isolated_def sget_def)

text \<open>The contract of a node that separates dry runs: a test message leaves the production state
  as it was, and so does any number of them.\<close>

locale dry_run =
  fixes node :: "env \<Rightarrow> ctx \<Rightarrow> 'a \<Rightarrow> 'b run" and testing :: "'a \<Rightarrow> bool"
  assumes test_isolated: "testing m \<Longrightarrow> isolated c (ctx_of (node e c m))"
begin

fun replay :: "env \<Rightarrow> ctx \<Rightarrow> 'a list \<Rightarrow> ctx" where
  "replay e c [] = c"
| "replay e c (m # ms) = replay e (ctx_of (node e c m)) ms"

lemma replay_isolated: "list_all testing ms \<Longrightarrow> isolated c (replay e c ms)"
proof (induction ms arbitrary: c)
  case (Cons m ms)
  then have "isolated c (ctx_of (node e c m))" by (simp add: test_isolated)
  also have "isolated \<dots> (replay e (ctx_of (node e c m)) ms)" using Cons by simp
  finally show ?case by simp
qed simp

lemma persistent_unchanged: "testing m \<Longrightarrow> fper (ctx_of (node e c m)) = fper c"
  using test_isolated by (auto simp: isolated_def)

end

text \<open>A node whose first port is wired to a real effect, and which keeps test messages off it.\<close>

locale dry_run_gate = dry_run node testing
  for node :: "env \<Rightarrow> ctx \<Rightarrow> 'a \<Rightarrow> ports run" and testing +
  assumes test_no_effect: "testing m \<Longrightarrow> node e c m = Emit c' ps \<Longrightarrow> port 0 ps = []"
begin

lemma effect_is_production: "node e c m = Emit c' ps \<Longrightarrow> port 0 ps \<noteq> [] \<Longrightarrow> \<not> testing m"
  using test_no_effect by blast

end

section \<open>Message conventions\<close>

text \<open>\<open>msg._location_test === true || msg.payload?.test_mode === true\<close>\<close>

definition payload :: "jv \<Rightarrow> jv" where
  "payload m = jget m ''payload''"

definition plget :: "jv \<Rightarrow> string \<Rightarrow> jv" where
  "plget m k = jget (payload m) k"

definition test_msg :: "jv \<Rightarrow> bool" where
  "test_msg m = (jget m ''_location_test'' = JTrue \<or> plget m ''test_mode'' = JTrue)"

text \<open>\<open>msg._location_test_case ?? msg.payload?.test_case ?? null\<close>\<close>

definition test_case :: "jv \<Rightarrow> jv" where
  "test_case m = dflt (jget m ''_location_test_case'') (dflt (plget m ''test_case'') JNull)"

text \<open>Assignments to properties of \<open>msg.payload\<close>.\<close>

definition plsets :: "jv \<Rightarrow> (string \<times> jv) list \<Rightarrow> jv" where
  "plsets m kvs = jset m ''payload'' (jsets (payload m) kvs)"

lemma payload_jset [simp]: "is_obj m \<Longrightarrow> payload (jset m ''payload'' v) = v"
  by (simp add: payload_def)

lemma payload_jset_other [simp]: "k \<noteq> ''payload'' \<Longrightarrow> payload (jset m k v) = payload m"
  by (simp add: payload_def)

lemma plget_plsets: "is_obj m \<Longrightarrow> is_obj (payload m) \<Longrightarrow> plget (plsets m kvs) k =
  (case map_of (rev kvs) k of None \<Rightarrow> plget m k | Some v \<Rightarrow> v)"
  by (simp add: plget_def plsets_def jget_jsets split: option.split)

lemma payload_plsets [simp]: "is_obj m \<Longrightarrow> payload (plsets m kvs) = jsets (payload m) kvs"
  by (simp add: plsets_def)

lemma is_obj_plsets [simp]: "is_obj (plsets m kvs) = is_obj m"
  by (simp add: plsets_def)

lemma plget_plsets_other [simp]: "k \<notin> fst ` set kvs \<Longrightarrow> plget (plsets m kvs) k = plget m k"
  by (cases m) (auto simp: plget_def plsets_def payload_def update_conv')

lemma jget_plsets [simp]: "k \<noteq> ''payload'' \<Longrightarrow> jget (plsets m kvs) k = jget m k"
  by (simp add: plsets_def)

lemma test_msg_plsets [simp]:
  "''test_mode'' \<notin> fst ` set kvs \<Longrightarrow> test_msg (plsets m kvs) = test_msg m"
  by (simp add: test_msg_def)

lemma plget_objs: "plget m k = v \<Longrightarrow> v \<noteq> JUndef \<Longrightarrow> is_obj m \<and> is_obj (payload m)"
  by (cases "is_obj m"; cases "is_obj (payload m)") (simp_all add: plget_def payload_def jget_not_obj)

text \<open>\<open>policy?.version === 1 && policy?.complete === true\<close>\<close>

definition policy_ready :: "jv \<Rightarrow> bool" where
  "policy_ready p = (jget p ''version'' = JNum 1 \<and> jget p ''complete'' = JTrue)"

text \<open>The test every freshness check of the code makes: a time stamp is finite, not later than the
  tolerance allows and not older than the limit.\<close>

definition recent :: "jnum \<Rightarrow> jnum \<Rightarrow> jnum \<Rightarrow> jnum \<Rightarrow> bool" where
  "recent t now future limit = (fin t \<and> t \<le> now + future \<and> now - t \<le> limit)"

lemmas [evaluate] = dflt_def num_or_def test_msg_def plget_def payload_def mget_def sget_def mset_def
  sset_def tkey_def Let_def recent_def plsets_def test_case_def

end
