(* ===== verification/Places.thy ===== *)
theory Places
  imports NodeRed
begin

text \<open>
  What the nodes about people and cars share: names of zones, readings of entities of Home Assistant
  (numbers that may be missing, time stamps), distances on the sphere, and the synthetic state that test
  messages read from the global context instead of the entities.

  The code repeats these as local functions of each node; the definitions are mapped to one of them.
  Distances are computed over the real numbers.
\<close>

section \<open>Residents\<close>

definition residents :: "string list" where
  "residents = [''resident_primary'', ''resident_secondary'']"

text \<open>An element in the text that \<open>Array.join\<close> makes.\<close>

definition key_text :: "jv \<Rightarrow> string" where
  "key_text v = (if nullish v then [] else to_str v)"

section \<open>Zones and readings\<close>

text \<open>\<open>typeof v === "string" && !["", "unknown", "unavailable"].includes(v)\<close>\<close>

definition valid_zone :: "jv \<Rightarrow> bool" where
  "valid_zone v = (is_str v \<and> v \<notin> JStr ` set ['''', ''unknown'', ''unavailable''])"

definition fin_or_null :: "jnum \<Rightarrow> jv" where
  "fin_or_null x = (if fin x then JNum x else JNull)"

definition parse_date :: "env \<Rightarrow> jv \<Rightarrow> jnum" where
  "parse_date e v = date_parse e (to_str (dflt v (JStr [])))"

definition num_or_nan :: "jv \<Rightarrow> jv" where
  "num_or_nan v = fin_or_null (to_num v)"

text \<open>The time stamp of a tracker: an attribute, else a property of the entity.\<close>

definition tracker_at :: "env \<Rightarrow> jv \<Rightarrow> string \<Rightarrow> string \<Rightarrow> jv" where
  "tracker_at e x attribute fallback =
    fin_or_null (parse_date e (dflt (jget (jget x ''attributes'') attribute) (jget x fallback)))"

definition str_among :: "jv \<Rightarrow> string list \<Rightarrow> bool" where
  "str_among v ks = (v \<in> JStr ` set ks)"

definition external_zone :: "jv \<Rightarrow> bool" where
  "external_zone v = (valid_zone v \<and> \<not> str_among v [''home'', ''near_home''])"

definition inside :: "jv \<Rightarrow> jnum \<Rightarrow> bool" where
  "inside v radius = (v \<noteq> JNull \<and> to_num v \<le> radius)"

definition num_or0 :: "jv \<Rightarrow> jnum" where
  "num_or0 v = to_num (jor v (JNum 0))"

text \<open>\<open>Number(v)\<close> for an observation that may be missing: \<open>null\<close>, booleans and blank texts are no numbers.\<close>

definition num_observation :: "jv \<Rightarrow> jv" where
  "num_observation v = (if nullish v \<or> is_bool v \<or> (case v of JStr s \<Rightarrow> js_trim s = [] | _ \<Rightarrow> False) then JNull
     else fin_or_null (to_num v))"

lemma jget_dflt [simp]: "jget (dflt v (JObj [])) k = jget v k"
  by (cases v) (simp_all add: dflt_def)

section \<open>Distances\<close>

text \<open>The distance of two points on the sphere in metres, by the haversine formula. \<open>None\<close> is the
  \<open>NaN\<close> of a square root of a negative number, which latitudes beyond the poles can give.\<close>

definition js_atan2 :: "real \<Rightarrow> real \<Rightarrow> real" where
  "js_atan2 y x = (if x = 0 then (if y = 0 then 0 else pi / 2) else arctan (y / x))"

definition haversine :: "real \<Rightarrow> real \<Rightarrow> real \<Rightarrow> real \<Rightarrow> real" where
  "haversine lat1 lon1 lat2 lon2 =
    (let rad = (\<lambda>v. v * pi / 180); dlat = rad (lat2 - lat1); dlon = rad (lon2 - lon1) in
     (sin (dlat / 2))\<^sup>2 + cos (rad lat1) * cos (rad lat2) * (sin (dlon / 2))\<^sup>2)"

definition sphere_distance :: "real \<Rightarrow> real \<Rightarrow> real \<Rightarrow> real \<Rightarrow> real option" where
  "sphere_distance lat1 lon1 lat2 lon2 =
    (let h = haversine lat1 lon1 lat2 lon2 in
     if h < 0 \<or> 1 < h then None else Some (6371000 * 2 * js_atan2 (sqrt h) (sqrt (1 - h))))"

fun real_at_least :: "real \<Rightarrow> jnum \<Rightarrow> bool" where
  "real_at_least d (Fin r) = (real_of_rat r \<le> d)"
| "real_at_least d NInf = True"
| "real_at_least d _ = False"

fun jreal :: "jv \<Rightarrow> real option" where
  "jreal (JNum (Fin r)) = Some (real_of_rat r)"
| "jreal _ = None"

section \<open>The synthetic state\<close>

abbreviation shared_test_key :: string where
  "shared_test_key \<equiv> ''security_location_test_state_v1''"

definition test_start :: "jnum \<Rightarrow> jv" where
  "test_start now = JObj
    [(''version'', JNum 1), (''resident_primary'', JStr ''home''), (''resident_secondary'', JStr ''home''),
     (''vehicle_primary'', JStr ''home''), (''vehicle_primary_engine'', JStr ''off''),
     (''vehicle_primary_lock'', JStr ''locked''), (''observed_at'', JNum now), (''transitions'', JObj [])]"

text \<open>The synthetic state in the global context, created on first use.\<close>

definition test_shared :: "jnum \<Rightarrow> ctx \<Rightarrow> ctx \<times> jv" where
  "test_shared now c =
    (let s = glob c shared_test_key in
     if \<not> truthy s \<or> jget s ''version'' \<noteq> JNum 1
     then (gset c shared_test_key (test_start now), test_start now) else (c, s))"

definition test_entity :: "string \<Rightarrow> string \<Rightarrow> jv \<Rightarrow> jv \<Rightarrow> jv" where
  "test_entity stamp name state attrs = JObj
    [(''entity_id'', JStr name), (''state'', state), (''attributes'', attrs),
     (''last_changed'', JStr stamp), (''last_updated'', JStr stamp)]"

end
