(* ===== verification/Policies.thy ===== *)
theory Policies
  imports NodeRed
begin

text \<open>
  The two canonical policies: the location policy (\<open>location-policy-*.js\<close>) and the security-light
  policy (\<open>security-light-policy-*.js\<close>). A parameter arrives as a topic and a value; it is checked
  against a table of limits, merged over the last complete policy and the defaults, and stored in
  the persistent global context, or rejected with the stored policy left alone.

  The locale \<open>policy_table\<close> states what a table of defaults and limits needs for the merge to keep
  every parameter inside its limits; both tables interpret it.
\<close>

section \<open>Tables of limits\<close>

type_synonym limits = "(string \<times> rat \<times> rat) list"

text \<open>A lookup \<open>LIMITS[topic]\<close> also finds what the object inherits from \<open>Object.prototype\<close>: a truthy
  value without bounds, against which every comparison is false.\<close>

definition inherited_names :: "string list" where
  "inherited_names = [''constructor'', ''__defineGetter__'', ''__defineSetter__'', ''hasOwnProperty'',
    ''__lookupGetter__'', ''__lookupSetter__'', ''isPrototypeOf'', ''propertyIsEnumerable'',
    ''toString'', ''valueOf'', ''__proto__'', ''toLocaleString'']"

definition limit_accepts :: "limits \<Rightarrow> string \<Rightarrow> jnum \<Rightarrow> bool" where
  "limit_accepts tbl topic v = (fin v \<and> (case map_of tbl topic of
      Some (lo, hi) \<Rightarrow> Fin lo \<le> v \<and> v \<le> Fin hi
    | None \<Rightarrow> topic \<in> set inherited_names))"

definition limit_jv :: "limits \<Rightarrow> string \<Rightarrow> jv" where
  "limit_jv tbl topic = (case map_of tbl topic of
      Some (lo, hi) \<Rightarrow> JArr [JNum (Fin lo), JNum (Fin hi)] | None \<Rightarrow> JNull)"

text \<open>The merge \<open>{ ...DEFAULTS, ...previous, [topic]: value, version: 1, ... }\<close>.\<close>

definition policy_merge :: "(string \<times> jv) list \<Rightarrow> jv \<Rightarrow> string \<Rightarrow> jnum \<Rightarrow> jnum \<Rightarrow> jv" where
  "policy_merge defaults prev topic v now =
    jsets (jspread (JObj defaults) (if policy_ready prev then prev else JObj []))
      [(topic, JNum v), (''version'', JNum 1), (''owner'', JStr ''node_red''),
       (''complete'', JTrue), (''updated_at'', JNum now)]"

text \<open>Every parameter of the table is a number inside its limits.\<close>

fun num_between :: "rat \<Rightarrow> rat \<Rightarrow> jv \<Rightarrow> bool" where
  "num_between lo hi (JNum x) = (Fin lo \<le> x \<and> x \<le> Fin hi)"
| "num_between lo hi v = False"

definition in_limits :: "limits \<Rightarrow> jv \<Rightarrow> bool" where
  "in_limits tbl p = list_all (\<lambda>(k, lo, hi). num_between lo hi (jget p k)) tbl"

definition policy_good :: "limits \<Rightarrow> jv \<Rightarrow> bool" where
  "policy_good tbl p = (is_obj p \<and> obj_wf p \<and> policy_ready p \<and> in_limits tbl p)"

lemma num_between_iff: "num_between lo hi v \<longleftrightarrow> (\<exists>r. v = JNum (Fin r) \<and> lo \<le> r \<and> r \<le> hi)"
proof (cases v)
  case (JNum x)
  then show ?thesis by (cases x) auto
qed auto

lemma in_limits_iff: "in_limits tbl p \<longleftrightarrow>
  (\<forall>(k, lo, hi) \<in> set tbl. \<exists>r. jget p k = JNum (Fin r) \<and> lo \<le> r \<and> r \<le> hi)"
  by (auto simp: in_limits_def list_all_iff num_between_iff)

lemma in_limitsD: "in_limits tbl p \<Longrightarrow> (k, lo, hi) \<in> set tbl \<Longrightarrow>
  \<exists>r. jget p k = JNum (Fin r) \<and> lo \<le> r \<and> r \<le> hi"
  by (auto simp: in_limits_iff)

definition reserved_keys :: "string list" where
  "reserved_keys = [''version'', ''owner'', ''complete'', ''updated_at'']"

locale policy_table =
  fixes defaults :: "(string \<times> jv) list" and tbl :: limits
  assumes defaults_wf: "distinct (map fst defaults)"
    and defaults_within: "in_limits tbl (JObj defaults)"
    and table_wf: "distinct (map fst tbl)"
    and not_reserved: "list_all (\<lambda>k. k \<notin> set (map fst tbl)) (reserved_keys @ inherited_names)"
begin

lemma base_get:
  assumes "obj_wf prev"
  shows "jget (jspread (JObj defaults) prev) k =
    (case map_of (jentries prev) k of Some v \<Rightarrow> v | None \<Rightarrow> jget (JObj defaults) k)"
  using assms defaults_wf by (subst jget_jspread) auto

lemma merge_get:
  assumes "k \<notin> set reserved_keys"
  shows "jget (policy_merge defaults prev topic v now) k =
    (if k = topic then JNum v
     else jget (jspread (JObj defaults) (if policy_ready prev then prev else JObj [])) k)"
  using assms by (auto simp: policy_merge_def jget_jsets reserved_keys_def)

lemma table_key_free: "(k, lo, hi) \<in> set tbl \<Longrightarrow> k \<notin> set reserved_keys \<and> k \<notin> set inherited_names"
  using not_reserved by (force simp: list_all_iff)

lemma merge_within:
  assumes prev: "policy_ready prev \<longrightarrow> obj_wf prev \<and> in_limits tbl prev"
    and acc: "limit_accepts tbl topic v"
  shows "in_limits tbl (policy_merge defaults prev topic v now)"
  unfolding in_limits_iff
proof clarify
  fix k lo hi
  assume mem: "(k, lo, hi) \<in> set tbl"
  note free = table_key_free [OF mem]
  obtain d where d: "jget (JObj defaults) k = JNum (Fin d)" "lo \<le> d" "d \<le> hi"
    using in_limitsD [OF defaults_within mem] by auto
  show "\<exists>r. jget (policy_merge defaults prev topic v now) k = JNum (Fin r) \<and> lo \<le> r \<and> r \<le> hi"
  proof (cases "k = topic")
    case True
    have "map_of tbl topic = Some (lo, hi)"
      using mem table_wf True by (auto simp: map_of_eq_Some_iff)
    then show ?thesis
      using acc True free by (auto simp: limit_accepts_def merge_get fin_iff)
  next
    case False
    show ?thesis
    proof (cases "policy_ready prev")
      case True
      obtain r where "jget prev k = JNum (Fin r)" "lo \<le> r" "r \<le> hi"
        using True prev in_limitsD mem by blast
      then show ?thesis
        using False free d True prev
        by (auto simp: merge_get base_get jget_entries [of prev] split: option.splits)
    next
      case F: False
      then show ?thesis using False free d by (auto simp: merge_get base_get)
    qed
  qed
qed

lemma merge_good:
  assumes "policy_ready prev \<longrightarrow> obj_wf prev \<and> in_limits tbl prev"
    and "limit_accepts tbl topic v"
  shows "policy_good tbl (policy_merge defaults prev topic v now)"
proof -
  have "obj_wf (policy_merge defaults prev topic v now)"
    by (simp add: policy_merge_def jspread_def defaults_wf)
  then show ?thesis
    using merge_within [OF assms]
    by (simp add: policy_good_def policy_merge_def policy_ready_def jget_jsets)
qed

end

section \<open>The security-light policy\<close>

definition light_defaults :: "(string \<times> jv) list" where
  "light_defaults =
    [(''local_return_progress_m'', JNum 50), (''approach_radius_m'', JNum 350),
     (''physical_fresh_seconds'', JNum 120), (''recovery_request_throttle_seconds'', JNum 30),
     (''off_grace_seconds'', JNum 90), (''backstop_minutes'', JNum 15),
     (''post_off_cooldown_minutes'', JNum 5), (''lifecycle_retention_hours'', JNum 24),
     (''deadline_slack_minutes'', JNum 1), (''unavailable_dedupe_seconds'', JNum 10),
     (''cooldown_max_minutes'', JNum 30)]"

definition light_limits :: limits where
  "light_limits =
    [(''local_return_progress_m'', 30, 250), (''approach_radius_m'', 30, 350),
     (''physical_fresh_seconds'', 30, 600), (''recovery_request_throttle_seconds'', 5, 300),
     (''off_grace_seconds'', 10, 300), (''backstop_minutes'', 2, 60),
     (''post_off_cooldown_minutes'', 1, 30), (''lifecycle_retention_hours'', 1, 168),
     (''deadline_slack_minutes'', 0, 10), (''unavailable_dedupe_seconds'', 1, 120),
     (''cooldown_max_minutes'', 5, 120)]"

definition message_topic :: "jv \<Rightarrow> string" where
  "message_topic m = to_str (dflt (jget m ''topic'') (JStr []))"

definition light_policy_validate :: "env \<Rightarrow> ctx \<Rightarrow> jv \<Rightarrow> ports run" where
  "light_policy_validate e c m =
    (let topic = message_topic m; v = to_num (payload m) in
     if \<not> limit_accepts light_limits topic v then
       Emit c [[], [jset m ''security_light_policy_rejection''
         (JObj [(''parameter'', if topic = [] then JNull else JStr topic),
                (''rejected_value'', payload m), (''limits'', limit_jv light_limits topic),
                (''preserved'', JTrue)])]]
     else
       Emit c [[jset m ''security_light_policy_candidate''
         (policy_merge light_defaults (glob c ''security_light_policy_v1'') topic v (clock e))], []])"

definition light_policy_store :: "ctx \<Rightarrow> jv \<Rightarrow> ports run" where
  "light_policy_store c m =
    (let p = jget m ''security_light_policy_candidate'' in
     if \<not> policy_ready p then Stop (logged NodeError c)
     else Emit (gset c ''security_light_policy_v1'' p)
       [[jdel (jsets m [(''topic'', JStr ''security_light_policy_v1''),
          (''payload'', jspread p (JObj []))]) ''security_light_policy_candidate'']])"

definition light_policy_reject :: "ctx \<Rightarrow> jv \<Rightarrow> ports run" where
  "light_policy_reject c m =
    Emit (logged NodeWarn c) [[jset m ''payload''
      (jsets (jspread (JObj [(''contract'', JStr ''security.light-policy-rejection.v1''),
           (''kind'', JStr ''configuration_rejected'')])
         (dflt (jget m ''security_light_policy_rejection'') (JObj [])))
       [(''simulated'', JTrue), (''dispatched'', JFalse)])]]"

text \<open>The wires of the tab: the first port to the store, the second to the rejection.\<close>

definition light_policy_flow :: "env \<Rightarrow> ctx \<Rightarrow> jv \<Rightarrow> ports run" where
  "light_policy_flow e c m = wire (light_policy_validate e c m) (\<lambda>c1 ps.
     if port 0 ps \<noteq> [] then light_policy_store c1 (hd (port 0 ps))
     else light_policy_reject c1 (hd (port 1 ps)))"

section \<open>The location policy\<close>

definition location_defaults :: "(string \<times> jv) list" where
  "location_defaults =
    [(''near_home_radius_m'', JNum 350), (''notification_approach_radius_m'', JNum 700),
     (''home_radius_m'', JNum 100), (''location_fresh_minutes'', JNum 15),
     (''source_report_fresh_minutes'', JNum 75), (''recency_tie_seconds'', JNum 60),
     (''max_gps_accuracy_m'', JNum 100), (''vehicle_location_fresh_minutes'', JNum 30),
     (''movement_threshold_m'', JNum 250), (''arrival_recovery_minutes'', JNum 15),
     (''local_excursion_minutes'', JNum 90), (''near_home_refresh_minutes'', JNum 5),
     (''people_refresh_minutes'', JNum 10), (''people_approach_radius_m'', JNum 1500),
     (''people_approach_refresh_seconds'', JNum 60), (''people_refresh_retry_seconds'', JNum 60),
     (''people_refresh_attempts'', JNum 3), (''people_refresh_backoff_minutes'', JNum 30),
     (''people_refresh_backoff_max_minutes'', JNum 240), (''arrival_dedupe_minutes'', JNum 10),
     (''primary_home_grace_minutes'', JNum 10), (''external_cycle_confirm_seconds'', JNum 60),
     (''wake_ring_refresh_delay_seconds'', JNum 45), (''wake_ring_refresh_repeat_seconds'', JNum 60),
     (''future_tolerance_seconds'', JNum 60), (''vehicle_signal_fresh_minutes'', JNum 5),
     (''vehicle_recovery_hours'', JNum 24)]"

definition location_limits :: limits where
  "location_limits =
    [(''near_home_radius_m'', 50, 1500), (''notification_approach_radius_m'', 350, 1500),
     (''home_radius_m'', 20, 500), (''location_fresh_minutes'', 1, 120),
     (''source_report_fresh_minutes'', 5, 1440), (''recency_tie_seconds'', 0, 300),
     (''max_gps_accuracy_m'', 5, 1000), (''vehicle_location_fresh_minutes'', 5, 180),
     (''movement_threshold_m'', 10, 2000), (''arrival_recovery_minutes'', 3, 30),
     (''local_excursion_minutes'', 15, 180), (''near_home_refresh_minutes'', 3, 14),
     (''people_refresh_minutes'', 3, 14), (''people_approach_radius_m'', 350, 3000),
     (''people_approach_refresh_seconds'', 60, 300), (''people_refresh_retry_seconds'', 60, 300),
     (''people_refresh_attempts'', 1, 5), (''people_refresh_backoff_minutes'', 15, 60),
     (''people_refresh_backoff_max_minutes'', 60, 240), (''arrival_dedupe_minutes'', 1, 60),
     (''primary_home_grace_minutes'', 1, 60), (''external_cycle_confirm_seconds'', 15, 600),
     (''wake_ring_refresh_delay_seconds'', 15, 180), (''wake_ring_refresh_repeat_seconds'', 30, 180),
     (''future_tolerance_seconds'', 0, 300), (''vehicle_signal_fresh_minutes'', 1, 30),
     (''vehicle_recovery_hours'', 1, 168)]"

text \<open>The constraints between parameters that a candidate must also meet.\<close>

definition location_conflict :: "jv \<Rightarrow> bool" where
  "location_conflict p =
    (to_num (jget p ''location_fresh_minutes'') \<le> to_num (jget p ''near_home_refresh_minutes'') \<or>
     to_num (jget p ''location_fresh_minutes'') \<le> to_num (jget p ''people_refresh_minutes'') \<or>
     \<not> (case jget p ''people_refresh_attempts'' of JNum x \<Rightarrow> integral x | _ \<Rightarrow> False) \<or>
     to_num (jget p ''people_refresh_backoff_max_minutes'') <
       to_num (jget p ''people_refresh_backoff_minutes''))"

definition location_policy_validate :: "env \<Rightarrow> ctx \<Rightarrow> jv \<Rightarrow> ports run" where
  "location_policy_validate e c m =
    (let topic = message_topic m; v = to_num (payload m) in
     if \<not> limit_accepts location_limits topic v then
       Emit c [[], [jset m ''location_policy_rejection''
         (JObj [(''parameter'', if topic = [] then JNull else JStr topic),
                (''rejected_value'', payload m), (''limits'', limit_jv location_limits topic),
                (''preserved'', JTrue)])]]
     else
       (let cand = policy_merge location_defaults (glob c ''location_policy_v1'') topic v (clock e);
            m1 = jset m ''location_policy_candidate'' cand in
        if location_conflict cand then
          Emit c [[], [jset m1 ''location_policy_rejection''
            (JObj [(''parameter'', JStr topic), (''rejected_value'', payload m),
                   (''reason'', JStr ''near_home_refresh_must_precede_location_stale''),
                   (''preserved'', JTrue)])]]
        else
          Emit c [[jset m1 ''location_policy_candidate''
            (jdel cand ''people_fast_refresh_radius_m'')], []]))"

definition location_policy_store :: "ctx \<Rightarrow> jv \<Rightarrow> ports run" where
  "location_policy_store c m =
    (let p = jget m ''location_policy_candidate'' in
     if \<not> policy_ready p then Stop (logged NodeError c)
     else Emit (gset c ''location_policy_v1'' p)
       [[jdel (jsets m [(''topic'', JStr ''location_policy_v1''),
          (''payload'', jspread p (JObj []))]) ''location_policy_candidate'']])"

definition location_policy_reject :: "ctx \<Rightarrow> jv \<Rightarrow> ports run" where
  "location_policy_reject c m =
    Emit (logged NodeWarn c) [[jset m ''payload''
      (jsets (jspread (JObj [(''contract'', JStr ''location.policy-rejection.v1''),
           (''kind'', JStr ''configuration_rejected'')])
         (dflt (jget m ''location_policy_rejection'') (JObj [])))
       [(''simulated'', JTrue), (''dispatched'', JFalse)])]]"

definition location_policy_flow :: "env \<Rightarrow> ctx \<Rightarrow> jv \<Rightarrow> ports run" where
  "location_policy_flow e c m = wire (location_policy_validate e c m) (\<lambda>c1 ps.
     if port 0 ps \<noteq> [] then location_policy_store c1 (hd (port 0 ps))
     else location_policy_reject c1 (hd (port 1 ps)))"

interpretation light: policy_table light_defaults light_limits
proof
  show "distinct (map fst light_defaults)" by code_simp
  show "in_limits light_limits (JObj light_defaults)" by code_simp
  show "distinct (map fst light_limits)" by code_simp
  show "list_all (\<lambda>k. k \<notin> set (map fst light_limits)) (reserved_keys @ inherited_names)"
    by code_simp
qed

interpretation location: policy_table location_defaults location_limits
proof
  show "distinct (map fst location_defaults)" by code_simp
  show "in_limits location_limits (JObj location_defaults)" by code_simp
  show "distinct (map fst location_limits)" by code_simp
  show "list_all (\<lambda>k. k \<notin> set (map fst location_limits)) (reserved_keys @ inherited_names)"
    by code_simp
qed


section \<open>What the flows keep\<close>

text \<open>The stored policies: absent, not ready, or complete, well formed and inside every limit; the
  location policy also free of conflicts.\<close>

definition light_stored_ok :: "ctx \<Rightarrow> bool" where
  "light_stored_ok c = (policy_ready (glob c ''security_light_policy_v1'') \<longrightarrow>
     policy_good light_limits (glob c ''security_light_policy_v1''))"

definition location_stored_ok :: "ctx \<Rightarrow> bool" where
  "location_stored_ok c = (policy_ready (glob c ''location_policy_v1'') \<longrightarrow>
     policy_good location_limits (glob c ''location_policy_v1'') \<and>
     \<not> location_conflict (glob c ''location_policy_v1''))"

lemma policy_ready_obj: "policy_ready p \<Longrightarrow> is_obj p"
  by (cases p) (auto simp: policy_ready_def)

lemma policy_good_ready: "policy_good tbl p \<Longrightarrow> policy_ready p"
  by (simp add: policy_good_def)

text \<open>Removing the retired key changes no parameter the limits or the constraints look at.\<close>

lemma in_limits_jdel: "k \<notin> set (map fst tbl) \<Longrightarrow> in_limits tbl (jdel p k) = in_limits tbl p"
  by (induction tbl) (auto simp: in_limits_def)

lemma retired_key_conflict [simp]:
  "location_conflict (jdel p ''people_fast_refresh_radius_m'') = location_conflict p"
  by (simp add: location_conflict_def)

lemma location_jdel_good:
  assumes "policy_good location_limits p"
  shows "policy_good location_limits (jdel p ''people_fast_refresh_radius_m'')"
proof -
  have "''people_fast_refresh_radius_m'' \<notin> set (map fst location_limits)" by code_simp
  with assms show ?thesis
    by (simp add: policy_good_def policy_ready_def in_limits_jdel)
qed

text \<open>One message through either flow: the stored policy is the merged candidate when the value is
  accepted, and stays as it was otherwise.\<close>

lemma light_policy_step:
  assumes "is_obj m"
  shows "glob (ctx_of (light_policy_flow e c m)) ''security_light_policy_v1'' =
    (if limit_accepts light_limits (message_topic m) (to_num (payload m))
     then policy_merge light_defaults (glob c ''security_light_policy_v1'') (message_topic m)
       (to_num (payload m)) (clock e)
     else glob c ''security_light_policy_v1'')"
proof (cases "limit_accepts light_limits (message_topic m) (to_num (payload m))")
  case True
  let ?p = "policy_merge light_defaults (glob c ''security_light_policy_v1'') (message_topic m)
       (to_num (payload m)) (clock e)"
  have "policy_ready ?p"
    by (simp add: policy_merge_def policy_ready_def jget_jsets)
  with True assms show ?thesis
    by (simp add: light_policy_flow_def light_policy_validate_def light_policy_store_def Let_def)
next
  case False
  then show ?thesis
    by (simp add: light_policy_flow_def light_policy_validate_def light_policy_reject_def Let_def)
qed

lemma location_policy_step:
  fixes e c m
  defines "cand \<equiv> policy_merge location_defaults (glob c ''location_policy_v1'') (message_topic m)
       (to_num (payload m)) (clock e)"
  assumes "is_obj m"
  shows "glob (ctx_of (location_policy_flow e c m)) ''location_policy_v1'' =
    (if limit_accepts location_limits (message_topic m) (to_num (payload m)) \<and>
        \<not> location_conflict cand
     then jdel cand ''people_fast_refresh_radius_m'' else glob c ''location_policy_v1'')"
proof -
  have "policy_ready (jdel cand ''people_fast_refresh_radius_m'')"
    by (simp add: cand_def policy_merge_def policy_ready_def jget_jsets)
  with assms show ?thesis
    by (simp add: location_policy_flow_def location_policy_validate_def location_policy_store_def
        location_policy_reject_def Let_def)
qed

lemma light_policy_one:
  "light_stored_ok c \<Longrightarrow> is_obj m \<Longrightarrow> light_stored_ok (ctx_of (light_policy_flow e c m))"
  using light.merge_good [of "glob c ''security_light_policy_v1''"]
  by (auto simp: light_stored_ok_def light_policy_step policy_good_def)



section \<open>A context with both policies at their defaults\<close>

definition stored_policy :: "(string \<times> jv) list \<Rightarrow> jv" where
  "stored_policy kvs = JObj (kvs @ [(''version'', JNum 1), (''owner'', JStr ''node_red''),
     (''complete'', JTrue), (''updated_at'', JNum 0)])"

definition std_location :: jv where
  "std_location = stored_policy location_defaults"

definition std_light :: jv where
  "std_light = stored_policy light_defaults"

definition default_policies :: ctx where
  "default_policies = gset (gset empty_ctx ''location_policy_v1'' std_location)
     ''security_light_policy_v1'' std_light"

lemma std_location_get [simp]:
  "jget std_location ''version'' = JNum 1" "jget std_location ''complete'' = JTrue"
  "jget std_location ''future_tolerance_seconds'' = JNum 60"
  "jget std_location ''vehicle_signal_fresh_minutes'' = JNum 5"
  "jget std_location ''location_fresh_minutes'' = JNum 15"
  "jget std_location ''near_home_refresh_minutes'' = JNum 5"
  "jget std_location ''arrival_recovery_minutes'' = JNum 15"
  "jget std_location ''local_excursion_minutes'' = JNum 90"
  "jget std_location ''max_gps_accuracy_m'' = JNum 100"
  "jget std_location ''movement_threshold_m'' = JNum 250"
  "jget std_location ''near_home_radius_m'' = JNum 350"
  "jget std_location ''external_cycle_confirm_seconds'' = JNum 60"
  by (simp_all add: std_location_def stored_policy_def location_defaults_def)

lemma std_light_get [simp]:
  "jget std_light ''version'' = JNum 1" "jget std_light ''complete'' = JTrue"
  "jget std_light ''physical_fresh_seconds'' = JNum 120"
  "jget std_light ''off_grace_seconds'' = JNum 90"
  "jget std_light ''backstop_minutes'' = JNum 15"
  "jget std_light ''deadline_slack_minutes'' = JNum 1"
  "jget std_light ''post_off_cooldown_minutes'' = JNum 5"
  "jget std_light ''lifecycle_retention_hours'' = JNum 24"
  "jget std_light ''cooldown_max_minutes'' = JNum 30"
  "jget std_light ''approach_radius_m'' = JNum 350"
  "jget std_light ''local_return_progress_m'' = JNum 50"
  "jget std_light ''recovery_request_throttle_seconds'' = JNum 30"
  "jget std_light ''unavailable_dedupe_seconds'' = JNum 10"
  by (simp_all add: std_light_def stored_policy_def light_defaults_def)

lemma std_ready [simp]: "policy_ready std_location" "policy_ready std_light"
  by (simp_all add: policy_ready_def)

lemma default_reads [simp]:
  "glob default_policies ''location_policy_v1'' = std_location"
  "glob default_policies ''security_light_policy_v1'' = std_light"
  "fmem default_policies = (\<lambda>_. JUndef)" "fper default_policies = (\<lambda>_. JUndef)"
  "trace default_policies = []"
  by (simp_all add: default_policies_def empty_ctx_def)

definition host_at :: "jnum \<Rightarrow> env" where
  "host_at t = \<lparr>clock = t, date_parse = (\<lambda>_. NaN), hour_of = (\<lambda>_. 0), iso = (\<lambda>_. []),
     wording = (\<lambda>k xs. k)\<rparr>"

lemma clock_host_at [simp]: "clock (host_at t) = t"
  by (simp add: host_at_def)

definition parameter :: "string \<Rightarrow> jv \<Rightarrow> jv" where
  "parameter k v = JObj [(''topic'', JStr k), (''payload'', v)]"



end
