(* ===== verification/LightOff.thy ===== *)
theory LightOff
  imports Policies
begin

text \<open>
  Switching the security light off and keeping its lifecycle record
  (\<open>security-light-off-evidence.js\<close>, \<open>-off-decision.js\<close>, \<open>-turn-off-if-active.js\<close>,
  \<open>-lifecycle-load.js\<close>, \<open>-physical-apply.js\<close>, \<open>-recovery-*.js\<close>, \<open>-mqtt-observation.js\<close>).

  The lifecycle record says whether an arrival lit the light (\<open>active_by_arrival\<close>), since when, by
  when it must go off (the backstop \<open>force_off_at\<close>) and when a confirmed engine stop turns it off
  (\<open>pending_off_at\<close>). After a restart or a physical report, \<open>reconcile_flow\<close> sanitises the record
  and rebuilds its timers.
\<close>

section \<open>Shared readings\<close>

abbreviation lifecycle_key :: string where
  "lifecycle_key \<equiv> ''security_light_lifecycle_v1''"

abbreviation location_policy :: "ctx \<Rightarrow> jv" where
  "location_policy c \<equiv> glob c ''location_policy_v1''"

abbreviation light_policy :: "ctx \<Rightarrow> jv" where
  "light_policy c \<equiv> glob c ''security_light_policy_v1''"

definition policies_ready :: "ctx \<Rightarrow> bool" where
  "policies_ready c = (policy_ready (location_policy c) \<and> policy_ready (light_policy c))"

definition param :: "jv \<Rightarrow> string \<Rightarrow> rat \<Rightarrow> jnum" where
  "param p k scale = to_num (jget p k) * Fin scale"

definition future_ms :: "jv \<Rightarrow> jnum" where
  "future_ms lp = param lp ''future_tolerance_seconds'' 1000"

definition minutes :: "jv \<Rightarrow> string \<Rightarrow> jnum" where
  "minutes p k = param p k 60000"

text \<open>\<open>Number.isFinite(at) && at <= now + tolerance && now - at <= PHYSICAL_FRESH_MS\<close>\<close>

definition physical_fresh :: "jv \<Rightarrow> jv \<Rightarrow> jv \<Rightarrow> jnum \<Rightarrow> bool" where
  "physical_fresh lp pol observed now =
    recent (num_or observed 0) now (future_ms lp) (param pol ''physical_fresh_seconds'' 1000)"

definition js_num :: "jnum \<Rightarrow> jv" where
  "js_num x = (if fin x then JNum x else JNull)"

lemma js_num_Fin [simp]: "js_num (Fin r) = JNum (Fin r)"
  by (simp add: js_num_def)

lemma policies_readyI: "policies_ready c \<Longrightarrow> policy_ready (location_policy c)"
  "policies_ready c \<Longrightarrow> policy_ready (light_policy c)"
  by (simp_all add: policies_ready_def)

lemma policies_ready_logged [simp]: "policies_ready (logged x c) = policies_ready c"
  by (simp add: policies_ready_def)

section \<open>Evidence that the engine stopped\<close>

record off_evidence =
  oe_reason :: "string option"
  oe_at :: jnum
  oe_age :: jnum

definition oe_valid :: "off_evidence \<Rightarrow> bool" where
  "oe_valid ev = (oe_reason ev = None)"

definition off_evidence :: "jv \<Rightarrow> jv \<Rightarrow> jv \<Rightarrow> jnum \<Rightarrow> off_evidence" where
  "off_evidence vehicle lifecycle lp now =
    (let raw = dflt (jget vehicle ''telemetry_updated_at'') (jget vehicle ''engine_updated_at'');
         t = to_num raw; age = now - t;
         reason =
          (if jget vehicle ''engine_communication_failed'' = JTrue then Some ''engine_communication_failed''
           else if jget vehicle ''engine_state_valid'' \<noteq> JTrue then Some ''engine_state_invalid''
           else if jget vehicle ''engine_on'' \<noteq> JFalse then Some ''engine_not_off''
           else if nullish raw \<or> \<not> fin t \<or> t \<le> 0 \<or>
               jget vehicle ''telemetry_timestamp_future'' = JTrue \<or> now + future_ms lp < t
             then Some ''engine_timestamp_invalid''
           else if minutes lp ''vehicle_signal_fresh_minutes'' < age then Some ''engine_observation_stale''
           else if \<not> num_fin (jget lifecycle ''on_since'') \<or> t \<le> to_num (jget lifecycle ''on_since'')
             then Some ''engine_observation_before_activation''
           else None) in
     \<lparr>oe_reason = reason, oe_at = t, oe_age = age\<rparr>)"

lemma oe_validD:
  assumes "oe_valid (off_evidence v lc lp now)"
  shows "jget v ''engine_communication_failed'' \<noteq> JTrue" "jget v ''engine_state_valid'' = JTrue"
    "jget v ''engine_on'' = JFalse" "num_fin (jget lc ''on_since'')"
    "fin (oe_at (off_evidence v lc lp now))"
    "\<not> oe_at (off_evidence v lc lp now) \<le> to_num (jget lc ''on_since'')"
    "\<not> minutes lp ''vehicle_signal_fresh_minutes'' < now - oe_at (off_evidence v lc lp now)"
    "\<not> now + future_ms lp < oe_at (off_evidence v lc lp now)"
  using assms by (auto simp: oe_valid_def off_evidence_def Let_def split: if_splits)

section \<open>Deciding to switch off\<close>

definition pending_cleared :: "(string \<times> jv) list" where
  "pending_cleared = [(''pending_off_at'', JNull), (''pending_off_reason'', JNull),
     (''pending_off_source'', JNull)]"

definition refresh_cleared :: "(string \<times> jv) list" where
  "refresh_cleared = [(''vehicle_refresh_at'', JNull), (''vehicle_refresh_reason'', JNull),
     (''vehicle_refresh_source'', JNull)]"

definition deactivated :: "(string \<times> jv) list" where
  "deactivated = [(''active_by_arrival'', JFalse), (''on_since'', JNull), (''force_off_at'', JNull)]
     @ pending_cleared @ refresh_cleared"

definition is_active :: "jv \<Rightarrow> bool" where
  "is_active lc = (jget lc ''active_by_arrival'' = JTrue)"

definition off_ready :: "bool \<Rightarrow> ctx \<Rightarrow> jnum \<Rightarrow> bool" where
  "off_ready t c now = (mget t c ''sun_ready'' = JTrue \<and> mget t c ''light_reconciled'' = JTrue \<and>
     physical_fresh (location_policy c) (light_policy c)
       (mget t c ''security_light_physical_observed_at'') now)"

definition engine_comm_failed :: "bool \<Rightarrow> ctx \<Rightarrow> bool" where
  "engine_comm_failed t c = (sget t c ''security_light_engine_communication_failed'' = JTrue)"

definition off_blocked :: "bool \<Rightarrow> ctx \<Rightarrow> jv \<Rightarrow> jnum \<Rightarrow> string \<Rightarrow> jnum \<Rightarrow> ctx" where
  "off_blocked t c lc now reason at' =
    (let c1 = sset t c lifecycle_key (jsets lc (pending_cleared @ [(''updated_at'', JNum now)]));
         sig = JStr (reason @ '':'' @ num_str at') in
     if jseq (mget t c1 ''security_light_off_diagnostic'') sig then c1
     else logged NodeLog (mset t c1 ''security_light_off_diagnostic'' sig))"

definition schedule_off :: "jv \<Rightarrow> jnum \<Rightarrow> jnum \<Rightarrow> jv" where
  "schedule_off lc now grace = jsets lc
     [(''pending_off_at'', JNum (now + grace)),
      (''pending_off_reason'', JStr ''vehicle_primary_motor_off_confirmado''),
      (''pending_off_source'', JStr ''vehicle_primary''), (''updated_at'', JNum now)]"

definition off_decision :: "env \<Rightarrow> ctx \<Rightarrow> jv \<Rightarrow> ports run" where
  "off_decision e c m =
    (if \<not> policies_ready c then Stop (logged NodeError c)
     else
      (let t = test_msg m; now = clock e;
           lc = dflt (sget t c lifecycle_key) (JObj []);
           vehicle = dflt (mget t c ''vehicle_primary_context_v1'') (JObj []);
           lightc = jget m ''_light_context'' in
       if \<not> is_active lc \<or> \<not> off_ready t c now then Stop c
       else if \<not> (jget lightc ''kind'' = JStr ''vehicle_primary_context'' \<and>
                   jget lightc ''accepted'' = JTrue) then Stop c
       else
        (let ev = off_evidence vehicle lc (location_policy c) now;
             failed = (jget vehicle ''engine_communication_failed'' = JTrue \<or> engine_comm_failed t c) in
         if \<not> oe_valid ev \<or> failed then
           Stop (off_blocked t c lc now
             (if failed then ''engine_communication_failed'' else the (oe_reason ev)) (oe_at ev))
         else if num_fin (jget lc ''pending_off_at'') then Stop c
         else
          (let grace = param (light_policy c) ''off_grace_seconds'' 1000;
               lc1 = schedule_off lc now grace;
               c1 = sset t c lifecycle_key lc1 in
           if nullish (payload m) then Raise c1
           else Emit (logged NodeLog c1)
             [[jset (plsets m
                 [(''off_reason'', jget lc1 ''pending_off_reason''),
                  (''deadline_type'', JStr ''confirmed_off''),
                  (''deadline_at'', jget lc1 ''pending_off_at''),
                  (''activation_at'', jget lc1 ''on_since'')])
               ''delay'' (JNum (to_num (jget lc1 ''pending_off_at'') - now))]]))))"

section \<open>Switching off\<close>

definition deadline_type :: "jv \<Rightarrow> jv" where
  "deadline_type m = dflt (plget m ''deadline_type'') (JStr ''immediate'')"

text \<open>A recovered timer is taken off the list of scheduled ones, also in a dry run.\<close>

definition unschedule :: "ctx \<Rightarrow> jv \<Rightarrow> ctx" where
  "unschedule c m =
    (if plget m ''recovered'' = JTrue then
       fset c ''security_light_recovery_scheduled''
         (jdel (dflt (fmem c ''security_light_recovery_scheduled'') (JObj [])) (to_str (deadline_type m)))
     else c)"

definition confirmed_off_ready :: "bool \<Rightarrow> ctx \<Rightarrow> jv \<Rightarrow> jv \<Rightarrow> jv \<Rightarrow> jnum \<Rightarrow> bool" where
  "confirmed_off_ready t c m lc vehicle now =
    (mget t c ''light_reconciled'' = JTrue \<and>
     physical_fresh (location_policy c) (light_policy c)
       (mget t c ''security_light_physical_observed_at'') now \<and>
     deadline_type m = JStr ''confirmed_off'' \<and>
     num_fin (jget lc ''pending_off_at'') \<and> to_num (jget lc ''pending_off_at'') \<le> now \<and>
     jseq (plget m ''deadline_at'') (jget lc ''pending_off_at'') \<and>
     jseq (plget m ''activation_at'') (jget lc ''on_since'') \<and>
     oe_valid (off_evidence vehicle lc (location_policy c) now) \<and>
     \<not> engine_comm_failed t c)"

definition turn_off_allowed :: "bool \<Rightarrow> ctx \<Rightarrow> jv \<Rightarrow> jv \<Rightarrow> jv \<Rightarrow> jnum \<Rightarrow> bool" where
  "turn_off_allowed t c m lc vehicle now =
    (if deadline_type m = JStr ''backstop'' then
       (let f = to_num (jget lc ''force_off_at'') in \<not> (fin f \<and> now < f))
     else confirmed_off_ready t c m lc vehicle now \<and>
       mget t c ''security_light_physical_state'' = JStr ''on'')"

definition off_diagnostic :: "bool \<Rightarrow> jv \<Rightarrow> jv \<Rightarrow> off_evidence \<Rightarrow> jnum \<Rightarrow> jv" where
  "off_diagnostic t m lc ev now = JObj
    [(''reason'', dflt (plget m ''off_reason'') (dflt (plget m ''reason'') (deadline_type m))),
     (''deadline_type'', deadline_type m), (''on_since'', jget lc ''on_since''),
     (''requested_at'', JNum now), (''engine_observed_at'', js_num (oe_at ev)),
     (''engine_age_ms'', js_num (oe_age ev)), (''simulated'', JBool t), (''dispatched'', JFalse)]"

definition lifecycle_off :: "jv \<Rightarrow> jnum \<Rightarrow> jnum \<Rightarrow> jv" where
  "lifecycle_off lc now cooldown =
    jsets lc (deactivated @ [(''cooldown_until'', JNum (now + cooldown)), (''updated_at'', JNum now)])"

definition turn_off_if_active :: "env \<Rightarrow> ctx \<Rightarrow> jv \<Rightarrow> ports run" where
  "turn_off_if_active e c m =
    (if \<not> policies_ready c then Stop (logged NodeError c)
     else
      (let t = test_msg m; now = clock e;
           lc = dflt (sget t c lifecycle_key) (JObj []);
           c1 = unschedule c m;
           vehicle = dflt (mget t c1 ''vehicle_primary_context_v1'') (JObj []) in
       if \<not> is_active lc then Stop c1
       else if \<not> turn_off_allowed t c1 m lc vehicle now then Stop c1
       else
        (let ev = off_evidence vehicle lc (location_policy c) now;
             ty = deadline_type m;
             m1 = plsets m [(''off_diagnostic'', off_diagnostic t m lc ev now),
                    (''test_mode'', JBool t),
                    (''off_reason'', dflt (plget m ''off_reason'') (dflt (plget m ''reason'') ty))];
             c2 = sset t (logged NodeLog c1) lifecycle_key
                    (lifecycle_off lc now (minutes (light_policy c) ''post_off_cooldown_minutes'')) in
         if ty = JStr ''backstop'' then
           Emit (logged NodeWarn c2) [[plsets m1 [(''backstop_forced'', JTrue)]]]
         else Emit c2 [[m1]])))"

section \<open>Loading the lifecycle\<close>

record reconcile =
  rc_now :: jnum
  rc_policy :: jv
  rc_location :: jv
  rc_future :: jnum
  rc_lifecycle :: jv
  rc_signal :: bool
  rc_accepted :: bool
  rc_deadlines :: "(string \<times> jnum \<times> jv) list"
  rc_messages :: "jv list"

definition max_deadline_ms :: "jv \<Rightarrow> jnum" where
  "max_deadline_ms pol = (to_num (jget pol ''backstop_minutes'') +
     to_num (jget pol ''deadline_slack_minutes'')) * Fin 60000"

definition lifecycle_usable :: "jv \<Rightarrow> jnum \<Rightarrow> jnum \<Rightarrow> jnum \<Rightarrow> bool" where
  "lifecycle_usable lc now future retention =
    (truthy lc \<and> jget lc ''version'' = JNum 1 \<and> num_fin (jget lc ''updated_at'') \<and>
     \<not> now + future < to_num (jget lc ''updated_at'') \<and>
     \<not> retention < now - to_num (jget lc ''updated_at''))"

definition coherent :: "jv \<Rightarrow> jnum \<Rightarrow> jnum \<Rightarrow> jnum \<Rightarrow> bool" where
  "coherent lc now future max_ms =
    (let on = jget lc ''on_since''; off = jget lc ''force_off_at'' in
     num_fin on \<and> \<not> now + future < to_num on \<and> num_fin off \<and>
     \<not> to_num off < to_num on \<and> \<not> to_num on + max_ms < to_num off)"

definition lc_discard :: "jnum \<Rightarrow> jnum \<Rightarrow> jnum \<Rightarrow> jv \<Rightarrow> jv" where
  "lc_discard now future retention lc =
    (if lifecycle_usable lc now future retention then lc
     else JObj [(''version'', JNum 1), (''active_by_arrival'', JFalse), (''updated_at'', JNum now)])"

definition lc_normalise :: "jv \<Rightarrow> jv" where
  "lc_normalise lc = (if is_active lc then lc else jset lc ''active_by_arrival'' JFalse)"

definition lc_coherent :: "jnum \<Rightarrow> jnum \<Rightarrow> jnum \<Rightarrow> jv \<Rightarrow> jv" where
  "lc_coherent now future max_ms lc =
    (if is_active lc \<and> \<not> coherent lc now future max_ms then jsets lc deactivated else lc)"

definition lc_refresh :: "jv \<Rightarrow> jv" where
  "lc_refresh lc = jsets lc refresh_cleared"

definition lc_pending :: "jv \<Rightarrow> jv" where
  "lc_pending lc =
    (let p = jget lc ''pending_off_at'' in
     if \<not> nullish p \<and> (\<not> num_fin p \<or> \<not> is_active lc \<or>
          to_num p < to_num (jget lc ''on_since'') \<or> to_num (jget lc ''force_off_at'') < to_num p)
     then jsets lc pending_cleared else lc)"

definition lc_cooldown :: "jnum \<Rightarrow> jnum \<Rightarrow> jv \<Rightarrow> jv" where
  "lc_cooldown now max_ms lc =
    (let u = jget lc ''cooldown_until'' in
     if \<not> nullish u \<and> (\<not> num_fin u \<or> to_num u \<le> now \<or> now + max_ms < to_num u)
     then jset lc ''cooldown_until'' JNull else lc)"

definition sanitise :: "jv \<Rightarrow> jv \<Rightarrow> jnum \<Rightarrow> jv \<Rightarrow> jv" where
  "sanitise lp pol now lc =
    (let future = future_ms lp in
     lc_cooldown now (minutes pol ''cooldown_max_minutes'')
      (lc_pending (lc_refresh (lc_coherent now future (max_deadline_ms pol)
        (lc_normalise (lc_discard now future (param pol ''lifecycle_retention_hours'' 3600000) lc))))))"

text \<open>The warnings of the loader: a record thrown away, an incoherent deadline, a retired field.\<close>

definition load_warnings :: "jv \<Rightarrow> jv \<Rightarrow> jnum \<Rightarrow> jv \<Rightarrow> effect list" where
  "load_warnings lp pol now lc =
    (let future = future_ms lp; retention = param pol ''lifecycle_retention_hours'' 3600000;
         l1 = lc_normalise (lc_discard now future retention lc);
         l2 = lc_coherent now future (max_deadline_ms pol) l1 in
     (if \<not> lifecycle_usable lc now future retention \<and> truthy lc then [NodeWarn] else []) @
     (if is_active l1 \<and> \<not> coherent l1 now future (max_deadline_ms pol) then [NodeWarn] else []) @
     (if \<not> nullish (jget l2 ''pending_off_at'') \<or> \<not> nullish (jget l2 ''vehicle_refresh_at'')
      then [NodeWarn] else []))"

definition lifecycle_load :: "env \<Rightarrow> ctx \<Rightarrow> jv \<Rightarrow> reconcile run" where
  "lifecycle_load e c m =
    (if \<not> policies_ready c then Stop (logged NodeError c)
     else
      (let now = clock e; lp = location_policy c; pol = light_policy c; lc = fper c lifecycle_key in
       Emit (fold logged (load_warnings lp pol now lc) c)
        \<lparr>rc_now = now, rc_policy = pol, rc_location = lp, rc_future = future_ms lp,
         rc_lifecycle = sanitise lp pol now lc,
         rc_signal = (plget m ''kind'' = JStr ''light_physical''), rc_accepted = True,
         rc_deadlines = [], rc_messages = []\<rparr>))"

section \<open>Physical readings\<close>

definition nonzero :: "jnum \<Rightarrow> bool" where
  "nonzero x = (x \<noteq> NaN \<and> x \<noteq> Fin 0)"

text \<open>A reading with the time stamp of the last one and another state: the first one is kept.\<close>

definition physical_conflict :: "ctx \<Rightarrow> jv \<Rightarrow> jnum \<Rightarrow> bool" where
  "physical_conflict c state updated =
    (let previous = num_or (fmem c ''security_light_physical_updated_at'') 0 in
     nonzero updated \<and> nonzero previous \<and> updated = previous \<and>
     fmem c ''security_light_physical_state'' \<noteq> JUndef \<and>
     \<not> jseq (fmem c ''security_light_physical_state'') state)"

definition physical_disordered :: "ctx \<Rightarrow> reconcile \<Rightarrow> jnum \<Rightarrow> bool" where
  "physical_disordered c d updated =
    (let previous = num_or (fmem c ''security_light_physical_updated_at'') 0 in
     rc_now d + rc_future d < updated \<or> nonzero updated \<and> nonzero previous \<and> updated < previous)"

definition physical_observe :: "ctx \<Rightarrow> reconcile \<Rightarrow> jv \<Rightarrow> jnum \<Rightarrow> ctx" where
  "physical_observe c d state updated =
    (let c1 = fset c ''security_light_physical_observed_at'' (JNum (rc_now d));
         c2 = (if nonzero updated then fset c1 ''security_light_physical_updated_at'' (JNum updated) else c1)
     in fset c2 ''security_light_physical_state'' (dflt state (JStr ''unknown'')))"

definition physical_latch :: "reconcile \<Rightarrow> jv \<Rightarrow> jv" where
  "physical_latch d state =
    (if state = JStr ''on'' then JObj [(''version'', JNum 1), (''latched'', JTrue),
       (''reason'', JStr ''physical_on''), (''latched_at'', JNum (rc_now d))] else JNull)"

definition physical_known :: "ctx \<Rightarrow> reconcile \<Rightarrow> jv \<Rightarrow> ctx \<times> reconcile" where
  "physical_known c d state =
    (let c1 = pset (fset (fset c ''light_reconciled'' JTrue) ''security_light_last_unavailable_state'' JNull)
                ''security_light_turn_on_notification_latch_v1'' (physical_latch d state) in
     if state = JStr ''off'' \<and> is_active (rc_lifecycle d) then
       (logged NodeWarn c1, d\<lparr>rc_lifecycle := lifecycle_off (rc_lifecycle d) (rc_now d)
          (minutes (rc_policy d) ''post_off_cooldown_minutes'')\<rparr>)
     else (c1, d))"

definition physical_unknown :: "ctx \<Rightarrow> jv \<Rightarrow> ctx" where
  "physical_unknown c state =
    (let shown = dflt state (JStr ''unknown'');
         c1 = fset c ''light_reconciled'' JFalse;
         c2 = (if jseq (fmem c1 ''security_light_last_unavailable_state'') shown then c1
               else logged NodeWarn c1) in
     fset c2 ''security_light_last_unavailable_state'' shown)"

definition physical_signal :: "ctx \<Rightarrow> reconcile \<Rightarrow> jv \<Rightarrow> ctx \<times> reconcile" where
  "physical_signal c d m =
    (let state = plget m ''state''; updated = num_or (plget m ''updated_at'') 0 in
     if physical_disordered c d updated \<or> physical_conflict c state updated then
       (logged NodeWarn (fset c ''light_reconciled'' JFalse), d\<lparr>rc_accepted := False\<rparr>)
     else
       (let c1 = physical_observe c d state updated in
        if state \<in> set [JStr ''on'', JStr ''off''] then physical_known c1 d state
        else (physical_unknown c1 state, d)))"

definition physical_apply :: "ctx \<Rightarrow> jv \<Rightarrow> reconcile \<Rightarrow> reconcile run" where
  "physical_apply c m d =
    (if rc_signal d then
       (let c1 = (if fmem c ''security_light_startup_logged'' \<noteq> JTrue
                  then fset (logged NodeLog c) ''security_light_startup_logged'' JTrue else c);
            r = physical_signal c1 d m in
        Emit (pset (fst r) lifecycle_key (rc_lifecycle (snd r))) (snd r))
     else Emit (pset c lifecycle_key (rc_lifecycle d)) d)"

section \<open>Rebuilding the timers\<close>

definition light_ready :: "ctx \<Rightarrow> bool \<Rightarrow> bool" where
  "light_ready c fresh =
    (jget (dflt (fmem c ''people_context_v1'') (JObj [])) ''ready'' = JTrue \<and>
     jget (dflt (fmem c ''vehicle_primary_context_v1'') (JObj [])) ''ready'' = JTrue \<and>
     fmem c ''sun_ready'' = JTrue \<and> fmem c ''light_reconciled'' = JTrue \<and> fresh)"

definition open_deadlines :: "jv \<Rightarrow> (string \<times> jnum \<times> jv) list" where
  "open_deadlines lc =
    (case jget lc ''pending_off_at'' of
       JNum x \<Rightarrow> if fin x then [(''confirmed_off'', x, jget lc ''pending_off_reason'')] else []
     | _ \<Rightarrow> []) @
    (case jget lc ''force_off_at'' of
       JNum x \<Rightarrow> if fin x then [(''backstop'', x, JStr ''recovered_backstop'')] else []
     | _ \<Rightarrow> [])"

definition recovery_facts :: "ctx \<Rightarrow> reconcile \<Rightarrow> reconcile run" where
  "recovery_facts c d =
    (let fresh = physical_fresh (rc_location d) (rc_policy d)
           (fmem c ''security_light_physical_observed_at'') (rc_now d);
         c1 = (if fresh then c else fset c ''light_reconciled'' JFalse);
         ready = light_ready c1 fresh;
         was = fmem c1 ''security_light_ready'';
         c2 = fset c1 ''security_light_ready'' (JBool ready);
         c3 = (if was = JBool ready then c2 else logged NodeLog c2);
         active = (rc_accepted d \<and> fmem c3 ''security_light_physical_state'' = JStr ''on'' \<and>
                   is_active (rc_lifecycle d)) in
     Emit c3 (d\<lparr>rc_deadlines := (if active then open_deadlines (rc_lifecycle d) else [])\<rparr>))"

text \<open>The timers already running, by type: those whose deadline moved are forgotten, those of a new
  deadline are started.\<close>

definition still_scheduled :: "(string \<times> jnum \<times> jv) list \<Rightarrow> jv \<Rightarrow> jv" where
  "still_scheduled ds scheduled =
    (let current = map (\<lambda>(ty, t, r). (ty, JNum t)) ds in
     foldl (\<lambda>o' ty. if jseq (jget o' ty) (jget (JObj current) ty) then o' else jdel o' ty)
       scheduled (jkeys scheduled))"

definition timer_message :: "reconcile \<Rightarrow> string \<Rightarrow> jnum \<Rightarrow> jv \<Rightarrow> jv" where
  "timer_message d ty t reason = JObj
    [(''payload'', JObj [(''event'', JStr ''turn_off''), (''reason'', reason),
       (''deadline_type'', JStr ty), (''deadline_at'', JNum t),
       (''activation_at'', jget (rc_lifecycle d) ''on_since''), (''recovered'', JTrue)]),
     (''delay'', JNum (jmax 0 (t - rc_now d)))]"

fun start_timers :: "reconcile \<Rightarrow> jv \<Rightarrow> (string \<times> jnum \<times> jv) list \<Rightarrow> jv \<times> jv list" where
  "start_timers d scheduled [] = (scheduled, [])"
| "start_timers d scheduled ((ty, t, reason) # ds) =
    (if jseq (jget scheduled ty) (JNum t) then start_timers d scheduled ds
     else let r = start_timers d (jset scheduled ty (JNum t)) ds in
       (fst r, timer_message d ty t reason # snd r))"

definition recovery_build :: "ctx \<Rightarrow> reconcile \<Rightarrow> reconcile run" where
  "recovery_build c d =
    (let scheduled = dflt (fmem c ''security_light_recovery_scheduled'') (JObj []);
         r = start_timers d (still_scheduled (rc_deadlines d) scheduled) (rc_deadlines d) in
     Emit (fset c ''security_light_recovery_scheduled'' (fst r)) (d\<lparr>rc_messages := snd r\<rparr>))"

definition recovery_output :: "ctx \<Rightarrow> reconcile \<Rightarrow> ports run" where
  "recovery_output c d = (if rc_messages d = [] then Stop c else Emit c [rc_messages d])"

text \<open>The wires: load, physical reading, facts, the switch \<open>recovery_needed\<close>, timers, output.\<close>

definition reconcile_flow :: "env \<Rightarrow> ctx \<Rightarrow> jv \<Rightarrow> ports run" where
  "reconcile_flow e c m =
    wire (wire (wire (lifecycle_load e c m) (\<lambda>c1 d. physical_apply c1 m d)) recovery_facts)
      (\<lambda>c1 d. if rc_deadlines d \<noteq> [] then wire (recovery_build c1 d) recovery_output else Stop c1)"

section \<open>Adapters\<close>

definition mqtt_observation :: "env \<Rightarrow> ctx \<Rightarrow> jv \<Rightarrow> ports run" where
  "mqtt_observation e c m =
    (if jget m ''retain'' = JTrue \<or> test_msg m then Stop c
     else case plget m ''state'' of
       JStr s \<Rightarrow> if s \<in> set [''ON'', ''OFF''] then
           Emit c [[jset m ''payload'' (JObj [(''kind'', JStr ''light_physical''),
             (''state'', JStr (js_lower s)), (''updated_at'', JNum (clock e)),
             (''source'', JStr ''zigbee_live_report'')])]]
         else Stop c
     | _ \<Rightarrow> Stop c)"

definition off_accepted :: "ctx \<Rightarrow> jv \<Rightarrow> ports run" where
  "off_accepted c m = Stop (logged NodeLog c)"

section \<open>What the loader guarantees\<close>

fun num_le :: "jv \<Rightarrow> jv \<Rightarrow> bool" where
  "num_le (JNum x) (JNum y) = (fin x \<and> fin y \<and> x \<le> y)"
| "num_le _ _ = False"

text \<open>A coherent record: an active light has a deadline at most \<open>bound\<close> after its activation and a
  pending switch-off only in between; an inactive one has none. No retired field is set.\<close>

definition deadlines_ok :: "jnum \<Rightarrow> jv \<Rightarrow> bool" where
  "deadlines_ok bound lc = (is_active lc \<longrightarrow>
     num_le (jget lc ''on_since'') (jget lc ''force_off_at'') \<and>
     \<not> to_num (jget lc ''on_since'') + bound < to_num (jget lc ''force_off_at''))"

definition pending_ok :: "jv \<Rightarrow> bool" where
  "pending_ok lc = (nullish (jget lc ''pending_off_at'') \<or>
     is_active lc \<and> num_le (jget lc ''on_since'') (jget lc ''pending_off_at'') \<and>
     num_le (jget lc ''pending_off_at'') (jget lc ''force_off_at''))"

definition lifecycle_ok :: "jnum \<Rightarrow> jv \<Rightarrow> bool" where
  "lifecycle_ok bound lc = (is_obj lc \<and> jget lc ''version'' = JNum 1 \<and>
     is_bool (jget lc ''active_by_arrival'') \<and> nullish (jget lc ''vehicle_refresh_at'') \<and>
     deadlines_ok bound lc \<and> pending_ok lc)"

lemma num_finD: "num_fin v \<Longrightarrow> \<exists>r. v = JNum (Fin r)"
  by (cases v) (auto simp: fin_iff)

lemma num_le_iff: "num_le a b \<longleftrightarrow> (\<exists>r s. a = JNum (Fin r) \<and> b = JNum (Fin s) \<and> r \<le> s)"
  by (cases a; cases b) (auto simp: fin_iff)

lemma num_leI: "num_fin a \<Longrightarrow> num_fin b \<Longrightarrow> \<not> to_num b < to_num a \<Longrightarrow> num_le a b"
  by (auto dest!: num_finD)

lemma deactivated_keys:
  assumes "is_obj lc"
  shows "jget (jsets lc deactivated) k =
    (if k = ''active_by_arrival'' then JFalse
     else if k \<in> set (map fst deactivated) then JNull else jget lc k)"
  using assms by (auto simp: deactivated_def pending_cleared_def refresh_cleared_def jget_jsets)

lemma discard_obj: "is_obj (lc_discard now f r lc)"
  by (cases lc) (auto simp: lc_discard_def lifecycle_usable_def)

lemma discard_version: "jget (lc_discard now f r lc) ''version'' = JNum 1"
  by (simp add: lc_discard_def lifecycle_usable_def)

lemma normalise_get:
  "is_obj lc \<Longrightarrow> jget (lc_normalise lc) k =
     (if k = ''active_by_arrival'' then JBool (is_active lc) else jget lc k)"
  by (auto simp: lc_normalise_def is_active_def jget_jset)

lemma normalise_obj [simp]: "is_obj (lc_normalise lc) = is_obj lc"
  by (simp add: lc_normalise_def)

lemma coherent_obj [simp]: "is_obj (lc_coherent now f b lc) = is_obj lc"
  by (simp add: lc_coherent_def)

lemma coherent_deadlines:
  assumes "is_obj lc"
  shows "deadlines_ok b (lc_coherent now f b lc)"
proof (cases "is_active lc \<and> \<not> coherent lc now f b")
  case True
  then have "\<not> is_active (lc_coherent now f b lc)"
    using assms by (simp add: lc_coherent_def is_active_def deactivated_keys)
  then show ?thesis by (simp add: deadlines_ok_def)
next
  case False
  then show ?thesis
    by (auto simp: lc_coherent_def deadlines_ok_def coherent_def Let_def intro: num_leI)
qed

lemma coherent_other:
  assumes "is_obj lc" "k \<notin> set (map fst deactivated)"
  shows "jget (lc_coherent now f b lc) k = jget lc k"
  using assms by (auto simp: lc_coherent_def deactivated_keys)

lemma coherent_bool:
  "is_obj lc \<Longrightarrow> is_bool (jget lc ''active_by_arrival'') \<Longrightarrow>
   is_bool (jget (lc_coherent now f b lc) ''active_by_arrival'')"
  by (auto simp: lc_coherent_def deactivated_keys)

lemma refresh_get:
  "is_obj lc \<Longrightarrow> jget (lc_refresh lc) k =
     (if k \<in> set (map fst refresh_cleared) then JNull else jget lc k)"
  by (auto simp: lc_refresh_def refresh_cleared_def jget_jsets)

lemma pending_get:
  "is_obj lc \<Longrightarrow> k \<notin> set (map fst pending_cleared) \<Longrightarrow> jget (lc_pending lc) k = jget lc k"
  by (auto simp: lc_pending_def pending_cleared_def jget_jsets Let_def)

lemma cooldown_get: "k \<noteq> ''cooldown_until'' \<Longrightarrow> jget (lc_cooldown now b lc) k = jget lc k"
  by (auto simp: lc_cooldown_def Let_def)

lemma pending_makes_ok:
  assumes "is_obj lc" "deadlines_ok b lc"
  shows "pending_ok (lc_pending lc)"
proof (cases "\<not> nullish (jget lc ''pending_off_at'') \<and> (\<not> num_fin (jget lc ''pending_off_at'') \<or>
    \<not> is_active lc \<or> to_num (jget lc ''pending_off_at'') < to_num (jget lc ''on_since'') \<or>
    to_num (jget lc ''force_off_at'') < to_num (jget lc ''pending_off_at''))")
  case True
  then have "nullish (jget (lc_pending lc) ''pending_off_at'')"
    using assms by (simp add: lc_pending_def pending_cleared_def jget_jsets Let_def)
  then show ?thesis by (simp add: pending_ok_def)
next
  case False
  then have "lc_pending lc = lc" by (auto simp: lc_pending_def Let_def)
  with False assms(2) show ?thesis
    by (auto simp: pending_ok_def deadlines_ok_def num_le_iff dest!: num_finD)
qed

lemma sub_obj [simp]: "is_obj (lc_refresh lc) = is_obj lc" "is_obj (lc_pending lc) = is_obj lc"
  "is_obj (lc_cooldown now b lc) = is_obj lc"
  by (simp_all add: lc_refresh_def lc_pending_def lc_cooldown_def Let_def)

lemma is_active_cong: "jget a ''active_by_arrival'' = jget b ''active_by_arrival'' \<Longrightarrow>
  is_active a = is_active b"
  by (simp add: is_active_def)

lemma lifecycle_ok_cong:
  assumes "lifecycle_ok b lc" "is_obj lc'" "\<And>k. k \<noteq> ''cooldown_until'' \<Longrightarrow> jget lc' k = jget lc k"
  shows "lifecycle_ok b lc'"
  using assms by (simp add: lifecycle_ok_def deadlines_ok_def pending_ok_def is_active_def)

lemma sanitise_ok: "lifecycle_ok (max_deadline_ms pol) (sanitise lp pol now lc)"
proof -
  let ?f = "future_ms lp" and ?b = "max_deadline_ms pol"
  let ?l0 = "lc_normalise (lc_discard now ?f (param pol ''lifecycle_retention_hours'' 3600000) lc)"
  let ?l1 = "lc_coherent now ?f ?b ?l0" and ?l2 = "lc_refresh (lc_coherent now ?f ?b ?l0)"
  let ?l3 = "lc_pending ?l2"
  have o0: "is_obj ?l0" by (simp add: discard_obj)
  have v0: "jget ?l0 ''version'' = JNum 1" by (simp add: discard_obj normalise_get discard_version)
  have b0: "is_bool (jget ?l0 ''active_by_arrival'')" by (simp add: discard_obj normalise_get)
  have d1: "deadlines_ok ?b ?l1" by (rule coherent_deadlines [OF o0])
  have g2: "jget ?l2 k = jget ?l1 k" if "k \<notin> set (map fst refresh_cleared)" for k
    using o0 that by (simp add: refresh_get)
  have d2: "deadlines_ok ?b ?l2"
    using d1 by (simp add: deadlines_ok_def is_active_def g2 refresh_cleared_def)
  have g3: "jget ?l3 k = jget ?l2 k" if "k \<notin> set (map fst pending_cleared)" for k
    using o0 that by (simp add: pending_get)
  have "lifecycle_ok ?b ?l3"
    unfolding lifecycle_ok_def
  proof (intro conjI)
    show "is_obj ?l3" using o0 by simp
    show "jget ?l3 ''version'' = JNum 1"
      using o0 v0 by (simp add: g3 g2 pending_cleared_def refresh_cleared_def coherent_other deactivated_def)
    show "is_bool (jget ?l3 ''active_by_arrival'')"
      using coherent_bool [OF o0 b0] by (simp add: g3 g2 pending_cleared_def refresh_cleared_def)
    show "nullish (jget ?l3 ''vehicle_refresh_at'')"
      using o0 by (simp add: g3 pending_cleared_def refresh_get refresh_cleared_def)
    show "deadlines_ok ?b ?l3"
      using d2 by (simp add: deadlines_ok_def is_active_def g3 pending_cleared_def)
    show "pending_ok ?l3" using o0 d2 by (simp add: pending_makes_ok)
  qed
  then show ?thesis
    unfolding sanitise_def Let_def
    by (rule lifecycle_ok_cong) (use o0 in \<open>simp_all add: cooldown_get\<close>)
qed

section \<open>What the reconciliation stores\<close>

lemma lifecycle_off_inactive: "is_obj lc \<Longrightarrow> \<not> is_active (lifecycle_off lc now cd)"
  by (simp add: lifecycle_off_def deactivated_def pending_cleared_def refresh_cleared_def
      is_active_def jget_jsets)

lemma lifecycle_off_ok:
  assumes "lifecycle_ok b lc"
  shows "lifecycle_ok b (lifecycle_off lc now cd)"
proof -
  have o': "is_obj lc" using assms by (simp add: lifecycle_ok_def)
  then have g: "jget (lifecycle_off lc now cd) k =
      (case map_of (rev (deactivated @ [(''cooldown_until'', JNum (now + cd)), (''updated_at'', JNum now)])) k
       of None \<Rightarrow> jget lc k | Some v \<Rightarrow> v)" for k
    by (simp add: lifecycle_off_def jget_jsets)
  have "\<not> is_active (lifecycle_off lc now cd)" using o' by (rule lifecycle_off_inactive)
  moreover have "is_obj (lifecycle_off lc now cd)" using o' by (simp add: lifecycle_off_def)
  ultimately show ?thesis
    using assms by (simp add: lifecycle_ok_def deadlines_ok_def pending_ok_def g deactivated_def
        pending_cleared_def refresh_cleared_def)
qed

lemma physical_signal_lifecycle:
  "rc_lifecycle (snd (physical_signal c d m)) = rc_lifecycle d \<or>
   rc_lifecycle (snd (physical_signal c d m)) = lifecycle_off (rc_lifecycle d) (rc_now d)
     (minutes (rc_policy d) ''post_off_cooldown_minutes'')"
  by (simp add: physical_signal_def physical_known_def Let_def)

lemma physical_signal_scheduled:
  "fmem (fst (physical_signal c d m)) ''security_light_recovery_scheduled'' =
   fmem c ''security_light_recovery_scheduled''"
  by (simp add: physical_signal_def physical_known_def physical_unknown_def physical_observe_def Let_def)

lemma physical_apply_emits:
  "\<exists>c' d'. physical_apply c m d = Emit c' d' \<and> fper c' lifecycle_key = rc_lifecycle d' \<and>
     fmem c' ''security_light_recovery_scheduled'' = fmem c ''security_light_recovery_scheduled'' \<and>
     (rc_lifecycle d' = rc_lifecycle d \<or> rc_lifecycle d' = lifecycle_off (rc_lifecycle d) (rc_now d)
       (minutes (rc_policy d) ''post_off_cooldown_minutes''))"
  using physical_signal_lifecycle [of _ d m]
  by (simp add: physical_apply_def physical_signal_scheduled Let_def)

lemma recovery_facts_emits:
  "\<exists>c' ds. recovery_facts c d = Emit c' (d\<lparr>rc_deadlines := ds\<rparr>) \<and> fper c' = fper c \<and>
     fmem c' ''security_light_recovery_scheduled'' = fmem c ''security_light_recovery_scheduled'' \<and>
     (ds = [] \<or> ds = open_deadlines (rc_lifecycle d))"
  unfolding recovery_facts_def Let_def
  by (rule exI, rule exI, intro conjI, rule refl) (simp_all split: if_split)

text \<open>The flow in one equation: it either stops or hands the open deadlines of the stored record to
  the timers.\<close>

lemma fold_logged [simp]: "fper (fold logged xs c) = fper c" "fmem (fold logged xs c) = fmem c"
  "glob (fold logged xs c) = glob c"
  by (induction xs arbitrary: c) simp_all

lemma reconcile_flow_cases:
  assumes "policies_ready c"
  obtains c' d where
    "reconcile_flow e c m = (if rc_deadlines d \<noteq> [] then wire (recovery_build c' d) recovery_output else Stop c')"
    "fper c' lifecycle_key = rc_lifecycle d"
    "rc_lifecycle d = sanitise (location_policy c) (light_policy c) (clock e) (fper c lifecycle_key) \<or>
     rc_lifecycle d = lifecycle_off
       (sanitise (location_policy c) (light_policy c) (clock e) (fper c lifecycle_key)) (clock e)
       (minutes (light_policy c) ''post_off_cooldown_minutes'')"
    "rc_deadlines d = [] \<or> rc_deadlines d = open_deadlines (rc_lifecycle d)"
    "fmem c' ''security_light_recovery_scheduled'' = fmem c ''security_light_recovery_scheduled''"
proof -
  obtain c1 d1 where 1: "lifecycle_load e c m = Emit c1 d1" "rc_now d1 = clock e" "rc_policy d1 = light_policy c"
    "rc_lifecycle d1 = sanitise (location_policy c) (light_policy c) (clock e) (fper c lifecycle_key)"
    "fmem c1 = fmem c"
    using assms by (simp add: lifecycle_load_def Let_def)
  obtain c2 d2 where 2: "physical_apply c1 m d1 = Emit c2 d2" "fper c2 lifecycle_key = rc_lifecycle d2"
    "fmem c2 ''security_light_recovery_scheduled'' = fmem c1 ''security_light_recovery_scheduled''"
    "rc_lifecycle d2 = rc_lifecycle d1 \<or> rc_lifecycle d2 = lifecycle_off (rc_lifecycle d1) (rc_now d1)
       (minutes (rc_policy d1) ''post_off_cooldown_minutes'')"
    using physical_apply_emits [of c1 m d1] by blast
  obtain c3 ds where 3: "recovery_facts c2 d2 = Emit c3 (d2\<lparr>rc_deadlines := ds\<rparr>)" "fper c3 = fper c2"
    "fmem c3 ''security_light_recovery_scheduled'' = fmem c2 ''security_light_recovery_scheduled''"
    "ds = [] \<or> ds = open_deadlines (rc_lifecycle d2)"
    using recovery_facts_emits [of c2 d2] by blast
  show thesis
    by (rule that [of "d2\<lparr>rc_deadlines := ds\<rparr>" c3])
      (use 1 2 3 in \<open>simp_all add: reconcile_flow_def\<close>)
qed

lemma timers_fper: "fper (ctx_of (wire (recovery_build c d) recovery_output)) = fper c"
  by (simp add: recovery_build_def recovery_output_def Let_def)

lemma reconcile_stored:
  assumes "policies_ready c"
  shows "lifecycle_ok (max_deadline_ms (light_policy c)) (fper (ctx_of (reconcile_flow e c m)) lifecycle_key)"
proof -
  let ?s = "sanitise (location_policy c) (light_policy c) (clock e) (fper c lifecycle_key)"
  obtain c' d where f: "reconcile_flow e c m =
      (if rc_deadlines d \<noteq> [] then wire (recovery_build c' d) recovery_output else Stop c')"
    "fper c' lifecycle_key = rc_lifecycle d"
    "rc_lifecycle d = ?s \<or> rc_lifecycle d = lifecycle_off ?s (clock e)
      (minutes (light_policy c) ''post_off_cooldown_minutes'')"
    by (rule reconcile_flow_cases [OF assms])
  then show ?thesis using sanitise_ok lifecycle_off_ok by (auto simp: timers_fper)
qed

text \<open>C7: The reconciliation repairs the stored lifecycle. Whatever the persistent store holds (a
  record of an older version, from the future, with deadlines that do not fit together, or no record
  at all) and whatever message triggers it, the record left behind is coherent: an active light has a
  deadline no further from its activation than the policy allows, a pending switch-off lies between
  the two, and an inactive light has no pending switch-off.\<close>

theorem reconcile_repairs:
  "policies_ready c \<Longrightarrow> lifecycle_ok (max_deadline_ms (light_policy c))
     (fper (ctx_of (reconcile_flow e c m)) lifecycle_key)"
  by (rule reconcile_stored)

section \<open>Timers start once\<close>

definition all_scheduled :: "jv \<Rightarrow> (string \<times> jnum \<times> jv) list \<Rightarrow> bool" where
  "all_scheduled s ds = list_all (\<lambda>(ty, t, r). jget s ty = JNum t) ds"

lemma start_timers_keeps:
  "ty \<notin> fst ` set ds \<Longrightarrow> jget (fst (start_timers d s ds)) ty = jget s ty"
  by (induction d s ds rule: start_timers.induct) (auto simp: Let_def)

lemma start_timers_schedules:
  assumes "is_obj s" "distinct (map fst ds)"
  shows "all_scheduled (fst (start_timers d s ds)) ds"
  using assms
proof (induction d s ds rule: start_timers.induct)
  case (2 d s ty t reason ds)
  have a: "jseq (jget s ty) (JNum t) \<Longrightarrow> jget s ty = JNum t" by (cases "jget s ty") auto
  show ?case
    using 2 a by (auto simp: all_scheduled_def Let_def start_timers_keeps)
qed (simp add: all_scheduled_def)

lemma start_timers_idle:
  "all_scheduled s ds \<Longrightarrow> list_all (\<lambda>(ty, t, r). fin t) ds \<Longrightarrow> start_timers d s ds = (s, [])"
  by (induction ds) (auto simp: all_scheduled_def)

definition forget_moved :: "jv \<Rightarrow> jv \<Rightarrow> string \<Rightarrow> jv" where
  "forget_moved current o' ty = (if jseq (jget o' ty) (jget current ty) then o' else jdel o' ty)"

lemma still_scheduled_alt: "still_scheduled ds s =
  foldl (forget_moved (JObj (map (\<lambda>(ty, t, r). (ty, JNum t)) ds))) s (jkeys s)"
  by (simp add: still_scheduled_def forget_moved_def [abs_def] Let_def)

lemma forget_moved_keeps:
  assumes "jget s ty = jget current ty" "jseq (jget current ty) (jget current ty)"
  shows "jget (foldl (forget_moved current) s ks) ty = jget s ty"
  using assms
proof (induction ks arbitrary: s)
  case (Cons k ks)
  have "jget (forget_moved current s k) ty = jget current ty"
    using Cons.prems by (cases "k = ty") (simp_all add: forget_moved_def)
  then show ?case using Cons by simp
qed simp

lemma forget_moved_obj: "is_obj (foldl (forget_moved current) s ks) = is_obj s"
  by (induction ks arbitrary: s) (auto simp: forget_moved_def)

lemma still_scheduled_keeps:
  assumes "all_scheduled s ds" "list_all (\<lambda>(ty, t, r). fin t) ds" "distinct (map fst ds)"
  shows "all_scheduled (still_scheduled ds s) ds"
  unfolding all_scheduled_def list_all_iff
proof clarify
  fix ty t r assume mem: "(ty, t, r) \<in> set ds"
  let ?cur = "map (\<lambda>(ty, t, r). (ty, JNum t)) ds"
  have "distinct (map fst ?cur)" using assms(3) by (simp add: comp_def case_prod_unfold)
  moreover have "(ty, JNum t) \<in> set ?cur" using mem by force
  ultimately have g: "jget (JObj ?cur) ty = JNum t" by simp
  have s: "jget s ty = JNum t" "fin t"
    using assms mem by (auto simp: all_scheduled_def list_all_iff)
  show "jget (still_scheduled ds s) ty = JNum t"
    unfolding still_scheduled_alt using s g
    by (subst forget_moved_keeps) auto
qed

lemma open_deadlines_shape:
  "distinct (map fst (open_deadlines lc))" "list_all (\<lambda>(ty, t, r). fin t) (open_deadlines lc)"
  by (auto simp: open_deadlines_def split: jv.split)

text \<open>A pass of the loader leaves a field as it was or clears it.\<close>

definition clears :: "string \<Rightarrow> jv \<Rightarrow> jv \<Rightarrow> bool" where
  "clears k lc lc' = (jget lc' k = JUndef \<or> jget lc' k = JNull \<or> jget lc' k = jget lc k)"

lemma open_deadlines_subset:
  assumes "clears ''pending_off_at'' b a" and "clears ''force_off_at'' b a"
    and "all_scheduled s (open_deadlines b)"
  shows "all_scheduled s (open_deadlines a)"
proof -
  have p: "jget a ''pending_off_at'' = JNum x \<Longrightarrow> fin x \<Longrightarrow> jget s ''confirmed_off'' = JNum x" for x
  proof -
    assume x: "jget a ''pending_off_at'' = JNum x" "fin x"
    then have "jget b ''pending_off_at'' = JNum x" using assms(1) by (auto simp: clears_def)
    with x assms(3) show ?thesis by (simp add: open_deadlines_def all_scheduled_def)
  qed
  have f: "jget a ''force_off_at'' = JNum x \<Longrightarrow> fin x \<Longrightarrow> jget s ''backstop'' = JNum x" for x
  proof -
    assume x: "jget a ''force_off_at'' = JNum x" "fin x"
    then have "jget b ''force_off_at'' = JNum x" using assms(2) by (auto simp: clears_def)
    with x assms(3) show ?thesis by (simp add: open_deadlines_def all_scheduled_def)
  qed
  show ?thesis
    using p f by (simp add: open_deadlines_def all_scheduled_def split: jv.split)
qed

lemma clears_trans: "clears k a b \<Longrightarrow> clears k b c \<Longrightarrow> clears k a c"
  by (auto simp: clears_def)

lemma clears_same: "jget b k = jget a k \<Longrightarrow> clears k a b"
  by (simp add: clears_def)

lemma sanitise_clears:
  assumes k: "k = ''pending_off_at'' \<or> k = ''force_off_at''"
  shows "clears k lc (sanitise lp pol now lc)"
proof -
  have a: "clears k l (lc_discard n f r l)" for n f r l
    using k by (auto simp: lc_discard_def clears_def)
  have b: "clears k l (lc_normalise l)" for l
    using k by (auto simp: lc_normalise_def intro: clears_same)
  have c: "clears k l (lc_coherent n f b l)" for n f b l
  proof (cases "is_obj l")
    case True
    have "k \<in> set (map fst deactivated)" "k \<noteq> ''active_by_arrival''"
      using k by (auto simp: deactivated_def pending_cleared_def)
    with True show ?thesis by (simp add: clears_def lc_coherent_def deactivated_keys)
  qed (simp add: clears_def jget_not_obj)
  have d: "clears k l (lc_refresh l)" for l
    using k by (auto simp: lc_refresh_def refresh_cleared_def intro: clears_same)
  have p: "clears k l (lc_pending l)" for l
    using k by (cases "is_obj l") (auto simp: clears_def lc_pending_def pending_cleared_def
        jget_jsets jget_not_obj Let_def)
  have q: "clears k l (lc_cooldown n b l)" for n b l
    using k by (auto simp: clears_def lc_cooldown_def Let_def)
  show ?thesis
    unfolding sanitise_def Let_def
    by (rule clears_trans [OF a clears_trans [OF b clears_trans [OF c clears_trans [OF d clears_trans [OF p q]]]]])
qed

lemma lifecycle_off_clears:
  "is_obj lc \<Longrightarrow> k = ''pending_off_at'' \<or> k = ''force_off_at'' \<Longrightarrow> clears k lc (lifecycle_off lc now cd)"
  by (auto simp: clears_def lifecycle_off_def deactivated_def pending_cleared_def refresh_cleared_def
      jget_jsets)

lemma sanitise_obj: "is_obj (sanitise lp pol now lc)"
  using sanitise_ok by (simp add: lifecycle_ok_def)

lemma reconcile_silent:
  assumes "policies_ready c"
    and s: "all_scheduled (dflt (fmem c ''security_light_recovery_scheduled'') (JObj []))
      (open_deadlines (fper c lifecycle_key))"
  shows "\<not> emits (reconcile_flow e c m)"
proof -
  let ?s = "sanitise (location_policy c) (light_policy c) (clock e) (fper c lifecycle_key)"
  let ?k = "fper c lifecycle_key"
  obtain c' d where f: "reconcile_flow e c m =
      (if rc_deadlines d \<noteq> [] then wire (recovery_build c' d) recovery_output else Stop c')"
    "rc_lifecycle d = ?s \<or> rc_lifecycle d = lifecycle_off ?s (clock e)
      (minutes (light_policy c) ''post_off_cooldown_minutes'')"
    "rc_deadlines d = [] \<or> rc_deadlines d = open_deadlines (rc_lifecycle d)"
    "fmem c' ''security_light_recovery_scheduled'' = fmem c ''security_light_recovery_scheduled''"
    by (rule reconcile_flow_cases [OF assms(1)])
  have cl: "clears k ?k (rc_lifecycle d)" if "k = ''pending_off_at'' \<or> k = ''force_off_at''" for k
    using f(2)
  proof
    assume "rc_lifecycle d = ?s"
    then show ?thesis using sanitise_clears [OF that] by simp
  next
    assume *: "rc_lifecycle d = lifecycle_off ?s (clock e)
      (minutes (light_policy c) ''post_off_cooldown_minutes'')"
    show ?thesis
      unfolding * by (rule clears_trans [OF sanitise_clears [OF that] lifecycle_off_clears [OF sanitise_obj that]])
  qed
  have a: "all_scheduled (dflt (fmem c' ''security_light_recovery_scheduled'') (JObj []))
      (open_deadlines (rc_lifecycle d))"
    using open_deadlines_subset [OF cl cl s] f(4) by simp
  have "recovery_output (fset c' ''security_light_recovery_scheduled'' x) (d\<lparr>rc_messages := []\<rparr>) =
      Stop (fset c' ''security_light_recovery_scheduled'' x)" for x
    by (simp add: recovery_output_def)
  then have "\<not> emits (wire (recovery_build c' d) recovery_output)"
    if "rc_deadlines d = open_deadlines (rc_lifecycle d)"
    using start_timers_idle [OF still_scheduled_keeps [OF a open_deadlines_shape(2,1)] open_deadlines_shape(2)]
    by (simp add: recovery_build_def Let_def that)
  then show ?thesis using f(1,3) by auto
qed

lemma start_timers_obj: "is_obj (fst (start_timers d s ds)) = is_obj s"
  by (induction d s ds rule: start_timers.induct) (auto simp: Let_def)

lemma physical_apply_glob: "glob (ctx_of (physical_apply c m d)) = glob c"
  by (simp add: physical_apply_def physical_signal_def physical_known_def physical_unknown_def
      physical_observe_def Let_def)

lemma recovery_facts_glob: "glob (ctx_of (recovery_facts c d)) = glob c"
  by (simp add: recovery_facts_def Let_def)

lemma timers_glob: "glob (ctx_of (wire (recovery_build c d) recovery_output)) = glob c"
  by (simp add: recovery_build_def recovery_output_def Let_def)

lemma wire_glob:
  "glob (ctx_of r) = g \<Longrightarrow> (\<And>c x. glob (ctx_of (f c x)) = glob c) \<Longrightarrow> glob (ctx_of (wire r f)) = g"
  by (cases r) simp_all

lemma reconcile_flow_glob: "glob (ctx_of (reconcile_flow e c m)) = glob c"
  unfolding reconcile_flow_def
  by (intro wire_glob) (simp_all add: lifecycle_load_def Let_def physical_apply_glob
      recovery_facts_glob timers_glob)

lemma reconcile_glob: "reconcile_flow e c m = Emit c1 ps \<Longrightarrow> glob c1 = glob c"
  using reconcile_flow_glob [of e c m] by simp

lemma reconcile_emits_scheduled:
  assumes "reconcile_flow e c m = Emit c1 ps"
    and "is_obj (dflt (fmem c ''security_light_recovery_scheduled'') (JObj []))"
  shows "policies_ready c" "all_scheduled (fmem c1 ''security_light_recovery_scheduled'')
      (open_deadlines (fper c1 lifecycle_key))"
    "glob c1 = glob c" "is_obj (fmem c1 ''security_light_recovery_scheduled'')"
proof -
  show r: "policies_ready c"
    using assms(1) by (auto simp: reconcile_flow_def lifecycle_load_def wire_Emit_iff split: if_splits)
  obtain c' d where f: "reconcile_flow e c m =
      (if rc_deadlines d \<noteq> [] then wire (recovery_build c' d) recovery_output else Stop c')"
    "fper c' lifecycle_key = rc_lifecycle d"
    "rc_deadlines d = [] \<or> rc_deadlines d = open_deadlines (rc_lifecycle d)"
    "fmem c' ''security_light_recovery_scheduled'' = fmem c ''security_light_recovery_scheduled''"
    by (rule reconcile_flow_cases [OF r])
  have ds: "rc_deadlines d = open_deadlines (rc_lifecycle d)" "rc_deadlines d \<noteq> []"
    using assms(1) f(1,3) by (auto split: if_splits)
  let ?x = "start_timers d (still_scheduled (rc_deadlines d)
      (dflt (fmem c ''security_light_recovery_scheduled'') (JObj []))) (rc_deadlines d)"
  have c1: "c1 = fset c' ''security_light_recovery_scheduled'' (fst ?x)"
    using assms(1) f(1,4) ds(2)
    by (auto simp: recovery_build_def recovery_output_def Let_def split: if_splits)
  have "is_obj (still_scheduled (rc_deadlines d) (dflt (fmem c ''security_light_recovery_scheduled'') (JObj [])))"
    using assms(2) by (simp add: still_scheduled_alt forget_moved_obj)
  then show "all_scheduled (fmem c1 ''security_light_recovery_scheduled'') (open_deadlines (fper c1 lifecycle_key))"
    using start_timers_schedules open_deadlines_shape(1) ds f(2) by (simp add: c1)
  show "is_obj (fmem c1 ''security_light_recovery_scheduled'')"
    using \<open>is_obj (still_scheduled _ _)\<close> by (simp add: c1 start_timers_obj)
  show "glob c1 = glob c"
    using assms(1) by (rule reconcile_glob)
qed

text \<open>A recovered timer starts once. When a reconciliation has emitted the timers of the open
  deadlines, no further reconciliation emits any, whenever it comes and whatever message triggers
  it, until another node changes the record or the list of running timers.\<close>

theorem recovery_timers_once:
  assumes "reconcile_flow e c m = Emit c1 ps"
    and "is_obj (dflt (fmem c ''security_light_recovery_scheduled'') (JObj []))"
  shows "\<not> emits (reconcile_flow e' c1 m')"
proof -
  note r = reconcile_emits_scheduled [OF assms]
  have "policies_ready c1" using r(1,3) by (simp add: policies_ready_def)
  then show ?thesis using r(2,4) by (intro reconcile_silent) (simp_all add: dflt_def)
qed

section \<open>When the light goes off\<close>

lemma unschedule_reads [simp]:
  "fper (unschedule c m) = fper c" "glob (unschedule c m) = glob c"
  "sget False (unschedule c m) k = sget False c k"
  "k \<noteq> ''security_light_recovery_scheduled'' \<Longrightarrow> fmem (unschedule c m) k = fmem c k"
  by (simp_all add: unschedule_def sget_def)

lemma unschedule_mget [simp]:
  "tkey t k \<noteq> ''security_light_recovery_scheduled'' \<Longrightarrow> mget t (unschedule c m) k = mget t c k"
  by (simp add: unschedule_def mget_def)

lemma unschedule_sget [simp]:
  "tkey t k \<noteq> ''security_light_recovery_scheduled'' \<Longrightarrow> sget t (unschedule c m) k = sget t c k"
  by (cases t) (simp_all add: unschedule_def sget_def)

lemma tkey_neq: "hd k' \<noteq> hd k \<Longrightarrow> k \<noteq> [] \<Longrightarrow> k' \<noteq> [] \<Longrightarrow> tkey t k \<noteq> k'"
  by (cases k; cases k') (auto simp: tkey_def)

lemma tkey_prefix: "length k \<le> length k' \<Longrightarrow> take (length k) k' \<noteq> k \<Longrightarrow> tkey t k \<noteq> k'"
  by (auto simp: tkey_def)

abbreviation stored_lifecycle :: "bool \<Rightarrow> ctx \<Rightarrow> jv" where
  "stored_lifecycle t c \<equiv> dflt (sget t c lifecycle_key) (JObj [])"

lemma turn_off_emitD:
  assumes "turn_off_if_active e c m = Emit c' ps"
  shows "policies_ready c" "is_active (stored_lifecycle (test_msg m) c)"
    "turn_off_allowed (test_msg m) (unschedule c m) m (stored_lifecycle (test_msg m) c)
       (dflt (mget (test_msg m) (unschedule c m) ''vehicle_primary_context_v1'') (JObj [])) (clock e)"
    "sget (test_msg m) c' lifecycle_key = lifecycle_off (stored_lifecycle (test_msg m) c) (clock e)
       (minutes (light_policy c) ''post_off_cooldown_minutes'')"
  using assms by (auto simp: turn_off_if_active_def Let_def split: if_splits)

text \<open>C6: A confirmed switch-off needs proof. Whenever a deadline other than the backstop switches the
  light off, the stored activation is the one the timer was started for, the pending deadline has
  passed, the light is seen on by a fresh physical reading, the engine's state is valid, off and its
  link has not failed, and the engine was observed later than the activation.\<close>

theorem confirmed_off_proof:
  fixes e c m
  defines "t \<equiv> test_msg m"
  defines "lc \<equiv> stored_lifecycle t c" and "v \<equiv> dflt (mget t c ''vehicle_primary_context_v1'') (JObj [])"
  assumes "turn_off_if_active e c m = Emit c' ps" and "deadline_type m \<noteq> JStr ''backstop''"
  shows "is_active lc \<and> jseq (plget m ''activation_at'') (jget lc ''on_since'') \<and>
    num_fin (jget lc ''pending_off_at'') \<and> to_num (jget lc ''pending_off_at'') \<le> clock e \<and>
    mget t c ''security_light_physical_state'' = JStr ''on'' \<and>
    physical_fresh (location_policy c) (light_policy c) (mget t c ''security_light_physical_observed_at'') (clock e) \<and>
    jget v ''engine_state_valid'' = JTrue \<and> jget v ''engine_on'' = JFalse \<and>
    jget v ''engine_communication_failed'' \<noteq> JTrue \<and>
    to_num (jget lc ''on_since'') < oe_at (off_evidence v lc (location_policy c) (clock e))"
proof -
  have k: "tkey t ''vehicle_primary_context_v1'' \<noteq> ''security_light_recovery_scheduled''"
    "tkey t ''security_light_physical_state'' \<noteq> ''security_light_recovery_scheduled''"
    "tkey t ''security_light_physical_observed_at'' \<noteq> ''security_light_recovery_scheduled''"
    by (simp_all add: tkey_def)
  note d = turn_off_emitD [OF assms(4), folded t_def]
  have al: "confirmed_off_ready t (unschedule c m) m lc v (clock e)"
    "mget t c ''security_light_physical_state'' = JStr ''on''"
    using d(3) assms(5) k by (simp_all add: turn_off_allowed_def lc_def v_def)
  then have ev: "oe_valid (off_evidence v lc (location_policy c) (clock e))"
    by (simp add: confirmed_off_ready_def)
  have "to_num (jget lc ''on_since'') < oe_at (off_evidence v lc (location_policy c) (clock e))"
    using oe_validD(4-6) [OF ev] by (auto simp: jnum_not_le fin_iff dest!: num_finD)
  then show ?thesis
    using d(2) al oe_validD(1-3) [OF ev] k by (simp add: confirmed_off_ready_def lc_def)
qed

text \<open>C8: The backstop always works. However unreliable the telemetry is, a backstop message that
  arrives when the stored deadline of an active light has passed is sent on to the actuator, marked
  as forced, and leaves the light's record inactive.\<close>

theorem backstop_forces_off:
  fixes e c m
  defines "t \<equiv> test_msg m"
  assumes "policies_ready c" "is_active (stored_lifecycle t c)"
    and "deadline_type m = JStr ''backstop''"
    and "\<not> clock e < to_num (jget (stored_lifecycle t c) ''force_off_at'')"
  shows "\<exists>c' out. turn_off_if_active e c m = Emit c' [[out]] \<and> plget out ''backstop_forced'' = JTrue \<and>
    plget out ''test_mode'' = JBool t \<and> \<not> is_active (sget t c' lifecycle_key)"
proof -
  have p: "is_obj (payload m)" "is_obj m"
    using assms(4) by (cases "payload m"; simp add: deadline_type_def plget_def dflt_def)
      (cases m; use assms(4) in \<open>simp add: deadline_type_def plget_def payload_def dflt_def\<close>)
  have lo: "is_obj (stored_lifecycle t c)"
    using assms(3) by (cases "stored_lifecycle t c") (simp_all add: is_active_def)
  have "turn_off_allowed t (unschedule c m) m (stored_lifecycle t c) v (clock e)" for v
    using assms(4,5) by (simp add: turn_off_allowed_def Let_def)
  then show ?thesis
    using assms(2,3,4) p lifecycle_off_inactive [OF lo]
    by (simp add: turn_off_if_active_def Let_def t_def [symmetric] plget_plsets)
qed

text \<open>One engine stop starts one switch-off. After a switch-off has been scheduled, no engine
  report schedules a second one for the same record.\<close>

theorem off_scheduled_once:
  assumes "off_decision e c m = Emit c1 ps" and "fin (clock e)"
    and "num_fin (jget (light_policy c) ''off_grace_seconds'')"
    and "test_msg m' = test_msg m"
  shows "\<not> emits (off_decision e' c1 m')"
proof -
  let ?t = "test_msg m"
  obtain lc where lc: "is_active lc" "sget ?t c1 lifecycle_key = schedule_off lc (clock e)
      (param (light_policy c) ''off_grace_seconds'' 1000)"
    using assms(1) by (auto simp: off_decision_def Let_def split: if_splits)
  have o': "is_obj lc" using lc(1) by (cases lc) (simp_all add: is_active_def)
  then have "num_fin (jget (sget ?t c1 lifecycle_key) ''pending_off_at'')"
    using assms(2,3) lc(2) by (auto simp: schedule_off_def jget_jsets param_def dest!: num_finD)
  moreover have "is_obj (sget ?t c1 lifecycle_key)" using lc(2) o' by (simp add: schedule_off_def)
  ultimately show ?thesis
    using assms(4) by (simp add: off_decision_def Let_def dflt_def)
qed

section \<open>Dry runs\<close>

lemma isolated_off_decision: "test_msg m \<Longrightarrow> isolated c (ctx_of (off_decision e c m))"
  by (auto simp: off_decision_def off_blocked_def Let_def)

lemma isolated_turn_off:
  "test_msg m \<Longrightarrow> plget m ''recovered'' \<noteq> JTrue \<Longrightarrow> isolated c (ctx_of (turn_off_if_active e c m))"
  by (auto simp: turn_off_if_active_def unschedule_def Let_def)

interpretation off_decision: dry_run off_decision test_msg
  by unfold_locales (rule isolated_off_decision)

interpretation turn_off: dry_run turn_off_if_active "\<lambda>m. test_msg m \<and> plget m ''recovered'' \<noteq> JTrue"
  by unfold_locales (simp add: isolated_turn_off)

section \<open>A lit light\<close>

text \<open>An activation at 1000 s with its backstop at 1900 s; the engine stopped at 1010 s and the
  switch-off is pending for 1100 s.\<close>

definition lit_record :: "jv \<Rightarrow> jv" where
  "lit_record pending = JObj [(''version'', JNum 1), (''active_by_arrival'', JTrue),
     (''on_since'', JNum 1000000), (''force_off_at'', JNum 1900000), (''pending_off_at'', pending),
     (''pending_off_reason'', JStr ''vehicle_primary_motor_off_confirmado''),
     (''updated_at'', JNum 1010000)]"

definition lit_ctx :: "jv \<Rightarrow> ctx" where
  "lit_ctx pending = fold (\<lambda>(k, v) c. fset c k v)
     [(''sun_ready'', JTrue), (''light_reconciled'', JTrue),
      (''security_light_physical_observed_at'', JNum 1090000),
      (''security_light_physical_state'', JStr ''on''),
      (''vehicle_primary_context_v1'', JObj [(''engine_state_valid'', JTrue), (''engine_on'', JFalse),
         (''telemetry_updated_at'', JNum 1010000)])]
     (pset default_policies lifecycle_key (lit_record pending))"

lemma lit_reads [simp]:
  "glob (lit_ctx p) = glob default_policies"
  "fper (lit_ctx p) = (\<lambda>_. JUndef)(lifecycle_key := lit_record p)"
  "fmem (lit_ctx p) = (\<lambda>_. JUndef)(''sun_ready'' := JTrue, ''light_reconciled'' := JTrue,
     ''security_light_physical_observed_at'' := JNum 1090000,
     ''security_light_physical_state'' := JStr ''on'',
     ''vehicle_primary_context_v1'' := JObj [(''engine_state_valid'', JTrue), (''engine_on'', JFalse),
         (''telemetry_updated_at'', JNum 1010000)])"
  by (simp_all add: lit_ctx_def)

lemma lit_ready [simp]: "policies_ready (lit_ctx p)"
  by (simp add: policies_ready_def)

lemmas [evaluate] = param_def future_ms_def minutes_def physical_fresh_def is_active_def
  deadline_type_def oe_valid_def off_evidence_def engine_comm_failed_def

definition off_timer :: "string \<Rightarrow> jv" where
  "off_timer ty = JObj [(''payload'', JObj [(''deadline_type'', JStr ty), (''deadline_at'', JNum 1100000),
     (''activation_at'', JNum 1000000)])]"

definition engine_report :: jv where
  "engine_report = JObj [(''payload'', JObj []),
     (''_light_context'', JObj [(''kind'', JStr ''vehicle_primary_context''), (''accepted'', JTrue)])]"

theorem reconcile_repairs_witness:
  "lifecycle_ok (max_deadline_ms std_light)
     (fper (ctx_of (reconcile_flow (host_at 1100000) (lit_ctx JNull) (JObj []))) lifecycle_key)"
  using reconcile_repairs [of "lit_ctx JNull"] by simp

lemma swept: "sanitise std_location std_light (Fin 1100000) (lit_record JNull) =
  jsets (lit_record JNull) refresh_cleared"
proof -
  have "lc_discard 1100000 60000 86400000 (lit_record JNull) = lit_record JNull"
    by (simp add: evaluate lit_record_def lc_discard_def lifecycle_usable_def)
  moreover have "lc_normalise (lit_record JNull) = lit_record JNull"
    by (simp add: evaluate lit_record_def lc_normalise_def)
  moreover have "lc_coherent 1100000 60000 960000 (lit_record JNull) = lit_record JNull"
    by (simp add: evaluate lit_record_def lc_coherent_def coherent_def)
  moreover have "lc_pending (jsets (lit_record JNull) refresh_cleared) = jsets (lit_record JNull) refresh_cleared"
    by (simp add: evaluate lit_record_def lc_pending_def refresh_cleared_def)
  moreover have "lc_cooldown 1100000 1800000 (jsets (lit_record JNull) refresh_cleared) =
      jsets (lit_record JNull) refresh_cleared"
    by (simp add: evaluate lit_record_def lc_cooldown_def refresh_cleared_def)
  ultimately show ?thesis
    by (simp add: sanitise_def lc_refresh_def max_deadline_ms_def param_def minutes_def future_ms_def Let_def)
qed

lemma swept_get [simp]:
  "jget (jsets (lit_record JNull) refresh_cleared) ''pending_off_at'' = JNull"
  "jget (jsets (lit_record JNull) refresh_cleared) ''force_off_at'' = JNum 1900000"
  "jget (jsets (lit_record JNull) refresh_cleared) ''on_since'' = JNum 1000000"
  "jget (jsets (lit_record JNull) refresh_cleared) ''active_by_arrival'' = JTrue"
  by (simp_all add: lit_record_def refresh_cleared_def)

theorem recovery_timers_once_witness:
  "\<not> emits (reconcile_flow (host_at 1200000)
     (ctx_of (reconcile_flow (host_at 1100000) (lit_ctx JNull) (JObj []))) (JObj []))"
proof -
  let ?r = "reconcile_flow (host_at 1100000) (lit_ctx JNull) (JObj [])"
  have "emits ?r"
    by (simp add: swept reconcile_flow_def lifecycle_load_def physical_apply_def recovery_facts_def
        light_ready_def open_deadlines_def recovery_build_def still_scheduled_def jkeys_def
        recovery_output_def evaluate)
  then obtain ps where r: "?r = Emit (ctx_of ?r) ps" by (auto simp: emits_iff)
  have "is_obj (dflt (fmem (lit_ctx JNull) ''security_light_recovery_scheduled'') (JObj []))"
    by (simp add: evaluate)
  then show ?thesis by (rule recovery_timers_once [OF r])
qed

theorem confirmed_off_proof_witness:
  "jget (dflt (mget False (lit_ctx (JNum 1100000)) ''vehicle_primary_context_v1'') (JObj [])) ''engine_on''
     = JFalse"
proof -
  let ?c = "lit_ctx (JNum 1100000)" and ?m = "off_timer ''confirmed_off''"
  let ?r = "turn_off_if_active (host_at 1100000) ?c ?m"
  have "emits ?r"
    by (simp add: evaluate turn_off_if_active_def turn_off_allowed_def confirmed_off_ready_def
        unschedule_def off_timer_def lit_record_def)
  then obtain ps where r: "?r = Emit (ctx_of ?r) ps" by (auto simp: emits_iff)
  have "deadline_type ?m \<noteq> JStr ''backstop''" by (simp add: evaluate off_timer_def lit_record_def)
  moreover have "test_msg ?m = False" by (simp add: evaluate off_timer_def lit_record_def)
  ultimately show ?thesis using confirmed_off_proof [OF r] by simp
qed

theorem backstop_forces_off_witness:
  "\<exists>c' out. turn_off_if_active (host_at 1900000) (lit_ctx JNull) (off_timer ''backstop'') = Emit c' [[out]] \<and>
     plget out ''backstop_forced'' = JTrue"
proof -
  let ?m = "off_timer ''backstop''"
  have "is_active (stored_lifecycle (test_msg ?m) (lit_ctx JNull))"
    by (simp add: evaluate off_timer_def lit_record_def)
  moreover have "deadline_type ?m = JStr ''backstop''" by (simp add: evaluate off_timer_def lit_record_def)
  moreover have "\<not> clock (host_at 1900000) <
      to_num (jget (stored_lifecycle (test_msg ?m) (lit_ctx JNull)) ''force_off_at'')"
    by (simp add: evaluate off_timer_def lit_record_def)
  ultimately show ?thesis using backstop_forces_off [OF lit_ready] by blast
qed

theorem off_scheduled_once_witness:
  "\<not> emits (off_decision (host_at 1096000)
     (ctx_of (off_decision (host_at 1095000) (lit_ctx JNull) engine_report)) engine_report)"
proof -
  let ?r = "off_decision (host_at 1095000) (lit_ctx JNull) engine_report"
  have "emits ?r"
    by (simp add: evaluate off_decision_def off_ready_def engine_report_def lit_record_def)
  then obtain ps where r: "?r = Emit (ctx_of ?r) ps" by (auto simp: emits_iff)
  show ?thesis by (rule off_scheduled_once [OF r]) simp_all
qed

end
