(* ===== verification/LightContext.thy ===== *)
theory LightContext
  imports Places LightOff
begin

text \<open>
  The context path of the security light: every context message (people, vehicle, sun, bypass)
  passes \<open>context_cache\<close>, \<open>local_excursion\<close>, \<open>engine_on_near_home\<close>, \<open>arrival_watch\<close>,
  \<open>pending_validate\<close>, and, when a stored arrival can be judged now, \<open>replay_build\<close>, before
  \<open>context_output\<close> (\<open>security-light-context-*.js\<close>, \<open>-local-*.js\<close>, \<open>-engine-on-near-home.js\<close>,
  \<open>-arrival-watch.js\<close>, \<open>-pending-validate.js\<close>, \<open>-replay-build.js\<close>).

  The record \<open>lctx\<close> is the field \<open>msg._light_context\<close> the nodes pass along. A snapshot is cached
  only when it is newer than the cached one; a rejected one opens an episode, and repetitions only
  count in it.
\<close>

section \<open>The context in flight\<close>

record lctx =
  lx_test :: bool
  lx_case :: jv
  lx_kind :: jv
  lx_now :: jnum
  lx_future :: jnum
  lx_location :: jv
  lx_policy :: jv
  lx_accepted :: bool
  lx_people :: jv
  lx_vehicle :: jv
  lx_lifecycle :: jv
  lx_bypass_enabled :: bool
  lx_bypass_allowed :: bool
  lx_failed :: bool
  lx_engine_allowed :: bool
  lx_sun_ready :: bool
  lx_dark :: bool
  lx_original :: jv
  lx_arrival :: jv
  lx_authorized :: bool
  lx_requests :: "jv list"
  lx_pending :: jv
  lx_replay_allowed :: bool
  lx_reconcile :: "jv option"
  lx_message :: "jv option"
  lx_replay :: "jv option"

section \<open>The monotone cache\<close>

definition reset_names :: "string list" where
  "reset_names = [''security_light_pending_arrival_v1'', ''security_light_pending_arrivals_v1'',
     ''security_light_lifecycle_v1'', ''security_light_arrival_watch_v1'',
     ''security_light_local_excursion_v1'', ''security_light_last_dry_run_v1'',
     ''security_light_turn_on_notification_latch_v1'', ''security_light_engine_bypass_enabled'',
     ''security_light_engine_bypass_automatic'', ''security_light_engine_communication_failed'',
     ''people_context_v1_rejected_snapshot_episode_v1'',
     ''vehicle_primary_context_v1_rejected_snapshot_episode_v1'']"

text \<open>In a dry run both ways of writing end in the test name space.\<close>

definition test_reset :: "bool \<Rightarrow> jv \<Rightarrow> ctx \<Rightarrow> ctx" where
  "test_reset t m c = (if t \<and> jget m ''_location_test_reset'' = JTrue
     then fold (\<lambda>k c. mset True c k JNull) reset_names c else c)"

definition incoming_at :: "jv \<Rightarrow> jnum" where
  "incoming_at m = num_or (dflt (plget m ''updated_at'') (jget (plget m ''context'') ''updated_at'')) 0"

definition episode_key :: "string \<Rightarrow> string" where
  "episode_key name = name @ ''_rejected_snapshot_episode_v1''"

definition episode_expired :: "jnum \<Rightarrow> jv \<Rightarrow> bool" where
  "episode_expired now ep = (truthy ep \<and> (now < to_num (jget ep ''started_at'') \<or>
     Fin 21600000 \<le> now - to_num (jget ep ''started_at'')))"

definition end_episode :: "bool \<Rightarrow> string \<Rightarrow> ctx \<Rightarrow> ctx" where
  "end_episode t name c = (if truthy (mget t c (episode_key name))
     then mset t (logged NodeLog c) (episode_key name) JNull else c)"

text \<open>\<open>v + 1\<close>, which is concatenation for text.\<close>

fun plus_one :: "jv \<Rightarrow> jnum" where
  "plus_one (JStr s) = str_num (s @ ''1'')"
| "plus_one (JArr xs) = str_num (to_str (JArr xs) @ ''1'')"
| "plus_one v = to_num v + 1"

definition reject_snapshot :: "bool \<Rightarrow> jnum \<Rightarrow> jnum \<Rightarrow> jnum \<Rightarrow> string \<Rightarrow> string \<Rightarrow> ctx \<Rightarrow> ctx" where
  "reject_snapshot t now incoming old_at name reason c =
    (let ep = mget t c (episode_key name);
         signature = JStr (reason @ '':'' @ num_str incoming @ '':'' @ num_str old_at) in
     if jseq (jget ep ''signature'') signature \<and> \<not> episode_expired now ep then
       mset t c (episode_key name) (jset (jspread ep (JObj [])) ''repeats''
         (JNum (jmin (plus_one (jget ep ''repeats'')) 9007199254740991)))
     else
       logged NodeWarn (mset t (end_episode t name c) (episode_key name) (JObj
         [(''signature'', signature), (''reason'', JStr reason), (''repeats'', JNum 0),
          (''started_at'', JNum now)])))"

definition newer :: "jv \<Rightarrow> jnum \<Rightarrow> jnum \<Rightarrow> bool" where
  "newer old incoming old_at =
    (\<not> truthy old \<or> nonzero incoming \<and> (\<not> nonzero old_at \<or> old_at < incoming))"

definition update_cache :: "bool \<Rightarrow> jnum \<Rightarrow> jnum \<Rightarrow> jv \<Rightarrow> string \<Rightarrow> ctx \<Rightarrow> ctx \<times> bool" where
  "update_cache t now future m name c =
    (let incoming = incoming_at m; old = mget t c name;
         old_at = num_or (jget old ''updated_at'') 0; new = plget m ''context'';
         reject = (\<lambda>reason. (reject_snapshot t now incoming old_at name reason c, False)) in
     if now + future < incoming then reject ''future_timestamp''
     else if truthy old \<and> nonzero incoming \<and> nonzero old_at \<and> incoming < old_at then reject ''out_of_order''
     else if truthy old \<and> \<not> nonzero incoming then reject ''missing_timestamp''
     else
      (let c1 = end_episode t name c in
       if newer old incoming old_at then (mset t c1 name new, True)
       else if incoming = old_at \<and> incoming \<noteq> NaN \<and> \<not> json_same old new then (mset t c1 name new, True)
       else (c1, False)))"

definition cache_kind :: "bool \<Rightarrow> jnum \<Rightarrow> jnum \<Rightarrow> jv \<Rightarrow> ctx \<Rightarrow> ctx \<times> bool" where
  "cache_kind t now future m c =
    (let kind = plget m ''kind'' in
     if kind = JStr ''people_context'' then update_cache t now future m ''people_context_v1'' c
     else if kind = JStr ''vehicle_primary_context'' then
       update_cache t now future m ''vehicle_primary_context_v1'' c
     else if kind = JStr ''sun_context'' then
       (fset c ''sun_below_horizon'' (JBool (plget m ''sun_below_horizon'' = JTrue)), True)
     else if kind = JStr ''engine_bypass_context'' \<and> is_bool (plget m ''communication_failed'') then
       (sset t c ''security_light_engine_communication_failed'' (plget m ''communication_failed''), True)
     else (c, True))"

definition engine_failed :: "bool \<Rightarrow> ctx \<Rightarrow> jv \<Rightarrow> bool" where
  "engine_failed t c vehicle = (jget vehicle ''engine_communication_failed'' = JTrue \<or>
     engine_comm_failed t c \<or> sget t c ''security_light_engine_bypass_automatic'' = JTrue)"

definition context_build :: "env \<Rightarrow> ctx \<Rightarrow> jv \<Rightarrow> bool \<Rightarrow> lctx" where
  "context_build e c m accepted =
    (let t = test_msg m;
         vehicle = dflt (mget t c ''vehicle_primary_context_v1'') (JObj []);
         bypass = (sget t c ''security_light_engine_bypass_enabled'' = JTrue);
         automatic = (sget t c ''security_light_engine_bypass_automatic'' = JTrue);
         failed = engine_failed t c vehicle in
     \<lparr>lx_test = t, lx_case = test_case m, lx_kind = plget m ''kind'', lx_now = clock e,
      lx_future = future_ms (location_policy c), lx_location = location_policy c,
      lx_policy = light_policy c, lx_accepted = accepted,
      lx_people = dflt (mget t c ''people_context_v1'') (JObj []), lx_vehicle = vehicle,
      lx_lifecycle = dflt (sget t c lifecycle_key) (JObj []),
      lx_bypass_enabled = bypass, lx_bypass_allowed = (bypass \<and> \<not> automatic \<and> failed),
      lx_failed = failed,
      lx_engine_allowed = (jget vehicle ''in_use'' = JTrue \<and> jget vehicle ''engine_on'' = JTrue \<and>
        jget vehicle ''engine_state_valid'' = JTrue \<and> jget vehicle ''engine_stale'' \<noteq> JTrue \<and> \<not> failed),
      lx_sun_ready = (fmem c ''sun_ready'' = JTrue), lx_dark = (fmem c ''sun_below_horizon'' = JTrue),
      lx_original = jspread (payload m) (JObj []),
      lx_arrival = JUndef, lx_authorized = False, lx_requests = [], lx_pending = JNull,
      lx_replay_allowed = False, lx_reconcile = None, lx_message = None, lx_replay = None\<rparr>)"

definition context_cache :: "env \<Rightarrow> ctx \<Rightarrow> jv \<Rightarrow> lctx run" where
  "context_cache e c m =
    (if \<not> policies_ready c then Stop (logged NodeError c)
     else
      (let t = test_msg m;
           r = cache_kind t (clock e) (future_ms (location_policy c)) m (test_reset t m c) in
       Emit (fst r) (context_build e (fst r) m (snd r))))"

section \<open>GPS evidence of a round trip\<close>

definition num_ge0 :: "jv \<Rightarrow> bool" where
  "num_ge0 v = (num_fin v \<and> Fin 0 \<le> to_num v)"

definition gps_usable :: "lctx \<Rightarrow> jv \<Rightarrow> jv \<Rightarrow> bool" where
  "gps_usable d cycle r =
    (let progress = to_num (jget (lx_policy d) ''local_return_progress_m'');
         t = jget r ''updated_at'' in
     fin progress \<and> Fin 0 < progress \<and> jget r ''ready'' = JTrue \<and> jget r ''stale'' \<noteq> JTrue \<and>
     jget r ''location_reliable'' = JTrue \<and> jget r ''state'' \<in> set [JStr ''home'', JStr ''near_home''] \<and>
     num_fin t \<and> \<not> to_num t < to_num (jget cycle ''started_at'') \<and>
     \<not> lx_now d + lx_future d < to_num t \<and>
     \<not> minutes (lx_location d) ''location_fresh_minutes'' < lx_now d - to_num t \<and>
     num_ge0 (jget r ''distance_m'') \<and> num_ge0 (jget r ''gps_accuracy'') \<and>
     \<not> to_num (jget (lx_location d) ''max_gps_accuracy_m'') < to_num (jget r ''gps_accuracy''))"

definition track_fields :: "string list" where
  "track_fields = [''first_distance'', ''first_accuracy'', ''first_at'', ''peak_distance'',
     ''peak_accuracy'', ''peak_at'', ''last_at'', ''last_distance'', ''last_accuracy'']"

definition track_valid :: "lctx \<Rightarrow> jv \<Rightarrow> jv \<Rightarrow> bool" where
  "track_valid d cycle tr =
    (list_all (\<lambda>k. num_fin (jget tr k)) track_fields \<and>
     \<not> to_num (jget tr ''first_at'') < to_num (jget cycle ''started_at'') \<and>
     \<not> to_num (jget tr ''peak_at'') < to_num (jget tr ''first_at'') \<and>
     \<not> to_num (jget tr ''last_at'') < to_num (jget tr ''peak_at'') \<and>
     \<not> lx_now d + lx_future d < to_num (jget tr ''last_at''))"

definition track_start :: "jv \<Rightarrow> jv" where
  "track_start r =
    (let dist = jget r ''distance_m''; acc = jget r ''gps_accuracy''; t = jget r ''updated_at'' in
     JObj [(''first_distance'', dist), (''first_accuracy'', acc), (''first_at'', t),
       (''peak_distance'', dist), (''peak_accuracy'', acc), (''peak_at'', t),
       (''last_at'', t), (''last_distance'', dist), (''last_accuracy'', acc), (''returning'', JFalse)])"

definition track_returning :: "lctx \<Rightarrow> jv \<Rightarrow> jv \<Rightarrow> jv \<Rightarrow> bool" where
  "track_returning d cycle tr r =
    (let n = (\<lambda>k. to_num (jget tr k)); p = lx_location d;
         progress = to_num (jget (lx_policy d) ''local_return_progress_m'');
         dist = to_num (jget r ''distance_m''); acc = to_num (jget r ''gps_accuracy'');
         t = to_num (jget r ''updated_at'') in
     n ''first_at'' < n ''peak_at'' \<and>
     to_num (jget p ''movement_threshold_m'') \<le> n ''peak_distance'' \<and>
     jmax progress (n ''peak_accuracy'' + n ''first_accuracy'') \<le> n ''peak_distance'' - n ''first_distance'' \<and>
     jmax progress (n ''peak_accuracy'' + acc) \<le> n ''peak_distance'' - dist \<and>
     param p ''external_cycle_confirm_seconds'' 1000 \<le> t - to_num (jget cycle ''started_at''))"

definition track_step :: "lctx \<Rightarrow> jv \<Rightarrow> jv \<Rightarrow> jv \<Rightarrow> jv" where
  "track_step d cycle tr r =
    (let dist = jget r ''distance_m''; acc = jget r ''gps_accuracy''; t = jget r ''updated_at'';
         t1 = jset tr ''returning'' (JBool (track_returning d cycle tr r));
         t2 = (if to_num (jget t1 ''peak_distance'') < to_num dist
               then jsets t1 [(''peak_distance'', dist), (''peak_accuracy'', acc), (''peak_at'', t)] else t1)
     in jsets t2 [(''last_at'', t), (''last_distance'', dist), (''last_accuracy'', acc)])"

definition track_proves :: "jv \<Rightarrow> jv \<Rightarrow> jv \<Rightarrow> bool" where
  "track_proves cycle tr r =
    (jget tr ''returning'' = JTrue \<and> jseq (jget r ''updated_at'') (jget tr ''last_at'') \<and>
     jseq (jget r ''distance_m'') (jget tr ''last_distance'') \<and>
     jseq (jget r ''gps_accuracy'') (jget tr ''last_accuracy'') \<and>
     num_fin (jget cycle ''departure_engine_on_seen_at'') \<and>
     to_num (jget cycle ''departure_engine_on_seen_at'') \<le> to_num (jget tr ''peak_at''))"

text \<open>The cycle with its updated track, and whether the track now proves a return.\<close>

definition gps_follow :: "lctx \<Rightarrow> jv \<Rightarrow> jv \<Rightarrow> jv \<Rightarrow> jv \<times> bool" where
  "gps_follow d cycle tr r =
    (let t = to_num (jget r ''updated_at''); last = to_num (jget tr ''last_at'') in
     if t < last then (jset cycle ''gps_return_evidence'' tr, False)
     else
      (let tr' = (if last < t then track_step d cycle tr r else tr);
           cycle' = jset cycle ''gps_return_evidence'' tr' in
       (cycle', track_proves cycle' tr' r)))"

definition local_gps_return :: "lctx \<Rightarrow> jv \<Rightarrow> jv \<Rightarrow> jv \<times> bool" where
  "local_gps_return d cycle r =
    (if \<not> gps_usable d cycle r then (cycle, False)
     else
      (let tr = jget cycle ''gps_return_evidence'' in
       if truthy tr \<and> track_valid d cycle tr then gps_follow d cycle tr r
       else
        (let cycle1 = (if truthy tr then jdel cycle ''gps_return_evidence'' else cycle) in
         if jget r ''state'' \<noteq> JStr ''near_home'' \<or> jget r ''current_home'' = JTrue then (cycle1, False)
         else gps_follow d cycle1 (track_start r) r)))"

section \<open>Local excursions\<close>

definition time_defined :: "jv \<Rightarrow> bool" where
  "time_defined v = (\<not> nullish v \<and> fin (to_num v))"

definition signal_fresh_ms :: "lctx \<Rightarrow> jnum" where
  "signal_fresh_ms d = num_or (jget (lx_location d) ''vehicle_signal_fresh_minutes'') 5 * Fin 60000"

definition valid_cycle :: "lctx \<Rightarrow> jv \<Rightarrow> bool" where
  "valid_cycle d item =
    (let s = to_num (jget item ''started_at''); x = to_num (jget item ''expires_at'') in
     num_fin (jget item ''started_at'') \<and> Fin 0 < s \<and> s \<le> lx_now d + lx_future d \<and>
     num_fin (jget item ''expires_at'') \<and> s < x \<and> lx_now d \<le> x \<and>
     x - s \<le> minutes (lx_location d) ''local_excursion_minutes'' + Fin 1000)"

definition repair_cycle :: "lctx \<Rightarrow> jv \<Rightarrow> jv" where
  "repair_cycle d p =
    (let on = jget p ''departure_engine_on_seen_at''; off = jget p ''engine_off_seen_at'';
         s = to_num (jget p ''started_at''); limit = lx_now d + lx_future d in
     if \<not> time_defined on \<or> to_num on < s - signal_fresh_ms d \<or> limit < to_num on then
       jsets p [(''departure_engine_on_seen_at'', JNull), (''engine_off_seen_at'', JNull)]
     else if \<not> time_defined off \<or> to_num off \<le> to_num on \<or> to_num off < s \<or> limit < to_num off then
       jset p ''engine_off_seen_at'' JNull
     else p)"

definition fresh_cycle :: "jv \<Rightarrow> jv" where
  "fresh_cycle incoming = JObj
    [(''started_at'', jget incoming ''started_at''), (''expires_at'', jget incoming ''expires_at''),
     (''departure_engine_on_seen_at'', JNull), (''engine_off_seen_at'', JNull), (''consumed_at'', JNull)]"

text \<open>One resident: drop an invalid cycle, repair its observations, follow the configured cycle.\<close>

definition sync_resident :: "lctx \<Rightarrow> jv \<Rightarrow> string \<Rightarrow> jv \<Rightarrow> jv" where
  "sync_resident d configured source rs =
    (let rs1 = (if valid_cycle d (jget rs source)
                then jset rs source (repair_cycle d (jget rs source)) else jdel rs source);
         incoming = jget configured source; old = jget rs1 source in
     if \<not> is_obj configured then rs1
     else if \<not> valid_cycle d incoming then jdel rs1 source
     else if \<not> truthy old \<or> \<not> jseq (jget old ''started_at'') (jget incoming ''started_at'')
       then jset rs1 source (fresh_cycle incoming)
     else jset rs1 source (jset old ''expires_at'' (jget incoming ''expires_at'')))"

definition engine_seen_at :: "lctx \<Rightarrow> jnum" where
  "engine_seen_at d = to_num (dflt (jget (lx_vehicle d) ''telemetry_updated_at'')
     (jget (lx_vehicle d) ''engine_updated_at''))"

definition engine_seen :: "lctx \<Rightarrow> bool" where
  "engine_seen d = (Fin 0 < engine_seen_at d \<and>
     recent (engine_seen_at d) (lx_now d) (lx_future d) (signal_fresh_ms d))"

definition engine_off_accepted :: "lctx \<Rightarrow> bool" where
  "engine_off_accepted d = (lx_kind d = JStr ''vehicle_primary_context'' \<and> lx_accepted d \<and>
     jget (lx_vehicle d) ''engine_state_valid'' = JTrue \<and> jget (lx_vehicle d) ''engine_on'' = JFalse \<and>
     \<not> lx_failed d \<and> engine_seen d)"

definition mark_departure :: "lctx \<Rightarrow> jv \<Rightarrow> jv" where
  "mark_departure d item =
    (if \<not> time_defined (jget item ''departure_engine_on_seen_at'') \<and>
        to_num (jget item ''started_at'') - signal_fresh_ms d \<le> engine_seen_at d
     then jset item ''departure_engine_on_seen_at'' (JNum (engine_seen_at d)) else item)"

definition mark_stop :: "lctx \<Rightarrow> jv \<Rightarrow> jv" where
  "mark_stop d item =
    (let off = jget item ''engine_off_seen_at''; on = jget item ''departure_engine_on_seen_at'';
         t = engine_seen_at d in
     if time_defined on \<and> to_num on < t \<and> to_num (jget item ''started_at'') \<le> t \<and>
        (\<not> time_defined off \<or> to_num off < t)
     then jset item ''engine_off_seen_at'' (JNum t) else item)"

fun map_values :: "(string \<Rightarrow> jv \<Rightarrow> jv) \<Rightarrow> jv \<Rightarrow> jv" where
  "map_values f (JObj kvs) = JObj (map (\<lambda>(k, v). (k, f k v)) kvs)"
| "map_values f v = v"

definition observe_engine :: "lctx \<Rightarrow> jv \<Rightarrow> jv" where
  "observe_engine d item =
    (let i1 = (if lx_engine_allowed d \<and> engine_seen d then mark_departure d item else item) in
     if engine_off_accepted d then mark_stop d i1 else i1)"

definition configured_cycle :: "lctx \<Rightarrow> jv \<Rightarrow> string \<Rightarrow> bool" where
  "configured_cycle d configured source = (is_obj configured \<and> valid_cycle d (jget configured source))"

definition gps_of :: "lctx \<Rightarrow> jv \<Rightarrow> string \<Rightarrow> jv \<Rightarrow> jv \<times> bool" where
  "gps_of d configured source cycle =
    (if configured_cycle d configured source
     then local_gps_return d cycle (jget (lx_people d) source) else (cycle, False))"

definition position_current :: "lctx \<Rightarrow> jv \<Rightarrow> bool" where
  "position_current d r =
    (jget r ''ready'' = JTrue \<and> jget r ''stale'' \<noteq> JTrue \<and> Fin 0 < to_num (jget r ''updated_at'') \<and>
     recent (to_num (jget r ''updated_at'')) (lx_now d) (lx_future d)
       (minutes (lx_location d) ''location_fresh_minutes''))"

definition stop_restart :: "lctx \<Rightarrow> jv \<Rightarrow> bool" where
  "stop_restart d x =
    (let off = to_num (jget x ''engine_off_seen_at'') in
     time_defined (jget x ''engine_off_seen_at'') \<and>
     to_num (jget x ''departure_engine_on_seen_at'') < off \<and> to_num (jget x ''started_at'') \<le> off \<and>
     off < engine_seen_at d)"

definition excursion_candidate :: "lctx \<Rightarrow> jv \<Rightarrow> jv \<Rightarrow> jv \<Rightarrow> string \<Rightarrow> bool" where
  "excursion_candidate d configured rs gps source =
    (let x = jget rs source; r = jget (lx_people d) source in
     configured_cycle d configured source \<and> truthy x \<and> \<not> time_defined (jget x ''consumed_at'') \<and>
     time_defined (jget x ''departure_engine_on_seen_at'') \<and>
     (stop_restart d x \<or> jget gps source = JTrue) \<and>
     position_current d r \<and> jget r ''state'' \<in> set [JStr ''home'', JStr ''near_home''])"

text \<open>The first element of a stable sort by a key.\<close>

fun least_by :: "('a \<Rightarrow> jnum) \<Rightarrow> 'a list \<Rightarrow> 'a option" where
  "least_by f [] = None"
| "least_by f (x # xs) = (case least_by f xs of
     None \<Rightarrow> Some x | Some y \<Rightarrow> Some (if f y < f x then y else x))"

definition mark_test_arrival :: "lctx \<Rightarrow> jv \<Rightarrow> jv" where
  "mark_test_arrival d a =
    (if lx_test d then plsets (jsets a [(''_location_test'', JTrue), (''_location_test_case'', lx_case d)])
       [(''test_mode'', JTrue), (''test_case'', lx_case d)] else a)"

definition excursion_arrival :: "lctx \<Rightarrow> jv \<Rightarrow> jv \<Rightarrow> string \<Rightarrow> jv" where
  "excursion_arrival d rs gps source =
    (let started = jget (jget rs source) ''started_at'' in
     mark_test_arrival d (JObj
      [(''payload'', JObj
        [(''contract'', JStr ''security.arrival.v1''), (''kind'', JStr ''arrival''),
         (''source'', JStr source), (''arriving'', JArr [JStr source]),
         (''arrival_source_type'', JStr ''person''), (''arrival_stage'', JStr ''local_return''),
         (''arrival_previous_state'', JStr ''near_home''),
         (''arrival_direction'', JStr ''returning_local_excursion''),
         (''external_cycle_confirmed'', JFalse), (''local_excursion_return'', JTrue),
         (''local_return_evidence'', JStr (if jget gps source = JTrue then ''gps_round_trip''
           else ''engine_stop_restart'')),
         (''local_excursion_started_at'', started),
         (''notification_cycle_id'', JStr (source @ '':'' @ to_str started)),
         (''arrival_resident_snapshot'', jspread (jget (lx_people d) source) (JObj [])),
         (''event_at'', JNum (engine_seen_at d)), (''arrival_replayed_after_engine_on'', JTrue)]),
       (''_arrival_replay'', JTrue)]))"

definition excursion_state :: "lctx \<Rightarrow> jv \<Rightarrow> jv" where
  "excursion_state d stored =
    (let s = (if jget stored ''version'' = JNum 1 then stored
              else JObj [(''version'', JNum 1), (''residents'', JObj [])]) in
     jset s ''residents'' (jspread (dflt (jget s ''residents'') (JObj [])) (JObj [])))"

definition excursion_residents :: "lctx \<Rightarrow> jv \<Rightarrow> jv \<Rightarrow> jv" where
  "excursion_residents d configured rs = map_values (\<lambda>k v. observe_engine d v)
     (fold (sync_resident d configured) residents rs)"

text \<open>The excursions after this message, and for each resident whether the GPS track proves a return.\<close>

definition excursion_after :: "lctx \<Rightarrow> jv \<Rightarrow> jv \<times> jv" where
  "excursion_after d stored =
    (let state = excursion_state d stored;
         configured = jget (lx_people d) ''local_excursions'';
         rs = excursion_residents d configured (jget state ''residents'') in
     (jsets state [(''residents'', map_values (\<lambda>k v. fst (gps_of d configured k v)) rs),
        (''updated_at'', JNum (lx_now d))],
      map_values (\<lambda>k v. JBool (snd (gps_of d configured k v))) rs))"

definition excursion_winner :: "lctx \<Rightarrow> jv \<Rightarrow> jv \<Rightarrow> string option" where
  "excursion_winner d rs gps =
    (if \<not> truthy (lx_arrival d) \<and> lx_engine_allowed d \<and> engine_seen d then
       least_by (\<lambda>s. to_num (jget (jget rs s) ''started_at''))
         (filter (excursion_candidate d (jget (lx_people d) ''local_excursions'') rs gps) residents)
     else None)"

definition local_excursion :: "ctx \<Rightarrow> lctx \<Rightarrow> lctx run" where
  "local_excursion c d =
    (let t = lx_test d; key = ''security_light_local_excursion_v1'';
         r = excursion_after d (sget t c key); rs = jget (fst r) ''residents'' in
     Emit (sset t c key (fst r))
      (case excursion_winner d rs (snd r) of None \<Rightarrow> d
       | Some s \<Rightarrow> d\<lparr>lx_arrival := excursion_arrival d rs (snd r) s\<rparr>))"

section \<open>The engine comes on near home\<close>

definition engine_turned_on :: "lctx \<Rightarrow> bool" where
  "engine_turned_on d = (lx_kind d = JStr ''vehicle_primary_context'' \<and> lx_accepted d \<and>
     jget (lx_original d) ''event'' = JStr ''turn_on'' \<and> lx_engine_allowed d)"

definition bypass_turned_on :: "lctx \<Rightarrow> bool" where
  "bypass_turned_on d = (lx_kind d = JStr ''engine_bypass_context'' \<and>
     jget (lx_original d) ''enabled'' = JTrue \<and> lx_bypass_allowed d)"

definition arrival_armed :: "lctx \<Rightarrow> string \<Rightarrow> bool" where
  "arrival_armed d source =
    (jget (dflt (jget (lx_people d) ''arrival_armed'') (JObj [])) source = JTrue)"

definition near_home_candidate :: "lctx \<Rightarrow> string \<Rightarrow> bool" where
  "near_home_candidate d source =
    (let r = jget (lx_people d) source in
     arrival_armed d source \<and> position_current d r \<and> jget r ''state'' = JStr ''near_home'' \<and>
     jget r ''current_home'' \<noteq> JTrue)"

definition distance_key :: "lctx \<Rightarrow> string \<Rightarrow> jnum" where
  "distance_key d source =
    (let x = to_num (jget (jget (lx_people d) source) ''distance_m'') in if fin x then x else PInf)"

definition approach_arrival :: "string \<Rightarrow> jnum \<Rightarrow> (string \<times> jv) list \<Rightarrow> jv" where
  "approach_arrival source event_at extra = JObj
    [(''payload'', JObj
       ([(''contract'', JStr ''security.arrival.v1''), (''kind'', JStr ''arrival''),
         (''source'', JStr source), (''arriving'', JArr [JStr source]),
         (''arrival_source_type'', JStr ''person''), (''arrival_stage'', JStr ''approach''),
         (''arrival_previous_state'', JStr ''not_home''), (''arrival_direction'', JStr ''returning''),
         (''external_cycle_confirmed'', JTrue), (''event_at'', JNum event_at)] @ extra)),
     (''_arrival_replay'', JTrue)]"

definition engine_on_arrival :: "lctx \<Rightarrow> string \<Rightarrow> jv" where
  "engine_on_arrival d source =
    (let t = to_num (dflt (jget (lx_original d) ''updated_at'') (JNum (lx_now d))) in
     mark_test_arrival d (approach_arrival source (if fin t then t else lx_now d)
      [(''refresh_cycle_id'', jget (lx_original d) ''refresh_cycle_id''),
       (''arrival_replayed_after_engine_authorization'', JTrue),
       (''arrival_replayed_after_engine_on'', JBool (engine_turned_on d)),
       (''arrival_replayed_after_engine_bypass'', JBool (bypass_turned_on d))]))"

definition engine_on_near_home :: "ctx \<Rightarrow> lctx \<Rightarrow> lctx run" where
  "engine_on_near_home c d =
    (let auth = (engine_turned_on d \<or> bypass_turned_on d);
         d1 = d\<lparr>lx_arrival := dflt (lx_arrival d) JNull, lx_authorized := auth\<rparr> in
     if \<not> auth \<or> truthy (lx_arrival d1) then Emit c d1
     else case least_by (distance_key d1) (filter (near_home_candidate d1) residents) of
         None \<Rightarrow> Emit c d1
       | Some s \<Rightarrow> Emit c (d1\<lparr>lx_arrival := engine_on_arrival d1 s\<rparr>))"

section \<open>Watching the position of an approach\<close>

text \<open>What one turn of the loop over the residents does: keep or drop the watch, replace the arrival,
  add requests, warn.\<close>

record watch_step =
  ws_watch :: "jv option"
  ws_arrival :: "jv option"
  ws_requests :: "jv list"
  ws_warned :: bool

definition watch_ends :: "lctx \<Rightarrow> string \<Rightarrow> jv \<Rightarrow> bool" where
  "watch_ends d source r =
    (position_current d r \<and> (jget r ''current_home'' = JTrue \<or> jget r ''state'' = JStr ''home'') \<or>
     position_current d r \<and> jget r ''state'' \<noteq> JStr ''near_home'' \<or>
     \<not> arrival_armed d source \<or> is_active (lx_lifecycle d))"

definition watch_near_home :: "jv \<Rightarrow> bool" where
  "watch_near_home r = (jget r ''state'' = JStr ''near_home'' \<and> jget r ''current_home'' \<noteq> JTrue)"

definition watch_new_observation :: "lctx \<Rightarrow> jv \<Rightarrow> jv \<Rightarrow> bool" where
  "watch_new_observation d w r =
    (let prev = num_or (dflt (jget w ''position_observed_at'') (jget w ''event_at'')) 0 in
     position_current d r \<and> fin prev \<and> prev < to_num (jget r ''updated_at''))"

definition watch_observed :: "lctx \<Rightarrow> jv \<Rightarrow> jv \<Rightarrow> jv" where
  "watch_observed d w r =
    (if watch_new_observation d w r then
       jsets w [(''position_observed_at'', JNum (to_num (jget r ''updated_at''))), (''attempts'', JNum 0),
         (''last_refresh_at'', JNull), (''failure_reported'', JFalse)]
     else w)"

definition watch_arrival :: "lctx \<Rightarrow> string \<Rightarrow> jv \<Rightarrow> jv" where
  "watch_arrival d source w = mark_test_arrival d
    (approach_arrival source (to_num (jget w ''event_at''))
      [(''arrival_replayed_after_location_refresh'', JTrue)])"

definition watch_attempts :: "jv \<Rightarrow> jnum" where
  "watch_attempts w = num_or (jget w ''attempts'') 0"

definition refresh_failed_request :: "lctx \<Rightarrow> string \<Rightarrow> jv \<Rightarrow> jv \<Rightarrow> jv" where
  "refresh_failed_request d source w r = JObj
    [(''payload'', JObj [(''kind'', JStr ''arrival_location_refresh_failed''), (''source'', JStr source),
       (''reason'', JStr ''location_refresh_without_new_evidence''), (''attempt'', JNum (watch_attempts w)),
       (''observed_at'', JNum (to_num (jget r ''updated_at''))),
       (''requested_at'', jget w ''last_refresh_at'')]),
     (''_location_test'', JBool (lx_test d)),
     (''_security_light_decision_state'', JStr ''location_refresh_failed'')]"

definition refresh_request :: "lctx \<Rightarrow> string \<Rightarrow> jv \<Rightarrow> bool \<Rightarrow> jv" where
  "refresh_request d source w needed = JObj
    [(''payload'', JObj [(''kind'', JStr ''arrival_location_refresh''), (''source'', JStr source),
       (''arrival_event_at'', JNum (to_num (jget w ''event_at''))),
       (''reason'', JStr (if needed then ''engine_authorized_location_stale''
         else ''near_home_refresh_before_stale'')),
       (''attempt'', jget w ''attempts''), (''requested_at'', JNum (lx_now d)),
       (''test_mode'', JBool (lx_test d)), (''test_case'', lx_case d)]),
     (''_location_test'', JBool (lx_test d)), (''_location_test_case'', lx_case d),
     (''_security_light_decision_state'', JStr ''waiting_location_refresh'')]"

definition watch_needed :: "lctx \<Rightarrow> jv \<Rightarrow> jv \<Rightarrow> bool" where
  "watch_needed d w r = (lx_authorized d \<and> watch_near_home r \<and> \<not> position_current d r \<and>
     watch_attempts w < Fin 2)"

definition watch_due :: "lctx \<Rightarrow> jv \<Rightarrow> jv \<Rightarrow> bool" where
  "watch_due d w r =
    (let t = to_num (jget r ''updated_at'');
         age = (if fin t then lx_now d - t else PInf);
         aged = (minutes (lx_location d) ''near_home_refresh_minutes'' \<le> age);
         last = num_or (jget w ''last_refresh_at'') 0;
         attempts = watch_attempts w in
     \<not> Fin 2 \<le> attempts \<and>
     (\<not> fin last \<or> last \<le> Fin 0 \<or> Fin 60000 \<le> lx_now d - last) \<and>
     (watch_near_home r \<and> aged \<and> attempts = Fin 0 \<or>
      watch_near_home r \<and> jget w ''waiting_for_callback'' = JTrue \<and> aged \<and> Fin 0 < attempts \<or>
      watch_needed d w r))"

definition watch_probe :: "lctx \<Rightarrow> string \<Rightarrow> jv \<Rightarrow> jv \<Rightarrow> watch_step" where
  "watch_probe d source w r =
    (let exhausted = (watch_near_home r \<and> \<not> position_current d r \<and> Fin 2 \<le> watch_attempts w \<and>
           jget w ''failure_reported'' \<noteq> JTrue);
         w1 = (if exhausted then jset w ''failure_reported'' JTrue else w);
         failed = (if exhausted then [refresh_failed_request d source w1 r] else []) in
     if watch_due d w1 r then
       (let w2 = jsets w1 [(''attempts'', JNum (watch_attempts w1 + Fin 1)),
               (''last_refresh_at'', JNum (lx_now d)), (''waiting_for_callback'', JTrue)] in
        \<lparr>ws_watch = Some w2, ws_arrival = None,
         ws_requests = failed @ [refresh_request d source w2 (watch_needed d w1 r)], ws_warned = exhausted\<rparr>)
     else \<lparr>ws_watch = Some w1, ws_arrival = None, ws_requests = failed, ws_warned = exhausted\<rparr>)"

definition watch_resident :: "lctx \<Rightarrow> string \<Rightarrow> jv \<Rightarrow> watch_step" where
  "watch_resident d source w =
    (let r = jget (lx_people d) source in
     if watch_ends d source r then
       \<lparr>ws_watch = None, ws_arrival = None, ws_requests = [], ws_warned = False\<rparr>
     else
      (let new = watch_new_observation d w r; w1 = watch_observed d w r in
       if new \<and> watch_near_home r \<and> jget w1 ''waiting_for_callback'' = JTrue \<and>
          (lx_engine_allowed d \<or> lx_bypass_allowed d) \<and> lx_sun_ready d \<and> lx_dark d then
         \<lparr>ws_watch = Some (jset w1 ''waiting_for_callback'' JFalse),
          ws_arrival = Some (watch_arrival d source w1), ws_requests = [], ws_warned = False\<rparr>
       else watch_probe d source (if new then jset w1 ''waiting_for_callback'' JFalse else w1) r))"

fun watch_all :: "lctx \<Rightarrow> string list \<Rightarrow> jv \<times> ctx \<times> lctx \<Rightarrow> jv \<times> ctx \<times> lctx" where
  "watch_all d0 [] s = s"
| "watch_all d0 (source # rest) (ws, c, d) =
    (if \<not> truthy (jget ws source) then watch_all d0 rest (ws, c, d)
     else
      (let st = watch_resident d0 source (jget ws source) in
       watch_all d0 rest
        ((case ws_watch st of None \<Rightarrow> jdel ws source | Some w \<Rightarrow> jset ws source w),
         (if ws_warned st then logged NodeWarn c else c),
         d\<lparr>lx_arrival := (case ws_arrival st of None \<Rightarrow> lx_arrival d | Some a \<Rightarrow> a),
           lx_requests := lx_requests d @ ws_requests st\<rparr>)))"

definition arrival_watch :: "ctx \<Rightarrow> lctx \<Rightarrow> lctx run" where
  "arrival_watch c d =
    (let t = lx_test d; key = ''security_light_arrival_watch_v1''; stored = sget t c key in
     if jget stored ''version'' \<noteq> JNum 1 \<or> \<not> truthy (jget stored ''residents'') then Emit c d
     else case watch_all d residents (jget stored ''residents'', c, d) of
       (ws, c1, d1) \<Rightarrow> Emit (sset t c1 key (jset stored ''residents'' ws)) d1)"

section \<open>The pending arrival\<close>

abbreviation pending_key :: string where
  "pending_key \<equiv> ''security_light_pending_arrival_v1''"

abbreviation pending_map_key :: string where
  "pending_map_key \<equiv> ''security_light_pending_arrivals_v1''"

text \<open>The candidate of the message's resident, else the last one stored, else the newest.\<close>

definition pending_pick :: "ctx \<Rightarrow> lctx \<Rightarrow> jv \<Rightarrow> jv" where
  "pending_pick c d cands =
    (let source = (if lx_kind d = JStr ''people_context'' then jget (lx_original d) ''source'' else JNull) in
     dflt (jget cands (to_str source)) (dflt (sget (lx_test d) c pending_key)
      (dflt (case least_by (\<lambda>v. Fin 0 - to_num (jget v ''event_at'')) (jvalues cands) of
          None \<Rightarrow> JUndef | Some v \<Rightarrow> v) JNull)))"

definition pending_window :: "lctx \<Rightarrow> jv \<Rightarrow> bool" where
  "pending_window d p =
    (let q = num_or (jget p ''queued_at'') 0; x = num_or (jget p ''expires_at'') 0;
         ttl = (if jget p ''retention'' = JStr ''while_approaching''
                then minutes (lx_location d) ''local_excursion_minutes''
                else minutes (lx_location d) ''arrival_recovery_minutes'') in
     truthy (jget p ''message'') \<and> fin q \<and> Fin 0 < q \<and> q \<le> lx_now d + lx_future d \<and> fin x \<and>
     lx_now d \<le> x \<and> x - q \<le> ttl + Fin 1000)"

definition pending_original :: "jv \<Rightarrow> jv" where
  "pending_original p = dflt (jget (jget p ''message'') ''payload'') (JObj [])"

definition approach_pending :: "jv \<Rightarrow> bool" where
  "approach_pending p = (jget p ''version'' = JNum 2 \<and> jget p ''retention'' = JStr ''while_approaching'' \<and>
     jget p ''source'' \<in> set (map JStr residents))"

definition confirmed_home :: "lctx \<Rightarrow> jv \<Rightarrow> jv \<Rightarrow> bool" where
  "confirmed_home d p r =
    (let original = pending_original p;
         seen = to_num (dflt (jget (jget original ''arrival_resident_snapshot'') ''updated_at'')
                  (jget p ''event_at'')) in
     position_current d r \<and> jget r ''state'' = JStr ''home'' \<and> jget r ''current_home'' = JTrue \<and>
     lx_kind d = JStr ''people_context'' \<and> lx_accepted d \<and>
     jget (lx_original d) ''confirmed_home_transition'' = JTrue \<and>
     jseq (jget (lx_original d) ''source'') (jget p ''source'') \<and>
     seen < to_num (jget r ''updated_at'') \<and>
     jget original ''arrival_direction'' = JStr ''returning'' \<and>
     jget original ''external_cycle_confirmed'' = JTrue)"

definition complete_pending :: "lctx \<Rightarrow> jv \<Rightarrow> jv \<Rightarrow> jv" where
  "complete_pending d p r =
    jsets (jspread p (JObj []))
     [(''retention'', JStr ''recovery_window''), (''arrival_stage'', JStr ''home''),
      (''approach_queued_at'', jget p ''queued_at''), (''queued_at'', JNum (lx_now d)),
      (''event_at'', JNum (lx_now d)),
      (''expires_at'', JNum (jmin (num_or (jget p ''expires_at'') 0)
         (lx_now d + minutes (lx_location d) ''arrival_recovery_minutes''))),
      (''message'', jset (jspread (jget p ''message'') (JObj [])) ''payload''
         (jsets (jspread (pending_original p) (JObj []))
           [(''arrival_stage'', JStr ''home''), (''event_at'', JNum (lx_now d)),
            (''arrival_resident_snapshot'', jspread r (JObj [])),
            (''arrival_completed_from_pending_approach'', JTrue)]))]"

text \<open>The verdict on a pending arrival: dropped, or kept (perhaps completed), and whether it may be
  replayed now when the code says so itself.\<close>

definition judge_pending :: "lctx \<Rightarrow> jv \<Rightarrow> jv option \<times> bool option" where
  "judge_pending d p =
    (if \<not> pending_window d p then (None, None)
     else if approach_pending p then
      (let r = jget (lx_people d) (to_str (jget p ''source'')); current = position_current d r in
       if confirmed_home d p r then (Some (complete_pending d p r), Some True)
       else ((if current \<and> jget r ''state'' \<notin> set [JStr ''near_home'', JStr ''home''] then None else Some p),
             Some (current \<and> jget r ''state'' = JStr ''near_home'')))
     else if jget p ''retention'' \<noteq> JStr ''recovery_window'' then (None, None)
     else (Some p, None))"

definition context_message :: "lctx \<Rightarrow> jv \<Rightarrow> jv" where
  "context_message d m =
    (let o' = lx_original d; v = lx_vehicle d;
         m1 = jset m ''payload'' (JObj
          [(''event'', dflt (jget o' ''event'') (JStr ''context_update'')), (''reason'', jget o' ''reason''),
           (''source'', jget o' ''source''), (''trigger_state'', jget o' ''trigger_state''),
           (''trigger_prev_state'', jget o' ''trigger_prev_state''),
           (''confirmed_home_transition'', JBool (jget o' ''confirmed_home_transition'' = JTrue)),
           (''vehicle_primary_ready'', JBool (jget v ''ready'' = JTrue)),
           (''vehicle_primary_lighting_ready'', JBool (jget v ''lighting_ready'' = JTrue)),
           (''vehicle_primary_engine_on'', jget v ''engine_on''),
           (''vehicle_primary_engine_state_valid'', JBool (jget v ''engine_state_valid'' = JTrue)),
           (''engine_communication_failed'', JBool (lx_failed d)),
           (''vehicle_primary_unlocked'', jget v ''unlocked''),
           (''vehicle_primary_in_use'', jget v ''in_use''),
           (''engine_bypass_enabled'', JBool (lx_bypass_enabled d)),
           (''engine_bypass_allowed'', JBool (lx_bypass_allowed d)),
           (''active'', JBool (is_active (lx_lifecycle d)))]);
         m2 = mark_test_arrival d m1 in
     jset m2 ''_light_context'' (JObj [(''kind'', lx_kind d), (''accepted'', JBool (lx_accepted d))]))"

definition pending_validate :: "ctx \<Rightarrow> jv \<Rightarrow> lctx \<Rightarrow> lctx run" where
  "pending_validate c m d =
    (let t = lx_test d;
         cands = dflt (sget t c pending_map_key) (JObj []);
         p = pending_pick c d cands;
         clear = (truthy p \<and> is_active (lx_lifecycle d));
         c1 = (if clear then sset t (sset t c pending_key JNull) pending_map_key (JObj []) else c);
         cands1 = (if clear then JObj [] else cands);
         p1 = (if clear then JNull else p);
         v = (if truthy p1 then judge_pending d p1 else (None, None));
         dropped = (truthy p1 \<and> fst v = None);
         cands2 = (if dropped then jdel cands1 (to_str (jget p1 ''source'')) else cands1);
         c2 = (if dropped then logged NodeWarn (sset t c1 pending_key JNull) else c1);
         kept = (case fst v of None \<Rightarrow> JNull | Some q \<Rightarrow> q);
         cands3 = (if truthy kept then jset cands2 (to_str (jget kept ''source'')) kept else cands2);
         c3 = (if truthy kept then sset t c2 pending_key kept else c2);
         c4 = sset t c3 pending_map_key cands3 in
     Emit c4 (d\<lparr>lx_pending := kept,
       lx_replay_allowed := (case snd v of Some b \<Rightarrow> b | None \<Rightarrow> truthy kept),
       lx_reconcile := (if t then None else Some (JObj [(''payload'',
         JObj [(''kind'', JStr ''reconcile_signal''), (''reason'', JStr ''context_update'')])])),
       lx_message := (if lx_kind d \<in> set [JStr ''people_context'', JStr ''vehicle_primary_context''] \<and>
           \<not> lx_accepted d then None else Some (context_message d m))\<rparr>))"

definition replay_ready :: "lctx \<Rightarrow> bool" where
  "replay_ready d = ((truthy (lx_pending d) \<and> lx_replay_allowed d \<or> truthy (lx_arrival d)) \<and>
     lx_sun_ready d \<and> lx_dark d)"

section \<open>Replay and output\<close>

definition pending_replay :: "lctx \<Rightarrow> jv" where
  "pending_replay d =
    (let p = lx_pending d; message = jget p ''message'';
         pl = jsets (jspread (dflt (jget message ''payload'') (JObj [])) (JObj []))
          [(''arrival_replayed_after_context_recovery'', JTrue),
           (''arrival_originally_queued_at'', jget p ''queued_at''),
           (''arrival_replayed_at'', JNum (lx_now d)),
           (''engine_bypass_enabled'', JBool (lx_bypass_enabled d)),
           (''engine_bypass_allowed'', JBool (lx_bypass_allowed d))];
         r = jsets (jspread message (JObj [])) [(''payload'', pl), (''_arrival_replay'', JTrue)];
         tc = dflt (lx_case d) (dflt (jget message ''_location_test_case'') JNull) in
     if lx_test d then plsets (jsets r [(''_location_test'', JTrue), (''_location_test_case'', tc)])
       [(''test_mode'', JTrue), (''test_case'', tc)] else r)"

definition replay_build :: "ctx \<Rightarrow> lctx \<Rightarrow> lctx run" where
  "replay_build c d =
    (if (\<not> truthy (lx_pending d) \<or> \<not> lx_replay_allowed d) \<and> truthy (lx_arrival d)
     then Emit c (d\<lparr>lx_replay := Some (lx_arrival d)\<rparr>)
     else if \<not> truthy (lx_pending d) then Emit c d
     else Emit c (d\<lparr>lx_replay := Some (pending_replay d)\<rparr>))"

definition context_output :: "ctx \<Rightarrow> lctx \<Rightarrow> ports run" where
  "context_output c d =
    Emit c [one_of (lx_message d), one_of (lx_reconcile d), one_of (lx_replay d), lx_requests d]"

definition context_flow :: "env \<Rightarrow> ctx \<Rightarrow> jv \<Rightarrow> ports run" where
  "context_flow e c m =
    wire (wire (wire (wire (wire (context_cache e c m) local_excursion) engine_on_near_home)
      arrival_watch) (\<lambda>c1 d. pending_validate c1 m d))
      (\<lambda>c1 d. if replay_ready d then wire (replay_build c1 d) context_output else context_output c1 d)"

section \<open>Dry runs\<close>

lemma isolated_fold_mset: "isolated c (fold (\<lambda>k c. mset True c k JNull) ks c)"
proof (induction ks arbitrary: c)
  case (Cons k ks)
  have "isolated c (mset True c k JNull)" by auto
  also have "isolated \<dots> (fold (\<lambda>k c. mset True c k JNull) ks (mset True c k JNull))" by (rule Cons)
  finally show ?case by simp
qed simp

lemma isolated_test_reset: "isolated c (test_reset True m c)"
  using isolated_fold_mset by (simp add: test_reset_def)

lemma isolated_end_episode: "isolated c (end_episode True name c)"
  by (auto simp: end_episode_def)

lemma isolated_reject: "isolated c (reject_snapshot True now i oa name reason c)"
  by (auto simp: reject_snapshot_def Let_def isolated_end_episode)

lemma isolated_update_cache: "isolated c (fst (update_cache True now f m name c))"
  by (auto simp: update_cache_def Let_def isolated_reject isolated_end_episode)

lemma isolated_cache_kind:
  "plget m ''kind'' \<noteq> JStr ''sun_context'' \<Longrightarrow> isolated c (fst (cache_kind True now f m c))"
  by (auto simp: cache_kind_def Let_def isolated_update_cache)

lemma isolated_context_cache:
  assumes "test_msg m" "plget m ''kind'' \<noteq> JStr ''sun_context''"
  shows "isolated c (ctx_of (context_cache e c m))"
proof (cases "policies_ready c")
  case True
  have "isolated c (test_reset True m c)" by (rule isolated_test_reset)
  also have "isolated \<dots> (fst (cache_kind True now f m (test_reset True m c)))" for now f
    by (rule isolated_cache_kind [OF assms(2)])
  finally show ?thesis using True assms(1) by (simp add: context_cache_def Let_def)
qed (auto simp: context_cache_def)

lemma context_cache_test: "context_cache e c m = Emit c1 d \<Longrightarrow> lx_test d = test_msg m"
  by (auto simp: context_cache_def context_build_def Let_def split: if_splits)

text \<open>The nodes behind the cache keep the flags of the record and, in a dry run, the production state.\<close>

definition kept :: "lctx \<Rightarrow> lctx \<Rightarrow> bool" where
  "kept d d' = (lx_test d' = lx_test d \<and> lx_sun_ready d' = lx_sun_ready d \<and> lx_dark d' = lx_dark d \<and>
     lx_replay d' = lx_replay d)"

lemma kept_refl [simp]: "kept d d"
  by (simp add: kept_def)

lemma kept_trans: "kept d d' \<Longrightarrow> kept d' d'' \<Longrightarrow> kept d d''"
  by (simp add: kept_def)

lemma kept_test: "kept d d' \<Longrightarrow> lx_test d' = lx_test d"
  by (simp add: kept_def)

lemma kept_updates [simp]:
  "kept d (d'\<lparr>lx_arrival := a\<rparr>) = kept d d'" "kept d (d'\<lparr>lx_requests := rs\<rparr>) = kept d d'"
  "kept d (d'\<lparr>lx_authorized := b\<rparr>) = kept d d'"
  by (simp_all add: kept_def)

lemma local_excursion_step:
  "\<exists>c' d'. local_excursion c d = Emit c' d' \<and> kept d d' \<and> lx_requests d' = lx_requests d \<and>
     (lx_test d \<longrightarrow> isolated c c')"
proof -
  have "isolated c (sset True c k v)" for k v by auto
  then show ?thesis by (simp add: local_excursion_def Let_def split: option.split)
qed

lemma engine_on_near_home_step:
  "\<exists>d'. engine_on_near_home c d = Emit c d' \<and> kept d d' \<and> lx_requests d' = lx_requests d"
  by (simp add: engine_on_near_home_def Let_def split: option.split)

lemma watch_all_step:
  "kept d (snd (snd (watch_all d0 ss (ws, c, d)))) \<and> isolated c (fst (snd (watch_all d0 ss (ws, c, d))))"
proof (induction d0 ss "(ws, c, d)" arbitrary: ws c d rule: watch_all.induct)
  case (2 d0 source rest ws c d)
  show ?case
  proof (cases "truthy (jget ws source)")
    case True
    let ?st = "watch_resident d0 source (jget ws source)"
    let ?c = "if ws_warned ?st then logged NodeWarn c else c"
    have "isolated c ?c" by auto
    then show ?thesis using True 2(2) [OF _ refl] by (auto simp: Let_def kept_def intro: isolated_trans)
  next
    case False
    then show ?thesis using 2(1) by simp
  qed
qed simp

lemma arrival_watch_step:
  "\<exists>c' d'. arrival_watch c d = Emit c' d' \<and> kept d d' \<and> (lx_test d \<longrightarrow> isolated c c')"
proof -
  let ?ws = "jget (sget (lx_test d) c ''security_light_arrival_watch_v1'') ''residents''"
  obtain ws c1 d1 where w: "watch_all d residents (?ws, c, d) = (ws, c1, d1)" by (metis prod_cases3)
  have "kept d d1" "isolated c c1"
    using watch_all_step [of d d residents ?ws c] by (simp_all add: w)
  then show ?thesis
    by (auto simp: arrival_watch_def Let_def w)
qed

lemma pending_validate_step:
  "\<exists>c' d'. pending_validate c m d = Emit c' d' \<and> kept d d' \<and> lx_requests d' = lx_requests d \<and>
     (lx_test d \<longrightarrow> isolated c c')"
  unfolding pending_validate_def Let_def
  by (rule exI, rule exI, rule conjI, rule refl) (simp add: kept_def isolated_writes)

lemma replay_build_step: "\<exists>d'. replay_build c d = Emit c d' \<and> lx_test d' = lx_test d"
  by (simp add: replay_build_def)

text \<open>The flow, unrolled: either the cache stops it or it emits.\<close>

lemma context_flow_unroll:
  assumes "context_cache e c m = Emit c1 d1"
  obtains c2 d2 d3 c4 d4 c5 d5 where
    "local_excursion c1 d1 = Emit c2 d2" "engine_on_near_home c2 d2 = Emit c2 d3"
    "arrival_watch c2 d3 = Emit c4 d4" "pending_validate c4 m d4 = Emit c5 d5"
    "context_flow e c m = (if replay_ready d5 then wire (replay_build c5 d5) context_output
       else context_output c5 d5)"
    "kept d1 d2" "kept d1 d3" "kept d1 d4" "kept d1 d5" "lx_test d1 \<Longrightarrow> isolated c1 c5"
    "lx_requests d3 = lx_requests d1" "lx_requests d5 = lx_requests d4"
proof -
  obtain c2 d2 where 2: "local_excursion c1 d1 = Emit c2 d2" "kept d1 d2" "lx_requests d2 = lx_requests d1"
    "lx_test d1 \<longrightarrow> isolated c1 c2" using local_excursion_step by blast
  obtain d3 where 3: "engine_on_near_home c2 d2 = Emit c2 d3" "kept d2 d3" "lx_requests d3 = lx_requests d2"
    using engine_on_near_home_step by blast
  obtain c4 d4 where 4: "arrival_watch c2 d3 = Emit c4 d4" "kept d3 d4" "lx_test d3 \<longrightarrow> isolated c2 c4"
    using arrival_watch_step by blast
  obtain c5 d5 where 5: "pending_validate c4 m d4 = Emit c5 d5" "kept d4 d5"
    "lx_requests d5 = lx_requests d4" "lx_test d4 \<longrightarrow> isolated c4 c5"
    using pending_validate_step by blast
  have k: "kept d1 d3" "kept d1 d4" "kept d1 d5"
    using 2 3 4 5 kept_trans by blast+
  show thesis
  proof (rule that [OF 2(1) 3(1) 4(1) 5(1) _ 2(2) k])
    show "lx_test d1 \<Longrightarrow> isolated c1 c5"
      using 2(4) 4(3) 5(4) kept_test [OF k(1)] kept_test [OF k(2)] isolated_trans by metis
  qed (simp_all add: context_flow_def assms 2 3 4 5)
qed

lemma replay_output_ctx: "ctx_of (if replay_ready d then wire (replay_build c d) context_output
    else context_output c d) = c"
  by (simp add: replay_build_def context_output_def)

lemma isolated_context_flow:
  assumes "test_msg m" "plget m ''kind'' \<noteq> JStr ''sun_context''"
  shows "isolated c (ctx_of (context_flow e c m))"
proof (cases "context_cache e c m")
  case (Emit c1 d1)
  have i: "isolated c c1" using isolated_context_cache [OF assms, of c e] Emit by simp
  obtain d5 c5 where 5: "context_flow e c m = (if replay_ready d5 then wire (replay_build c5 d5) context_output
       else context_output c5 d5)" "lx_test d1 \<Longrightarrow> isolated c1 c5"
    by (rule context_flow_unroll [OF Emit]) (rule that)
  have "lx_test d1" using context_cache_test [OF Emit] assms(1) by simp
  then have "isolated c c5" using i 5(2) isolated_trans by blast
  then show ?thesis by (simp only: 5(1) replay_output_ctx)
qed (use isolated_context_cache [OF assms, of c e] in \<open>simp_all add: context_flow_def\<close>)

interpretation context_path: dry_run context_flow
  "\<lambda>m. test_msg m \<and> plget m ''kind'' \<noteq> JStr ''sun_context''"
  by unfold_locales (simp add: isolated_context_flow)

section \<open>Frames\<close>

text \<open>Two contexts that a message of mode \<open>t\<close> cannot tell apart outside the names \<open>K\<close>.\<close>

definition same_but :: "bool \<Rightarrow> string set \<Rightarrow> ctx \<Rightarrow> ctx \<Rightarrow> bool" where
  "same_but t K c c' = (\<forall>k. k \<notin> K \<longrightarrow> mget t c' k = mget t c k \<and> sget t c' k = sget t c k)"

lemma same_but_refl [simp, intro]: "same_but t K c c"
  by (simp add: same_but_def)

lemma same_but_trans [trans]: "same_but t K c c' \<Longrightarrow> same_but t K c' c'' \<Longrightarrow> same_but t K c c''"
  by (simp add: same_but_def)

lemma same_but_mono: "same_but t K c c' \<Longrightarrow> K \<subseteq> K' \<Longrightarrow> same_but t K' c c'"
  by (auto simp: same_but_def)

lemma same_but_writes [intro]:
  "same_but t K c c' \<Longrightarrow> k \<in> K \<Longrightarrow> same_but t K c (sset t c' k v)"
  "same_but t K c c' \<Longrightarrow> k \<in> K \<Longrightarrow> same_but t K c (mset t c' k v)"
  "same_but t K c c' \<Longrightarrow> same_but t K c (logged x c')"
  by (auto simp: same_but_def mget_def sget_def sset_def mset_def)

lemma same_but_mget: "same_but t K c c' \<Longrightarrow> k \<notin> K \<Longrightarrow> mget t c' k = mget t c k"
  by (simp add: same_but_def)

lemma same_but_sget: "same_but t K c c' \<Longrightarrow> k \<notin> K \<Longrightarrow> sget t c' k = sget t c k"
  by (simp add: same_but_def)

abbreviation excursion_key :: string where
  "excursion_key \<equiv> ''security_light_local_excursion_v1''"

abbreviation watch_key :: string where
  "watch_key \<equiv> ''security_light_arrival_watch_v1''"

lemma frame_local_excursion:
  "same_but (lx_test d) {excursion_key} c (ctx_of (local_excursion c d))"
  by (auto simp: local_excursion_def Let_def)

lemma frame_engine_on_near_home: "ctx_of (engine_on_near_home c d) = c"
  by (simp add: engine_on_near_home_def Let_def split: option.split)

lemma frame_watch_all: "same_but t K c (fst (snd (watch_all d0 ss (ws, c, d))))"
proof (induction d0 ss "(ws, c, d)" arbitrary: ws c d rule: watch_all.induct)
  case (2 d0 source rest ws c d)
  let ?st = "watch_resident d0 source (jget ws source)"
  have "same_but t K c (if ws_warned ?st then logged NodeWarn c else c)" by auto
  then show ?case using 2(1) 2(2) [OF _ refl] by (auto simp: Let_def intro: same_but_trans)
qed simp

lemma frame_arrival_watch:
  "same_but (lx_test d) {watch_key} c (ctx_of (arrival_watch c d))"
proof -
  let ?ws = "jget (sget (lx_test d) c watch_key) ''residents''"
  obtain ws c1 d1 where w: "watch_all d residents (?ws, c, d) = (ws, c1, d1)" by (metis prod_cases3)
  have "same_but (lx_test d) {watch_key} c c1"
    using frame_watch_all [of "lx_test d" _ c d residents ?ws d] by (simp add: w)
  then show ?thesis by (auto simp: arrival_watch_def Let_def w)
qed

lemma frame_pending_validate:
  "same_but (lx_test d) {pending_key, pending_map_key} c (ctx_of (pending_validate c m d))"
  by (auto simp: pending_validate_def Let_def)

section \<open>The cache never goes back\<close>

definition snapshot_at :: "jv \<Rightarrow> jnum" where
  "snapshot_at v = num_or (jget v ''updated_at'') 0"

abbreviation cached_names :: "string list" where
  "cached_names \<equiv> [''people_context_v1'', ''vehicle_primary_context_v1'']"

lemma truthy_snapshot: "Fin 0 < snapshot_at v \<Longrightarrow> truthy v"
  by (cases v) (auto simp: snapshot_at_def)

lemma episode_keys [simp]: "episode_key name \<noteq> name" "name \<noteq> episode_key name"
proof -
  show "episode_key name \<noteq> name" by (simp add: episode_key_def)
  then show "name \<noteq> episode_key name" by metis
qed

lemma mget_end_episode [simp]: "k \<noteq> episode_key name \<Longrightarrow> mget t (end_episode t name c) k = mget t c k"
  by (simp add: end_episode_def)

lemma mget_reject [simp]:
  "k \<noteq> episode_key name \<Longrightarrow> mget t (reject_snapshot t now i oa name reason c) k = mget t c k"
  by (simp add: reject_snapshot_def Let_def)

lemma update_cache_other:
  "k \<noteq> name \<Longrightarrow> k \<noteq> episode_key name \<Longrightarrow> mget t (fst (update_cache t now f m name c)) k = mget t c k"
  by (simp add: update_cache_def Let_def)

lemma update_cache_forward:
  assumes "Fin 0 < snapshot_at (mget t c name)" "incoming_at m = snapshot_at (plget m ''context'')"
  shows "\<not> snapshot_at (mget t (fst (update_cache t now f m name c)) name) < snapshot_at (mget t c name)"
proof -
  let ?old = "mget t c name" and ?i = "incoming_at m"
  have nz: "nonzero (snapshot_at ?old)"
    using assms(1) by (cases "snapshot_at ?old") (auto simp: nonzero_def)
  have old: "num_or (jget ?old ''updated_at'') 0 = snapshot_at ?old" by (simp add: snapshot_at_def)

  have "\<not> snapshot_at (plget m ''context'') < snapshot_at ?old"
    if "\<not> (nonzero ?i \<and> ?i < snapshot_at ?old)" "nonzero ?i \<or> ?i = snapshot_at ?old"
    using that nz assms(2) by auto
  then show ?thesis
    using nz truthy_snapshot [OF assms(1)]
    unfolding update_cache_def Let_def old newer_def
    using assms(2) by (simp split: if_split)
qed

lemma cache_kind_forward:
  assumes "name \<in> set cached_names" "Fin 0 < snapshot_at (mget t c name)"
    and "incoming_at m = snapshot_at (plget m ''context'')"
  shows "\<not> snapshot_at (mget t (fst (cache_kind t now f m c)) name) < snapshot_at (mget t c name)"
proof -

  have n: "name \<noteq> ''security_light_engine_communication_failed''" "tkey t name \<noteq> ''sun_below_horizon''"
    "name \<noteq> episode_key ''people_context_v1''" "name \<noteq> episode_key ''vehicle_primary_context_v1''"
    using assms(1) by (auto simp: tkey_def episode_key_def)
  have sun: "mget t (fset c ''sun_below_horizon'' v) name = mget t c name" for v
    using n by (simp add: mget_def)
  have fail: "mget t (sset t c ''security_light_engine_communication_failed'' v) name = mget t c name" for v
    using n by (simp add: mget_def sset_def)
  show ?thesis
    using n sun fail update_cache_forward [OF assms(2,3)] update_cache_other [of name _ t now f m c]
    by (cases "name = ''people_context_v1''"; cases "name = ''vehicle_primary_context_v1''")
      (simp_all add: cache_kind_def Let_def)
qed

lemma reset_frame: "k \<notin> set reset_names \<Longrightarrow> mget t (test_reset t m c) k = mget t c k"
proof -
  assume k: "k \<notin> set reset_names"
  have "k \<notin> set ks \<Longrightarrow> mget True (fold (\<lambda>k c. mset True c k JNull) ks c) k = mget True c k" for ks
    by (induction ks arbitrary: c) auto
  then show ?thesis using k by (simp add: test_reset_def)
qed

lemma context_flow_frame:
  assumes "context_cache e c m = Emit c1 d1"
    and "k \<notin> {excursion_key, watch_key, pending_key, pending_map_key}"
  shows "mget (lx_test d1) (ctx_of (context_flow e c m)) k = mget (lx_test d1) c1 k"
proof -
  let ?K = "{excursion_key, watch_key, pending_key, pending_map_key}"
  obtain c2 d2 d3 c4 d4 c5 d5 where u: "local_excursion c1 d1 = Emit c2 d2"
    "engine_on_near_home c2 d2 = Emit c2 d3" "arrival_watch c2 d3 = Emit c4 d4"
    "pending_validate c4 m d4 = Emit c5 d5"
    "context_flow e c m = (if replay_ready d5 then wire (replay_build c5 d5) context_output
       else context_output c5 d5)" "kept d1 d2" "kept d1 d3" "kept d1 d4"
    by (rule context_flow_unroll [OF assms(1)]) (rule that)
  note t = u(6-8) [THEN kept_test]
  have "same_but (lx_test d1) ?K c1 c2"
    by (rule same_but_mono [of _ "{excursion_key}"]) (use frame_local_excursion [of d1 c1] u in auto)
  also have "same_but (lx_test d1) ?K c2 c4"
    by (rule same_but_mono [of _ "{watch_key}"]) (use frame_arrival_watch [of d3 c2] u t in auto)
  also have "same_but (lx_test d1) ?K c4 c5"
    by (rule same_but_mono [of _ "{pending_key, pending_map_key}"])
      (use frame_pending_validate [of d4 c4 m] u t in auto)
  finally have "mget (lx_test d1) c5 k = mget (lx_test d1) c1 k" using assms(2) by (rule same_but_mget)
  then show ?thesis by (simp only: u(5) replay_output_ctx)
qed

text \<open>The context caches are monotone. When a message's time stamp is the one of the snapshot it
  carries, no message makes the cached people or vehicle snapshot older: late and repeated snapshots
  are rejected, whatever episode they fall into.\<close>

theorem cache_never_goes_back:
  assumes "name \<in> set cached_names" and "Fin 0 < snapshot_at (mget (test_msg m) c name)"
    and "incoming_at m = snapshot_at (plget m ''context'')"
  shows "\<not> snapshot_at (mget (test_msg m) (ctx_of (context_flow e c m)) name)
           < snapshot_at (mget (test_msg m) c name)"
proof (cases "policies_ready c")
  case True
  let ?t = "test_msg m"
  obtain c1 d1 where 1: "context_cache e c m = Emit c1 d1"
    "c1 = fst (cache_kind ?t (clock e) (future_ms (location_policy c)) m (test_reset ?t m c))"
    using True by (simp add: context_cache_def Let_def)
  have r: "mget ?t (test_reset ?t m c) name = mget ?t c name"
    by (rule reset_frame) (use assms(1) in \<open>auto simp: reset_names_def\<close>)
  have "mget ?t (ctx_of (context_flow e c m)) name = mget ?t c1 name"
    using context_flow_frame [OF 1(1), of name] context_cache_test [OF 1(1)] assms(1) by auto
  then show ?thesis
    using cache_kind_forward [OF assms(1) _ assms(3), of ?t "test_reset ?t m c"] assms(2) r 1(2) by simp
next
  case False
  then show ?thesis
    by (simp add: context_flow_def context_cache_def)
qed

section \<open>Two probes at most\<close>

definition attempts_ok :: "jv \<Rightarrow> bool" where
  "attempts_ok w = ((w = JUndef \<or> is_obj w) \<and> watch_attempts w \<in> set [Fin 0, Fin 1, Fin 2])"

definition watches_ok :: "jv \<Rightarrow> bool" where
  "watches_ok ws = list_all (\<lambda>s. attempts_ok (jget ws s)) residents"

definition stored_watches :: "bool \<Rightarrow> ctx \<Rightarrow> jv" where
  "stored_watches t c = jget (sget t c watch_key) ''residents''"

definition is_probe :: "jv \<Rightarrow> bool" where
  "is_probe req = (plget req ''kind'' = JStr ''arrival_location_refresh'')"

definition probe_ok :: "jv \<Rightarrow> bool" where
  "probe_ok req = (is_probe req \<longrightarrow> plget req ''attempt'' \<in> set [JNum 1, JNum 2])"

lemma attempts_ok_jset: "k \<noteq> ''attempts'' \<Longrightarrow> attempts_ok w \<Longrightarrow> attempts_ok (jset w k v)"
  by (cases w) (auto simp: attempts_ok_def watch_attempts_def update_conv')

lemma watch_observed_ok: "attempts_ok w \<Longrightarrow> attempts_ok (watch_observed d w r)"
  by (cases "is_obj w") (auto simp: attempts_ok_def watch_observed_def watch_attempts_def jget_jsets)

lemma failed_not_probe: "probe_ok (refresh_failed_request d s w r)"
  by (simp add: probe_ok_def is_probe_def refresh_failed_request_def plget_def payload_def)

definition step_ok :: "watch_step \<Rightarrow> bool" where
  "step_ok st = ((case ws_watch st of None \<Rightarrow> True | Some w \<Rightarrow> attempts_ok w) \<and>
     list_all probe_ok (ws_requests st))"

lemma step_ok_made: "step_ok \<lparr>ws_watch = w, ws_arrival = a, ws_requests = rs, ws_warned = b\<rparr> =
  ((case w of None \<Rightarrow> True | Some w \<Rightarrow> attempts_ok w) \<and> list_all probe_ok rs)"
  by (simp add: step_ok_def)

lemma watch_probe_ok:
  assumes "attempts_ok w" "is_obj w"
  shows "step_ok (watch_probe d s w r)"
proof -
  let ?x = "watch_near_home r \<and> \<not> position_current d r \<and> Fin 2 \<le> watch_attempts w \<and>
    jget w ''failure_reported'' \<noteq> JTrue"
  let ?w1 = "if ?x then jset w ''failure_reported'' JTrue else w"
  have 1: "attempts_ok ?w1" "is_obj ?w1" using assms attempts_ok_jset by auto
  have "watch_attempts ?w1 = Fin 0 \<or> watch_attempts ?w1 = Fin 1" if "watch_due d ?w1 r"
    using 1(1) that by (auto simp: watch_due_def attempts_ok_def Let_def)
  then have 2: "attempts_ok (jsets ?w1 [(''attempts'', JNum (watch_attempts ?w1 + Fin 1)),
      (''last_refresh_at'', JNum (lx_now d)), (''waiting_for_callback'', JTrue)])"
    "JNum (watch_attempts ?w1 + Fin 1) \<in> set [JNum 1, JNum 2]" if "watch_due d ?w1 r"
    using 1(2) that by (auto simp: attempts_ok_def watch_attempts_def jget_jsets)
  have 3: "probe_ok (refresh_request d s (jsets ?w1 [(''attempts'', JNum (watch_attempts ?w1 + Fin 1)),
      (''last_refresh_at'', JNum (lx_now d)), (''waiting_for_callback'', JTrue)]) n)"
    if "watch_due d ?w1 r" for n
    using 2(2) [OF that] 1(2) by (simp add: probe_ok_def refresh_request_def plget_def payload_def jget_jsets)
  show ?thesis
    using 1 2(1) 3 failed_not_probe by (simp add: watch_probe_def step_ok_def Let_def)
qed

lemma watch_resident_ok:
  assumes "attempts_ok w" "is_obj w"
  shows "step_ok (watch_resident d s w)"
proof -
  have 1: "attempts_ok (watch_observed d w r)" "is_obj (watch_observed d w r)" for r
    using assms watch_observed_ok by (auto simp: watch_observed_def)
  have 2: "attempts_ok (jset (watch_observed d w r) ''waiting_for_callback'' v)"
    "is_obj (jset (watch_observed d w r) ''waiting_for_callback'' v)" for r v
    using 1 attempts_ok_jset by auto
  show ?thesis
    using watch_probe_ok [OF 1] watch_probe_ok [OF 2] 2(1)
    by (simp add: watch_resident_def Let_def step_ok_made)
qed

lemma watches_ok_update:
  assumes "watches_ok ws" "is_obj ws" "attempts_ok w"
  shows "watches_ok (jset ws s w)" "watches_ok (jdel ws s)"
  using assms by (auto simp: watches_ok_def residents_def jget_jset attempts_ok_def watch_attempts_def)

lemma watch_all_ok:
  assumes "watches_ok ws" "list_all probe_ok (lx_requests d)" "set ss \<subseteq> set residents"
  shows "watches_ok (fst (watch_all d0 ss (ws, c, d))) \<and>
    list_all probe_ok (lx_requests (snd (snd (watch_all d0 ss (ws, c, d)))))"
  using assms
proof (induction d0 ss "(ws, c, d)" arbitrary: ws c d rule: watch_all.induct)
  case (2 d0 source rest ws c d)
  let ?w = "jget ws source" and ?st = "watch_resident d0 source (jget ws source)"
  show ?case
  proof (cases "truthy ?w")
    case True
    have o: "is_obj ws" using True by (cases ws) auto
    have w: "attempts_ok ?w" using "2.prems"(1,3) by (auto simp: watches_ok_def list_all_iff)
    then have ow: "is_obj ?w" using True by (auto simp: attempts_ok_def)
    note r = watch_resident_ok [OF w ow, of d0 source]
    have 1: "watches_ok (case ws_watch ?st of None \<Rightarrow> jdel ws source | Some w \<Rightarrow> jset ws source w)"
      using r watches_ok_update [OF "2.prems"(1) o] w by (simp add: step_ok_def split: option.splits)
    show ?thesis
      using True 2(2) [OF _ refl 1] "2.prems" r by (simp add: Let_def step_ok_def)
  next
    case False
    then show ?thesis using 2 by simp
  qed
qed simp

lemma arrival_watch_ok:
  assumes "watches_ok (stored_watches (lx_test d) c)" "lx_requests d = []" "arrival_watch c d = Emit c' d'"
  shows "watches_ok (stored_watches (lx_test d) c') \<and> list_all probe_ok (lx_requests d')"
proof (cases "jget (sget (lx_test d) c watch_key) ''version'' \<noteq> JNum 1 \<or> \<not> truthy (stored_watches (lx_test d) c)")
  case True
  then show ?thesis using assms by (simp add: arrival_watch_def stored_watches_def Let_def)
next
  case False
  let ?s = "sget (lx_test d) c watch_key" and ?ws = "stored_watches (lx_test d) c"
  obtain ws c1 d1 where w: "watch_all d residents (?ws, c, d) = (ws, c1, d1)" by (metis prod_cases3)
  have "watches_ok ws \<and> list_all probe_ok (lx_requests d1)"
    using watch_all_ok [of ?ws d residents d c] assms(1,2) by (simp add: w)
  moreover have "is_obj ?s" using False by (cases ?s) auto
  ultimately show ?thesis
    using False assms(3) w by (auto simp: arrival_watch_def stored_watches_def Let_def)
qed

lemma context_cache_requests: "context_cache e c m = Emit c' d \<Longrightarrow> lx_requests d = []"
  by (auto simp: context_cache_def context_build_def Let_def split: if_splits)

lemma context_output_ports:
  "(if replay_ready d then wire (replay_build c d) context_output else context_output c d) = Emit c' ps \<Longrightarrow>
   c' = c \<and> port 3 ps = lx_requests d"
  by (auto simp: replay_build_def context_output_def eval_nat_numeral split: if_splits)

lemma sget_cache_kind:
  assumes "k \<in> {excursion_key, watch_key, pending_key, pending_map_key}"
  shows "sget t (fst (cache_kind t now f m c)) k = sget t c k"
proof -
  have other: "k \<noteq> ''security_light_engine_communication_failed''"
    using assms by auto
  have sun: "sget t (fset c ''sun_below_horizon'' v) k = sget t c k" for v
    using assms by (auto simp: sget_def tkey_def)
  have m: "sget t (mset t c n v) k = sget t c k" if "k \<noteq> n" for c n v
    using that by (simp add: sget_def mset_def)
  have "k \<noteq> n" "k \<noteq> episode_key n" if "n \<in> set cached_names" for n
    using assms that by (auto simp: episode_key_def)
  then have "sget t (fst (update_cache t now f m n c)) k = sget t c k" if "n \<in> set cached_names" for n
    using that by (simp add: update_cache_def reject_snapshot_def end_episode_def m Let_def)
  with other show ?thesis by (simp add: cache_kind_def sun Let_def)
qed

lemma sget_test_reset: "sget t (test_reset t m c) k = sget t c k \<or> sget t (test_reset t m c) k = JNull"
proof -
  have "sget True (fold (\<lambda>k c. mset True c k JNull) ks c) k = sget True c k \<or>
     sget True (fold (\<lambda>k c. mset True c k JNull) ks c) k = JNull" for ks
  proof (induction ks arbitrary: c)
    case (Cons x ks)
    have "sget True (mset True c x JNull) k = sget True c k \<or> sget True (mset True c x JNull) k = JNull"
      by (simp add: sget_def mset_def)
    then show ?case using Cons [of "mset True c x JNull"] by auto
  qed simp
  then show ?thesis by (simp add: test_reset_def)
qed

text \<open>A watched approach is probed at most twice without new evidence. If every stored watch has
  made at most two attempts, then so has every watch after a context message, and each location
  probe the flow sends is numbered one or two.\<close>

theorem watch_two_probes:
  assumes "watches_ok (stored_watches (test_msg m) c)" and "context_flow e c m = Emit c' ps"
  shows "watches_ok (stored_watches (test_msg m) c') \<and> list_all probe_ok (port 3 ps)"
proof -
  let ?t = "test_msg m"
  have "policies_ready c"
    using assms(2) by (auto simp: context_flow_def context_cache_def split: if_splits)
  then obtain c1 d1 where 1: "context_cache e c m = Emit c1 d1"
    "c1 = fst (cache_kind ?t (clock e) (future_ms (location_policy c)) m (test_reset ?t m c))"
    by (simp add: context_cache_def Let_def)
  obtain c2 d2 d3 c4 d4 c5 d5 where u: "local_excursion c1 d1 = Emit c2 d2"
    "engine_on_near_home c2 d2 = Emit c2 d3" "arrival_watch c2 d3 = Emit c4 d4"
    "pending_validate c4 m d4 = Emit c5 d5"
    "context_flow e c m = (if replay_ready d5 then wire (replay_build c5 d5) context_output
       else context_output c5 d5)" "kept d1 d3" "kept d1 d4"
    "lx_requests d3 = lx_requests d1" "lx_requests d5 = lx_requests d4"
    by (rule context_flow_unroll [OF 1(1)]) (rule that)
  have t: "lx_test d1 = ?t" "lx_test d3 = ?t" "lx_test d4 = ?t"
    using context_cache_test [OF 1(1)] u(6,7) [THEN kept_test] by simp_all
  have "stored_watches ?t c1 = stored_watches ?t c \<or> stored_watches ?t c1 = JUndef"
    using sget_test_reset [of ?t m c watch_key] 1(2) by (auto simp: stored_watches_def sget_cache_kind)
  moreover have "watches_ok JUndef"
    by (simp add: watches_ok_def residents_def attempts_ok_def watch_attempts_def)
  moreover have "stored_watches ?t c2 = stored_watches ?t c1"
    using frame_local_excursion [of d1 c1] u(1) t by (simp add: stored_watches_def same_but_def)
  ultimately have "watches_ok (stored_watches ?t c2)" using assms(1) by metis
  moreover have "lx_requests d3 = []"
    using u(8) context_cache_requests [OF 1(1)] by simp
  ultimately have 4: "watches_ok (stored_watches ?t c4)" "list_all probe_ok (lx_requests d4)"
    using arrival_watch_ok [of d3 c2 c4 d4] t(2) u(3) by auto
  have "stored_watches ?t c5 = stored_watches ?t c4"
    using frame_pending_validate [of d4 c4 m] u(4) t by (simp add: stored_watches_def same_but_def)
  then show ?thesis
    using 4 context_output_ports assms(2) u(5,9) by metis
qed

section \<open>What proves a return\<close>

lemma track_valid_obj: "track_valid d cycle tr \<Longrightarrow> is_obj tr"
  by (cases tr) (auto simp: track_valid_def track_fields_def)

lemma track_valid_cong:
  "jget cycle' ''started_at'' = jget cycle ''started_at'' \<Longrightarrow> track_valid d cycle' tr = track_valid d cycle tr"
  by (simp add: track_valid_def)

lemma gps_usableD:
  assumes "gps_usable d cycle r"
  shows "num_fin (jget r ''updated_at'')" "num_fin (jget r ''distance_m'')" "num_fin (jget r ''gps_accuracy'')"
    "\<not> to_num (jget r ''updated_at'') < to_num (jget cycle ''started_at'')"
    "\<not> lx_now d + lx_future d < to_num (jget r ''updated_at'')"
    "Fin 0 < to_num (jget (lx_policy d) ''local_return_progress_m'')"
  using assms by (auto simp: gps_usable_def num_ge0_def Let_def)

lemma track_start_valid: "gps_usable d cycle r \<Longrightarrow> track_valid d cycle (track_start r)"
  using gps_usableD [of d cycle r]
  by (simp add: track_valid_def track_fields_def track_start_def Let_def)

definition farther :: "jv \<Rightarrow> jv \<Rightarrow> bool" where
  "farther tr r = (to_num (jget tr ''peak_distance'') < to_num (jget r ''distance_m''))"

lemma track_step_get:
  assumes "is_obj tr"
  shows "jget (track_step d cycle tr r) ''first_at'' = jget tr ''first_at''"
    "jget (track_step d cycle tr r) ''first_distance'' = jget tr ''first_distance''"
    "jget (track_step d cycle tr r) ''first_accuracy'' = jget tr ''first_accuracy''"
    "jget (track_step d cycle tr r) ''peak_at'' = (if farther tr r then jget r ''updated_at'' else jget tr ''peak_at'')"
    "jget (track_step d cycle tr r) ''peak_distance'' = (if farther tr r then jget r ''distance_m'' else jget tr ''peak_distance'')"
    "jget (track_step d cycle tr r) ''peak_accuracy'' = (if farther tr r then jget r ''gps_accuracy'' else jget tr ''peak_accuracy'')"
    "jget (track_step d cycle tr r) ''last_at'' = jget r ''updated_at''"
    "jget (track_step d cycle tr r) ''last_distance'' = jget r ''distance_m''"
    "jget (track_step d cycle tr r) ''last_accuracy'' = jget r ''gps_accuracy''"
    "jget (track_step d cycle tr r) ''returning'' = JBool (track_returning d cycle tr r)"
  using assms by (simp_all add: track_step_def farther_def jget_jsets Let_def)

lemma track_step_valid:
  assumes u: "gps_usable d cycle r" and v: "track_valid d cycle tr"
    and n: "to_num (jget tr ''last_at'') < to_num (jget r ''updated_at'')"
  shows "track_valid d cycle (track_step d cycle tr r)"
proof -
  have o: "is_obj tr" using v by (rule track_valid_obj)
  note g = gps_usableD [OF u]
  obtain f p l t where x: "jget tr ''first_at'' = JNum (Fin f)" "jget tr ''peak_at'' = JNum (Fin p)"
    "jget tr ''last_at'' = JNum (Fin l)" "jget r ''updated_at'' = JNum (Fin t)"
    using v g(1) by (auto simp: track_valid_def track_fields_def num_fin_iff)
  have le: "f \<le> p" "p \<le> l" "l < t" using v n x by (simp_all add: track_valid_def)
  have rest: "num_fin (jget tr ''first_distance'')" "num_fin (jget tr ''first_accuracy'')"
    "num_fin (jget tr ''peak_distance'')" "num_fin (jget tr ''peak_accuracy'')"
    "\<not> Fin f < to_num (jget cycle ''started_at'')"
    using v x by (simp_all add: track_valid_def track_fields_def)
  show ?thesis
    unfolding track_valid_def track_fields_def list.pred_inject track_step_get [OF o]
    using le rest g x by simp
qed

lemma gps_follow_valid:
  assumes "is_obj cycle" "gps_usable d cycle r" "track_valid d cycle tr"
  shows "track_valid d (fst (gps_follow d cycle tr r)) (jget (fst (gps_follow d cycle tr r)) ''gps_return_evidence'')"
proof -
  have c: "track_valid d (jset cycle ''gps_return_evidence'' t) tr' = track_valid d cycle tr'" for t tr'
    by (rule track_valid_cong) simp
  show ?thesis
    using assms track_step_valid [OF assms(2,3)] by (simp add: gps_follow_def Let_def c)
qed

text \<open>The GPS track stays in order. Whatever the stored track of an excursion looks like, after a
  usable position it is either absent or complete, with its first, farthest and last observation in
  that order, none before the excursion began and none in the future.\<close>

theorem gps_track_in_order:
  assumes "is_obj cycle" and "gps_usable d cycle r"
  shows "let cycle' = fst (local_gps_return d cycle r); tr = jget cycle' ''gps_return_evidence'' in
    truthy tr \<longrightarrow> track_valid d cycle' tr"
proof -
  have "gps_usable d (jdel cycle ''gps_return_evidence'') r" using assms(2) by (simp add: gps_usable_def)
  then show ?thesis
    using assms gps_follow_valid [OF assms] gps_follow_valid [OF _ _ track_start_valid]
    by (simp add: local_gps_return_def Let_def)
qed

lemma track_proves_started: "\<not> track_proves cycle (track_start r) r'"
  by (simp add: track_proves_def track_start_def Let_def)

lemma gps_follow_start: "\<not> snd (gps_follow d cycle (track_start r) r)"
  by (simp add: gps_follow_def track_proves_started Let_def) (simp add: track_start_def Let_def)

text \<open>A return by GPS is a round trip. When a new position makes the evidence positive, the stored
  track was a valid one whose farthest point came after the first, lies beyond the movement threshold
  and is farther from home by the configured progress (and by the accuracy of the fixes) than both
  the first and the new position; and the engine had been seen on before the farthest point.\<close>

theorem gps_return_is_round_trip:
  fixes d cycle r
  defines "tr \<equiv> jget cycle ''gps_return_evidence''"
  assumes "snd (local_gps_return d cycle r)"
    and "to_num (jget tr ''last_at'') < to_num (jget r ''updated_at'')" and "is_obj cycle"
  shows "track_valid d cycle tr \<and> track_returning d cycle tr r \<and>
    to_num (jget cycle ''departure_engine_on_seen_at'') \<le> to_num (jget tr ''peak_at'') \<and>
    to_num (jget r ''distance_m'') < to_num (jget tr ''peak_distance'')"
proof -
  have u: "gps_usable d cycle r" and v: "truthy tr" "track_valid d cycle tr"
    using assms(2) gps_follow_start by (auto simp: local_gps_return_def tr_def Let_def split: if_splits)
  let ?t' = "track_step d cycle tr r"
  have o: "is_obj tr" using v(2) by (rule track_valid_obj)
  have "\<not> to_num (jget r ''updated_at'') < to_num (jget tr ''last_at'')"
    using assms(3) by (auto dest: jnum_less_asym jnum_less_imp_le)
  then have p: "track_proves (jset cycle ''gps_return_evidence'' ?t') ?t' r"
    using assms(2,3) u v by (simp add: local_gps_return_def gps_follow_def tr_def [symmetric] Let_def)
  then have ret: "track_returning d cycle tr r"
    by (simp add: track_proves_def track_step_get [OF o])
  obtain x y where xy: "jget r ''distance_m'' = JNum (Fin x)" "jget tr ''peak_distance'' = JNum (Fin y)"
    using gps_usableD(2) [OF u] v(2) by (auto simp: track_valid_def track_fields_def num_fin_iff)
  have pos: "Fin 0 < to_num (jget (lx_policy d) ''local_return_progress_m'')" using gps_usableD [OF u] by simp
  let ?pr = "to_num (jget (lx_policy d) ''local_return_progress_m'')"
  let ?a = "to_num (jget tr ''peak_accuracy'') + to_num (jget r ''gps_accuracy'')"
  have "jmax ?pr ?a \<le> Fin (y - x)" using ret xy by (simp add: track_returning_def Let_def)
  then have "?pr \<le> Fin (y - x)" using pos by (cases ?pr; cases ?a) (auto simp: jmax_def split: if_splits)
  then have less: "x < y" using pos by (cases ?pr) auto
  then have "jget ?t' ''peak_at'' = jget tr ''peak_at''"
    using xy by (simp add: track_step_get [OF o] farther_def)
  then show ?thesis using p v(2) ret less xy by (simp add: track_proves_def)
qed

lemma least_by_mem: "least_by f xs = Some x \<Longrightarrow> x \<in> set xs"
  by (induction xs arbitrary: x) (auto split: option.splits if_splits)

lemma excursion_arrival_get:
  "plget (excursion_arrival d rs gps s) ''source'' = JStr s"
  "plget (excursion_arrival d rs gps s) ''local_return_evidence'' =
     JStr (if jget gps s = JTrue then ''gps_round_trip'' else ''engine_stop_restart'')"
  "plget (excursion_arrival d rs gps s) ''arrival_stage'' = JStr ''local_return''"
  by (simp_all add: excursion_arrival_def mark_test_arrival_def plget_plsets plget_def payload_def
      plsets_def jget_jsets Let_def)

lemma truthy_excursion_arrival: "truthy (excursion_arrival d rs gps s)"
  by (simp add: excursion_arrival_def mark_test_arrival_def plsets_def Let_def)


section \<open>Pending arrivals\<close>

lemma complete_pending_get:
  "jget (complete_pending d p r) ''expires_at'' = JNum (jmin (num_or (jget p ''expires_at'') 0)
     (lx_now d + minutes (lx_location d) ''arrival_recovery_minutes''))"
  by (simp add: complete_pending_def jget_jsets)

lemma jmin_le: "fin x \<Longrightarrow> fin y \<Longrightarrow> jmin x y \<le> x"
  by (cases x; cases y) auto

text \<open>A pending arrival never outlives its window. What the flow keeps of a pending arrival has
  not expired and expires no later than before, also when a confirmed return home completes it; and
  an explicit permission to replay it is given only while its resident's position is current and
  near home or home.\<close>

theorem pending_never_extended:
  assumes "judge_pending d p = (Some q, v)"
    and "fin (lx_now d)" and "fin (minutes (lx_location d) ''arrival_recovery_minutes'')"
  shows "lx_now d \<le> num_or (jget p ''expires_at'') 0 \<and>
    num_or (jget q ''expires_at'') 0 \<le> num_or (jget p ''expires_at'') 0 \<and>
    (v = Some True \<longrightarrow> (let r = jget (lx_people d) (to_str (jget p ''source'')) in
       position_current d r \<and> jget r ''state'' \<in> set [JStr ''near_home'', JStr ''home'']))"
proof -
  have w: "pending_window d p" using assms(1) by (auto simp: judge_pending_def split: if_splits)
  then have x: "fin (num_or (jget p ''expires_at'') 0)" "lx_now d \<le> num_or (jget p ''expires_at'') 0"
    by (simp_all add: pending_window_def Let_def)
  have same: "num_or (jget p ''expires_at'') 0 \<le> num_or (jget p ''expires_at'') 0"
    using x(1) by (auto simp: fin_iff)
  have less: "num_or (jget (complete_pending d p r) ''expires_at'') 0 \<le> num_or (jget p ''expires_at'') 0" for r
    using jmin_le x(1) assms(2,3) by (simp add: complete_pending_get)
  show ?thesis
    using assms(1) w x(2) same less
    by (auto simp: judge_pending_def confirmed_home_def Let_def split: if_splits)
qed

lemma unsuffixed_frame:
  assumes "same_but t K c c'" "t \<longrightarrow> isolated c c'" "k \<notin> K" "\<not> test_key k"
  shows "fmem c' k = fmem c k"
  using assms by (cases t) (auto simp: isolated_def same_but_def mget_def tkey_def)

lemma context_flags: "context_cache e c m = Emit c1 d1 \<Longrightarrow>
  lx_sun_ready d1 = (fmem c1 ''sun_ready'' = JTrue) \<and> lx_dark d1 = (fmem c1 ''sun_below_horizon'' = JTrue)"
  by (auto simp: context_cache_def context_build_def Let_def split: if_splits)

lemma replay_port:
  "(if replay_ready d then wire (replay_build c d) context_output else context_output c d) = Emit c' ps \<Longrightarrow>
   port 2 ps \<noteq> [] \<Longrightarrow> lx_replay d = None \<Longrightarrow> replay_ready d"
  by (auto simp: context_output_def one_of_def eval_nat_numeral split: if_splits)

lemma context_cache_replay: "context_cache e c m = Emit c1 d1 \<Longrightarrow> lx_replay d1 = None"
  by (auto simp: context_cache_def context_build_def Let_def split: if_splits)

text \<open>Arrivals are replayed in the dark only. Whenever the context path sends a stored or rebuilt
  arrival on to the lighting decision, the sun context has been received and says it is dark.\<close>

theorem replay_only_in_the_dark:
  assumes "context_flow e c m = Emit c' ps" and "port 2 ps \<noteq> []"
  shows "fmem c' ''sun_ready'' = JTrue \<and> fmem c' ''sun_below_horizon'' = JTrue"
proof -
  obtain c1 d1 where 1: "context_cache e c m = Emit c1 d1"
    using assms(1) by (auto simp: context_flow_def wire_Emit_iff)
  obtain c2 d2 d3 c4 d4 c5 d5 where u: "local_excursion c1 d1 = Emit c2 d2"
    "engine_on_near_home c2 d2 = Emit c2 d3" "arrival_watch c2 d3 = Emit c4 d4"
    "pending_validate c4 m d4 = Emit c5 d5"
    "context_flow e c m = (if replay_ready d5 then wire (replay_build c5 d5) context_output
       else context_output c5 d5)" "kept d1 d5"
    by (rule context_flow_unroll [OF 1]) (rule that)
  have t: "lx_test d1 \<longrightarrow> isolated c1 c2" "lx_test d3 \<longrightarrow> isolated c2 c4" "lx_test d4 \<longrightarrow> isolated c4 c5"
    using u local_excursion_step [of c1 d1] arrival_watch_step [of c2 d3] pending_validate_step [of c4 m d4]
    by auto
  have f: "fmem c5 k = fmem c1 k" if "k = ''sun_ready'' \<or> k = ''sun_below_horizon''" for k
  proof -
    have k: "k \<notin> {excursion_key}" "k \<notin> {watch_key}" "k \<notin> {pending_key, pending_map_key}" "\<not> test_key k"
      using that by (auto simp: test_key_def)
    have "fmem c2 k = fmem c1 k"
      using unsuffixed_frame [OF frame_local_excursion [of d1 c1] _ k(1,4)] u t by simp
    moreover have "fmem c4 k = fmem c2 k"
      using unsuffixed_frame [OF frame_arrival_watch [of d3 c2] _ k(2,4)] u t by simp
    moreover have "fmem c5 k = fmem c4 k"
      using unsuffixed_frame [OF frame_pending_validate [of d4 c4 m] _ k(3,4)] u t by simp
    ultimately show ?thesis by simp
  qed
  have "lx_replay d5 = None" using context_cache_replay [OF 1] u(6) by (simp add: kept_def)
  then have "replay_ready d5" using replay_port assms u(5) by metis
  then have "lx_sun_ready d1" "lx_dark d1" using u(6) by (simp_all add: replay_ready_def kept_def)
  moreover have "c' = c5" using assms(1) u(5) context_output_ports by metis
  ultimately show ?thesis using context_flags [OF 1] f by auto
qed

section \<open>Concrete runs\<close>

lemma context_flow_emits: "policies_ready c \<Longrightarrow> emits (context_flow e c m)"
proof -
  assume "policies_ready c"
  then obtain c1 d1 where 1: "context_cache e c m = Emit c1 d1" by (simp add: context_cache_def Let_def)
  obtain c5 d5 where "context_flow e c m = (if replay_ready d5 then wire (replay_build c5 d5) context_output
       else context_output c5 d5)"
    by (rule context_flow_unroll [OF 1]) (rule that)
  then show ?thesis by (simp add: replay_build_def context_output_def)
qed

text \<open>The primary resident left by car at 100 s, was farthest from home (600 m) at 300 s and is now
  back at 200 m.\<close>

definition trip_track :: jv where
  "trip_track = JObj [(''first_distance'', JNum 150), (''first_accuracy'', JNum 10), (''first_at'', JNum 150000),
     (''peak_distance'', JNum 600), (''peak_accuracy'', JNum 10), (''peak_at'', JNum 300000),
     (''last_at'', JNum 300000), (''last_distance'', JNum 600), (''last_accuracy'', JNum 10),
     (''returning'', JFalse)]"

definition trip_cycle :: jv where
  "trip_cycle = JObj [(''started_at'', JNum 100000), (''expires_at'', JNum 5000000),
     (''departure_engine_on_seen_at'', JNum 110000), (''engine_off_seen_at'', JNum 350000),
     (''consumed_at'', JNull), (''gps_return_evidence'', trip_track)]"

definition trip_position :: jv where
  "trip_position = JObj [(''ready'', JTrue), (''stale'', JFalse), (''location_reliable'', JTrue),
     (''state'', JStr ''near_home''), (''current_home'', JFalse), (''updated_at'', JNum 400000),
     (''distance_m'', JNum 200), (''gps_accuracy'', JNum 10)]"

definition trip_context :: "ctx \<Rightarrow> lctx" where
  "trip_context c = (context_build (host_at 400000) c (JObj []) True)\<lparr>
     lx_engine_allowed := True,
     lx_vehicle := JObj [(''telemetry_updated_at'', JNum 390000)],
     lx_people := JObj [(''resident_primary'', trip_position),
       (''local_excursions'', JObj [(''resident_primary'', trip_cycle)])]\<rparr>"

lemma trip_fields [simp]:
  "lx_now (trip_context default_policies) = Fin 400000"
  "lx_future (trip_context default_policies) = Fin 60000"
  "lx_location (trip_context default_policies) = std_location"
  "lx_policy (trip_context default_policies) = std_light"
  "lx_test (trip_context default_policies) = False"
  "lx_engine_allowed (trip_context default_policies)"
  "lx_vehicle (trip_context default_policies) = JObj [(''telemetry_updated_at'', JNum 390000)]"
  "lx_people (trip_context default_policies) = JObj [(''resident_primary'', trip_position),
       (''local_excursions'', JObj [(''resident_primary'', trip_cycle)])]"
  "lx_arrival (trip_context default_policies) = JUndef"
  "lx_kind (trip_context default_policies) = JUndef"
  by (simp_all add: trip_context_def context_build_def evaluate)

lemma trip_track_get [simp]:
  "jget trip_track ''first_distance'' = JNum 150" "jget trip_track ''first_accuracy'' = JNum 10"
  "jget trip_track ''first_at'' = JNum 150000" "jget trip_track ''peak_distance'' = JNum 600"
  "jget trip_track ''peak_accuracy'' = JNum 10" "jget trip_track ''peak_at'' = JNum 300000"
  "jget trip_track ''last_at'' = JNum 300000" "jget trip_track ''last_distance'' = JNum 600"
  "jget trip_track ''last_accuracy'' = JNum 10" "is_obj trip_track" "truthy trip_track"
  by (simp_all add: trip_track_def)

lemma trip_cycle_get [simp]:
  "jget trip_cycle ''started_at'' = JNum 100000" "jget trip_cycle ''expires_at'' = JNum 5000000"
  "jget trip_cycle ''departure_engine_on_seen_at'' = JNum 110000"
  "jget trip_cycle ''engine_off_seen_at'' = JNum 350000" "jget trip_cycle ''consumed_at'' = JNull"
  "jget trip_cycle ''gps_return_evidence'' = trip_track" "is_obj trip_cycle" "truthy trip_cycle"
  by (simp_all add: trip_cycle_def)

lemma trip_position_get [simp]:
  "jget trip_position ''ready'' = JTrue" "jget trip_position ''stale'' = JFalse"
  "jget trip_position ''location_reliable'' = JTrue" "jget trip_position ''state'' = JStr ''near_home''"
  "jget trip_position ''current_home'' = JFalse" "jget trip_position ''updated_at'' = JNum 400000"
  "jget trip_position ''distance_m'' = JNum 200" "jget trip_position ''gps_accuracy'' = JNum 10"
  by (simp_all add: trip_position_def)

lemma trip_usable: "gps_usable (trip_context default_policies) trip_cycle trip_position"
  by (simp add: gps_usable_def num_ge0_def minutes_def param_def Let_def)

lemma trip_valid: "track_valid (trip_context default_policies) trip_cycle trip_track"
  by (simp add: track_valid_def track_fields_def)

lemma trip_returning: "track_returning (trip_context default_policies) trip_cycle trip_track trip_position"
  by (simp add: track_returning_def param_def Let_def)

lemma trip_proves: "snd (local_gps_return (trip_context default_policies) trip_cycle trip_position)"
  using trip_usable trip_valid trip_returning
  by (simp add: local_gps_return_def gps_follow_def track_proves_def track_step_get farther_def Let_def)

theorem gps_track_in_order_witness:
  "let cycle' = fst (local_gps_return (trip_context default_policies) trip_cycle trip_position);
       tr = jget cycle' ''gps_return_evidence'' in
    truthy tr \<longrightarrow> track_valid (trip_context default_policies) cycle' tr"
  by (rule gps_track_in_order) (simp_all add: trip_usable)

theorem gps_return_is_round_trip_witness:
  "track_returning (trip_context default_policies) trip_cycle trip_track trip_position"
  using gps_return_is_round_trip [of "trip_context default_policies" trip_cycle trip_position] trip_proves
  by simp

theorem watch_two_probes_witness:
  "watches_ok (stored_watches False (ctx_of (context_flow (host_at 400000)
     (pset default_policies watch_key (JObj [(''version'', JNum 1), (''residents'',
        JObj [(''resident_primary'', JObj [(''attempts'', JNum 1)])])])) (JObj []))))"
proof -
  let ?c = "pset default_policies watch_key (JObj [(''version'', JNum 1), (''residents'',
        JObj [(''resident_primary'', JObj [(''attempts'', JNum 1)])])])"
  let ?r = "context_flow (host_at 400000) ?c (JObj [])"
  have "policies_ready ?c" by (simp add: policies_ready_def)
  then obtain ps where r: "?r = Emit (ctx_of ?r) ps" using emits_run [OF context_flow_emits] by blast
  have t: "test_msg (JObj []) = False" by (simp add: evaluate)
  have "watches_ok (stored_watches (test_msg (JObj [])) ?c)"
    by (simp add: t stored_watches_def watches_ok_def attempts_ok_def watch_attempts_def residents_def evaluate)
  then show ?thesis using watch_two_probes [OF _ r] by (simp add: t)
qed

definition people_message :: "jnum \<Rightarrow> jv" where
  "people_message x = JObj [(''payload'', JObj [(''kind'', JStr ''people_context''), (''updated_at'', JNum x),
     (''context'', JObj [(''updated_at'', JNum x)])])]"

theorem cache_never_goes_back_witness:
  "\<not> snapshot_at (mget False (ctx_of (context_flow (host_at 400000)
      (fset default_policies ''people_context_v1'' (JObj [(''updated_at'', JNum 300000)]))
      (people_message 200000))) ''people_context_v1'') < 300000"
proof -
  let ?c = "fset default_policies ''people_context_v1'' (JObj [(''updated_at'', JNum 300000)])"
  have t: "test_msg (people_message 200000) = False" by (simp add: people_message_def evaluate)
  have a: "''people_context_v1'' \<in> set cached_names" by simp
  have s: "snapshot_at (mget False ?c ''people_context_v1'') = Fin 300000" by (simp add: snapshot_at_def evaluate)
  have i: "incoming_at (people_message 200000) = snapshot_at (plget (people_message 200000) ''context'')"
    by (simp add: incoming_at_def snapshot_at_def people_message_def evaluate)
  show ?thesis
    using cache_never_goes_back [OF a _ i, of ?c "host_at 400000"] s t by simp
qed

text \<open>An arrival that waits in its recovery window.\<close>

definition waiting :: jv where
  "waiting = JObj [(''message'', JObj [(''payload'', JObj [(''kind'', JStr ''arrival'')])]),
     (''queued_at'', JNum 300000), (''expires_at'', JNum 1200000), (''retention'', JStr ''recovery_window''),
     (''source'', JStr ''resident_primary'')]"

lemma waiting_get [simp]:
  "jget waiting ''message'' = JObj [(''payload'', JObj [(''kind'', JStr ''arrival'')])]"
  "jget waiting ''queued_at'' = JNum 300000" "jget waiting ''expires_at'' = JNum 1200000"
  "jget waiting ''retention'' = JStr ''recovery_window''"
  "jget waiting ''source'' = JStr ''resident_primary''" "truthy waiting" "\<not> nullish waiting"
  "jget waiting ''version'' = JUndef"
  by (simp_all add: waiting_def)

lemma waiting_judged: "lx_now d = Fin 400000 \<Longrightarrow> lx_future d = Fin 60000 \<Longrightarrow> lx_location d = std_location \<Longrightarrow>
  judge_pending d waiting = (Some waiting, None)"
  by (simp add: judge_pending_def pending_window_def approach_pending_def minutes_def param_def num_or_def Let_def)

theorem pending_never_extended_witness:
  "lx_now (trip_context default_policies) \<le> num_or (jget waiting ''expires_at'') 0"
  using pending_never_extended [OF waiting_judged [of "trip_context default_policies"]]
  by (simp add: minutes_def param_def)


definition night_ctx :: ctx where
  "night_ctx = fset (fset (pset default_policies pending_key waiting) ''sun_ready'' JTrue)
     ''sun_below_horizon'' JTrue"

lemma night_reads [simp]:
  "glob night_ctx = glob default_policies"
  "fmem night_ctx = (\<lambda>_. JUndef)(''sun_ready'' := JTrue, ''sun_below_horizon'' := JTrue)"
  "fper night_ctx = (\<lambda>_. JUndef)(pending_key := waiting)"
  by (simp_all add: night_ctx_def)

definition night_context :: lctx where
  "night_context = context_build (host_at 400000) night_ctx (JObj []) True"

lemma night_fields [simp]:
  "lx_now night_context = Fin 400000" "lx_future night_context = Fin 60000"
  "lx_location night_context = std_location" "lx_test night_context = False"
  "lx_kind night_context = JUndef" "lx_engine_allowed night_context = False"
  "lx_lifecycle night_context = JObj []" "lx_sun_ready night_context" "lx_dark night_context"
  "lx_replay night_context = None" "lx_arrival night_context = JUndef"
  by (simp_all add: night_context_def context_build_def evaluate)

theorem replay_only_in_the_dark_witness:
  "fmem (ctx_of (context_flow (host_at 400000) night_ctx (JObj []))) ''sun_below_horizon'' = JTrue"
proof -
  let ?m = "JObj []" let ?f = "context_flow (host_at 400000) night_ctx ?m"
  have 1: "context_cache (host_at 400000) night_ctx ?m = Emit night_ctx night_context"
    by (simp add: context_cache_def policies_ready_def cache_kind_def test_reset_def night_context_def evaluate)
  obtain c2 d2 d3 c4 d4 c5 d5 where u: "local_excursion night_ctx night_context = Emit c2 d2"
    "engine_on_near_home c2 d2 = Emit c2 d3" "arrival_watch c2 d3 = Emit c4 d4"
    "pending_validate c4 ?m d4 = Emit c5 d5"
    "?f = (if replay_ready d5 then wire (replay_build c5 d5) context_output else context_output c5 d5)"
    by (rule context_flow_unroll [OF 1]) (rule that)
  have 2: "d2 = night_context" "c2 = pset night_ctx excursion_key
      (fst (excursion_after night_context (fper night_ctx excursion_key)))"
    using u(1) by (simp_all add: local_excursion_def excursion_winner_def Let_def sget_def sset_def)
  have 3: "d3 = night_context\<lparr>lx_arrival := JNull, lx_authorized := False\<rparr>"
    using u(2) 2 by (simp add: engine_on_near_home_def engine_turned_on_def bypass_turned_on_def
        dflt_def Let_def)
  have 4: "d4 = d3" "c4 = c2"
    using u(3) 2 3 by (simp_all add: arrival_watch_def Let_def sget_def)
  have pick: "pending_pick c2 d3 (JObj []) = waiting"
    by (simp add: pending_pick_def 2 3 dflt_def sget_def)
  have cands: "dflt (sget False c2 pending_map_key) (JObj []) = JObj []"
    by (simp add: 2 dflt_def sget_def)
  have judged: "judge_pending d3 waiting = (Some waiting, None)" by (rule waiting_judged) (simp_all add: 3)
  have t: "lx_test d3 = False" "is_active (lx_lifecycle d3) = False" by (simp_all add: 3 is_active_def)
  have 5: "lx_pending d5 = waiting" "lx_replay_allowed d5"
    using u(4) by (auto simp: 4 pending_validate_def t cands pick judged Let_def)
  have k: "kept d3 d5" using u(4) 4 pending_validate_step [of c4 ?m d4] by auto
  then have "replay_ready d5" "lx_replay d5 = None" using 5 by (simp_all add: replay_ready_def kept_def 3)
  then obtain c' ps where "?f = Emit c' ps" "port 2 ps \<noteq> []"
    using u(5) 5 by (simp add: replay_build_def context_output_def one_of_def eval_nat_numeral)
  then show ?thesis using replay_only_in_the_dark by fastforce
qed

end
