(* ===== verification/LightArrival.thy ===== *)
theory LightArrival
  imports LightContext
begin

text \<open>
  The arrival path of the security light (\<open>security-light-arrival-*.js\<close>, \<open>-approach-evidence.js\<close>,
  \<open>-vehicle-gate.js\<close>, \<open>-availability-*.js\<close>, \<open>-mark-active.js\<close>, \<open>-decision-publish.js\<close>).

  \<open>arrival_flow\<close> turns an arrival into a decision: blocked without a proven direction, otherwise stored
  as pending and either ready or waiting for a recovery of the vehicle context. A ready decision
  passes \<open>lighting_flow\<close>: darkness, the engine gate, the availability of the actuator and finally
  \<open>mark_active\<close>, which checks everything again and opens the lifecycle.

  The record \<open>arr\<close> is the field \<open>msg._light_arrival\<close>. A node works on the message and this record.
\<close>

section \<open>Facts of an arrival\<close>

datatype outcome = Undecided | Ready | Waiting | Blocked

record arr =
  ar_test :: bool
  ar_case :: jv
  ar_location :: jv
  ar_policy :: jv
  ar_future :: jnum
  ar_now :: jnum
  ar_source :: jv
  ar_stage :: jv
  ar_event_at :: jnum
  ar_queued_at :: jnum
  ar_vehicle :: jv
  ar_people :: jv
  ar_lifecycle :: jv
  ar_physical :: jv
  ar_fresh :: bool
  ar_reconciled :: bool
  ar_resident :: bool
  ar_valid :: bool
  ar_direct :: bool
  ar_path :: string
  ar_bypass_enabled :: bool
  ar_bypass_allowed :: bool
  ar_failed :: bool
  ar_unreliable :: bool
  ar_lighting_ready :: bool
  ar_logic_ready :: bool
  ar_distance_ready :: bool
  ar_sun_ready :: bool
  ar_dark :: bool
  ar_direction_valid :: bool
  ar_direction :: bool
  ar_recovery_needed :: bool
  ar_recovery_allowed :: bool
  ar_recovery_ms :: jnum
  ar_diagnostic :: "jv option"
  ar_recovery :: "jv option"
  ar_outcome :: outcome

definition within_approach :: "jv \<Rightarrow> jv \<Rightarrow> bool" where
  "within_approach r pol =
    (if jget r ''current_home'' = JTrue \<and> jget r ''state'' = JStr ''home'' then True
     else (let radius = to_num (jget pol ''approach_radius_m''); dist = jget r ''gate_distance_m'' in
       fin radius \<and> Fin 0 < radius \<and> num_fin dist \<and> Fin 0 \<le> to_num dist \<and> to_num dist \<le> radius))"

definition observed_at :: "jv \<Rightarrow> jnum" where
  "observed_at r = to_num (jget r ''updated_at'')"

definition reading_current :: "jv \<Rightarrow> jnum \<Rightarrow> jv \<Rightarrow> bool" where
  "reading_current lp now r =
    (jget r ''ready'' = JTrue \<and> jget r ''stale'' \<noteq> JTrue \<and> Fin 0 < observed_at r \<and>
     recent (observed_at r) now (future_ms lp) (minutes lp ''location_fresh_minutes''))"

text \<open>The snapshot the event carries wins over the cached one unless it is older.\<close>

definition arrival_resident :: "jv \<Rightarrow> jnum \<Rightarrow> jv \<Rightarrow> jv \<Rightarrow> jv" where
  "arrival_resident lp now cached event =
    (let c_at = snapshot_at cached; e_at = snapshot_at event;
         valid = (is_objectlike event \<and> jget event ''ready'' = JTrue \<and> jget event ''stale'' \<noteq> JTrue \<and>
           Fin 0 < e_at \<and> recent e_at now (future_ms lp) (minutes lp ''location_fresh_minutes'')) in
     if valid \<and> c_at \<le> e_at then
       (if e_at = c_at then jspread (dflt cached (JObj [])) event else event)
     else cached)"

definition is_resident :: "jv \<Rightarrow> bool" where
  "is_resident source = (source \<in> set (map JStr residents))"

definition previous_unavailable :: "jv \<Rightarrow> bool" where
  "previous_unavailable p = (p \<in> set [JStr ''unknown'', JStr ''unavailable''])"

definition previous_away :: "jv \<Rightarrow> bool" where
  "previous_away p = (is_str p \<and>
     p \<notin> set (map JStr [[], ''home'', ''near_home'', ''unknown'', ''unavailable'']))"

text \<open>The GPS proof named by the arrival is still the one stored for the position used.\<close>

definition gps_proof_current :: "jv \<Rightarrow> jv \<Rightarrow> bool" where
  "gps_proof_current cycle r =
    (let tr = jget cycle ''gps_return_evidence'' in
     jget tr ''returning'' = JTrue \<and> jseq (jget tr ''last_at'') (jget r ''updated_at'') \<and>
     jseq (jget tr ''last_distance'') (jget r ''distance_m''))"

definition cycle_open :: "jv \<Rightarrow> jnum \<Rightarrow> bool" where
  "cycle_open cycle now = (num_fin (jget cycle ''expires_at'') \<and> now \<le> to_num (jget cycle ''expires_at'') \<and>
     nullish (jget cycle ''consumed_at''))"

definition stored_cycle :: "bool \<Rightarrow> ctx \<Rightarrow> jv \<Rightarrow> jv" where
  "stored_cycle t c source = jget (jget (sget t c excursion_key) ''residents'') (to_str source)"

definition local_return_valid :: "bool \<Rightarrow> ctx \<Rightarrow> jv \<Rightarrow> jv \<Rightarrow> jv \<Rightarrow> jnum \<Rightarrow> bool" where
  "local_return_valid t c m people r now =
    (let source = plget m ''source''; cycle = stored_cycle t c source;
         canonical = jget (jget people ''local_excursions'') (to_str source) in
     plget m ''local_excursion_return'' = JTrue \<and>
     plget m ''arrival_direction'' = JStr ''returning_local_excursion'' \<and>
     jseq (jget cycle ''started_at'') (plget m ''local_excursion_started_at'') \<and>
     jseq (jget canonical ''started_at'') (plget m ''local_excursion_started_at'') \<and>
     cycle_open cycle now \<and>
     (plget m ''local_return_evidence'' \<noteq> JStr ''gps_round_trip'' \<or> gps_proof_current cycle r))"

definition direct_home :: "jv \<Rightarrow> jv \<Rightarrow> bool" where
  "direct_home m r =
    (plget m ''arrival_stage'' = JStr ''home'' \<and>
     (previous_away (plget m ''arrival_previous_state'') \<or>
      previous_unavailable (plget m ''arrival_previous_state'')) \<and>
     plget m ''arrival_direction'' = JStr ''returning'' \<and>
     plget m ''external_cycle_confirmed'' = JTrue \<and>
     jget r ''state'' = JStr ''home'' \<and> jget r ''current_home'' = JTrue)"

definition resident_arrival_valid :: "jv \<Rightarrow> jnum \<Rightarrow> jv \<Rightarrow> jv \<Rightarrow> bool \<Rightarrow> bool" where
  "resident_arrival_valid lp now m r local =
    (let stage = plget m ''arrival_stage''; prev = plget m ''arrival_previous_state'';
         recovered = (plget m ''illumination_only'' = JTrue \<and> previous_unavailable prev \<and>
           plget m ''external_cycle_confirmed'' = JTrue) in
     is_resident (plget m ''source'') \<and> reading_current lp now r \<and>
     (stage = JStr ''approach'' \<and> (previous_away prev \<or> recovered) \<and>
        jget r ''state'' = JStr ''near_home'' \<and> jget r ''current_home'' \<noteq> JTrue \<or>
      direct_home m r \<or>
      stage = JStr ''local_return'' \<and> local \<and>
        jget r ''state'' \<in> set [JStr ''home'', JStr ''near_home'']))"

definition direction_valid :: "jv \<Rightarrow> bool \<Rightarrow> bool" where
  "direction_valid m local = (plget m ''arrival_direction'' = JStr ''returning'' \<and>
     plget m ''external_cycle_confirmed'' = JTrue \<or> local)"

text \<open>The engine: known off, off but stale, trusted; the bypass counts only when a person set it and
  the engine's link has failed.\<close>

definition stale_engine_off :: "jv \<Rightarrow> bool" where
  "stale_engine_off v = (jget v ''engine_state_valid'' = JTrue \<and> jget v ''engine_on'' = JFalse \<and>
     jget v ''engine_stale'' = JTrue)"

definition engine_known_off :: "jv \<Rightarrow> bool \<Rightarrow> bool" where
  "engine_known_off v failed = (jget v ''engine_state_valid'' = JTrue \<and> jget v ''engine_on'' = JFalse \<and>
     \<not> failed \<and> \<not> stale_engine_off v)"

definition trusted_engine :: "jv \<Rightarrow> bool \<Rightarrow> bool" where
  "trusted_engine v failed = (jget v ''engine_state_valid'' = JTrue \<and> jget v ''engine_stale'' \<noteq> JTrue \<and>
     \<not> failed)"

definition manual_bypass :: "bool \<Rightarrow> ctx \<Rightarrow> bool \<Rightarrow> bool" where
  "manual_bypass t c failed = (sget t c ''security_light_engine_bypass_enabled'' = JTrue \<and>
     sget t c ''security_light_engine_bypass_automatic'' \<noteq> JTrue \<and> failed)"

definition vehicle_decided :: "jv \<Rightarrow> bool \<Rightarrow> bool \<Rightarrow> bool \<Rightarrow> bool" where
  "vehicle_decided v failed lighting bypass =
    (engine_known_off v failed \<or> stale_engine_off v \<and> \<not> failed \<or> lighting \<or> bypass)"

definition queued_at :: "jv \<Rightarrow> jnum \<Rightarrow> jnum \<Rightarrow> jnum" where
  "queued_at m now future =
    (let q = to_num (dflt (plget m ''arrival_originally_queued_at'') (JNum now)) in
     if fin q \<and> Fin 0 < q \<and> q \<le> now + future then q else now)"

definition recovery_allowed :: "bool \<Rightarrow> ctx \<Rightarrow> jnum \<Rightarrow> bool" where
  "recovery_allowed t c now =
    (let last = num_or (mget t c ''security_light_last_recovery_request_at'') 0 in
     \<not> fin last \<or> last \<le> Fin 0 \<or>
     param (light_policy c) ''recovery_request_throttle_seconds'' 1000 \<le> now - last)"

definition arrival_build :: "env \<Rightarrow> ctx \<Rightarrow> jv \<Rightarrow> arr" where
  "arrival_build e c m =
    (let t = test_msg m; now = clock e; lp = location_policy c; pol = light_policy c;
         vehicle = dflt (mget t c ''vehicle_primary_context_v1'') (JObj []);
         people = dflt (mget t c ''people_context_v1'') (JObj []);
         source = plget m ''source''; stage = plget m ''arrival_stage'';
         r = arrival_resident lp now (jget people (to_str source)) (plget m ''arrival_resident_snapshot'');
         local = local_return_valid t c m people r now;
         valid = resident_arrival_valid lp now m r local;
         failed = engine_failed t c vehicle; bypass = manual_bypass t c failed;
         lighting = (trusted_engine vehicle failed \<and> is_resident source);
         sun = (fmem c ''sun_ready'' = JTrue) in
     \<lparr>ar_test = t, ar_case = test_case m, ar_location = lp, ar_policy = pol, ar_future = future_ms lp,
      ar_now = now, ar_source = source, ar_stage = stage,
      ar_event_at = to_num (dflt (plget m ''event_at'') (dflt (plget m ''updated_at'') (JNum now))),
      ar_queued_at = queued_at m now (future_ms lp), ar_vehicle = vehicle, ar_people = people,
      ar_lifecycle = dflt (sget t c lifecycle_key) (JObj []),
      ar_physical = dflt (fmem c ''security_light_physical_state'') (JStr ''unknown''),
      ar_fresh = physical_fresh lp pol (fmem c ''security_light_physical_observed_at'') now,
      ar_reconciled = (fmem c ''light_reconciled'' = JTrue), ar_resident = is_resident source,
      ar_valid = valid, ar_direct = direct_home m r,
      ar_path = (if direct_home m r then ''direct_home_recovery''
        else if stage = JStr ''approach'' then ''near_home_approach''
        else if local then ''local_excursion_return'' else ''invalid''),
      ar_bypass_enabled = (sget t c ''security_light_engine_bypass_enabled'' = JTrue),
      ar_bypass_allowed = bypass, ar_failed = failed,
      ar_unreliable = (failed \<or> stale_engine_off vehicle), ar_lighting_ready = lighting,
      ar_logic_ready = (sun \<and> vehicle_decided vehicle failed lighting bypass \<and> within_approach r pol),
      ar_distance_ready = within_approach r pol, ar_sun_ready = sun,
      ar_dark = (fmem c ''sun_below_horizon'' = JTrue),
      ar_direction_valid = direction_valid m local, ar_direction = (direction_valid m local \<and> valid),
      ar_recovery_needed = (\<not> lighting \<and> \<not> bypass), ar_recovery_allowed = recovery_allowed t c now,
      ar_recovery_ms = (if stage = JStr ''approach'' then minutes lp ''local_excursion_minutes''
        else minutes lp ''arrival_recovery_minutes''),
      ar_diagnostic = None, ar_recovery = None, ar_outcome = Undecided\<rparr>)"

definition arrival_facts :: "env \<Rightarrow> ctx \<Rightarrow> jv \<Rightarrow> (jv \<times> arr) run" where
  "arrival_facts e c m =
    (if plget m ''kind'' \<noteq> JStr ''arrival'' then Stop c
     else if \<not> policies_ready c then Stop (logged NodeError c)
     else Emit c (m, arrival_build e c m))"

section \<open>Storing the intent\<close>

definition replay_message :: "jv \<Rightarrow> jv" where
  "replay_message m = JObj ([(''payload'', jspread (payload m) (JObj []))]
     @ (if jget m ''topic'' \<noteq> JUndef then [(''topic'', jget m ''topic'')] else [])
     @ (if jget m ''_location_test'' = JTrue then [(''_location_test'', JTrue)] else [])
     @ (if jget m ''_location_test_case'' \<noteq> JUndef
        then [(''_location_test_case'', jget m ''_location_test_case'')] else []))"

definition resident_approach :: "arr \<Rightarrow> bool" where
  "resident_approach a = (ar_resident a \<and> ar_stage a = JStr ''approach'')"

definition retention :: "arr \<Rightarrow> string" where
  "retention a = (if resident_approach a then ''while_approaching'' else ''recovery_window'')"

definition pending_record :: "jv \<Rightarrow> arr \<Rightarrow> jv" where
  "pending_record m a = JObj
    [(''version'', JNum 2), (''queued_at'', JNum (ar_queued_at a)),
     (''expires_at'', JNum (ar_queued_at a + ar_recovery_ms a)), (''event_at'', JNum (ar_event_at a)),
     (''retention'', JStr (retention a)), (''source'', ar_source a), (''arrival_stage'', ar_stage a),
     (''message'', replay_message m)]"

definition stored_intent :: "bool \<Rightarrow> ctx \<Rightarrow> jv \<Rightarrow> jv" where
  "stored_intent t c source =
    (let shared = sget t c pending_key in
     dflt (jget (sget t c pending_map_key) (to_str source))
       (if jseq (jget shared ''source'') source then shared else JNull))"

definition supersedes :: "ctx \<Rightarrow> arr \<Rightarrow> bool" where
  "supersedes c a =
    (let old = stored_intent (ar_test a) c (ar_source a); old_at = num_or (jget old ''event_at'') 0 in
     \<not> truthy old \<or> \<not> fin old_at \<or> old_at \<le> ar_event_at a)"

definition new_watch :: "arr \<Rightarrow> jv" where
  "new_watch a = JObj
    [(''source'', ar_source a), (''event_at'', JNum (ar_event_at a)), (''created_at'', JNum (ar_queued_at a)),
     (''attempts'', JNum 0), (''last_refresh_at'', JNull), (''waiting_for_callback'', JFalse)]"

definition start_watch :: "ctx \<Rightarrow> arr \<Rightarrow> ctx" where
  "start_watch c a =
    (let t = ar_test a; source = to_str (ar_source a);
         ws = dflt (sget t c watch_key) (JObj [(''version'', JNum 1), (''residents'', JObj [])]);
         old = jget (jget ws ''residents'') source in
     if \<not> truthy old \<or> num_or (jget old ''event_at'') 0 \<le> ar_event_at a then
       sset t c watch_key (jsets ws [(''version'', JNum 1),
         (''residents'', jset (jspread (dflt (jget ws ''residents'') (JObj [])) (JObj [])) source (new_watch a))])
     else c)"

definition store_pending :: "ctx \<Rightarrow> jv \<Rightarrow> arr \<Rightarrow> ctx" where
  "store_pending c m a =
    (let t = ar_test a; p = pending_record m a;
         c1 = sset t c pending_key p;
         c2 = (if is_resident (ar_source a) then sset t c1 pending_map_key
                 (jset (dflt (sget t c1 pending_map_key) (JObj [])) (to_str (ar_source a)) p) else c1) in
     if resident_approach a then start_watch c2 a else c2)"

definition arrival_diagnostic :: "jv \<Rightarrow> arr \<Rightarrow> jv" where
  "arrival_diagnostic m a =
    (let v = ar_vehicle a;
         d = jset (jspread m (JObj [])) ''payload'' (jsets (jspread (payload m) (JObj []))
          [(''diagnostic'', JStr ''arrival_trigger_received''), (''gps_trigger_functional'', JTrue),
           (''decision_context_ready'', JBool (ar_logic_ready a)),
           (''approach_distance_ready'', JBool (ar_distance_ready a)),
           (''people_context_ready'', JBool (jget (ar_people a) ''ready'' = JTrue)),
           (''vehicle_primary_context_ready'', JBool (jget v ''ready'' = JTrue)),
           (''vehicle_primary_lighting_ready'', JBool (ar_lighting_ready a)),
           (''vehicle_primary_location_required'', JFalse),
           (''vehicle_primary_engine_state_valid'', JBool (jget v ''engine_state_valid'' = JTrue)),
           (''vehicle_primary_engine_stale'', JBool (jget v ''engine_stale'' = JTrue)),
           (''engine_communication_failed'', JBool (ar_failed a)),
           (''engine_bypass_enabled'', JBool (ar_bypass_enabled a)),
           (''engine_bypass_allowed'', JBool (ar_bypass_allowed a)),
           (''engine_data_unreliable'', JBool (ar_unreliable a)), (''sun_ready'', JBool (ar_sun_ready a)),
           (''sun_below_horizon'', JBool (ar_dark a)), (''vehicle_primary_in_use'', jget v ''in_use''),
           (''vehicle_primary_engine_on'', jget v ''engine_on''), (''reflector_state'', ar_physical a),
           (''reflector_physical_fresh'', JBool (ar_fresh a)),
           (''reflector_reconciled'', JBool (ar_reconciled a)),
           (''would_evaluate_turn_on'', JBool (ar_logic_ready a)),
           (''arrival_replay'', JBool (jget m ''_arrival_replay'' = JTrue)),
           (''pending_arrival_queued'', JTrue), (''pending_arrival_retention'', JStr (retention a)),
           (''pending_arrival_ttl_ms'', JNum (ar_recovery_ms a))]) in
     if ar_test a then plsets (jsets d [(''_location_test'', JTrue), (''_location_test_case'', ar_case a)])
       [(''test_mode'', JTrue), (''test_case'', ar_case a)] else d)"

definition arrival_pending :: "ctx \<Rightarrow> jv \<times> arr \<Rightarrow> (jv \<times> arr) run" where
  "arrival_pending c x = (case x of (m, a) \<Rightarrow>
     Emit (if supersedes c a then store_pending c m a else c)
       (m, a\<lparr>ar_diagnostic := Some (arrival_diagnostic m a)\<rparr>))"

section \<open>Deciding\<close>

definition key_part :: "jv \<Rightarrow> string" where
  "key_part v = (if nullish v then [] else to_str v)"

definition arrival_key :: "arr \<Rightarrow> string" where
  "arrival_key a = join_with '':'' [key_part (ar_source a), key_part (ar_stage a), num_str (ar_event_at a)]"

definition ready_message :: "jv \<Rightarrow> arr \<Rightarrow> jv" where
  "ready_message m a =
    (let v = ar_vehicle a;
         m1 = plsets m
          [(''arrival_key'', JStr (arrival_key a)), (''sun_below_horizon'', JBool (ar_dark a)),
           (''vehicle_primary_in_use'', jget v ''in_use''), (''vehicle_primary_engine_on'', jget v ''engine_on''),
           (''vehicle_primary_engine_state_valid'', JBool (jget v ''engine_state_valid'' = JTrue)),
           (''vehicle_primary_engine_stale'', JBool (jget v ''engine_stale'' = JTrue)),
           (''engine_communication_failed'', JBool (ar_failed a)),
           (''vehicle_primary_lighting_ready'', JBool (ar_lighting_ready a)),
           (''engine_data_unreliable'', JBool (ar_unreliable a)),
           (''engine_bypass_enabled'', JBool (ar_bypass_enabled a)),
           (''engine_bypass_allowed'', JBool (ar_bypass_allowed a)), (''stale_engine_home_fallback'', JFalse),
           (''active'', JBool (is_active (ar_lifecycle a) \<or> ar_physical a = JStr ''on'')),
           (''reflector_state'', ar_physical a), (''reflector_physical_fresh'', JBool (ar_fresh a)),
           (''reflector_reconciled'', JBool (ar_reconciled a))] in
     if ar_test a then plsets (jsets m1 [(''_location_test'', JTrue), (''_location_test_case'', ar_case a)])
       [(''test_mode'', JTrue), (''test_case'', ar_case a)] else m1)"

definition arrival_ready :: "ctx \<Rightarrow> jv \<times> arr \<Rightarrow> (jv \<times> arr) run" where
  "arrival_ready c x = (case x of (m, a) \<Rightarrow> Emit c (ready_message m a, a\<lparr>ar_outcome := Ready\<rparr>))"

definition recovery_reason :: "arr \<Rightarrow> string" where
  "recovery_reason a = (if jget (ar_vehicle a) ''ready'' = JTrue then ''arrival_engine_recovery_needed''
     else ''arrival_vehicle_primary_context_recovery_needed'')"

definition recovery_request :: "arr \<Rightarrow> jv" where
  "recovery_request a = JObj
    [(''_location_test'', JBool (ar_test a)), (''_location_test_case'', ar_case a),
     (''payload'', JObj [(''kind'', JStr ''refresh_tick''), (''origin'', JStr ''iluminacao_seguranca''),
       (''reason'', JStr (recovery_reason a)), (''force_recovery'', JTrue), (''require_lighting_ready'', JTrue),
       (''requested_at'', JNum (ar_now a)), (''arrival_source'', ar_source a), (''arrival_stage'', ar_stage a),
       (''test_mode'', JBool (ar_test a)), (''test_case'', ar_case a)])]"

definition diagnose :: "(string \<times> jv) list \<Rightarrow> arr \<Rightarrow> arr" where
  "diagnose kvs a = a\<lparr>ar_diagnostic := map_option (\<lambda>d. plsets d kvs) (ar_diagnostic a)\<rparr>"

definition arrival_recovery :: "ctx \<Rightarrow> jv \<times> arr \<Rightarrow> (jv \<times> arr) run" where
  "arrival_recovery c x = (case x of (m, a) \<Rightarrow>
     Emit (mset (ar_test a) c ''security_light_last_recovery_request_at'' (JNum (ar_now a)))
       (m, (diagnose [(''context_recovery_requested'', JTrue),
           (''context_recovery_reason'', JStr (recovery_reason a))] a)
         \<lparr>ar_recovery := Some (recovery_request a), ar_outcome := Waiting\<rparr>))"

definition arrival_throttled :: "ctx \<Rightarrow> jv \<times> arr \<Rightarrow> (jv \<times> arr) run" where
  "arrival_throttled c x = (case x of (m, a) \<Rightarrow>
     Emit c (m, (diagnose [(''context_recovery_requested'', JFalse),
         (''context_recovery_throttled'', JTrue)] a)\<lparr>ar_outcome := Waiting\<rparr>))"

definition arrival_pending_only :: "ctx \<Rightarrow> jv \<times> arr \<Rightarrow> (jv \<times> arr) run" where
  "arrival_pending_only c x = (case x of (m, a) \<Rightarrow> Emit c (m, a\<lparr>ar_outcome := Waiting\<rparr>))"

definition blocked_state :: "arr \<Rightarrow> string" where
  "blocked_state a =
    (let r = jget (ar_people a) (to_str (ar_source a)) in
     if jget r ''current_home'' = JTrue \<or> jget r ''state'' = JStr ''home'' then ''blocked_home''
     else if jget r ''ready'' \<noteq> JTrue \<or> jget r ''stale'' = JTrue then ''blocked_location_stale''
     else ''blocked_direction'')"

definition blocked_message :: "env \<Rightarrow> jv \<Rightarrow> arr \<Rightarrow> jv" where
  "blocked_message e m a =
    jset (jset m ''_security_light_decision_state'' (JStr (blocked_state a))) ''payload''
      (jsets (jspread (payload m) (JObj []))
       [(''kind'', JStr ''arrival_blocked''),
        (''direction_reason'', JStr (if \<not> ar_direction_valid a then ''external_cycle_not_confirmed''
           else ''resident_fresh_away_to_near_home_or_direct_home_required'')),
        (''simulated'', JTrue), (''dispatched'', JFalse), (''blocked_at'', JNum (clock e))])"

definition arrival_blocked :: "env \<Rightarrow> ctx \<Rightarrow> jv \<times> arr \<Rightarrow> (jv \<times> arr) run" where
  "arrival_blocked e c x = (case x of (m, a) \<Rightarrow> Emit c (blocked_message e m a, a\<lparr>ar_outcome := Blocked\<rparr>))"

definition arrival_output :: "ctx \<Rightarrow> jv \<times> arr \<Rightarrow> ports run" where
  "arrival_output c x = (case x of (m, a) \<Rightarrow>
    (let diag = (case ar_diagnostic a of None \<Rightarrow> m | Some d \<Rightarrow> d) in
     Emit c (case ar_outcome a of
        Ready \<Rightarrow> [[m], [diag], one_of (ar_recovery a)]
      | Blocked \<Rightarrow> [[], [m], []]
      | _ \<Rightarrow> [[], [diag], one_of (ar_recovery a)])))"

text \<open>The switches of the tab between the nodes.\<close>

definition arrival_route :: "env \<Rightarrow> ctx \<Rightarrow> jv \<times> arr \<Rightarrow> (jv \<times> arr) run" where
  "arrival_route e c x =
    (if ar_direction (snd x) then
       wire (arrival_pending c x) (\<lambda>c1 y.
         if ar_logic_ready (snd y) then arrival_ready c1 y
         else if ar_recovery_needed (snd y) then
           (if ar_recovery_allowed (snd y) then arrival_recovery c1 y else arrival_throttled c1 y)
         else arrival_pending_only c1 y)
     else arrival_blocked e c x)"

definition arrival_flow :: "env \<Rightarrow> ctx \<Rightarrow> jv \<Rightarrow> ports run" where
  "arrival_flow e c m = wire (wire (arrival_facts e c m) (arrival_route e)) arrival_output"

section \<open>The engine gate\<close>

definition gate_unreliable :: "jv \<Rightarrow> bool" where
  "gate_unreliable m = (plget m ''engine_communication_failed'' = JTrue \<or>
     plget m ''engine_data_unreliable'' = JTrue)"

definition gate_engine :: "jv \<Rightarrow> bool" where
  "gate_engine m = (plget m ''vehicle_primary_in_use'' = JTrue \<and> plget m ''vehicle_primary_engine_on'' = JTrue \<and>
     plget m ''vehicle_primary_engine_state_valid'' = JTrue \<and>
     plget m ''vehicle_primary_engine_stale'' \<noteq> JTrue \<and> \<not> gate_unreliable m)"

definition gate_known_off :: "jv \<Rightarrow> bool" where
  "gate_known_off m = (plget m ''vehicle_primary_engine_state_valid'' = JTrue \<and>
     plget m ''vehicle_primary_engine_on'' = JFalse \<and> \<not> gate_unreliable m)"

definition in_cooldown :: "ctx \<Rightarrow> jnum \<Rightarrow> bool" where
  "in_cooldown c now =
    (let until = num_or (jget (fper c lifecycle_key) ''cooldown_until'') 0 in fin until \<and> now < until)"

definition vehicle_gate :: "env \<Rightarrow> ctx \<Rightarrow> jv \<Rightarrow> jv run" where
  "vehicle_gate e c m =
    (if \<not> policy_ready (light_policy c) then Stop (logged NodeError c)
     else
      (let t = test_msg m; bypass = manual_bypass t c (gate_unreliable m) in
       if gate_known_off m then Stop c
       else if \<not> gate_engine m \<and> \<not> bypass then Stop c
       else if \<not> t \<and> in_cooldown c (clock e) then Stop c
       else Emit c (plsets m
         ([(''engine_bypass_enabled'', JBool (sget t c ''security_light_engine_bypass_enabled'' = JTrue)),
           (''engine_bypass_allowed'', JBool bypass),
           (''vehicle_primary_gate'', JStr (if bypass then ''manual_bypass_for_unreliable_engine''
              else ''known_engine_on''))] @
          (if t then [(''simulated'', JTrue), (''dispatched'', JFalse)] else [])))))"

section \<open>Availability of the actuator\<close>

record avail =
  av_test :: bool
  av_now :: jnum
  av_physical :: jv
  av_fresh :: bool
  av_latched :: bool
  av_known_on :: bool
  av_active :: bool
  av_available :: bool
  av_attempting :: bool
  av_key :: string
  av_duplicate :: bool

abbreviation latch_key :: string where
  "latch_key \<equiv> ''security_light_turn_on_notification_latch_v1''"

definition decision_key :: "jv \<Rightarrow> jnum \<Rightarrow> string" where
  "decision_key m now =
    (if \<not> nullish (plget m ''refresh_cycle_id'') then ''cycle:'' @ to_str (plget m ''refresh_cycle_id'')
     else if truthy (plget m ''test_case'') then ''test:'' @ to_str (plget m ''test_case'')
     else ''window:'' @ num_str (jfloor (jdivc now 5000)))"

definition duplicate_unavailable :: "ctx \<Rightarrow> string \<Rightarrow> jnum \<Rightarrow> bool" where
  "duplicate_unavailable c key now =
    (let prev = dflt (fmem c ''security_light_unavailable_decision_v1'') (JObj []);
         t = num_or (jget prev ''at'') 0 in
     jget prev ''key'' = JStr key \<and> fin t \<and> t \<le> now + future_ms (location_policy c) \<and>
     now - t < param (light_policy c) ''unavailable_dedupe_seconds'' 1000)"

definition availability_facts :: "env \<Rightarrow> ctx \<Rightarrow> jv \<Rightarrow> avail run" where
  "availability_facts e c m =
    (if \<not> policies_ready c then Stop (logged NodeError c)
     else
      (let t = test_msg m; now = clock e;
           physical = dflt (fmem c ''security_light_physical_state'') (JStr ''unknown'');
           fresh = physical_fresh (location_policy c) (light_policy c)
             (fmem c ''security_light_physical_observed_at'') now;
           reconciled = (fmem c ''light_reconciled'' = JTrue);
           attempting = (physical = JStr ''unavailable'') in
       Emit c \<lparr>av_test = t, av_now = now, av_physical = physical, av_fresh = fresh,
         av_latched = (jget (sget t c latch_key) ''latched'' = JTrue \<and> \<not> attempting),
         av_known_on = (physical = JStr ''on'' \<and> fresh \<and> reconciled),
         av_active = is_active (fper c lifecycle_key),
         av_available = (physical = JStr ''off'' \<and> fresh \<and> reconciled \<or> attempting),
         av_attempting = attempting, av_key = decision_key m now,
         av_duplicate = duplicate_unavailable c (decision_key m now) now\<rparr>))"

definition availability_ready :: "ctx \<Rightarrow> jv \<Rightarrow> avail \<Rightarrow> ports run" where
  "availability_ready c m a = Emit c [[plsets m
    [(''actuator_available'', JBool (\<not> av_attempting a)),
     (''actuator_confirmation_pending'', JBool (av_attempting a)),
     (''reflector_state_before_attempt'', av_physical a), (''would_turn_on'', JTrue)]], [], []]"

definition unavailable_reason :: "avail \<Rightarrow> string" where
  "unavailable_reason a =
    (if av_physical a = JStr ''unavailable'' then ''entidade Zigbee unavailable''
     else if av_physical a = JStr ''unknown'' then ''entidade Zigbee unknown''
     else if \<not> av_fresh a then ''estado f'' @ [CHR 0xED] @ ''sico do refletor est'' @ [CHR 0xE1] @ '' stale''
     else ''estado f'' @ [CHR 0xED] @ ''sico n'' @ [CHR 0xE3] @ ''o reconciliado'')"

text \<open>The dedupe entry goes to the production name also in a dry run.\<close>

definition availability_unavailable :: "env \<Rightarrow> ctx \<Rightarrow> jv \<Rightarrow> avail \<Rightarrow> ports run" where
  "availability_unavailable e c m a =
    (let c1 = sset (av_test a) c latch_key (JObj [(''version'', JNum 1), (''latched'', JTrue),
           (''reason'', JStr ''would_turn_on_actuator_unavailable''), (''latched_at'', JNum (av_now a)),
           (''arrival_key'', dflt (plget m ''arrival_key'') JNull), (''reflector_state'', av_physical a)]);
         c2 = fset c1 ''security_light_unavailable_decision_v1'' (JObj [(''key'', JStr (av_key a)),
           (''at'', JNum (av_now a)), (''state'', av_physical a)]);
         m1 = plsets m [(''actuator_available'', JFalse), (''would_turn_on'', JTrue),
           (''reflector_state'', av_physical a), (''reflector_error'', JStr (unavailable_reason a)),
           (''message'', JStr (wording e ''actuator_unavailable''
              [if av_test a then ''[TESTE] '' else [], unavailable_reason a]))] in
     Emit c2 (if av_test a then [[], [], [m1]] else [[], [m1], []]))"

definition availability_flow :: "env \<Rightarrow> ctx \<Rightarrow> jv \<Rightarrow> ports run" where
  "availability_flow e c m = wire (availability_facts e c m) (\<lambda>c1 a.
     if av_latched a \<or> av_known_on a \<or> av_active a then Stop c1
     else if av_available a then availability_ready c1 m a
     else if av_duplicate a then Stop c1
     else availability_unavailable e c1 m a)"

section \<open>Opening the lifecycle\<close>

definition event_source :: "jv \<Rightarrow> string" where
  "event_source m = to_str (dflt (plget m ''source'') (JStr []))"

definition mark_resident :: "jv \<Rightarrow> jnum \<Rightarrow> jv \<Rightarrow> jv \<Rightarrow> jv" where
  "mark_resident lp now cached event =
    (let t = snapshot_at event; c_at = snapshot_at cached in
     if jget event ''ready'' = JTrue \<and> jget event ''stale'' \<noteq> JTrue \<and> fin t \<and> Fin 0 < t \<and>
        t \<le> now + future_ms lp \<and> c_at \<le> t
     then (if t = c_at then jspread cached event else event)
     else cached)"

definition people_ready_for :: "jv \<Rightarrow> jnum \<Rightarrow> jv \<Rightarrow> jv \<Rightarrow> string \<Rightarrow> bool" where
  "people_ready_for lp now people r source =
    (if source \<notin> set residents then True
     else if is_objectlike r \<and> is_bool (jget r ''ready'') then reading_current lp now r
     else jget people ''ready'' = JTrue)"

definition engine_gate_open :: "jv \<Rightarrow> jv \<Rightarrow> bool" where
  "engine_gate_open m v =
    (plget m ''vehicle_primary_gate'' = JStr ''known_engine_on'' \<and>
     plget m ''vehicle_primary_engine_stale'' \<noteq> JTrue \<and>
     jget v ''engine_on'' = JTrue \<and> jget v ''engine_state_valid'' = JTrue \<and>
     jget v ''engine_stale'' \<noteq> JTrue \<and> jget v ''engine_communication_failed'' \<noteq> JTrue)"

definition bypass_gate_open :: "bool \<Rightarrow> ctx \<Rightarrow> jv \<Rightarrow> bool" where
  "bypass_gate_open t c m =
    (plget m ''vehicle_primary_gate'' = JStr ''manual_bypass_for_unreliable_engine'' \<and>
     sget t c ''security_light_engine_bypass_automatic'' \<noteq> JTrue \<and>
     plget m ''engine_bypass_allowed'' = JTrue \<and> plget m ''engine_data_unreliable'' = JTrue)"

definition local_current :: "jv \<Rightarrow> jv \<Rightarrow> jv \<Rightarrow> jv \<Rightarrow> string \<Rightarrow> jnum \<Rightarrow> bool" where
  "local_current m cycle people r source now =
    (plget m ''local_excursion_return'' \<noteq> JTrue \<or>
     jseq (jget cycle ''started_at'') (plget m ''local_excursion_started_at'') \<and>
     jseq (jget (jget (jget people ''local_excursions'') source) ''started_at'') (jget cycle ''started_at'') \<and>
     cycle_open cycle now \<and>
     (plget m ''local_return_evidence'' \<noteq> JStr ''gps_round_trip'' \<or> gps_proof_current cycle r))"

definition attempt_allowed :: "ctx \<Rightarrow> jnum \<Rightarrow> bool" where
  "attempt_allowed c now =
    (let physical = dflt (fmem c ''security_light_physical_state'') (JStr ''unknown'') in
     physical = JStr ''unavailable'' \<or>
     physical = JStr ''off'' \<and> fmem c ''light_reconciled'' = JTrue \<and>
     physical_fresh (location_policy c) (light_policy c) (fmem c ''security_light_physical_observed_at'') now)"

definition mark_ready :: "ctx \<Rightarrow> jv \<Rightarrow> jnum \<Rightarrow> bool" where
  "mark_ready c m now =
    (let t = test_msg m; source = event_source m; lp = location_policy c;
         people = dflt (mget t c ''people_context_v1'') (JObj []);
         vehicle = dflt (mget t c ''vehicle_primary_context_v1'') (JObj []);
         r = mark_resident lp now (jget people source) (plget m ''arrival_resident_snapshot'');
         cycle = jget (jget (sget t c excursion_key) ''residents'') source in
     local_current m cycle people r source now \<and>
     people_ready_for lp now people r source \<and>
     within_approach r (light_policy c) \<and>
     fmem c ''sun_ready'' = JTrue \<and> fmem c ''sun_below_horizon'' = JTrue \<and>
     attempt_allowed c now \<and>
     (engine_gate_open m vehicle \<or> bypass_gate_open t c m))"

definition mark_duplicate :: "ctx \<Rightarrow> jv \<Rightarrow> jv \<Rightarrow> jnum \<Rightarrow> bool" where
  "mark_duplicate c m lc now =
    (let key = plget m ''arrival_key''; last = num_or (jget lc ''last_arrival_at'') 0 in
     truthy key \<and> jseq (jget lc ''last_arrival_key'') key \<and>
     last \<le> now + future_ms (location_policy c) \<and>
     now - last < minutes (location_policy c) ''arrival_dedupe_minutes'')"

definition activated :: "jv \<Rightarrow> jv \<Rightarrow> jnum \<Rightarrow> jnum \<Rightarrow> jv" where
  "activated lc key now backstop = jsets lc
    ([(''version'', JNum 1), (''active_by_arrival'', JTrue), (''on_since'', JNum now),
      (''force_off_at'', JNum (now + backstop))] @ pending_cleared @ refresh_cleared @
     [(''last_arrival_key'', dflt key JNull), (''last_arrival_at'', JNum now), (''updated_at'', JNum now)])"

definition consume_cycle :: "bool \<Rightarrow> ctx \<Rightarrow> jv \<Rightarrow> jnum \<Rightarrow> ctx" where
  "consume_cycle t c m now =
    (let local = sget t c excursion_key; source = event_source m;
         cycle = jget (jget local ''residents'') source in
     if plget m ''local_excursion_return'' = JTrue \<and> truthy cycle \<and>
        jseq (jget cycle ''started_at'') (plget m ''local_excursion_started_at'')
     then sset t c excursion_key (jset local ''residents''
       (jset (jget local ''residents'') source (jset cycle ''consumed_at'' (JNum now))))
     else c)"

definition stop_watching :: "bool \<Rightarrow> ctx \<Rightarrow> string \<Rightarrow> ctx" where
  "stop_watching t c source =
    (let ws = sget t c watch_key in
     if truthy (jget ws ''residents'') \<and> source \<in> set residents
     then sset t c watch_key (jset ws ''residents'' (jdel (jget ws ''residents'') source)) else c)"

definition mark_store :: "bool \<Rightarrow> ctx \<Rightarrow> jv \<Rightarrow> jv \<Rightarrow> jnum \<Rightarrow> bool \<Rightarrow> ctx" where
  "mark_store t c m lc now attempting =
    (let key = plget m ''arrival_key'';
         c1 = consume_cycle t c m now;
         c2 = sset t c1 lifecycle_key (activated lc key now (minutes (light_policy c) ''backstop_minutes''));
         c3 = sset t (sset t c2 pending_key JNull) pending_map_key (JObj []);
         c4 = stop_watching t c3 (event_source m) in
     sset t c4 latch_key (JObj [(''version'', JNum 1), (''latched'', JTrue),
       (''reason'', JStr (if attempting then ''turn_on_dispatched_while_unavailable'' else ''turn_on_dispatched'')),
       (''latched_at'', JNum now), (''arrival_key'', dflt key JNull)]))"

definition mark_reason :: "bool \<Rightarrow> bool \<Rightarrow> string" where
  "mark_reason bypass t =
    (if bypass then (if t then ''test_arrival_after_dark_with_engine_bypass''
                     else ''arrival_after_dark_with_engine_bypass'')
     else (if t then ''test_arrival_with_vehicle_primary_engine_on_after_dark''
           else ''arrival_with_vehicle_primary_engine_on_after_dark''))"

definition mark_message :: "ctx \<Rightarrow> jv \<Rightarrow> jnum \<Rightarrow> jv \<Rightarrow> jv" where
  "mark_message c m now physical =
    (let t = test_msg m; attempting = (physical = JStr ''unavailable'');
         backstop = minutes (light_policy c) ''backstop_minutes'' in
     plsets (jsets m [(''delay'', JNum backstop), (''_security_light_decision_state'',
         JStr (if attempting then ''turn_on_attempted_while_unavailable'' else ''turned_on''))])
      ([(''deadline_type'', JStr ''backstop''), (''deadline_at'', JNum (now + backstop)),
        (''reflector_state_before_attempt'', physical), (''actuator_available'', JBool (\<not> attempting)),
        (''actuator_confirmation_pending'', JBool attempting),
        (''reason'', JStr (mark_reason (bypass_gate_open t c m) t))] @
       (if t then [(''simulated'', JTrue), (''dispatched'', JFalse)] else [])))"

definition mark_active :: "env \<Rightarrow> ctx \<Rightarrow> jv \<Rightarrow> ports run" where
  "mark_active e c m =
    (if \<not> policies_ready c then Stop (logged NodeError c)
     else
      (let t = test_msg m; now = clock e;
           lc = dflt (sget t c lifecycle_key) (JObj [(''version'', JNum 1)]);
           physical = dflt (fmem c ''security_light_physical_state'') (JStr ''unknown'') in
       if \<not> mark_ready c m now \<or> is_active lc then Stop c
       else if mark_duplicate c m lc now then Stop c
       else
        (let m1 = mark_message c m now physical;
             c1 = mark_store t c m lc now (physical = JStr ''unavailable'') in
         Emit c1 (if t then [[], [m1]] else [[m1], []]))))"

text \<open>The wires behind a ready decision: darkness, engine gate, availability, activation. The third
  and the fourth port are the notice of an unavailable actuator and its dry run.\<close>

definition lighting_flow :: "env \<Rightarrow> ctx \<Rightarrow> jv \<Rightarrow> ports run" where
  "lighting_flow e c m =
    (if plget m ''sun_below_horizon'' \<noteq> JTrue then Stop c
     else wire (wire (vehicle_gate e c m) (availability_flow e)) (\<lambda>c1 ps.
       if port 0 ps \<noteq> [] then mark_active e c1 (hd (port 0 ps))
       else Emit c1 [[], [], port 1 ps, port 2 ps]))"

section \<open>The last decision\<close>

abbreviation decision_state_topic :: string where
  "decision_state_topic \<equiv> ''smart_home/security_light/last_decision/state''"

abbreviation decision_attributes_topic :: string where
  "decision_attributes_topic \<equiv> ''smart_home/security_light/last_decision/attributes''"

definition decision_discovery :: "env \<Rightarrow> jv" where
  "decision_discovery e = JObj
    [(''topic'', JStr ''homeassistant/sensor/security_light_last_decision/config''), (''qos'', JStr ''1''),
     (''retain'', JTrue), (''payload'', JStr (json_str (JObj
       [(''name'', JStr (wording e ''last_decision_name'' [])),
        (''unique_id'', JStr ''security_light_last_decision''),
        (''object_id'', JStr ''security_light_last_decision''),
        (''default_entity_id'', JStr ''sensor.security_light_last_decision''),
        (''state_topic'', JStr decision_state_topic),
        (''json_attributes_topic'', JStr decision_attributes_topic),
        (''icon'', JStr ''mdi:shield-home-outline''), (''entity_category'', JStr ''diagnostic'')])))]"

definition classify_diagnostic :: "jv \<Rightarrow> string" where
  "classify_diagnostic p =
    (if jget p ''sun_ready'' \<noteq> JTrue \<or> jget p ''sun_below_horizon'' \<noteq> JTrue then ''blocked_daylight''
     else if jget p ''vehicle_primary_engine_state_valid'' = JTrue \<and>
       jget p ''vehicle_primary_engine_on'' = JFalse \<and> jget p ''engine_communication_failed'' \<noteq> JTrue
       then ''blocked_engine_off''
     else if jget p ''approach_distance_ready'' = JFalse then ''waiting_approach_distance''
     else if jget p ''reflector_state'' = JStr ''on'' then ''blocked_reflector_on''
     else if jget p ''decision_context_ready'' \<noteq> JTrue then ''waiting_context''
     else ''evaluating'')"

definition last_decision :: "jv \<Rightarrow> jv" where
  "last_decision m =
    (let d = jget m ''_security_light_decision_state''; p = dflt (payload m) (JObj []) in
     if truthy d then d
     else if jget p ''kind'' = JStr ''arrival_blocked'' then JStr ''blocked_direction''
     else if jget p ''diagnostic'' = JStr ''arrival_trigger_received'' then JStr (classify_diagnostic p)
     else JUndef)"

definition decision_publish :: "env \<Rightarrow> ctx \<Rightarrow> jv \<Rightarrow> ports run" where
  "decision_publish e c m =
    (if test_msg m then Stop c
     else if jget m ''topic'' = JStr ''security_light_decision_discovery'' then Emit c [[decision_discovery e]]
     else
      (let d = last_decision m; p = dflt (payload m) (JObj []); now = clock e;
           source = (if is_resident (jget p ''source'') then jget p ''source'' else JNull);
           reason = dflt (jget p ''reason'') (dflt (jget p ''direction_reason'') JNull);
           attempt = to_num (jget p ''attempt'') in
       if \<not> truthy d then Stop c
       else Emit (pset c ''security_light_last_decision_v1'' (JObj [(''version'', JNum 1), (''decision'', d),
             (''source'', source), (''reason'', reason), (''updated_at'', JNum now)]))
         [[JObj [(''topic'', JStr decision_state_topic), (''qos'', JStr ''1''), (''retain'', JTrue),
             (''payload'', d)],
           JObj [(''topic'', JStr decision_attributes_topic), (''qos'', JStr ''1''), (''retain'', JTrue),
             (''payload'', JStr (json_str (JObj [(''decision'', d), (''source'', source), (''reason'', reason),
                (''attempt'', js_num attempt), (''updated_at'', JStr (iso e now))])))]]]))"

section \<open>What lights the light\<close>

lemma vehicle_gate_emitD:
  assumes "vehicle_gate e c m = Emit c' m'" "is_obj m" "is_obj (payload m)"
  shows "c' = c" "is_obj m'" "is_obj (payload m')" "test_msg m' = test_msg m"
    "gate_engine m \<or> manual_bypass (test_msg m) c (gate_unreliable m)"
    "\<not> test_msg m \<Longrightarrow> \<not> in_cooldown c (clock e)"
    "plget m' ''vehicle_primary_gate'' = JStr (if manual_bypass (test_msg m) c (gate_unreliable m)
       then ''manual_bypass_for_unreliable_engine'' else ''known_engine_on'')"
    "plget m' ''engine_bypass_allowed'' = JBool (manual_bypass (test_msg m) c (gate_unreliable m))"
  using assms by (auto simp: vehicle_gate_def Let_def plget_plsets test_msg_plsets split: if_splits)

lemma availability_emitD:
  assumes "availability_flow e c m = Emit c' ps" "port 0 ps \<noteq> []" "is_obj m" "is_obj (payload m)"
  obtains m' where "c' = c" "port 0 ps = [m']" "is_obj m'" "is_obj (payload m')" "test_msg m' = test_msg m"
    "plget m' ''vehicle_primary_gate'' = plget m ''vehicle_primary_gate''"
    "\<not> is_active (fper c lifecycle_key)"
proof -
  obtain a where a: "availability_facts e c m = Emit c a" "policies_ready c"
    using assms(1) by (auto simp: availability_flow_def wire_Emit_iff availability_facts_def Let_def split: if_splits)
  have act: "av_active a = is_active (fper c lifecycle_key)"
    using a by (auto simp: availability_facts_def Let_def)
  have r: "availability_ready c m a = Emit c' ps" "\<not> av_active a"
    using assms(1,2) a(1)
    by (auto simp: availability_flow_def availability_unavailable_def Let_def split: if_splits)
  show thesis
    by (rule that [of "hd (port 0 ps)"])
      (use r act assms(3,4) in \<open>auto simp: availability_ready_def plget_plsets test_msg_plsets\<close>)
qed

lemma mark_active_emitD:
  assumes "mark_active e c m = Emit c' ps"
  shows "policies_ready c" "mark_ready c m (clock e)"
    "\<not> is_active (dflt (sget (test_msg m) c lifecycle_key) (JObj [(''version'', JNum 1)]))"
    "c' = mark_store (test_msg m) c m (dflt (sget (test_msg m) c lifecycle_key) (JObj [(''version'', JNum 1)]))
       (clock e) (dflt (fmem c ''security_light_physical_state'') (JStr ''unknown'') = JStr ''unavailable'')"
    "test_msg m \<Longrightarrow> port 0 ps = []"
  using assms by (auto simp: mark_active_def Let_def split: if_splits)

text \<open>C2: The light is switched on only when everything says so. Whenever a ready decision reaches the
  actuator, it is no dry run; the sun is known to be down; no arrival holds the light and it is not
  cooling down; the light is off by a fresh reconciled reading or unreachable; and either the cached
  vehicle shows a valid running engine with a working link or a person has enabled the bypass.\<close>

theorem turn_on_safe:
  assumes "lighting_flow e c m = Emit c' ps" and "port 0 ps \<noteq> []"
  shows "\<not> test_msg m \<and> fmem c ''sun_ready'' = JTrue \<and> fmem c ''sun_below_horizon'' = JTrue \<and>
    \<not> is_active (fper c lifecycle_key) \<and> \<not> in_cooldown c (clock e) \<and> attempt_allowed c (clock e) \<and>
    (let v = fmem c ''vehicle_primary_context_v1'' in
      jget v ''engine_on'' = JTrue \<and> jget v ''engine_state_valid'' = JTrue \<and>
      jget v ''engine_communication_failed'' \<noteq> JTrue \<or>
      fper c ''security_light_engine_bypass_enabled'' = JTrue \<and>
      fper c ''security_light_engine_bypass_automatic'' \<noteq> JTrue)"
proof -
  have sun: "plget m ''sun_below_horizon'' = JTrue"
    using assms(1) by (auto simp: lighting_flow_def split: if_splits)
  then have o: "is_obj m" "is_obj (payload m)" using plget_objs by blast+
  obtain c1 m1 where 1: "vehicle_gate e c m = Emit c1 m1"
    using assms(1) sun by (auto simp: lighting_flow_def wire_Emit_iff)
  note g = vehicle_gate_emitD [OF 1 o]
  obtain c2 ps2 where 2: "availability_flow e c m1 = Emit c2 ps2" "port 0 ps2 \<noteq> []"
    "mark_active e c2 (hd (port 0 ps2)) = Emit c' ps"
    using assms sun 1 g(1) by (auto simp: lighting_flow_def wire_Emit_iff split: if_splits)
  obtain m2 where a: "c2 = c" "port 0 ps2 = [m2]" "is_obj m2" "is_obj (payload m2)"
    "test_msg m2 = test_msg m1"
    "plget m2 ''vehicle_primary_gate'' = plget m1 ''vehicle_primary_gate''" "\<not> is_active (fper c lifecycle_key)"
    by (rule availability_emitD [OF 2(1,2) g(2,3)])
  have 3: "mark_active e c m2 = Emit c' ps" using 2(3) a by simp
  note k = mark_active_emitD [OF 3]
  have t: "\<not> test_msg m2" using k(5) assms(2) by auto
  then have tm: "\<not> test_msg m" using a(5) g(4) by simp
  have fields: "fmem c ''sun_ready'' = JTrue" "fmem c ''sun_below_horizon'' = JTrue" "attempt_allowed c (clock e)"
    "engine_gate_open m2 (dflt (mget False c ''vehicle_primary_context_v1'') (JObj [])) \<or> bypass_gate_open False c m2"
    using k(2) t by (simp_all add: mark_ready_def Let_def)
  have "jget (dflt v (JObj [])) x = jget v x" for v x by (cases v) (simp_all add: dflt_def)
  then have "(let v = fmem c ''vehicle_primary_context_v1'' in
      jget v ''engine_on'' = JTrue \<and> jget v ''engine_state_valid'' = JTrue \<and>
      jget v ''engine_communication_failed'' \<noteq> JTrue) \<or>
      fper c ''security_light_engine_bypass_enabled'' = JTrue \<and>
      fper c ''security_light_engine_bypass_automatic'' \<noteq> JTrue"
    using fields(4) a(6) g(7) tm
    by (auto simp: engine_gate_open_def bypass_gate_open_def manual_bypass_def mget_def sget_def tkey_def
        split: if_splits)
  then show ?thesis using tm fields(1-3) a(7) g(6) by (auto simp: Let_def)
qed

section \<open>One activation at a time\<close>

lemma mark_store_lifecycle:
  "sget t (mark_store t c m lc now b) lifecycle_key =
     activated lc (plget m ''arrival_key'') now (minutes (light_policy c) ''backstop_minutes'')"
  by (simp add: mark_store_def stop_watching_def Let_def)

lemma mark_store_pending:
  "sget t (mark_store t c m lc now b) pending_key = JNull"
  "sget t (mark_store t c m lc now b) pending_map_key = JObj []"
  by (simp_all add: mark_store_def stop_watching_def Let_def)

lemma activated_get:
  assumes "is_obj lc"
  shows "is_active (activated lc key now b)" "jget (activated lc key now b) ''on_since'' = JNum now"
    "jget (activated lc key now b) ''force_off_at'' = JNum (now + b)"
    "jget (activated lc key now b) ''pending_off_at'' = JNull"
    "jget (activated lc key now b) ''version'' = JNum 1"
    "jget (activated lc key now b) ''vehicle_refresh_at'' = JNull" "is_obj (activated lc key now b)"
  using assms by (simp_all add: activated_def is_active_def pending_cleared_def refresh_cleared_def jget_jsets)

lemma activated_ok:
  assumes "is_obj lc" "fin now" "fin b" "Fin 0 \<le> b" "\<not> bound < b"
  shows "lifecycle_ok bound (activated lc key now b)"
proof -
  obtain n x where nb: "now = Fin n" "b = Fin x" "0 \<le> x" using assms(2,3,4) by (auto simp: fin_iff)
  have "\<not> Fin n + bound < Fin (n + x)" using assms(5) nb by (cases bound) auto
  then show ?thesis
    using activated_get [OF assms(1), of key now b] nb
    by (simp add: lifecycle_ok_def deadlines_ok_def pending_ok_def) (simp add: is_active_def)
qed

text \<open>C10: An activation opens one bounded lifecycle. When the light is marked active, the stored record
  is coherent with its backstop exactly the configured time away, every pending arrival is dropped,
  and no other arrival can mark the light active until the record is closed.\<close>

theorem activation_opens_one_lifecycle:
  fixes e c m
  defines "t \<equiv> test_msg m" and "b \<equiv> minutes (light_policy c) ''backstop_minutes''"
  assumes "mark_active e c m = Emit c' ps"
    and "nullish (sget t c lifecycle_key) \<or> is_obj (sget t c lifecycle_key)"
    and "fin (clock e)" and "fin b" and "Fin 0 \<le> b"
  shows "lifecycle_ok b (sget t c' lifecycle_key) \<and> is_active (sget t c' lifecycle_key) \<and>
    jget (sget t c' lifecycle_key) ''force_off_at'' = JNum (clock e + b) \<and>
    sget t c' pending_key = JNull \<and> sget t c' pending_map_key = JObj [] \<and>
    (\<forall>e' m'. test_msg m' = t \<longrightarrow> \<not> emits (mark_active e' c' m'))"
proof -
  let ?lc = "dflt (sget t c lifecycle_key) (JObj [(''version'', JNum 1)])"
  have o: "is_obj ?lc" using assms(4) by (auto simp: dflt_def)
  note k = mark_active_emitD(4) [OF assms(3), folded t_def]
  have lc: "sget t c' lifecycle_key = activated ?lc (plget m ''arrival_key'') (clock e) b"
    by (simp add: k mark_store_lifecycle b_def)
  have ok: "lifecycle_ok b (sget t c' lifecycle_key)"
    unfolding lc by (rule activated_ok) (use o assms(5-7) in \<open>simp_all\<close>)
  have act: "is_active (sget t c' lifecycle_key)" "is_obj (sget t c' lifecycle_key)"
    "jget (sget t c' lifecycle_key) ''force_off_at'' = JNum (clock e + b)"
    unfolding lc using activated_get [OF o] by simp_all
  then have "\<not> emits (mark_active e' c' m')" if "test_msg m' = t" for e' m'
    using that by (simp add: mark_active_def dflt_def Let_def)
  then show ?thesis using ok act mark_store_pending by (simp add: k)
qed

section \<open>Recovery requests are throttled\<close>

lemma store_pending_glob: "glob (store_pending c m a) = glob c"
  by (simp add: store_pending_def start_watch_def Let_def)

lemmas route_defs = arrival_route_def arrival_pending_def arrival_ready_def arrival_recovery_def
  arrival_throttled_def arrival_pending_only_def arrival_blocked_def diagnose_def

lemma arrival_routeD:
  assumes "arrival_route e c (m, a) = Emit c' (m', a')" "ar_recovery a = None"
  shows "ar_recovery a' \<noteq> None \<Longrightarrow> ar_recovery_allowed a \<and>
    mget (ar_test a) c' ''security_light_last_recovery_request_at'' = JNum (ar_now a)"
    "glob c' = glob c"
  using assms
  by (auto simp: route_defs store_pending_glob split: if_splits)

lemma arrival_flowD:
  assumes "arrival_flow e c m = Emit c' ps"
  obtains m' a' where "arrival_route e c (m, arrival_build e c m) = Emit c' (m', a')"
    "arrival_output c' (m', a') = Emit c' ps" "policies_ready c"
proof -
  obtain c1 m1 a1 where 1: "arrival_route e c (m, arrival_build e c m) = Emit c1 (m1, a1)"
    "arrival_output c1 (m1, a1) = Emit c' ps" "policies_ready c"
    using assms by (auto simp: arrival_flow_def wire_Emit_iff arrival_facts_def split: if_splits)
  then have "c1 = c'" by (simp add: arrival_output_def Let_def)
  then show thesis using that 1 by simp
qed

lemma arrival_build_fields [simp]:
  "ar_recovery (arrival_build e c m) = None" "ar_test (arrival_build e c m) = test_msg m"
  "ar_now (arrival_build e c m) = clock e" "ar_source (arrival_build e c m) = plget m ''source''"
  "ar_recovery_allowed (arrival_build e c m) = recovery_allowed (test_msg m) c (clock e)"
  by (simp_all add: arrival_build_def Let_def)

lemma output_recovery: "arrival_output c (m, a) = Emit c' ps \<Longrightarrow> port 2 ps \<noteq> [] \<Longrightarrow> ar_recovery a \<noteq> None"
  by (cases "ar_outcome a"; cases "ar_recovery a") (auto simp: arrival_output_def one_of_def eval_nat_numeral Let_def)

text \<open>Recovery requests are throttled. After an arrival has asked for a refresh of the vehicle
  context, no arrival of the same mode asks again before the configured time has passed.\<close>

theorem recovery_throttled:
  assumes "arrival_flow e c m = Emit c1 ps" and "port 2 ps \<noteq> []"
    and "arrival_flow e' c1 m' = Emit c2 ps'" and "test_msg m' = test_msg m"
    and "fin (clock e)" and "Fin 0 < clock e"
    and "\<not> param (light_policy c) ''recovery_request_throttle_seconds'' 1000 \<le> clock e' - clock e"
  shows "port 2 ps' = []"
proof (rule ccontr)
  assume r: "port 2 ps' \<noteq> []"
  obtain m1 a1 where 1: "arrival_route e c (m, arrival_build e c m) = Emit c1 (m1, a1)"
    "arrival_output c1 (m1, a1) = Emit c1 ps" by (rule arrival_flowD [OF assms(1)])
  obtain m2 a2 where 2: "arrival_route e' c1 (m', arrival_build e' c1 m') = Emit c2 (m2, a2)"
    "arrival_output c2 (m2, a2) = Emit c2 ps'" by (rule arrival_flowD [OF assms(3)])
  have w: "mget (test_msg m) c1 ''security_light_last_recovery_request_at'' = JNum (clock e)" "glob c1 = glob c"
    using arrival_routeD [OF 1(1)] output_recovery [OF 1(2) assms(2)] by simp_all
  have "recovery_allowed (test_msg m') c1 (clock e')"
    using arrival_routeD(1) [OF 2(1)] output_recovery [OF 2(2) r] by simp
  then show False
    using w assms(4-7) jnum_less_asym by (auto simp: recovery_allowed_def Let_def)
qed

section \<open>The newest intent is kept\<close>

lemma resident_str: "is_resident s \<Longrightarrow> s = JStr (to_str s)"
  by (auto simp: is_resident_def residents_def)

lemma start_watch_sget [simp]: "k \<noteq> watch_key \<Longrightarrow> sget (ar_test a) (start_watch c a) k = sget (ar_test a) c k"
  by (simp add: start_watch_def Let_def)

lemma stored_intent_new:
  assumes "is_resident (ar_source a)" "is_obj (dflt (sget (ar_test a) c pending_map_key) (JObj []))"
  shows "stored_intent (ar_test a) (store_pending c m a) (ar_source a) = pending_record m a"
proof -
  let ?D = "dflt (sget (ar_test a) c pending_map_key) (JObj [])"
  have "sget (ar_test a) (store_pending c m a) pending_map_key = jset ?D (to_str (ar_source a)) (pending_record m a)"
    using assms(1) by (simp add: store_pending_def Let_def)
  moreover have "\<not> nullish (pending_record m a)" by (simp add: pending_record_def)
  ultimately show ?thesis
    using assms(2) by (simp add: stored_intent_def Let_def) (simp add: dflt_def [of "pending_record m a"])
qed

lemma arrival_route_intent:
  assumes "arrival_route e c (m, a) = Emit c' x" "ar_direction a"
  shows "stored_intent (ar_test a) c' s =
    stored_intent (ar_test a) (if supersedes c a then store_pending c m a else c) s"
proof -
  have "sget t (mset t d ''security_light_last_recovery_request_at'' v) k = sget t d k"
    if "k = pending_key \<or> k = pending_map_key" for t d v k
    using that by (auto simp: sget_def mset_def)
  then have "stored_intent t (mset t d ''security_light_last_recovery_request_at'' v) s = stored_intent t d s" for t d v
    by (simp add: stored_intent_def)
  with assms show ?thesis
    by (auto simp: route_defs split: if_splits)
qed

text \<open>The newest arrival is the one kept. After a resident's arrival with a proven direction has
  been processed, an intent is stored for that resident and it is at least as new as both the arrival
  and the intent stored before.\<close>

theorem newest_intent_kept:
  fixes e c m
  defines "t \<equiv> test_msg m" and "s \<equiv> plget m ''source''" and "a \<equiv> arrival_build e c m"
  assumes "arrival_flow e c m = Emit c' ps" and "ar_direction a" and "is_resident s"
    and "is_obj (dflt (sget t c pending_map_key) (JObj []))" and "fin (ar_event_at a)"
  shows "truthy (stored_intent t c' s) \<and>
    ar_event_at a \<le> num_or (jget (stored_intent t c' s) ''event_at'') 0 \<and>
    (truthy (stored_intent t c s) \<and> fin (num_or (jget (stored_intent t c s) ''event_at'') 0) \<longrightarrow>
     num_or (jget (stored_intent t c s) ''event_at'') 0 \<le> num_or (jget (stored_intent t c' s) ''event_at'') 0)"
proof -
  obtain m1 a1 where 1: "arrival_route e c (m, a) = Emit c' (m1, a1)"
    by (rule arrival_flowD [OF assms(4), folded a_def])
  have f: "ar_test a = t" "ar_source a = s" by (simp_all add: a_def t_def s_def)
  have same: "x \<le> x" if "fin x" for x :: jnum using that by (auto simp: fin_iff)
  note intent = arrival_route_intent [OF 1 assms(5), of s, unfolded f]
  show ?thesis
  proof (cases "supersedes c a")
    case True
    have "stored_intent t c' s = pending_record m a"
      using True intent stored_intent_new [of a c m] assms(6,7) f by simp
    then show ?thesis
      using True same [OF assms(8)] f by (auto simp: pending_record_def supersedes_def Let_def)
  next
    case False
    then have "stored_intent t c' s = stored_intent t c s" using intent by simp
    moreover have "truthy (stored_intent t c s)" "fin (num_or (jget (stored_intent t c s) ''event_at'') 0)"
      "\<not> num_or (jget (stored_intent t c s) ''event_at'') 0 \<le> ar_event_at a"
      using False f by (simp_all add: supersedes_def Let_def)
    ultimately show ?thesis
      using assms(8) same jnum_not_le jnum_less_imp_le by (auto simp: fin_iff)
  qed
qed

section \<open>Dry runs\<close>

lemma isolated_store_pending: "ar_test a \<Longrightarrow> isolated c (store_pending c m a)"
  by (auto simp: store_pending_def start_watch_def Let_def)

lemma isolated_arrival_route: "ar_test (snd x) \<Longrightarrow> isolated c (ctx_of (arrival_route e c x))"
  by (cases x) (auto simp: route_defs isolated_store_pending)

lemma isolated_arrival_flow: "test_msg m \<Longrightarrow> isolated c (ctx_of (arrival_flow e c m))"
proof (cases "arrival_facts e c m")
  case (Emit c1 x)
  assume t: "test_msg m"
  have x: "c1 = c" "x = (m, arrival_build e c m)"
    using Emit by (auto simp: arrival_facts_def split: if_splits)
  then have i: "isolated c (ctx_of (arrival_route e c x))" using t isolated_arrival_route [of x] by simp
  have "ctx_of (wire (arrival_route e c x) arrival_output) = ctx_of (arrival_route e c x)"
    by (cases "arrival_route e c x") (auto simp: arrival_output_def Let_def)
  with i show ?thesis by (simp add: arrival_flow_def Emit x(1))
qed (auto simp: arrival_flow_def arrival_facts_def split: if_splits)

lemma isolated_mark_store: "isolated c (mark_store True c m lc now b)"
  by (auto simp: mark_store_def consume_cycle_def stop_watching_def Let_def)

lemma isolated_mark_active: "test_msg m \<Longrightarrow> isolated c (ctx_of (mark_active e c m))"
  by (auto simp: mark_active_def isolated_mark_store Let_def)

interpretation arrivals: dry_run arrival_flow test_msg
  by unfold_locales (rule isolated_arrival_flow)

interpretation activation: dry_run_gate mark_active test_msg
  by unfold_locales (auto intro: isolated_mark_active mark_active_emitD(5))

text \<open>The one leak: a dry run that meets an unavailable actuator writes the dedupe entry of production.\<close>

lemma unavailable_dry_run_leaks:
  "fmem (ctx_of (availability_unavailable e c m a)) ''security_light_unavailable_decision_v1'' =
     JObj [(''key'', JStr (av_key a)), (''at'', JNum (av_now a)), (''state'', av_physical a)]"
  by (simp add: availability_unavailable_def Let_def)

section \<open>A night arrival\<close>

definition home_ctx :: ctx where
  "home_ctx = fold (\<lambda>(k, v) c. fset c k v)
     [(''sun_ready'', JTrue), (''sun_below_horizon'', JTrue),
      (''security_light_physical_state'', JStr ''unavailable''),
      (''vehicle_primary_context_v1'', JObj [(''engine_on'', JTrue), (''engine_state_valid'', JTrue)]),
      (''people_context_v1'', JObj [(''resident_primary'', trip_position), (''ready'', JTrue)])]
     default_policies"

lemma home_reads [simp]:
  "glob home_ctx = glob default_policies" "fper home_ctx = (\<lambda>_. JUndef)"
  "fmem home_ctx = (\<lambda>_. JUndef)(''sun_ready'' := JTrue, ''sun_below_horizon'' := JTrue,
     ''security_light_physical_state'' := JStr ''unavailable'',
     ''vehicle_primary_context_v1'' := JObj [(''engine_on'', JTrue), (''engine_state_valid'', JTrue)],
     ''people_context_v1'' := JObj [(''resident_primary'', trip_position), (''ready'', JTrue)])"
  by (simp_all add: home_ctx_def)

lemma home_ready [simp]: "policies_ready home_ctx"
  by (simp add: policies_ready_def)

text \<open>The resident stands at the gate (the snapshot of the event has the distance).\<close>

definition gate_snapshot :: jv where
  "gate_snapshot = JObj [(''ready'', JTrue), (''updated_at'', JNum 400000), (''state'', JStr ''near_home''),
     (''gate_distance_m'', JNum 40)]"

definition ready_arrival :: jv where
  "ready_arrival = JObj [(''payload'', JObj
     [(''sun_below_horizon'', JTrue), (''vehicle_primary_in_use'', JTrue), (''vehicle_primary_engine_on'', JTrue),
      (''vehicle_primary_engine_state_valid'', JTrue), (''source'', JStr ''resident_primary''),
      (''arrival_key'', JStr ''k1''), (''arrival_resident_snapshot'', gate_snapshot)])]"

lemma ready_arrival_get [simp]:
  "test_msg ready_arrival = False" "is_obj ready_arrival" "is_obj (payload ready_arrival)"
  "plget ready_arrival ''sun_below_horizon'' = JTrue" "plget ready_arrival ''vehicle_primary_in_use'' = JTrue"
  "plget ready_arrival ''vehicle_primary_engine_on'' = JTrue"
  "plget ready_arrival ''vehicle_primary_engine_state_valid'' = JTrue"
  "plget ready_arrival ''vehicle_primary_engine_stale'' = JUndef"
  "plget ready_arrival ''engine_communication_failed'' = JUndef"
  "plget ready_arrival ''engine_data_unreliable'' = JUndef"
  "plget ready_arrival ''source'' = JStr ''resident_primary''" "plget ready_arrival ''arrival_key'' = JStr ''k1''"
  "plget ready_arrival ''local_excursion_return'' = JUndef"
  "plget ready_arrival ''arrival_resident_snapshot'' = gate_snapshot"
  by (simp_all add: ready_arrival_def test_msg_def plget_def payload_def)

definition gated_arrival :: jv where
  "gated_arrival = plsets ready_arrival [(''engine_bypass_enabled'', JFalse), (''engine_bypass_allowed'', JFalse),
     (''vehicle_primary_gate'', JStr ''known_engine_on'')]"

definition available_arrival :: jv where
  "available_arrival = plsets gated_arrival [(''actuator_available'', JFalse),
     (''actuator_confirmation_pending'', JTrue), (''reflector_state_before_attempt'', JStr ''unavailable''),
     (''would_turn_on'', JTrue)]"

lemma gated_arrival_get [simp]:
  "test_msg gated_arrival = False" "is_obj gated_arrival" "is_obj (payload gated_arrival)"
  by (simp_all add: gated_arrival_def test_msg_plsets)

lemma available_arrival_get [simp]:
  "test_msg available_arrival = False" "is_obj available_arrival" "is_obj (payload available_arrival)"
  "plget available_arrival ''source'' = JStr ''resident_primary''"
  "plget available_arrival ''vehicle_primary_gate'' = JStr ''known_engine_on''"
  "plget available_arrival ''vehicle_primary_engine_stale'' = JUndef"
  "plget available_arrival ''local_excursion_return'' = JUndef"
  "plget available_arrival ''arrival_resident_snapshot'' = gate_snapshot"
  "plget available_arrival ''arrival_key'' = JStr ''k1''"
  by (simp_all add: available_arrival_def gated_arrival_def test_msg_plsets plget_plsets)

lemma home_gate: "vehicle_gate (host_at 400000) home_ctx ready_arrival = Emit home_ctx gated_arrival"
  by (simp add: vehicle_gate_def gate_known_off_def gate_engine_def gate_unreliable_def manual_bypass_def
      in_cooldown_def gated_arrival_def sget_def Let_def)

lemma home_available: "availability_flow (host_at 400000) home_ctx gated_arrival =
    Emit home_ctx [[available_arrival], [], []]"
  by (simp add: availability_flow_def availability_facts_def availability_ready_def available_arrival_def
      is_active_def sget_def dflt_def Let_def)

lemma home_resident: "mark_resident std_location (Fin 400000) trip_position gate_snapshot =
    jspread trip_position gate_snapshot"
  by (simp add: mark_resident_def snapshot_at_def gate_snapshot_def future_ms_def param_def Let_def)

lemma home_resident_get [simp]:
  "jget (jspread trip_position gate_snapshot) ''ready'' = JTrue"
  "jget (jspread trip_position gate_snapshot) ''stale'' = JFalse"
  "jget (jspread trip_position gate_snapshot) ''updated_at'' = JNum (Fin 400000)"
  "jget (jspread trip_position gate_snapshot) ''gate_distance_m'' = JNum (Fin 40)"
  "jget (jspread trip_position gate_snapshot) ''current_home'' = JFalse"
  "is_objectlike (jspread trip_position gate_snapshot)"
  by (simp_all add: jspread_def trip_position_def gate_snapshot_def)

lemma home_mark_ready: "mark_ready home_ctx available_arrival (Fin 400000)"
  by (simp add: mark_ready_def local_current_def people_ready_for_def reading_current_def observed_at_def
      recent_def within_approach_def attempt_allowed_def engine_gate_open_def event_source_def home_resident
      future_ms_def minutes_def param_def mget_def sget_def tkey_def dflt_def Let_def)

lemma home_mark: "emits (mark_active (host_at 400000) home_ctx available_arrival)"
  "sent (mark_active (host_at 400000) home_ctx available_arrival) =
     Some [[mark_message home_ctx available_arrival (Fin 400000) (JStr ''unavailable'')], []]"
  using home_mark_ready
  by (simp_all add: mark_active_def mark_duplicate_def is_active_def sget_def dflt_def Let_def)

theorem turn_on_safe_witness:
  "\<not> test_msg ready_arrival \<and> attempt_allowed home_ctx 400000"
proof -
  let ?r = "lighting_flow (host_at 400000) home_ctx ready_arrival"
  have s: "sent ?r = Some [[mark_message home_ctx available_arrival (Fin 400000) (JStr ''unavailable'')], []]"
    using home_mark(2) home_gate home_available by (simp add: lighting_flow_def)
  have r: "?r = Emit (ctx_of ?r) [[mark_message home_ctx available_arrival (Fin 400000) (JStr ''unavailable'')], []]"
    by (rule run_eqI [OF s])
  show ?thesis using turn_on_safe [OF r] by simp
qed

theorem activation_opens_one_lifecycle_witness:
  "sget False (ctx_of (mark_active (host_at 400000) home_ctx available_arrival)) pending_key = JNull"
proof -
  let ?r = "mark_active (host_at 400000) home_ctx available_arrival"
  obtain ps where r: "?r = Emit (ctx_of ?r) ps" using emits_run [OF home_mark(1)] by blast
  have "nullish (sget (test_msg available_arrival) home_ctx lifecycle_key)" by (simp add: sget_def)
  moreover have "fin (minutes (light_policy home_ctx) ''backstop_minutes'')"
    "Fin 0 \<le> minutes (light_policy home_ctx) ''backstop_minutes''" by (simp_all add: minutes_def param_def)
  ultimately show ?thesis using activation_opens_one_lifecycle [OF r] by simp
qed

definition approach_report :: jv where
  "approach_report = JObj [(''payload'', JObj
     [(''kind'', JStr ''arrival''), (''source'', JStr ''resident_primary''), (''arrival_stage'', JStr ''approach''),
      (''arrival_previous_state'', JStr ''not_home''), (''arrival_direction'', JStr ''returning''),
      (''external_cycle_confirmed'', JTrue), (''event_at'', JNum 390000),
      (''arrival_resident_snapshot'', gate_snapshot)])]"

lemma approach_report_get [simp]:
  "test_msg approach_report = False" "plget approach_report ''kind'' = JStr ''arrival''"
  "plget approach_report ''source'' = JStr ''resident_primary''"
  "plget approach_report ''arrival_stage'' = JStr ''approach''"
  "plget approach_report ''arrival_previous_state'' = JStr ''not_home''"
  "plget approach_report ''arrival_direction'' = JStr ''returning''"
  "plget approach_report ''external_cycle_confirmed'' = JTrue"
  "plget approach_report ''event_at'' = JNum (Fin 390000)"
  "plget approach_report ''arrival_resident_snapshot'' = gate_snapshot"
  by (simp_all add: approach_report_def test_msg_def plget_def payload_def)

lemma gate_snapshot_get [simp]:
  "jget gate_snapshot ''ready'' = JTrue" "jget gate_snapshot ''stale'' = JUndef"
  "jget gate_snapshot ''updated_at'' = JNum (Fin 400000)" "jget gate_snapshot ''state'' = JStr ''near_home''"
  "jget gate_snapshot ''current_home'' = JUndef" "jget gate_snapshot ''gate_distance_m'' = JNum (Fin 40)"
  "is_objectlike gate_snapshot"
  by (simp_all add: gate_snapshot_def)

lemma approach_resident: "arrival_resident std_location (Fin 400000) JUndef gate_snapshot = gate_snapshot"
  by (simp add: arrival_resident_def snapshot_at_def future_ms_def minutes_def param_def recent_def Let_def)

lemma approach_valid: "resident_arrival_valid std_location (Fin 400000) approach_report gate_snapshot b"
  by (simp add: resident_arrival_valid_def is_resident_def residents_def reading_current_def observed_at_def
      future_ms_def minutes_def param_def recent_def previous_away_def Let_def)

lemma approach_build [simp]:
  "ar_direction (arrival_build (host_at (Fin 400000)) default_policies approach_report)"
  "\<not> ar_logic_ready (arrival_build (host_at (Fin 400000)) default_policies approach_report)"
  "ar_recovery_needed (arrival_build (host_at (Fin 400000)) default_policies approach_report)"
  "ar_event_at (arrival_build (host_at (Fin 400000)) default_policies approach_report) = Fin 390000"
  "recovery_allowed False default_policies (Fin 400000)"
  by (simp_all add: arrival_build_def approach_resident approach_valid direction_valid_def trusted_engine_def
      manual_bypass_def recovery_allowed_def mget_def sget_def dflt_def Let_def)

lemma approach_recovers:
  "\<exists>c' ps. arrival_flow (host_at 400000) default_policies approach_report = Emit c' ps \<and> port 2 ps \<noteq> []"
proof -
  have f: "arrival_facts (host_at 400000) default_policies approach_report =
      Emit default_policies (approach_report, arrival_build (host_at 400000) default_policies approach_report)"
    by (simp add: arrival_facts_def policies_ready_def)
  show ?thesis
    using approach_build unfolding arrival_flow_def f
    by (simp add: route_defs arrival_output_def one_of_def eval_nat_numeral Let_def)
qed

theorem recovery_throttled_witness:
  "\<exists>c1. \<forall>c2 ps'. arrival_flow (host_at 410000) c1 approach_report = Emit c2 ps' \<longrightarrow> port 2 ps' = []"
proof -
  obtain c1 ps where r: "arrival_flow (host_at 400000) default_policies approach_report = Emit c1 ps" "port 2 ps \<noteq> []"
    using approach_recovers by blast
  have "port 2 ps' = []" if "arrival_flow (host_at 410000) c1 approach_report = Emit c2 ps'" for c2 ps'
    by (rule recovery_throttled [OF r that refl]) (simp_all add: param_def)
  then show ?thesis by blast
qed

theorem newest_intent_kept_witness:
  "\<exists>c'. truthy (stored_intent False c' (JStr ''resident_primary''))"
proof -
  obtain c1 ps where r: "arrival_flow (host_at 400000) default_policies approach_report = Emit c1 ps"
    using approach_recovers by blast
  have "is_resident (plget approach_report ''source'')" by (simp add: is_resident_def residents_def)
  moreover have "is_obj (dflt (sget (test_msg approach_report) default_policies pending_map_key) (JObj []))"
    by (simp add: sget_def dflt_def)
  moreover have "fin (ar_event_at (arrival_build (host_at 400000) default_policies approach_report))"
    "ar_direction (arrival_build (host_at 400000) default_policies approach_report)" by simp_all
  ultimately show ?thesis using newest_intent_kept [OF r] by (auto intro: exI [of _ c1])
qed

end
