(* ===== verification/LightBypass.thy ===== *)
theory LightBypass
  imports NodeRed
begin

text \<open>
  The engine bypass of the security light (\<open>security-light-engine-bypass-*.js\<close>): a switch that lets
  an arrival light the garage while the engine telemetry is unreliable. The switch remembers who
  turned it on. The provider's failures turn it on for the automation, its recovery turns it off
  again, and neither takes over a switch a person has set.

  The contract is the three-state machine \<open>owner\<close>; \<open>bypass_flow\<close> (facts, the branch switch of the
  tab, the branch's handler, the publisher) implements it.
\<close>

section \<open>Facts\<close>

datatype bypass_branch =
  Startup | AutoActivation | AutoRecovery | ManualEnable | ManualDisable | InvalidCommand

record bypass =
  by_test :: bool
  by_command :: string
  by_source :: string
  by_branch :: bypass_branch
  by_previous :: bool
  by_defined :: bool
  by_owned :: bool
  by_enabled :: bool
  by_automatic :: bool
  by_failed :: jv

abbreviation bypass_state_key :: string where
  "bypass_state_key \<equiv> ''security_light_engine_bypass_enabled''"

abbreviation bypass_automatic_key :: string where
  "bypass_automatic_key \<equiv> ''security_light_engine_bypass_automatic''"

text \<open>An MQTT payload arrives as text; text that looks like an object is parsed, and kept as it is
  when that fails.\<close>

definition bypass_payload :: "jv \<Rightarrow> jv" where
  "bypass_payload m = (case payload m of
      JStr s \<Rightarrow> if starts_with (js_trim s) [CHR 0x7B] then
          (case json_parse s of Some v \<Rightarrow> v | None \<Rightarrow> JStr s) else JStr s
    | v \<Rightarrow> v)"

definition bypass_command :: "jv \<Rightarrow> string" where
  "bypass_command p = js_upper (js_trim (to_str (dflt (jget p ''requested_state'') (dflt p (JStr [])))))"

definition bypass_source :: "jv \<Rightarrow> string" where
  "bypass_source p = to_str (dflt (jget p ''source'') (JStr ''dashboard''))"

definition bypass_branch_of :: "string \<Rightarrow> string \<Rightarrow> bypass_branch" where
  "bypass_branch_of command source =
    (if command = ''STARTUP'' then Startup
     else if source \<in> set [''provider_backoff'', ''api_failure''] then AutoActivation
     else if source \<in> set [''provider_recovered'', ''api_recovered''] then AutoRecovery
     else if command \<in> set [''ON'', ''TRUE'', ''1''] then ManualEnable
     else if command \<in> set [''OFF'', ''FALSE'', ''0''] then ManualDisable
     else InvalidCommand)"

definition bypass_facts :: "ctx \<Rightarrow> jv \<Rightarrow> bypass" where
  "bypass_facts c m =
    (let t = test_msg m; p = bypass_payload m;
         command = bypass_command p; source = bypass_source p in
     \<lparr>by_test = t, by_command = command, by_source = source,
      by_branch = bypass_branch_of command source,
      by_previous = (sget t c bypass_state_key = JTrue),
      by_defined = (sget t c bypass_state_key \<noteq> JUndef),
      by_owned = (sget t c bypass_automatic_key = JTrue),
      by_enabled = False, by_automatic = False, by_failed = JUndef\<rparr>)"

section \<open>Branches\<close>

definition bypass_startup :: "ctx \<Rightarrow> bypass \<Rightarrow> bypass run" where
  "bypass_startup c d =
    Emit (if by_defined d then c else sset (by_test d) c bypass_state_key JFalse)
      (d\<lparr>by_enabled := by_previous d, by_automatic := by_owned d, by_failed := JUndef\<rparr>)"

definition bypass_auto_enable :: "ctx \<Rightarrow> bypass \<Rightarrow> bypass run" where
  "bypass_auto_enable c d =
    (let c1 = sset (by_test d) c bypass_state_key JTrue;
         c2 = (if by_previous d then c1 else sset (by_test d) c1 bypass_automatic_key JTrue) in
     Emit c2 (d\<lparr>by_enabled := True,
       by_automatic := (if by_previous d then by_owned d else True), by_failed := JTrue\<rparr>))"

definition bypass_auto_recover :: "ctx \<Rightarrow> bypass \<Rightarrow> bypass run" where
  "bypass_auto_recover c d =
    Emit (sset (by_test d) (sset (by_test d) c bypass_state_key JFalse) bypass_automatic_key JFalse)
      (d\<lparr>by_enabled := False, by_automatic := False, by_failed := JFalse\<rparr>)"

definition bypass_preserve_manual :: "ctx \<Rightarrow> bypass \<Rightarrow> bypass run" where
  "bypass_preserve_manual c d = Stop (logged NodeLog c)"

definition bypass_manual_enable :: "ctx \<Rightarrow> bypass \<Rightarrow> bypass run" where
  "bypass_manual_enable c d =
    Emit (sset (by_test d) (sset (by_test d) c bypass_state_key JTrue) bypass_automatic_key JFalse)
      (d\<lparr>by_enabled := True, by_automatic := False, by_failed := JUndef\<rparr>)"

definition bypass_manual_disable :: "ctx \<Rightarrow> bypass \<Rightarrow> bypass run" where
  "bypass_manual_disable c d =
    Emit (sset (by_test d) (sset (by_test d) c bypass_state_key JFalse) bypass_automatic_key JFalse)
      (d\<lparr>by_enabled := False, by_automatic := False, by_failed := JUndef\<rparr>)"

definition bypass_invalid :: "ctx \<Rightarrow> bypass \<Rightarrow> bypass run" where
  "bypass_invalid c d = Stop (logged NodeWarn c)"

text \<open>The switch \<open>_engine_bypass.branch\<close> of the tab, with the ownership switch behind the recovery
  branch.\<close>

definition bypass_switch :: "ctx \<Rightarrow> bypass \<Rightarrow> bypass run" where
  "bypass_switch c d = (case by_branch d of
      Startup \<Rightarrow> bypass_startup c d
    | AutoActivation \<Rightarrow> bypass_auto_enable c d
    | AutoRecovery \<Rightarrow> if by_owned d then bypass_auto_recover c d else bypass_preserve_manual c d
    | ManualEnable \<Rightarrow> bypass_manual_enable c d
    | ManualDisable \<Rightarrow> bypass_manual_disable c d
    | InvalidCommand \<Rightarrow> bypass_invalid c d)"

section \<open>Publisher\<close>

definition bypass_discovery :: jv where
  "bypass_discovery = JObj
    [(''topic'', JStr ''homeassistant/switch/vehicle_primary_engine_bypass/config''),
     (''retain'', JTrue), (''qos'', JNum 1),
     (''payload'', JStr (json_str (JObj
       [(''name'', JStr (''Bypass do motor para ilumina'' @ [CHR 0xE7, CHR 0xE3] @ ''o de chegada'')),
        (''unique_id'', JStr ''vehicle_primary_engine_bypass''),
        (''object_id'', JStr ''vehicle_primary_engine_bypass''),
        (''state_topic'', JStr ''homeassistant/vehicle_primary/engine_bypass/state''),
        (''command_topic'', JStr ''homeassistant/vehicle_primary/engine_bypass/set''),
        (''payload_on'', JStr ''ON''), (''payload_off'', JStr ''OFF''),
        (''state_on'', JStr ''ON''), (''state_off'', JStr ''OFF''),
        (''icon'', JStr ''mdi:car-light-alert''),
        (''device'', JObj [(''identifiers'', JArr [JStr ''vehicle_primary_bluelink'']),
           (''name'', JStr ''vehicle_primary''), (''manufacturer'', JStr ''Hyundai'')])])))]"

definition bypass_state_message :: "bool \<Rightarrow> jv" where
  "bypass_state_message on = JObj
    [(''topic'', JStr ''homeassistant/vehicle_primary/engine_bypass/state''), (''retain'', JTrue),
     (''qos'', JNum 1), (''payload'', JStr (if on then ''ON'' else ''OFF''))]"

definition bypass_reevaluate :: "env \<Rightarrow> bypass \<Rightarrow> jv" where
  "bypass_reevaluate e d = JObj [(''payload'', JObj
    [(''contract'', JStr ''security.engine-bypass.v1''), (''kind'', JStr ''engine_bypass_context''),
     (''source'', JStr (if by_test d then ''manual_test'' else by_source d)),
     (''enabled'', JBool (by_enabled d)), (''automatic'', JBool (by_automatic d)),
     (''communication_failed'', by_failed d), (''updated_at'', JNum (clock e)),
     (''test_mode'', JBool (by_test d))])]"

definition bypass_output :: "env \<Rightarrow> jv \<Rightarrow> ctx \<Rightarrow> bypass \<Rightarrow> ports run" where
  "bypass_output e m c d =
    (let c1 = (if \<not> by_test d \<and> by_previous d \<noteq> by_enabled d
               then logged (if by_enabled d then NodeWarn else NodeLog) c else c);
         r = bypass_reevaluate e d in
     if by_test d then
       (let tc = dflt (jget m ''_location_test_case'')
                   (dflt (plget m ''test_case'') (JStr ''engine_bypass''));
            r1 = jset (jset r ''_location_test'' JTrue) ''_location_test_case'' tc in
        Emit c1 [[], [plsets r1 [(''test_case'', tc)]]])
     else Emit c1 [[bypass_discovery, bypass_state_message (by_enabled d)], [r]])"

definition bypass_flow :: "env \<Rightarrow> ctx \<Rightarrow> jv \<Rightarrow> ports run" where
  "bypass_flow e c m = wire (bypass_switch c (bypass_facts c m)) (bypass_output e m)"

section \<open>The contract\<close>

datatype owner = Disabled | Automatic | Manual

fun owner_step :: "bypass_branch \<Rightarrow> owner \<Rightarrow> owner" where
  "owner_step ManualEnable _ = Manual"
| "owner_step ManualDisable _ = Disabled"
| "owner_step AutoActivation Disabled = Automatic"
| "owner_step AutoRecovery Automatic = Disabled"
| "owner_step _ s = s"

definition owner_of :: "bool \<Rightarrow> ctx \<Rightarrow> owner" where
  "owner_of t c =
    (if sget t c bypass_state_key \<noteq> JTrue then Disabled
     else if sget t c bypass_automatic_key = JTrue then Automatic else Manual)"

definition message_branch :: "jv \<Rightarrow> bypass_branch" where
  "message_branch m = bypass_branch_of (bypass_command (bypass_payload m)) (bypass_source (bypass_payload m))"

lemmas bypass_handler_defs = bypass_startup_def bypass_auto_enable_def bypass_auto_recover_def
  bypass_preserve_manual_def bypass_manual_enable_def bypass_manual_disable_def bypass_invalid_def

lemma ctx_of_bypass_output [simp]:
  "sget t (ctx_of (wire r (bypass_output e m))) k = sget t (ctx_of r) k"
  by (cases r) (auto simp: bypass_output_def Let_def)

lemma bypass_facts_fields [simp]:
  "by_test (bypass_facts c m) = test_msg m"
  "by_branch (bypass_facts c m) = message_branch m"
  "by_previous (bypass_facts c m) = (sget (test_msg m) c bypass_state_key = JTrue)"
  "by_defined (bypass_facts c m) = (sget (test_msg m) c bypass_state_key \<noteq> JUndef)"
  "by_owned (bypass_facts c m) = (sget (test_msg m) c bypass_automatic_key = JTrue)"
  by (simp_all add: bypass_facts_def message_branch_def Let_def)

lemma owner_of_writes [simp]:
  "owner_of t (sset t (sset t c bypass_state_key v) bypass_automatic_key w) =
    (if v \<noteq> JTrue then Disabled else if w = JTrue then Automatic else Manual)"
  "owner_of t (sset t c bypass_state_key v) =
    (if v \<noteq> JTrue then Disabled
     else if sget t c bypass_automatic_key = JTrue then Automatic else Manual)"
  "owner_of t (logged x c) = owner_of t c"
  by (simp_all add: owner_of_def)

lemma owner_of_output [simp]:
  "owner_of t (ctx_of (wire r (bypass_output e m))) = owner_of t (ctx_of r)"
  by (simp add: owner_of_def)

lemma bypass_switch_owner:
  assumes "by_previous d = (sget (by_test d) c bypass_state_key = JTrue)"
    and "by_defined d = (sget (by_test d) c bypass_state_key \<noteq> JUndef)"
    and "by_owned d = (sget (by_test d) c bypass_automatic_key = JTrue)"
  shows "owner_of (by_test d) (ctx_of (bypass_switch c d)) =
    owner_step (by_branch d) (owner_of (by_test d) c)"
  using assms
  by (cases "by_branch d"; cases "sget (by_test d) c bypass_state_key = JTrue";
      cases "sget (by_test d) c bypass_automatic_key = JTrue")
    (simp_all add: bypass_switch_def bypass_handler_defs owner_of_def Let_def)

text \<open>C4: The engine bypass implements its ownership machine. Whatever message arrives, the flow
  moves the stored switch as \<open>owner_step\<close> says: a provider failure switches it on for the automation
  only when it was off, a recovery switches off only what the automation switched on, and a switch a
  person has set stays theirs until a person clears it.\<close>

theorem bypass_refines_owner:
  "owner_of (test_msg m) (ctx_of (bypass_flow e c m)) =
     owner_step (message_branch m) (owner_of (test_msg m) c)"
  using bypass_switch_owner [of "bypass_facts c m" c]
  by (simp add: bypass_flow_def)

lemma isolated_bypass_switch: "by_test d \<Longrightarrow> isolated c (ctx_of (bypass_switch c d))"
  by (cases "by_branch d") (auto simp: bypass_switch_def bypass_handler_defs Let_def)

lemma isolated_bypass_output: "isolated c (ctx_of (bypass_output e m c d))"
  by (auto simp: bypass_output_def Let_def)

lemma isolated_bypass_flow: "test_msg m \<Longrightarrow> isolated c (ctx_of (bypass_flow e c m))"
  using isolated_bypass_switch [of "bypass_facts c m" c]
  by (cases "bypass_switch c (bypass_facts c m)")
    (auto simp: bypass_flow_def intro: isolated_trans isolated_bypass_output)

lemma bypass_switch_test: "bypass_switch c d = Emit c' d' \<Longrightarrow> by_test d' = by_test d"
  by (auto simp: bypass_switch_def bypass_handler_defs Let_def split: bypass_branch.splits if_splits)

lemma bypass_flow_test_silent:
  "test_msg m \<Longrightarrow> bypass_flow e c m = Emit c' ps \<Longrightarrow> port 0 ps = []"
  by (auto simp: bypass_flow_def wire_Emit_iff bypass_output_def Let_def
      dest!: bypass_switch_test split: if_splits)

interpretation bypass: dry_run_gate bypass_flow test_msg
  by unfold_locales (auto intro: isolated_bypass_flow bypass_flow_test_silent)

end
