(* ===== verification/LightLifecycle.thy ===== *)
theory LightLifecycle
  imports LightArrival LightBypass
begin

text \<open>
  The security light as a whole: the tab \<open>iluminacao_seguranca\<close> is a state machine whose states are
  contexts and whose events are the messages its flows receive, in any order and any number. The
  invariant ties the stored lifecycle to the stored policy; with the backstop it bounds how long an
  arrival can keep the light on.
\<close>

section \<open>Events\<close>

datatype light_event =
    Reconcile jv
  | OffDecision jv
  | TurnOff jv
  | Context jv
  | Arrival jv
  | Lighting jv
  | Bypass jv
  | LightParameter jv
  | LocationParameter jv

fun run_event :: "env \<Rightarrow> ctx \<Rightarrow> light_event \<Rightarrow> ctx" where
  "run_event e c (Reconcile m) = ctx_of (reconcile_flow e c m)"
| "run_event e c (OffDecision m) = ctx_of (off_decision e c m)"
| "run_event e c (TurnOff m) = ctx_of (turn_off_if_active e c m)"
| "run_event e c (Context m) = ctx_of (context_flow e c m)"
| "run_event e c (Arrival m) = ctx_of (arrival_flow e c m)"
| "run_event e c (Lighting m) = ctx_of (lighting_flow e c m)"
| "run_event e c (Bypass m) = ctx_of (bypass_flow e c m)"
| "run_event e c (LightParameter m) = ctx_of (light_policy_flow e c m)"
| "run_event e c (LocationParameter m) = ctx_of (location_policy_flow e c m)"

text \<open>Parameters arrive as messages; the runtime never sends anything else.\<close>

fun event_ok :: "light_event \<Rightarrow> bool" where
  "event_ok (LightParameter m) = is_obj m"
| "event_ok (LocationParameter m) = is_obj m"
| "event_ok _ = True"

text \<open>The states that can be reached, at finite times, from a start without lifecycle record whose
  stored policy is absent or sound.\<close>

inductive light_reachable :: "ctx \<Rightarrow> bool" where
  start: "nullish (fper c lifecycle_key) \<Longrightarrow> light_stored_ok c \<Longrightarrow> light_reachable c"
| event: "light_reachable c \<Longrightarrow> fin (clock e) \<Longrightarrow> event_ok ev \<Longrightarrow> light_reachable (run_event e c ev)"

section \<open>Frames\<close>

lemma fper_sset: "fper (sset t c k v) k' = (if \<not> t \<and> k' = k then v else fper c k')"
  by (simp add: sset_def)

lemma fper_mset [simp]: "fper (mset t c k v) = fper c"
  by (simp add: mset_def)

text \<open>What a flow other than the ones that own it does to the lifecycle and the policy: nothing.\<close>

definition untouched :: "ctx \<Rightarrow> ctx \<Rightarrow> bool" where
  "untouched c c' = (fper c' lifecycle_key = fper c lifecycle_key \<and> light_policy c' = light_policy c)"

lemma untouched_refl [simp, intro]: "untouched c c"
  by (simp add: untouched_def)

lemma untouched_trans: "untouched c c' \<Longrightarrow> untouched c' c'' \<Longrightarrow> untouched c c''"
  by (simp add: untouched_def)

lemma untouched_writes [simp, intro]:
  "untouched c c' \<Longrightarrow> k \<noteq> lifecycle_key \<Longrightarrow> untouched c (sset t c' k v)"
  "untouched c c' \<Longrightarrow> untouched c (mset t c' k v)"
  "untouched c c' \<Longrightarrow> untouched c (fset c' k v)"
  "untouched c c' \<Longrightarrow> untouched c (logged x c')"
  by (auto simp: untouched_def fper_sset mset_def)

lemma untouched_fold: "untouched c (fold (\<lambda>k c. mset True c k JNull) ks c)"
proof (induction ks arbitrary: c)
  case (Cons k ks)
  have "untouched c (mset True c k JNull)" by auto
  from untouched_trans [OF this Cons] show ?case by simp
qed simp

lemma untouched_cache_kind: "untouched c (fst (cache_kind t now f m c))"
proof -
  have "untouched c (reject_snapshot t now i oa name reason c)" for i oa name reason
    by (auto simp: reject_snapshot_def end_episode_def Let_def)
  moreover have "untouched c (end_episode t name c)" for name by (auto simp: end_episode_def)
  ultimately have "untouched c (fst (update_cache t now f m name c))" for name
    by (auto simp: update_cache_def Let_def)
  then show ?thesis by (auto simp: cache_kind_def Let_def)
qed

lemma untouched_context_cache: "untouched c (ctx_of (context_cache e c m))"
proof -
  have "untouched c (test_reset t m c)" for t by (auto simp: test_reset_def untouched_fold)
  from untouched_trans [OF this untouched_cache_kind] show ?thesis
    by (auto simp: context_cache_def Let_def)
qed

lemma untouched_watch_all: "untouched c (fst (snd (watch_all d0 ss (ws, c, d))))"
proof (induction d0 ss "(ws, c, d)" arbitrary: ws c d rule: watch_all.induct)
  case (2 d0 source rest ws c d)
  let ?st = "watch_resident d0 source (jget ws source)"
  have "untouched c (if ws_warned ?st then logged NodeWarn c else c)" by auto
  then show ?case using 2(1) 2(2) [OF _ refl] by (auto simp: Let_def intro: untouched_trans)
qed simp

lemma untouched_arrival_watch: "untouched c (ctx_of (arrival_watch c d))"
proof -
  let ?ws = "jget (sget (lx_test d) c watch_key) ''residents''"
  obtain ws c1 d1 where w: "watch_all d residents (?ws, c, d) = (ws, c1, d1)" by (metis prod_cases3)
  have "untouched c c1" using untouched_watch_all [of c d residents ?ws d] by (simp add: w)
  then show ?thesis by (auto simp: arrival_watch_def Let_def w)
qed

lemma untouched_local_excursion: "untouched c (ctx_of (local_excursion c d))"
  by (auto simp: local_excursion_def Let_def)

lemma untouched_pending_validate: "untouched c (ctx_of (pending_validate c m d))"
  by (auto simp: pending_validate_def Let_def)

lemma untouched_context_flow: "untouched c (ctx_of (context_flow e c m))"
proof (cases "context_cache e c m")
  case (Emit c1 d1)
  have 0: "untouched c c1" using untouched_context_cache [of c e m] Emit by simp
  obtain c2 d2 d3 c4 d4 c5 d5 where u: "local_excursion c1 d1 = Emit c2 d2"
    "engine_on_near_home c2 d2 = Emit c2 d3" "arrival_watch c2 d3 = Emit c4 d4"
    "pending_validate c4 m d4 = Emit c5 d5"
    "context_flow e c m = (if replay_ready d5 then wire (replay_build c5 d5) context_output
       else context_output c5 d5)"
    by (rule context_flow_unroll [OF Emit]) (rule that)
  have "untouched c1 c2" "untouched c2 c4" "untouched c4 c5"
    using untouched_local_excursion [of c1 d1] untouched_arrival_watch [of c2 d3]
      untouched_pending_validate [of c4 m d4] u by simp_all
  then have "untouched c c5" using 0 untouched_trans by blast
  then show ?thesis by (simp only: u(5) replay_output_ctx)
qed (use untouched_context_cache [of c e m] in \<open>simp_all add: context_flow_def\<close>)

lemma untouched_store_pending: "untouched c (store_pending c m a)"
  by (auto simp: store_pending_def start_watch_def Let_def)

lemma untouched_arrival_route: "untouched c (ctx_of (arrival_route e c x))"
  by (cases x) (auto simp: route_defs untouched_store_pending)

lemma untouched_arrival_flow: "untouched c (ctx_of (arrival_flow e c m))"
proof (cases "arrival_facts e c m")
  case (Emit c1 x)
  have "c1 = c" using Emit by (auto simp: arrival_facts_def split: if_splits)
  moreover have "ctx_of (wire (arrival_route e c x) arrival_output) = ctx_of (arrival_route e c x)"
    by (cases "arrival_route e c x") (auto simp: arrival_output_def Let_def split: prod.split)
  ultimately show ?thesis using Emit untouched_arrival_route by (simp add: arrival_flow_def)
qed (auto simp: arrival_flow_def arrival_facts_def split: if_splits)

lemma untouched_bypass_flow: "untouched c (ctx_of (bypass_flow e c m))"
proof -
  have "untouched c (ctx_of (bypass_switch c d))" for d
    by (cases "by_branch d") (auto simp: bypass_switch_def bypass_handler_defs Let_def)
  then have s: "untouched c (ctx_of (bypass_switch c (bypass_facts c m)))" .
  have "untouched c (ctx_of (bypass_output e m c d))" for c d
    by (auto simp: bypass_output_def Let_def)
  with s show ?thesis
    unfolding bypass_flow_def
    by (cases "bypass_switch c (bypass_facts c m)") (simp_all, rule untouched_trans)
qed

lemma untouched_vehicle_gate: "untouched c (ctx_of (vehicle_gate e c m))"
  by (auto simp: vehicle_gate_def Let_def)

lemma untouched_availability: "untouched c (ctx_of (availability_flow e c m))"
  by (auto simp: availability_flow_def availability_facts_def availability_ready_def
      availability_unavailable_def Let_def)

section \<open>The invariant\<close>

abbreviation light_limit_ms :: rat where
  "light_limit_ms \<equiv> 4200000"

definition light_invariant :: "ctx \<Rightarrow> bool" where
  "light_invariant c = (light_stored_ok c \<and> deadlines_ok (Fin light_limit_ms) (fper c lifecycle_key))"

lemma deadlines_ok_weaken: "deadlines_ok (Fin b) lc \<Longrightarrow> b \<le> b' \<Longrightarrow> deadlines_ok (Fin b') lc"
  by (auto simp: deadlines_ok_def num_le_iff)

lemma untouched_invariant: "untouched c c' \<Longrightarrow> light_invariant c \<Longrightarrow> light_invariant c'"
  by (simp add: light_invariant_def light_stored_ok_def untouched_def)

lemma stored_limits:
  assumes "light_stored_ok c" "policies_ready c"
  obtains b s where "minutes (light_policy c) ''backstop_minutes'' = Fin b" "0 \<le> b" "b \<le> 3600000"
    "max_deadline_ms (light_policy c) = Fin s" "s \<le> light_limit_ms"
proof -
  have l: "in_limits light_limits (light_policy c)"
    using assms by (simp add: light_stored_ok_def policy_good_def policies_ready_def)
  obtain x where x: "jget (light_policy c) ''backstop_minutes'' = JNum (Fin x)" "2 \<le> x" "x \<le> 60"
    using in_limitsD [OF l, of "''backstop_minutes''" 2 60] by (auto simp: light_limits_def)
  obtain y where y: "jget (light_policy c) ''deadline_slack_minutes'' = JNum (Fin y)" "y \<le> 10"
    using in_limitsD [OF l, of "''deadline_slack_minutes''" 0 10] by (auto simp: light_limits_def)
  show thesis
    by (rule that [of "x * 60000" "(x + y) * 60000"])
      (use x y in \<open>simp_all add: minutes_def param_def max_deadline_ms_def\<close>)
qed

lemma reconcile_invariant: "light_invariant c \<Longrightarrow> light_invariant (ctx_of (reconcile_flow e c m))"
proof (cases "policies_ready c")
  case True
  assume i: "light_invariant c"
  then obtain s where "max_deadline_ms (light_policy c) = Fin s" "s \<le> light_limit_ms"
    using stored_limits True by (metis light_invariant_def)
  then have "deadlines_ok (Fin light_limit_ms) (fper (ctx_of (reconcile_flow e c m)) lifecycle_key)"
    using reconcile_stored [OF True, of e m] deadlines_ok_weaken by (auto simp: lifecycle_ok_def)
  then show ?thesis using i by (simp add: light_invariant_def light_stored_ok_def reconcile_flow_glob)
qed (auto simp: reconcile_flow_def lifecycle_load_def light_invariant_def light_stored_ok_def)

lemma deadlines_ok_cong:
  assumes "deadlines_ok b lc" "jget lc' ''active_by_arrival'' = jget lc ''active_by_arrival''"
    "jget lc' ''on_since'' = jget lc ''on_since''" "jget lc' ''force_off_at'' = jget lc ''force_off_at''"
  shows "deadlines_ok b lc'"
  using assms by (simp add: deadlines_ok_def is_active_def)

lemma deadlines_ok_dflt: "deadlines_ok b lc \<Longrightarrow> deadlines_ok b (dflt lc (JObj []))"
  by (rule deadlines_ok_cong, assumption) (cases lc; simp add: dflt_def)+

definition same_deadlines :: "jv \<Rightarrow> jv \<Rightarrow> bool" where
  "same_deadlines lc lc' = (jget lc' ''active_by_arrival'' = jget lc ''active_by_arrival'' \<and>
     jget lc' ''on_since'' = jget lc ''on_since'' \<and> jget lc' ''force_off_at'' = jget lc ''force_off_at'')"

lemma same_deadlines_ok: "same_deadlines lc lc' \<Longrightarrow> deadlines_ok b lc \<Longrightarrow> deadlines_ok b lc'"
  by (rule deadlines_ok_cong) (simp_all add: same_deadlines_def)

lemma off_blocked_same: "same_deadlines lc (fper (off_blocked False c lc now r a) lifecycle_key)"
  by (simp add: off_blocked_def fper_sset same_deadlines_def pending_cleared_def Let_def)

lemma schedule_off_same: "same_deadlines lc (schedule_off lc now g)"
  by (simp add: schedule_off_def same_deadlines_def)

lemma off_decision_stored:
  "\<not> test_msg m \<Longrightarrow> fper (ctx_of (off_decision e c m)) lifecycle_key = fper c lifecycle_key \<or>
   same_deadlines (dflt (fper c lifecycle_key) (JObj [])) (fper (ctx_of (off_decision e c m)) lifecycle_key)"
  by (simp add: off_decision_def sget_def fper_sset off_blocked_same schedule_off_same Let_def)

lemma off_decision_glob: "glob (ctx_of (off_decision e c m)) = glob c"
  by (simp add: off_decision_def off_blocked_def Let_def)

lemma off_decision_invariant: "light_invariant c \<Longrightarrow> light_invariant (ctx_of (off_decision e c m))"
proof -
  assume i: "light_invariant c"
  then have d: "deadlines_ok (Fin light_limit_ms) (dflt (fper c lifecycle_key) (JObj []))"
    by (simp add: light_invariant_def deadlines_ok_dflt)
  have "fper (ctx_of (off_decision e c m)) = fper c" if "test_msg m"
    using isolated_off_decision [OF that, of c e] by (simp add: isolated_def)
  then have "deadlines_ok (Fin light_limit_ms) (fper (ctx_of (off_decision e c m)) lifecycle_key)"
    using off_decision_stored [of m e c] same_deadlines_ok [OF _ d] i
    by (cases "test_msg m") (auto simp: light_invariant_def)
  then show ?thesis using i by (simp add: light_invariant_def light_stored_ok_def off_decision_glob)
qed

lemma turn_off_stored:
  "fper (ctx_of (turn_off_if_active e c m)) lifecycle_key = fper c lifecycle_key \<or>
   \<not> is_active (fper (ctx_of (turn_off_if_active e c m)) lifecycle_key)"
proof -
  have "\<not> is_active (lifecycle_off lc now cd)" if "is_active lc" for lc now cd
    using that by (intro lifecycle_off_inactive) (cases lc; simp add: is_active_def)
  then show ?thesis by (auto simp: turn_off_if_active_def fper_sset Let_def sget_def)
qed

lemma turn_off_glob: "glob (ctx_of (turn_off_if_active e c m)) = glob c"
  by (simp add: turn_off_if_active_def Let_def)

lemma turn_off_invariant: "light_invariant c \<Longrightarrow> light_invariant (ctx_of (turn_off_if_active e c m))"
  using turn_off_stored [of e c m] turn_off_glob [of e c m]
  by (auto simp: light_invariant_def light_stored_ok_def deadlines_ok_def)

lemma mark_store_glob: "glob (mark_store t c m lc now b) = glob c"
  by (simp add: mark_store_def consume_cycle_def stop_watching_def Let_def)

lemma activated_not_obj: "\<not> is_obj lc \<Longrightarrow> \<not> is_active (activated lc k now b)"
  by (simp add: activated_def is_active_def jget_not_obj)

lemma mark_active_invariant:
  assumes "light_invariant c" "fin (clock e)"
  shows "light_invariant (ctx_of (mark_active e c m))"
proof (cases "mark_active e c m")
  case (Emit c' ps)
  note k = mark_active_emitD [OF Emit]
  let ?b = "minutes (light_policy c) ''backstop_minutes''"
  obtain b where b: "?b = Fin b" "0 \<le> b" "b \<le> 3600000"
    using stored_limits k(1) assms(1) by (metis light_invariant_def)
  have g: "glob c' = glob c" by (simp add: k(4) mark_store_glob)
  have "deadlines_ok (Fin light_limit_ms) (fper c' lifecycle_key)"
  proof (cases "test_msg m")
    case True
    then have "fper c' = fper c" using isolated_mark_active [OF True, of c e] Emit by (simp add: isolated_def)
    then show ?thesis using assms(1) by (simp add: light_invariant_def)
  next
    case False
    let ?lc = "dflt (sget False c lifecycle_key) (JObj [(''version'', JNum 1)])"
    have f: "fper c' lifecycle_key = activated ?lc (plget m ''arrival_key'') (clock e) (Fin b)"
      using False mark_store_lifecycle [of False c m] b(1) by (simp add: k(4) sget_def)
    show ?thesis
    proof (cases "is_obj ?lc")
      case True
      have "lifecycle_ok (Fin light_limit_ms) (activated ?lc (plget m ''arrival_key'') (clock e) (Fin b))"
        by (rule activated_ok) (use True assms(2) b in simp_all)
      then show ?thesis by (simp add: f lifecycle_ok_def)
    next
      case False
      then show ?thesis using activated_not_obj by (simp add: f deadlines_ok_def)
    qed
  qed
  then show ?thesis using assms(1) Emit g by (simp add: light_invariant_def light_stored_ok_def)
qed (use assms in \<open>auto simp: mark_active_def light_invariant_def light_stored_ok_def Let_def split: if_splits\<close>)

lemma lighting_flow_invariant:
  assumes "light_invariant c" "fin (clock e)"
  shows "light_invariant (ctx_of (lighting_flow e c m))"
proof (cases "plget m ''sun_below_horizon'' = JTrue")
  case True
  let ?w = "wire (vehicle_gate e c m) (availability_flow e)"
  have w: "light_invariant (ctx_of ?w)"
  proof (cases "vehicle_gate e c m")
    case (Emit c1 m1)
    have "untouched c c1" using untouched_vehicle_gate [of c e m] Emit by simp
    then have "untouched c (ctx_of (availability_flow e c1 m1))" using untouched_availability untouched_trans by blast
    then show ?thesis using assms(1) Emit untouched_invariant by simp
  qed (use assms(1) untouched_vehicle_gate [of c e m] untouched_invariant in auto)
  show ?thesis
  proof (cases ?w)
    case (Emit c1 ps)
    then have "light_invariant c1" using w by simp
    then show ?thesis using True Emit mark_active_invariant assms(2) by (simp add: lighting_flow_def)
  qed (use w True in \<open>simp_all add: lighting_flow_def\<close>)
qed (use assms in \<open>simp add: lighting_flow_def\<close>)

lemma light_policy_fper: "fper (ctx_of (light_policy_flow e c m)) = fper c"
  by (simp add: light_policy_flow_def light_policy_validate_def light_policy_store_def
      light_policy_reject_def Let_def)

lemma location_policy_untouched: "untouched c (ctx_of (location_policy_flow e c m))"
  by (simp add: untouched_def location_policy_flow_def location_policy_validate_def location_policy_store_def
      location_policy_reject_def Let_def)

lemma run_event_invariant:
  assumes "light_invariant c" "fin (clock e)" "event_ok ev"
  shows "light_invariant (run_event e c ev)"
proof (cases ev)
  case (LightParameter m)
  then show ?thesis
    using assms light_policy_one [of c m e] by (simp add: light_invariant_def light_policy_fper)
qed (use assms in \<open>simp_all add: reconcile_invariant off_decision_invariant turn_off_invariant
      lighting_flow_invariant untouched_invariant [OF untouched_context_flow]
      untouched_invariant [OF untouched_arrival_flow] untouched_invariant [OF untouched_bypass_flow]
      untouched_invariant [OF location_policy_untouched]\<close>)

lemma start_invariant: "nullish (fper c lifecycle_key) \<Longrightarrow> light_stored_ok c \<Longrightarrow> light_invariant c"
  by (cases "fper c lifecycle_key") (auto simp: light_invariant_def deadlines_ok_def is_active_def)

lemma reachable_invariant: "light_reachable c \<Longrightarrow> light_invariant c"
  by (induction rule: light_reachable.induct) (simp_all add: start_invariant run_event_invariant)

section \<open>The light cannot stay on\<close>

text \<open>C1: An arrival never keeps the light on for more than seventy minutes. In every state the tab can
  reach, by any interleaving of its messages and changes of its policies, an active lifecycle carries
  a deadline at most seventy minutes after its activation, and any backstop message that arrives at
  or after that deadline switches the light off and closes the lifecycle.\<close>

theorem light_never_stays_on:
  assumes "light_reachable c" and "policies_ready c" and "is_active (fper c lifecycle_key)"
  shows "\<exists>on off. jget (fper c lifecycle_key) ''on_since'' = JNum (Fin on) \<and>
    jget (fper c lifecycle_key) ''force_off_at'' = JNum (Fin off) \<and> on \<le> off \<and> off \<le> on + light_limit_ms \<and>
    (\<forall>e m. \<not> test_msg m \<and> deadline_type m = JStr ''backstop'' \<and> Fin off \<le> clock e \<longrightarrow>
       (\<exists>c' out. turn_off_if_active e c m = Emit c' [[out]] \<and> \<not> is_active (fper c' lifecycle_key)))"
proof -
  have d: "deadlines_ok (Fin light_limit_ms) (fper c lifecycle_key)"
    using reachable_invariant [OF assms(1)] by (simp add: light_invariant_def)
  then obtain on off where o: "jget (fper c lifecycle_key) ''on_since'' = JNum (Fin on)"
    "jget (fper c lifecycle_key) ''force_off_at'' = JNum (Fin off)" "on \<le> off" "off \<le> on + light_limit_ms"
    using assms(3) by (auto simp: deadlines_ok_def num_le_iff)
  have lc: "dflt (fper c lifecycle_key) (JObj []) = fper c lifecycle_key" "is_obj (fper c lifecycle_key)"
    using assms(3) by (cases "fper c lifecycle_key"; simp add: dflt_def is_active_def)+
  have "\<exists>c' out. turn_off_if_active e c m = Emit c' [[out]] \<and> \<not> is_active (fper c' lifecycle_key)"
    if "\<not> test_msg m" "deadline_type m = JStr ''backstop''" "Fin off \<le> clock e" for e m
  proof -
    have "\<not> clock e < Fin off" using that(3) by (auto dest: jnum_less_asym)
    then have "turn_off_allowed False (unschedule c m) m (fper c lifecycle_key) v (clock e)" for v
      using that(2) o(2) by (simp add: turn_off_allowed_def Let_def)
    then show ?thesis
      using that(1,2) assms(2,3) lc lifecycle_off_inactive [OF lc(2)]
      by (simp add: turn_off_if_active_def sget_def fper_sset Let_def)
  qed
  with o show ?thesis by blast
qed


section \<open>A reachable lit state\<close>

lemma std_light_good: "policy_good light_limits std_light"
proof -
  have "is_obj std_light" "obj_wf std_light"
    by (simp_all add: std_light_def stored_policy_def light_defaults_def)
  moreover have "in_limits light_limits std_light"
    by (simp add: in_limits_def light_limits_def)
  ultimately show ?thesis by (simp add: policy_good_def)
qed

lemma home_reachable: "light_reachable home_ctx"
  by (rule light_reachable.start) (simp_all add: light_stored_ok_def std_light_good)

definition lit_home :: ctx where
  "lit_home = run_event (host_at 400000) home_ctx (Lighting ready_arrival)"

lemma lit_home_reachable: "light_reachable lit_home"
  unfolding lit_home_def by (rule light_reachable.event [OF home_reachable]) simp_all

lemma lit_home_store: "lit_home = mark_store False home_ctx available_arrival
    (JObj [(''version'', JNum 1)]) (Fin 400000) True"
proof -
  have "lit_home = ctx_of (mark_active (host_at 400000) home_ctx available_arrival)"
    using home_gate home_available by (simp add: lit_home_def lighting_flow_def)
  also have "\<dots> = mark_store False home_ctx available_arrival (JObj [(''version'', JNum 1)]) (Fin 400000) True"
  proof -
    obtain ps where "mark_active (host_at 400000) home_ctx available_arrival =
        Emit (ctx_of (mark_active (host_at 400000) home_ctx available_arrival)) ps"
      using emits_run [OF home_mark(1)] by blast
    from mark_active_emitD(4) [OF this] show ?thesis by (simp add: sget_def dflt_def)
  qed
  finally show ?thesis .
qed

theorem light_never_stays_on_witness:
  "\<exists>on off. jget (fper lit_home lifecycle_key) ''on_since'' = JNum (Fin on) \<and> off \<le> on + light_limit_ms"
proof -
  have "glob lit_home = glob home_ctx" by (simp add: lit_home_store mark_store_glob)
  then have r: "policies_ready lit_home" by (simp add: policies_ready_def)
  have "fper lit_home lifecycle_key = activated (JObj [(''version'', JNum 1)]) (plget available_arrival ''arrival_key'')
      (Fin 400000) (minutes (light_policy home_ctx) ''backstop_minutes'')"
    using mark_store_lifecycle [of False] by (simp add: lit_home_store sget_def)
  then have "is_active (fper lit_home lifecycle_key)" using activated_get(1) by simp
  from light_never_stays_on [OF lit_home_reachable r this] show ?thesis by blast
qed


end
