(* ===== verification/RefreshPolicy.thy ===== *)
theory RefreshPolicy
  imports Policies
begin

text \<open>
  The refresh policy of the car (\<open>vehicle-primary-refresh-policy*.js\<close>): the twelve parameters with
  their limits (\<open>refresh_config\<close>), the choice of the polling interval from the presence of the
  residents and the car (\<open>refresh_policy\<close>, whose five ports lead to one change node each), and the
  pause in the small hours when both residents are at home (\<open>quiet_hours\<close>).

  \<open>policy_flow\<close> composes the nodes the way the tab \<open>contexto_vehicle_primary\<close> wires them.
\<close>

section \<open>Parameters\<close>

type_synonym rule_table = "(string \<times> rat \<times> rat \<times> bool) list"

text \<open>Bounds, and whether the parameter must be an integer.\<close>

definition refresh_rules :: rule_table where
  "refresh_rules =
    [(''away_interval_minutes'', 15, 1440, False), (''arrival_armed_interval_minutes'', 1, 15, False),
     (''approaching_interval_minutes'', 5, 1440, False), (''home_interval_minutes'', 15, 1440, False),
     (''quiet_start_hour'', 0, 23, True), (''quiet_end_hour'', 1, 24, True),
     (''in_flight_lease_seconds'', 30, 600, True), (''cache_probe_settle_seconds'', 5, 120, True),
     (''provider_backoff_max_hours'', 1, 24, False),
     (''semantic_evidence_window_minutes'', 5, 60, False),
     (''unknown_location_start_hour'', 0, 23, True), (''unknown_location_end_hour'', 1, 24, True)]"

abbreviation refresh_config_key :: string where
  "refresh_config_key \<equiv> ''vehicle_primary_refresh_policy_config_v1''"

definition rule_ok :: "rat \<Rightarrow> rat \<Rightarrow> bool \<Rightarrow> jnum \<Rightarrow> bool" where
  "rule_ok lo hi whole v = (fin v \<and> \<not> v < Fin lo \<and> \<not> Fin hi < v \<and> (whole \<longrightarrow> integral v))"

text \<open>As in \<open>limit_accepts\<close>, an inherited name finds a rule without bounds.\<close>

definition refresh_accepts :: "string \<Rightarrow> jnum \<Rightarrow> bool" where
  "refresh_accepts key v = (case map_of refresh_rules key of
      Some (lo, hi, whole) \<Rightarrow> rule_ok lo hi whole v
    | None \<Rightarrow> key \<in> set inherited_names \<and> fin v)"

definition config_complete :: "jv \<Rightarrow> bool" where
  "config_complete cfg = list_all (\<lambda>r. fin (to_num (jget cfg (fst r)))) refresh_rules"

text \<open>\<open>config[key] = value\<close>: a primitive assigned to \<open>__proto__\<close> is ignored.\<close>

definition config_assign :: "jv \<Rightarrow> string \<Rightarrow> jnum \<Rightarrow> jv" where
  "config_assign cfg key v = (if key = ''__proto__'' then cfg else jset cfg key (JNum v))"

definition config_next :: "jv \<Rightarrow> string \<Rightarrow> jnum \<Rightarrow> jnum \<Rightarrow> jv" where
  "config_next current key v now =
    (let base = (if jget current ''version'' = JNum 1 then current else JObj [(''version'', JNum 1)]);
         cfg = jset (config_assign base key v) ''updated_at'' (JNum now) in
     jset cfg ''complete'' (JBool (config_complete cfg)))"

definition refresh_config :: "env \<Rightarrow> ctx \<Rightarrow> jv \<Rightarrow> ports run" where
  "refresh_config e c m =
    (let key = message_topic m; v = to_num (payload m) in
     if \<not> refresh_accepts key v then Stop (logged NodeError c)
     else Stop (pset c refresh_config_key (config_next (fper c refresh_config_key) key v (clock e))))"

section \<open>Presence\<close>

text \<open>What the policy node reads: the payload, the contexts of people and car, the location policy
  and the clock.\<close>

record presence =
  pr_payload :: jv
  pr_people :: jv
  pr_vehicle :: jv
  pr_location :: jv
  pr_now :: jnum

definition read_presence :: "env \<Rightarrow> ctx \<Rightarrow> jv \<Rightarrow> presence" where
  "read_presence e c m =
    (let t = (plget m ''test_mode'' = JTrue) in
     \<lparr>pr_payload = payload m, pr_people = mget t c ''people_context_v1'',
      pr_vehicle = mget t c ''vehicle_primary_context_v1'',
      pr_location = glob c ''location_policy_v1'', pr_now = clock e\<rparr>)"

definition roles :: "string list" where
  "roles = [''resident_primary'', ''resident_secondary'']"

text \<open>\<open>payload[role + suffix] ?? people[role]?.field\<close>\<close>

definition resident_value :: "presence \<Rightarrow> string \<Rightarrow> string \<Rightarrow> jv" where
  "resident_value r role fld = dflt (jget (pr_payload r) (role @ ''_'' @ fld))
     (jget (jget (pr_people r) role) fld)"

definition resident_state :: "presence \<Rightarrow> string \<Rightarrow> string" where
  "resident_state r role = js_lower (to_str (dflt (resident_value r role ''state'') (JStr [])))"

definition resident_ready :: "presence \<Rightarrow> string \<Rightarrow> bool" where
  "resident_ready r role =
    (let v = jget (pr_payload r) (role @ ''_ready'') in
     v = JTrue \<or> nullish v \<and> jget (jget (pr_people r) role) ''ready'' = JTrue)"

definition states_known :: "presence \<Rightarrow> bool" where
  "states_known r = (list_all (resident_ready r) roles \<and> list_all (\<lambda>x. resident_state r x \<noteq> []) roles)"

definition resident_in :: "presence \<Rightarrow> string \<Rightarrow> string \<Rightarrow> bool" where
  "resident_in r st role = (resident_ready r role \<and> resident_state r role = st)"

definition any_resident_away :: "presence \<Rightarrow> bool" where
  "any_resident_away r = (list_ex (resident_in r ''not_home'') roles \<or>
     jget (pr_payload r) ''any_resident_away'' = JTrue \<and> list_ex (resident_ready r) roles)"

definition both_home :: "presence \<Rightarrow> bool" where
  "both_home r = (list_all (resident_in r ''home'') roles \<and> \<not> any_resident_away r)"

definition resident_approaching :: "presence \<Rightarrow> bool" where
  "resident_approaching r = list_ex (resident_in r ''near_home'') roles"

definition arrival_armed :: "presence \<Rightarrow> string \<Rightarrow> bool" where
  "arrival_armed r role = (jget (dflt (jget (pr_payload r) ''people_arrival_armed'')
     (jget (pr_people r) ''arrival_armed'')) role = JTrue)"

definition excursion_active :: "presence \<Rightarrow> string \<Rightarrow> bool" where
  "excursion_active r role =
    (let item = jget (dflt (jget (pr_payload r) ''people_local_excursions'')
           (jget (pr_people r) ''local_excursions'')) role;
         started = to_num (jget item ''started_at''); expires = to_num (jget item ''expires_at'') in
     fin started \<and> 0 < started \<and> fin expires \<and> started \<le> expires \<and> pr_now r \<le> expires)"

definition armed_approaching :: "presence \<Rightarrow> bool" where
  "armed_approaching r = list_ex (\<lambda>role. resident_in r ''near_home'' role \<and>
     (arrival_armed r role \<or> excursion_active r role)) roles"

definition future_ms :: "presence \<Rightarrow> jnum" where
  "future_ms r = to_num (jget (pr_location r) ''future_tolerance_seconds'') * 1000"

text \<open>A return already confirmed survives a phone that has gone stale.\<close>

definition pending_approach :: "presence \<Rightarrow> bool" where
  "pending_approach r = list_ex (\<lambda>role.
     let observed = to_num (resident_value r role ''updated_at'') in
     resident_state r role = ''near_home'' \<and> arrival_armed r role \<and> fin observed \<and> 0 < observed \<and>
     observed \<le> pr_now r + future_ms r \<and>
     pr_now r - observed \<le> to_num (jget (pr_location r) ''local_excursion_minutes'') * 60000) roles"

definition vehicle_approaching :: "presence \<Rightarrow> bool" where
  "vehicle_approaching r = (jget (pr_vehicle r) ''near_home'' = JTrue \<and>
     jget (jget (pr_vehicle r) ''location'') ''ready'' = JTrue)"

text \<open>A stop outside \<open>near_home\<close> but inside the polling radius.\<close>

definition nearby_resident :: "presence \<Rightarrow> bool" where
  "nearby_resident r = list_ex (\<lambda>role.
     let distance = resident_value r role ''distance_m'';
         observed = to_num (resident_value r role ''updated_at'') in
     resident_value r role ''ready'' = JTrue \<and> num_fin distance \<and>
     to_num (jget (pr_location r) ''home_radius_m'') < to_num distance \<and>
     to_num distance \<le> to_num (jget (pr_location r) ''people_approach_radius_m'') \<and>
     0 < observed \<and> observed \<le> pr_now r + future_ms r \<and>
     pr_now r - observed \<le> to_num (jget (pr_location r) ''location_fresh_minutes'') * 60000) roles"

definition anyone_approaching :: "presence \<Rightarrow> bool" where
  "anyone_approaching r = (\<not> both_home r \<and> (resident_approaching r \<or> pending_approach r \<or>
     vehicle_approaching r \<or> nearby_resident r))"

definition known_engine_off :: "presence \<Rightarrow> bool" where
  "known_engine_off r = (jget (pr_vehicle r) ''engine_state_valid'' = JTrue \<and>
     jget (pr_vehicle r) ''engine_on'' = JFalse)"

definition restart_pending :: "presence \<Rightarrow> bool" where
  "restart_pending r = (anyone_approaching r \<and> (known_engine_off r \<or>
     (armed_approaching r \<or> pending_approach r) \<and> jget (pr_vehicle r) ''engine_on'' \<noteq> JTrue))"

definition anyone_away :: "presence \<Rightarrow> bool" where
  "anyone_away r = (any_resident_away r \<or> jget (pr_payload r) ''anyone_away'' = JTrue \<or>
     jget (pr_people r) ''anyone_away'' = JTrue)"

definition proximity_source :: "presence \<Rightarrow> jv" where
  "proximity_source r =
    (if resident_approaching r then JStr ''resident_current''
     else if pending_approach r then JStr ''resident_return_pending''
     else if nearby_resident r then JStr ''resident_nearby_stop''
     else if vehicle_approaching r then JStr ''vehicle_current'' else JNull)"

section \<open>Choosing the interval\<close>

definition config_ready :: "jv \<Rightarrow> bool" where
  "config_ready cfg = (policy_ready cfg \<and> list_all (\<lambda>(k, lo, hi, whole).
     let v = to_num (jget cfg k) in if whole then integral v else fin v) refresh_rules)"

definition config_ms :: "jv \<Rightarrow> jv" where
  "config_ms cfg = JObj
    [(''away_interval_ms'', JNum (to_num (jget cfg ''away_interval_minutes'') * 60 * 1000)),
     (''arrival_armed_interval_ms'', JNum (to_num (jget cfg ''arrival_armed_interval_minutes'') * 60 * 1000)),
     (''approaching_interval_ms'', JNum (to_num (jget cfg ''approaching_interval_minutes'') * 60 * 1000)),
     (''home_interval_ms'', JNum (to_num (jget cfg ''home_interval_minutes'') * 60 * 1000)),
     (''quiet_start_hour'', JNum (to_num (jget cfg ''quiet_start_hour''))),
     (''quiet_end_hour'', JNum (to_num (jget cfg ''quiet_end_hour''))),
     (''in_flight_lease_ms'', JNum (to_num (jget cfg ''in_flight_lease_seconds'') * 1000)),
     (''cache_probe_settle_ms'', JNum (to_num (jget cfg ''cache_probe_settle_seconds'') * 1000)),
     (''provider_backoff_max_ms'', JNum (to_num (jget cfg ''provider_backoff_max_hours'') * 3600000)),
     (''semantic_evidence_window_ms'',
        JNum (to_num (jget cfg ''semantic_evidence_window_minutes'') * 60000)),
     (''unknown_location_start_hour'', JNum (to_num (jget cfg ''unknown_location_start_hour''))),
     (''unknown_location_end_hour'', JNum (to_num (jget cfg ''unknown_location_end_hour'')))]"

definition policy_fields :: "presence \<Rightarrow> jv \<Rightarrow> (string \<times> jv) list" where
  "policy_fields r cfg =
    [(''refresh_policy_version'', JNum 1), (''refresh_policy_config'', config_ms cfg),
     (''refresh_resident_states_known'', JBool (states_known r)),
     (''refresh_resident_primary_ready'', JBool (resident_ready r ''resident_primary'')),
     (''refresh_resident_secondary_ready'', JBool (resident_ready r ''resident_secondary'')),
     (''refresh_any_resident_away'', JBool (any_resident_away r)),
     (''refresh_both_residents_home'', JBool (both_home r)),
     (''refresh_anyone_approaching'', JBool (anyone_approaching r)),
     (''refresh_proximity_source'', proximity_source r),
     (''refresh_arrival_restart_pending'', JBool (restart_pending r)),
     (''refresh_anyone_away'', JBool (anyone_away r))]"

datatype interval_policy = ArrivalArmed | Approaching | Away | BothHome | PresenceUnknown

definition choose_interval :: "presence \<Rightarrow> interval_policy" where
  "choose_interval r =
    (if both_home r then BothHome
     else if anyone_approaching r then (if restart_pending r then ArrivalArmed else Approaching)
     else if anyone_away r then Away else PresenceUnknown)"

fun policy_port :: "interval_policy \<Rightarrow> nat" where
  "policy_port ArrivalArmed = 0"
| "policy_port Approaching = 1"
| "policy_port Away = 2"
| "policy_port BothHome = 3"
| "policy_port PresenceUnknown = 4"

definition refresh_policy :: "env \<Rightarrow> ctx \<Rightarrow> jv \<Rightarrow> ports run" where
  "refresh_policy e c m =
    (let cfg = fper c refresh_config_key; r = read_presence e c m in
     if plget m ''kind'' \<noteq> JStr ''refresh_command'' then Emit c [[], [], [], [], []]
     else if \<not> config_ready cfg then Emit (logged NodeError c) [[], [], [], []]
     else Emit c ([[], [], [], [], []][policy_port (choose_interval r) := [plsets m (policy_fields r cfg)]]))"

text \<open>The change node behind each port.\<close>

fun interval_field :: "interval_policy \<Rightarrow> string" where
  "interval_field ArrivalArmed = ''arrival_armed_interval_ms''"
| "interval_field Approaching = ''approaching_interval_ms''"
| "interval_field Away = ''away_interval_ms''"
| "interval_field BothHome = ''home_interval_ms''"
| "interval_field PresenceUnknown = ''away_interval_ms''"

fun interval_name :: "interval_policy \<Rightarrow> string" where
  "interval_name ArrivalArmed = ''arrival_armed_engine_pending''"
| "interval_name Approaching = ''approaching''"
| "interval_name Away = ''away''"
| "interval_name BothHome = ''both_home''"
| "interval_name PresenceUnknown = ''presence_unknown''"

definition use_interval :: "interval_policy \<Rightarrow> jv \<Rightarrow> jv" where
  "use_interval i m = plsets m
    [(''refresh_interval_ms'', jget (plget m ''refresh_policy_config'') (interval_field i)),
     (''refresh_interval_policy'', JStr (interval_name i))]"

section \<open>Quiet hours\<close>

definition manual_bypass :: "jv \<Rightarrow> bool" where
  "manual_bypass reason = (reason = JStr ''manual_force'')"

definition departure_bypass :: "jv \<Rightarrow> jv \<Rightarrow> bool" where
  "departure_bypass m reason = (reason = JStr ''resident_departure'' \<and>
     plget m ''resident_departure_force'' = JTrue)"

definition arrival_bypass :: "jv \<Rightarrow> jv \<Rightarrow> bool" where
  "arrival_bypass m reason = (reason = JStr ''resident_arrival_confirmation'' \<and>
     plget m ''resident_arrival_force'' = JTrue)"

definition in_hours :: "jnum \<Rightarrow> jnum \<Rightarrow> jnum \<Rightarrow> bool" where
  "in_hours start stop h = (if start < stop then start \<le> h \<and> h < stop else start \<le> h \<or> h < stop)"

definition test_clock :: "env \<Rightarrow> jv \<Rightarrow> jnum" where
  "test_clock e m = (let n = to_num (plget m ''test_now'') in
     if test_msg m \<and> fin n then n else clock e)"

abbreviation refresh_key :: string where
  "refresh_key \<equiv> ''security_vehicle_primary_refresh_v1''"

text \<open>\<open>!state || typeof state !== "object" || Array.isArray(state)\<close>\<close>

definition obj_or_empty :: "jv \<Rightarrow> jv" where
  "obj_or_empty v = (if is_obj v then v else JObj [])"

definition quiet_hours :: "env \<Rightarrow> ctx \<Rightarrow> jv \<Rightarrow> jv run" where
  "quiet_hours e c m =
    (let cfg = plget m ''refresh_policy_config''; now = test_clock e m;
         start = to_num (jget cfg ''quiet_start_hour''); stop = to_num (jget cfg ''quiet_end_hour'') in
     if plget m ''refresh_policy_version'' \<noteq> JNum 1 \<or> \<not> integral start \<or> \<not> integral stop
     then Stop (logged NodeError c)
     else
       (let quiet = in_hours start stop (hour_of e now);
            reason = dflt (plget m ''reason'') (dflt (plget m ''recovery_reason'') (JStr ''scheduled_refresh''));
            paused = (\<not> manual_bypass reason \<and> \<not> departure_bypass m reason \<and> \<not> arrival_bypass m reason \<and>
              plget m ''refresh_both_residents_home'' = JTrue \<and> quiet) in
        if \<not> paused then
          Emit c (plsets m [(''refresh_quiet_hours_active'', JBool quiet),
            (''refresh_quiet_hours_blocked'', JBool paused)])
        else
          Stop (sset (test_msg m) c refresh_key (jsets (obj_or_empty (sget (test_msg m) c refresh_key))
            [(''state'', JStr ''waiting''), (''reason'', JStr ''quiet_hours_both_home''),
             (''enabled'', JFalse), (''next_retry_at'', JNull), (''cooldown_until'', JNull),
             (''updated_at'', JNum now)]))))"

text \<open>The wires from the policy to the coordinator.\<close>

definition after_policy :: "env \<Rightarrow> ctx \<Rightarrow> ports \<Rightarrow> jv run" where
  "after_policy e c ps =
    (case filter (\<lambda>i. port (policy_port i) ps \<noteq> []) [ArrivalArmed, Approaching, Away, BothHome, PresenceUnknown] of
       [] \<Rightarrow> Stop c
     | i # _ \<Rightarrow> quiet_hours e c (use_interval i (hd (port (policy_port i) ps))))"

definition policy_flow :: "env \<Rightarrow> ctx \<Rightarrow> jv \<Rightarrow> jv run" where
  "policy_flow e c m = wire (refresh_policy e c m) (after_policy e)"

section \<open>The configuration\<close>

text \<open>What holds of a stored configuration, complete or not.\<close>

definition param_ok :: "jv \<Rightarrow> string \<times> rat \<times> rat \<times> bool \<Rightarrow> bool" where
  "param_ok cfg = (\<lambda>(k, lo, hi, whole). jget cfg k = JUndef \<or>
     (\<exists>v. jget cfg k = JNum v \<and> rule_ok lo hi whole v))"

definition config_ok :: "jv \<Rightarrow> bool" where
  "config_ok cfg = (is_obj cfg \<and> jget cfg ''version'' = JNum 1 \<and>
     jget cfg ''complete'' = JBool (config_complete cfg) \<and> (\<forall>r\<in>set refresh_rules. param_ok cfg r))"

definition config_stored_ok :: "ctx \<Rightarrow> bool" where
  "config_stored_ok c = (fper c refresh_config_key = JUndef \<or> config_ok (fper c refresh_config_key))"

lemma rule_names: "(k, lo, hi, w) \<in> set refresh_rules \<Longrightarrow>
  k \<notin> {''version'', ''updated_at'', ''complete'', ''__proto__''}"
  by (auto simp: refresh_rules_def)

lemma rules_distinct: "distinct (map fst refresh_rules)"
  by (simp add: refresh_rules_def)

lemma rules_fresh: "list_all (\<lambda>r. fst r \<notin> set inherited_names) refresh_rules"
  by code_simp

lemma config_next_get:
  assumes "is_obj cfg" "jget cfg ''version'' = JNum 1 \<or> cfg = JObj []"
    "k \<notin> {''version'', ''updated_at'', ''complete'', ''__proto__''}"
  shows "jget (config_next cfg key v now) k = (if k = key then JNum v else jget cfg k)"
  using assms by (auto simp: config_next_def config_assign_def Let_def jget_jset)

lemma config_complete_cong:
  "(\<And>r. r \<in> set refresh_rules \<Longrightarrow> jget a (fst r) = jget b (fst r)) \<Longrightarrow>
     config_complete a = config_complete b"
  by (simp add: config_complete_def list_all_iff)

lemma config_next_flags:
  assumes "key \<notin> {''version'', ''updated_at'', ''complete''}"
  shows "is_obj (config_next cfg key v now)"
    "jget (config_next cfg key v now) ''version'' = JNum 1"
    "jget (config_next cfg key v now) ''complete'' = JBool (config_complete (config_next cfg key v now))"
proof -
  let ?base = "if jget cfg ''version'' = JNum 1 then cfg else JObj [(''version'', JNum 1)]"
  have obj: "is_obj ?base" by (cases cfg) auto
  show "is_obj (config_next cfg key v now)" "jget (config_next cfg key v now) ''version'' = JNum 1"
    using obj assms by (auto simp: config_next_def config_assign_def Let_def jget_jset)
  have "config_complete (jset x ''complete'' y) = config_complete x" for x y
    by (rule config_complete_cong) (auto dest: rule_names)
  then show "jget (config_next cfg key v now) ''complete'' = JBool (config_complete (config_next cfg key v now))"
    using obj by (simp add: config_next_def config_assign_def Let_def)
qed

lemma accepted_key: "refresh_accepts key v \<Longrightarrow> key \<notin> {''version'', ''updated_at'', ''complete''}"
  by (auto simp: refresh_accepts_def refresh_rules_def inherited_names_def)

lemma config_next_ok:
  assumes "cfg = JUndef \<or> config_ok cfg" and acc: "refresh_accepts key v"
  shows "config_ok (config_next cfg key v now)"
proof -
  have base: "config_next cfg key v now = config_next (if cfg = JUndef then JObj [] else cfg) key v now"
    by (simp add: config_next_def)
  have "param_ok (config_next cfg key v now) r" if "r \<in> set refresh_rules" for r
  proof -
    obtain k lo hi w where r: "r = (k, lo, hi, w)" by (cases r)
    have get: "jget (config_next cfg key v now) k = (if k = key then JNum v else jget cfg k)"
      unfolding base using assms rule_names [of k lo hi w] that r
      by (subst config_next_get) (auto simp: config_ok_def)
    have "rule_ok lo hi w v" if "k = key"
      using acc \<open>r \<in> _\<close> r that rules_distinct
      by (auto simp: refresh_accepts_def dest: map_of_is_SomeI split: option.splits)
    moreover have "jget cfg k = JUndef \<or> (\<exists>v. jget cfg k = JNum v \<and> rule_ok lo hi w v)"
      using assms(1) \<open>r \<in> _\<close> r by (auto simp: config_ok_def param_ok_def)
    ultimately show ?thesis by (simp add: r param_ok_def get)
  qed
  then show ?thesis
    using config_next_flags [OF accepted_key [OF acc]] by (simp add: config_ok_def)
qed

lemma config_param:
  assumes "config_ok cfg" "jget cfg ''complete'' = JTrue" "(k, lo, hi, w) \<in> set refresh_rules"
  obtains v where "jget cfg k = JNum (Fin v)" "lo \<le> v" "v \<le> hi" "w \<Longrightarrow> integral (Fin v)"
proof -
  have "fin (to_num (jget cfg k))"
    using assms by (force simp: config_ok_def config_complete_def list_all_iff)
  then have "jget cfg k \<noteq> JUndef" by auto
  moreover have "param_ok cfg (k, lo, hi, w)" using assms by (auto simp: config_ok_def)
  ultimately show thesis
    using that by (auto simp: param_ok_def rule_ok_def fin_iff not_less)
qed

lemma config_ready_complete:
  assumes "config_ok cfg" "jget cfg ''complete'' = JTrue"
  shows "config_ready cfg"
proof -
  have "(let v = to_num (jget cfg k) in if w then integral v else fin v)"
    if "(k, lo, hi, w) \<in> set refresh_rules" for k lo hi w
    by (rule config_param [OF assms that]) (simp del: integral.simps)
  then show ?thesis
    using assms by (auto simp: config_ready_def policy_ready_def config_ok_def list_all_iff Let_def)
qed

text \<open>Whatever sequence of parameter messages arrives, the stored refresh configuration holds only
  values inside their limits (hours and leases whole numbers), and it is marked complete exactly when
  all twelve parameters are there.\<close>

theorem refresh_config_invariant:
  assumes "config_stored_ok c"
  shows "config_stored_ok (fold (\<lambda>m c. ctx_of (refresh_config e c m)) ms c)"
  using assms
proof (induction ms arbitrary: c)
  case (Cons m ms)
  then have "config_stored_ok (ctx_of (refresh_config e c m))"
    by (auto simp: refresh_config_def config_stored_ok_def Let_def config_next_ok)
  with Cons show ?case by simp
qed simp


section \<open>The policy\<close>

text \<open>The parameter behind each interval, and the reasons that override the pause.\<close>

fun interval_param :: "interval_policy \<Rightarrow> string" where
  "interval_param ArrivalArmed = ''arrival_armed_interval_minutes''"
| "interval_param Approaching = ''approaching_interval_minutes''"
| "interval_param BothHome = ''home_interval_minutes''"
| "interval_param _ = ''away_interval_minutes''"

definition forced :: "jv \<Rightarrow> bool" where
  "forced m =
    (let reason = dflt (plget m ''reason'') (dflt (plget m ''recovery_reason'') (JStr ''scheduled_refresh'')) in
     manual_bypass reason \<or> departure_bypass m reason \<or> arrival_bypass m reason)"

definition night_pause :: "env \<Rightarrow> ctx \<Rightarrow> jv \<Rightarrow> bool" where
  "night_pause e c m =
    (let cfg = fper c refresh_config_key in
     both_home (read_presence e c m) \<and> \<not> forced m \<and>
     in_hours (to_num (jget cfg ''quiet_start_hour'')) (to_num (jget cfg ''quiet_end_hour''))
       (hour_of e (test_clock e m)))"

lemma choose_both_home: "choose_interval r = BothHome \<longleftrightarrow> both_home r"
  by (simp add: choose_interval_def)

definition policy_message :: "env \<Rightarrow> ctx \<Rightarrow> jv \<Rightarrow> jv" where
  "policy_message e c m = (let r = read_presence e c m in
     use_interval (choose_interval r) (plsets m (policy_fields r (fper c refresh_config_key))))"

lemma policy_flow_unroll:
  assumes "config_ready (fper c refresh_config_key)" "plget m ''kind'' = JStr ''refresh_command''"
  shows "policy_flow e c m = quiet_hours e c (policy_message e c m)"
  using assms
  by (cases "choose_interval (read_presence e c m)")
     (simp_all add: policy_flow_def refresh_policy_def after_policy_def policy_message_def Let_def port_def)

lemma policy_message_get:
  assumes "plget m ''kind'' = JStr ''refresh_command''"
  shows "k \<notin> fst ` set (policy_fields (read_presence e c m) (fper c refresh_config_key)) \<Longrightarrow>
      k \<notin> {''refresh_interval_ms'', ''refresh_interval_policy''} \<Longrightarrow>
      plget (policy_message e c m) k = plget m k"
    "plget (policy_message e c m) ''refresh_policy_version'' = JNum 1"
    "plget (policy_message e c m) ''refresh_policy_config'' = config_ms (fper c refresh_config_key)"
    "plget (policy_message e c m) ''refresh_both_residents_home'' = JBool (both_home (read_presence e c m))"
    "plget (policy_message e c m) ''refresh_interval_ms'' =
       jget (config_ms (fper c refresh_config_key)) (interval_field (choose_interval (read_presence e c m)))"
    "plget (policy_message e c m) ''refresh_interval_policy'' =
       JStr (interval_name (choose_interval (read_presence e c m)))"
  using plget_objs [of m "''kind''"] assms
  by (simp_all add: policy_message_def Let_def use_interval_def plget_plsets policy_fields_def image_iff)

lemma config_ms_interval: "jget (config_ms cfg) (interval_field i) =
  JNum (to_num (jget cfg (interval_param i)) * 60 * 1000)"
  by (cases i) (simp_all add: config_ms_def)

lemma config_ms_hours:
  "jget (config_ms cfg) ''quiet_start_hour'' = JNum (to_num (jget cfg ''quiet_start_hour''))"
  "jget (config_ms cfg) ''quiet_end_hour'' = JNum (to_num (jget cfg ''quiet_end_hour''))"
  by (simp_all add: config_ms_def)

text \<open>The interval of a choice, in milliseconds.\<close>

definition interval_ms :: "jv \<Rightarrow> interval_policy \<Rightarrow> jnum" where
  "interval_ms cfg i = to_num (jget cfg (interval_param i)) * 60 * 1000"

lemma interval_bounds:
  assumes "config_ok cfg" "jget cfg ''complete'' = JTrue"
  obtains v where "interval_ms cfg i = Fin v" "60000 \<le> v" "v \<le> 86400000"
proof -
  have "\<exists>lo hi w. (interval_param i, lo, hi, w) \<in> set refresh_rules \<and> 1 \<le> lo \<and> hi \<le> 1440"
    by (cases i) (auto simp: refresh_rules_def)
  then obtain lo hi w where r: "(interval_param i, lo, hi, w) \<in> set refresh_rules" "1 \<le> lo" "hi \<le> 1440"
    by blast
  obtain v where "jget cfg (interval_param i) = JNum (Fin v)" "lo \<le> v" "v \<le> hi"
    by (rule config_param [OF assms r(1)])
  with r that [of "v * 60 * 1000"] show thesis by (simp add: interval_ms_def)
qed

lemma quiet_param_integral:
  assumes "config_ok cfg" "jget cfg ''complete'' = JTrue" "k \<in> {''quiet_start_hour'', ''quiet_end_hour''}"
  shows "integral (to_num (jget cfg k))"
proof -
  have "\<exists>lo hi. (k, lo, hi, True) \<in> set refresh_rules" using assms(3) by (auto simp: refresh_rules_def)
  then obtain lo hi where r: "(k, lo, hi, True) \<in> set refresh_rules" by blast
  show ?thesis by (rule config_param [OF assms(1,2) r]) (simp del: integral.simps)
qed

lemma policy_message_forced:
  assumes "plget m ''kind'' = JStr ''refresh_command''"
  shows "forced (policy_message e c m) = forced m" "test_clock e (policy_message e c m) = test_clock e m"
    "test_msg (policy_message e c m) = test_msg m"
proof -
  show t: "test_msg (policy_message e c m) = test_msg m"
    by (simp add: policy_message_def Let_def use_interval_def policy_fields_def)
  show "forced (policy_message e c m) = forced m" "test_clock e (policy_message e c m) = test_clock e m"
    using assms t by (simp_all add: forced_def departure_bypass_def arrival_bypass_def test_clock_def
        policy_message_get policy_fields_def)
qed

lemma quiet_hours_outcome:
  fixes e m
  defines "cfg \<equiv> plget m ''refresh_policy_config''"
  defines "quiet \<equiv> in_hours (to_num (jget cfg ''quiet_start_hour'')) (to_num (jget cfg ''quiet_end_hour''))
           (hour_of e (test_clock e m))"
  defines "paused \<equiv> \<not> forced m \<and> plget m ''refresh_both_residents_home'' = JTrue \<and> quiet"
  assumes "plget m ''refresh_policy_version'' = JNum 1"
    "integral (to_num (jget cfg ''quiet_start_hour''))" "integral (to_num (jget cfg ''quiet_end_hour''))"
  shows "paused \<Longrightarrow> \<exists>c'. quiet_hours e c m = Stop c' \<and>
      jget (sget (test_msg m) c' refresh_key) ''state'' = JStr ''waiting''"
    "\<not> paused \<Longrightarrow> quiet_hours e c m = Emit c (plsets m [(''refresh_quiet_hours_active'', JBool quiet),
            (''refresh_quiet_hours_blocked'', JFalse)])"
proof -
  have "quiet_hours e c m = (if \<not> paused then Emit c (plsets m [(''refresh_quiet_hours_active'', JBool quiet),
            (''refresh_quiet_hours_blocked'', JBool paused)])
     else Stop (sset (test_msg m) c refresh_key (jsets (obj_or_empty (sget (test_msg m) c refresh_key))
        [(''state'', JStr ''waiting''), (''reason'', JStr ''quiet_hours_both_home''),
         (''enabled'', JFalse), (''next_retry_at'', JNull), (''cooldown_until'', JNull),
         (''updated_at'', JNum (test_clock e m))])))"
    using assms(4-6) by (simp add: quiet_hours_def forced_def Let_def paused_def quiet_def cfg_def del: integral.simps)
  moreover have "is_obj (obj_or_empty v)" for v by (simp add: obj_or_empty_def)
  ultimately show "paused \<Longrightarrow> \<exists>c'. quiet_hours e c m = Stop c' \<and>
      jget (sget (test_msg m) c' refresh_key) ''state'' = JStr ''waiting''"
    "\<not> paused \<Longrightarrow> quiet_hours e c m = Emit c (plsets m [(''refresh_quiet_hours_active'', JBool quiet),
            (''refresh_quiet_hours_blocked'', JFalse)])"
    by (simp_all add: jget_jsets)
qed

text \<open>C21: The policy assigns the configured interval. With a complete stored configuration every refresh
  command gets the interval of the presence it is sent in (between one minute and one day), labelled with
  the choice, without changing any state; the only commands held back are the unforced ones that arrive
  in the quiet hours while both residents are at home, and these leave the coordinator waiting.\<close>

theorem policy_assigns_interval:
  fixes e c m
  defines "cfg \<equiv> fper c refresh_config_key" and "i \<equiv> choose_interval (read_presence e c m)"
  assumes "config_ok cfg" and "jget cfg ''complete'' = JTrue"
    and "plget m ''kind'' = JStr ''refresh_command''"
  shows "if night_pause e c m
    then \<exists>c'. policy_flow e c m = Stop c' \<and> jget (sget (test_msg m) c' refresh_key) ''state'' = JStr ''waiting''
    else \<exists>m' v. policy_flow e c m = Emit c m' \<and> plget m' ''refresh_interval_ms'' = JNum (Fin v) \<and>
      Fin v = interval_ms cfg i \<and> 60000 \<le> v \<and> v \<le> 86400000 \<and>
      plget m' ''refresh_interval_policy'' = JStr (interval_name i)"
proof -
  let ?m = "policy_message e c m"
  note get = policy_message_get [OF assms(5)] policy_message_forced [OF assms(5)]
  have ints: "integral (to_num (jget (config_ms cfg) ''quiet_start_hour''))"
    "integral (to_num (jget (config_ms cfg) ''quiet_end_hour''))"
    unfolding config_ms_hours to_num.simps by (rule quiet_param_integral [OF assms(3,4)], simp)+
  have flow: "policy_flow e c m = quiet_hours e c ?m"
    using config_ready_complete [OF assms(3,4)] assms(5) by (simp add: policy_flow_unroll cfg_def)
  note q = quiet_hours_outcome [of ?m e c, unfolded get, folded cfg_def, OF refl ints, simplified]
  have n: "night_pause e c m \<longleftrightarrow> both_home (read_presence e c m) \<and> \<not> forced m \<and>
      in_hours (to_num (jget (config_ms cfg) ''quiet_start_hour'')) (to_num (jget (config_ms cfg) ''quiet_end_hour''))
       (hour_of e (test_clock e m))"
    by (simp add: night_pause_def Let_def config_ms_hours cfg_def)
  obtain v where v: "interval_ms cfg i = Fin v" "60000 \<le> v" "v \<le> 86400000"
    by (rule interval_bounds [OF assms(3,4)])
  have iv: "jget (config_ms cfg) (interval_field i) = JNum (Fin v)"
    using v(1) by (simp add: config_ms_interval interval_ms_def)
  show ?thesis
  proof (cases "night_pause e c m")
    case True
    then show ?thesis using q(1) n by (simp add: flow)
  next
    case False
    then have "quiet_hours e c ?m = Emit c (plsets ?m [(''refresh_quiet_hours_active'', JBool
        (in_hours (to_num (jget (config_ms cfg) ''quiet_start_hour'')) (to_num (jget (config_ms cfg) ''quiet_end_hour''))
       (hour_of e (test_clock e m)))), (''refresh_quiet_hours_blocked'', JFalse)])"
      using q(2) n by blast
    then show ?thesis using False v iv by (simp add: flow get flip: cfg_def i_def)
  qed
qed

theorem refresh_config_witness:
  "config_stored_ok (fold (\<lambda>m c. ctx_of (refresh_config (host_at 5) c m))
     [parameter ''quiet_end_hour'' (JNum 6), parameter ''quiet_end_hour'' (JNum 25)] empty_ctx)"
  by (rule refresh_config_invariant) (simp add: config_stored_ok_def empty_ctx_def)

section \<open>A complete configuration\<close>

definition std_refresh_config :: jv where
  "std_refresh_config = JObj
    [(''version'', JNum 1), (''away_interval_minutes'', JNum 15), (''arrival_armed_interval_minutes'', JNum 1),
     (''approaching_interval_minutes'', JNum 5), (''home_interval_minutes'', JNum 30),
     (''quiet_start_hour'', JNum 0), (''quiet_end_hour'', JNum 6), (''in_flight_lease_seconds'', JNum 120),
     (''cache_probe_settle_seconds'', JNum 15), (''provider_backoff_max_hours'', JNum 6),
     (''semantic_evidence_window_minutes'', JNum 20), (''unknown_location_start_hour'', JNum 7),
     (''unknown_location_end_hour'', JNum 22), (''updated_at'', JNum 0), (''complete'', JTrue)]"

lemma std_refresh_get [simp]:
  "jget std_refresh_config ''away_interval_minutes'' = JNum 15"
  "jget std_refresh_config ''arrival_armed_interval_minutes'' = JNum 1"
  "jget std_refresh_config ''approaching_interval_minutes'' = JNum 5"
  "jget std_refresh_config ''home_interval_minutes'' = JNum 30"
  "jget std_refresh_config ''quiet_start_hour'' = JNum 0" "jget std_refresh_config ''quiet_end_hour'' = JNum 6"
  "jget std_refresh_config ''in_flight_lease_seconds'' = JNum 120"
  "jget std_refresh_config ''cache_probe_settle_seconds'' = JNum 15"
  "jget std_refresh_config ''provider_backoff_max_hours'' = JNum 6"
  "jget std_refresh_config ''semantic_evidence_window_minutes'' = JNum 20"
  "jget std_refresh_config ''unknown_location_start_hour'' = JNum 7"
  "jget std_refresh_config ''unknown_location_end_hour'' = JNum 22"
  "jget std_refresh_config ''version'' = JNum 1" "jget std_refresh_config ''complete'' = JTrue"
  "is_obj std_refresh_config"
  by (simp_all add: std_refresh_config_def)

lemma std_refresh_ok: "config_ok std_refresh_config"
  by (simp add: config_ok_def config_complete_def param_ok_def rule_ok_def refresh_rules_def)

definition refresh_ctx :: ctx where
  "refresh_ctx = pset default_policies refresh_config_key std_refresh_config"

lemma refresh_ctx_reads [simp]:
  "fper refresh_ctx = (\<lambda>_. JUndef)(refresh_config_key := std_refresh_config)"
  "fmem refresh_ctx = (\<lambda>_. JUndef)" "glob refresh_ctx = glob default_policies"
  by (simp_all add: refresh_ctx_def)

definition refresh_command :: "(string \<times> jv) list \<Rightarrow> jv" where
  "refresh_command kvs = JObj [(''payload'', JObj ((''kind'', JStr ''refresh_command'') # kvs))]"

theorem policy_assigns_interval_witness:
  "\<exists>m' v. policy_flow (host_at 5) refresh_ctx (refresh_command []) = Emit refresh_ctx m' \<and>
     plget m' ''refresh_interval_ms'' = JNum (Fin v) \<and> 60000 \<le> v"
proof -
  have "plget (refresh_command []) ''kind'' = JStr ''refresh_command''"
    by (simp add: refresh_command_def plget_def payload_def)
  moreover have "\<not> night_pause (host_at 5) refresh_ctx (refresh_command [])"
    by (simp add: night_pause_def Let_def both_home_def roles_def resident_in_def resident_ready_def
        read_presence_def refresh_command_def evaluate)
  ultimately show ?thesis
    using policy_assigns_interval [of refresh_ctx "refresh_command []" "host_at 5"] std_refresh_ok by auto
qed

end
