(* ===== verification/RefreshCoord.thy ===== *)
theory RefreshCoord
  imports RefreshPolicy
begin

text \<open>
  The refresh coordinator of the car (\<open>vehicle-refresh-*.js\<close>): it decides for every refresh command
  whether to wake the car, to reread the provider's cache or to wait, and keeps the state of the
  attempt in flight (leases, deadlines, attempts, the evidence it waits for).

  \<open>state_load\<close> checks the policy in the message and repairs the stored state, \<open>refresh_facts\<close>
  derives the interval and the gates, \<open>coordinate\<close> is the chain of switches of the tab with the
  builder of each outcome, and \<open>refresh_output\<close> stores the state and sends the result. The wake
  leaves on port 0, a mirror of it on port 1, a notice about a manual command on port 2 and the cache
  probe on port 4. The in-flight object \<open>msg._refresh\<close> is the record \<open>refresh\<close> beside the message
  (the mirror, a copy made before the object is deleted, is modelled without it).
\<close>

section \<open>Loading the state\<close>

record refresh =
  rf_test :: bool
  rf_now :: jnum
  rf_future :: jnum
  rf_config :: jv
  rf_state :: jv
  rf_vehicle :: jv

definition required_params :: "string list" where
  "required_params = [''away_interval_ms'', ''arrival_armed_interval_ms'', ''approaching_interval_ms'',
    ''home_interval_ms'', ''in_flight_lease_ms'', ''cache_probe_settle_ms'', ''provider_backoff_max_ms'',
    ''semantic_evidence_window_ms'', ''unknown_location_start_hour'', ''unknown_location_end_hour'']"

definition params_ok :: "jv \<Rightarrow> bool" where
  "params_ok cfg = (list_all (\<lambda>k. fin (jnum_of cfg k)) required_params \<and>
     list_all (\<lambda>k. \<not> jnum_of cfg k \<le> 0) (take 8 required_params))"

definition valid_past :: "jnum \<Rightarrow> jnum \<Rightarrow> jv \<Rightarrow> bool" where
  "valid_past now fut v = (num_fin v \<and> to_num v \<le> now + fut)"

definition past_or :: "jnum \<Rightarrow> jnum \<Rightarrow> jv \<Rightarrow> jv \<Rightarrow> jv" where
  "past_or now fut v alt = (if valid_past now fut v then v else alt)"

definition bounded_future :: "jnum \<Rightarrow> jnum \<Rightarrow> jv \<Rightarrow> jnum \<Rightarrow> jv" where
  "bounded_future now fut v limit =
    (if num_fin v \<and> to_num v \<le> now + limit + fut then v else JNum 0)"

definition load_attempts :: "jv \<Rightarrow> jv" where
  "load_attempts v = (if num_fin v then JNum (jmax 0 (jmin 5 (to_num v))) else JNum 0)"

text \<open>The first run of assignments: version, attempts and the time stamps of the past.\<close>

definition load_times :: "jnum \<Rightarrow> jnum \<Rightarrow> jv \<Rightarrow> jv \<Rightarrow> jv" where
  "load_times now fut cfg s =
    (let attempt = past_or now fut (jget s ''last_attempt_at'') (JNum 0) in jsets s
      [(''version'', JNum 14), (''attempts'', load_attempts (jget s ''attempts'')),
       (''last_success_at'', past_or now fut (jget s ''last_success_at'') (JNum 0)),
       (''last_attempt_at'', attempt),
       (''last_request_at'', past_or now fut (jget s ''last_request_at'') attempt),
       (''service_accepted_at'', past_or now fut (jget s ''service_accepted_at'') (JNum 0)),
       (''next_allowed_at'', bounded_future now fut (jget s ''next_allowed_at'')
          (jnum_of cfg ''provider_backoff_max_ms''))])"

text \<open>A state of an older version that took the acceptance of a service call for success.\<close>

definition load_migrate :: "jnum \<Rightarrow> jnum \<Rightarrow> jv \<Rightarrow> jv" where
  "load_migrate previous now s =
    (if previous < 14 \<and> jget s ''last_success_reason'' = JStr ''api_accepted_200_or_202'' \<and>
        0 < jnum_of s ''service_accepted_at'' \<and> jnum_of s ''last_request_at'' \<le> jnum_of s ''service_accepted_at''
     then
       (let evidence = num_or (jget s ''last_evidence_at'') 0;
            known = (fin evidence \<and> 0 < evidence \<and> evidence < jnum_of s ''service_accepted_at'');
            success = (if known then evidence else 0) in jsets s
         [(''attempts'', JNum (jmax 1 (jnum_of s ''attempts''))), (''awaiting_evidence'', JTrue),
          (''evidence_wait_started_at'', jor (jget s ''last_request_at'') (jget s ''service_accepted_at'')),
          (''last_success_at'', JNum success),
          (''last_success_reason'', if 0 < success then JStr ''previous_semantic_evidence'' else JNull),
          (''last_evidence_domains'', JArr (if 0 < success then [JStr ''telemetry''] else [])),
          (''next_allowed_at'', JNum (jmin (jnum_of s ''next_allowed_at'') now)),
          (''state'', JStr ''backoff''), (''reason'', JStr ''api_accepted_awaiting_fresh_data''),
          (''cooldown_until'', JNull)])
     else s)"

definition load_leases :: "jnum \<Rightarrow> jnum \<Rightarrow> jv \<Rightarrow> jv \<Rightarrow> jv" where
  "load_leases now fut cfg s = jsets s
    [(''in_flight_until'', bounded_future now fut (jget s ''in_flight_until'') (jnum_of cfg ''in_flight_lease_ms'')),
     (''cache_probe_for_request_at'', past_or now fut (jget s ''cache_probe_for_request_at'') (JNum 0)),
     (''cache_probe_completed_for_request_at'',
        past_or now fut (jget s ''cache_probe_completed_for_request_at'') (JNum 0)),
     (''cache_probe_in_flight_until'',
        bounded_future now fut (jget s ''cache_probe_in_flight_until'') (jnum_of cfg ''in_flight_lease_ms'')),
     (''cache_probe_settle_until'',
        bounded_future now fut (jget s ''cache_probe_settle_until'') (jnum_of cfg ''cache_probe_settle_ms'')),
     (''failure_notified_at'', past_or now fut (jget s ''failure_notified_at'') (JNum 0)),
     (''semantic_evidence_window_ms'', JNum (jnum_of cfg ''semantic_evidence_window_ms'')),
     (''evidence_wait_started_at'',
        if valid_past now fut (jget s ''evidence_wait_started_at'') \<and> 0 < jnum_of s ''evidence_wait_started_at''
        then jget s ''evidence_wait_started_at''
        else if jget s ''awaiting_evidence'' = JTrue
        then jor (jget s ''last_request_at'') (jor (jget s ''last_attempt_at'') (JNum 0)) else JNum 0)]"

definition load_integration :: "jnum \<Rightarrow> jv \<Rightarrow> jv" where
  "load_integration now s =
    (if jget s ''last_failure_class'' = JStr ''integration_unavailable'' \<and> \<not> truthy (jget s ''failure_endpoint'')
     then jsets s [(''last_failure_class'', JNull), (''failure_source'', JNull), (''failure_stage'', JNull),
       (''next_allowed_at'', JNum (jmin (jnum_of s ''next_allowed_at'') now))]
     else s)"

definition load_state :: "jnum \<Rightarrow> jnum \<Rightarrow> jv \<Rightarrow> jv \<Rightarrow> jv" where
  "load_state now fut cfg s0 =
    (let s = obj_or_empty s0 in
     load_integration now (load_leases now fut cfg
       (load_migrate (num_or (jget s ''version'') 0) now (load_times now fut cfg s))))"

definition refresh_future :: "ctx \<Rightarrow> jnum" where
  "refresh_future c = (let f = jnum_of (glob c ''location_policy_v1'') ''future_tolerance_seconds'' * 1000 in
     if fin f then f else 60000)"

definition state_load :: "env \<Rightarrow> ctx \<Rightarrow> jv \<Rightarrow> refresh run" where
  "state_load e c m =
    (let cfg = plget m ''refresh_policy_config'' in
     if plget m ''kind'' \<noteq> JStr ''refresh_command'' then Stop c
     else if plget m ''refresh_policy_version'' \<noteq> JNum 1 \<or> \<not> params_ok cfg then Stop (logged NodeError c)
     else
       (let t = test_msg m; now = test_clock e m; fut = refresh_future c in
        Emit c \<lparr>rf_test = t, rf_now = now, rf_future = fut, rf_config = cfg,
          rf_state = load_state now fut cfg (sget t c refresh_key),
          rf_vehicle = mget t c ''vehicle_primary_context_v1''\<rparr>))"

section \<open>Facts\<close>

record refresh_flags =
  fg_cache_active :: bool
  fg_cache_settling :: bool
  fg_request_active :: bool
  fg_departure_covered :: bool
  fg_enabled :: bool
  fg_deadline_blocked :: bool
  fg_waiting_evidence :: bool
  fg_cache_probe_needed :: bool

record refresh_decision =
  ff_recovery :: bool
  ff_lighting :: bool
  ff_reason :: jv
  ff_departure :: bool
  ff_arrival :: bool
  ff_bypass :: bool
  ff_interval :: jnum
  ff_flags :: refresh_flags

definition waiting_evidence :: "jv \<Rightarrow> bool" where
  "waiting_evidence s = (jget s ''awaiting_evidence'' = JTrue)"

definition derived_recovery :: "jv \<Rightarrow> refresh \<Rightarrow> bool" where
  "derived_recovery m d = (plget m ''recovery_needed'' = JTrue \<or> plget m ''vehicle_primary_ready'' = JFalse \<or>
     \<not> (plget m ''vehicle_primary_ready'' = JTrue \<or> jget (rf_vehicle d) ''ready'' = JTrue))"

fun array_has :: "jv \<Rightarrow> string \<Rightarrow> bool" where
  "array_has (JArr xs) k = (JStr k \<in> set xs)"
| "array_has v k = False"

definition semantic_healthy :: "refresh \<Rightarrow> bool" where
  "semantic_healthy d =
    (let s = rf_state d; last = num_or (jget s ''last_success_at'') 0 in
     \<not> waiting_evidence s \<and> nullish (jget s ''last_failure_class'') \<and>
     array_has (jget s ''last_evidence_domains'') ''telemetry'' \<and> 0 < last \<and>
     last \<le> rf_now d + rf_future d \<and>
     rf_now d - last \<le> jnum_of (rf_config d) ''home_interval_ms'' + rf_future d)"

definition recovery_needed :: "jv \<Rightarrow> refresh \<Rightarrow> bool" where
  "recovery_needed m d = (plget m ''force_recovery'' = JTrue \<or> plget m ''require_lighting_ready'' = JTrue \<or>
     waiting_evidence (rf_state d) \<or> derived_recovery m d \<and> \<not> semantic_healthy d)"

definition require_lighting :: "jv \<Rightarrow> refresh \<Rightarrow> bool" where
  "require_lighting m d = (plget m ''require_lighting_ready'' = JTrue \<or>
     waiting_evidence (rf_state d) \<and> jget (rf_state d) ''require_lighting_ready'' = JTrue)"

definition requested_reason :: "jv \<Rightarrow> bool \<Rightarrow> jv" where
  "requested_reason m recovery = dflt (plget m ''reason'') (dflt (plget m ''recovery_reason'')
     (JStr (if recovery then ''readiness_recovery_needed'' else ''scheduled_refresh'')))"

definition deadline_bypass :: "jv \<Rightarrow> jv \<Rightarrow> bool" where
  "deadline_bypass m reason = (manual_bypass reason \<or> departure_bypass m reason \<or> arrival_bypass m reason)"

definition approaching :: "jv \<Rightarrow> bool" where
  "approaching m = (plget m ''refresh_anyone_approaching'' = JTrue)"

definition armed_restart :: "jv \<Rightarrow> bool" where
  "armed_restart m = (plget m ''refresh_arrival_restart_pending'' = JTrue)"

definition selected_interval :: "jv \<Rightarrow> refresh \<Rightarrow> bool \<Rightarrow> bool \<Rightarrow> jnum" where
  "selected_interval m d recovery bypass =
    (if armed_restart m then jnum_of (rf_config d) ''arrival_armed_interval_ms''
     else if approaching m then jnum_of (rf_config d) ''approaching_interval_ms''
     else if recovery \<and> \<not> bypass then jnum_of (rf_config d) ''away_interval_ms''
     else to_num (plget m ''refresh_interval_ms''))"

definition interval_label :: "jv \<Rightarrow> bool \<Rightarrow> bool \<Rightarrow> jv" where
  "interval_label m recovery bypass =
    (if armed_restart m then JStr ''arrival_armed_engine_pending''
     else if approaching m then JStr ''approaching''
     else if recovery \<and> \<not> bypass then JStr ''recovery''
     else plget m ''refresh_interval_policy'')"

definition previous_interval :: "refresh \<Rightarrow> jnum" where
  "previous_interval d =
    (let cfg = rf_config d; i = jnum_of (rf_state d) ''interval_ms'' in
     if i \<in> set (map (jnum_of cfg) [''away_interval_ms'', ''arrival_armed_interval_ms'',
          ''approaching_interval_ms'', ''home_interval_ms'']) then i
     else jnum_of cfg ''away_interval_ms'')"

definition interval_floor :: "jv \<Rightarrow> jnum \<Rightarrow> jnum" where
  "interval_floor s interval =
    (let anchor = jmax (jmax (jnum_of s ''last_request_at'') (jnum_of s ''service_accepted_at''))
                    (jnum_of s ''last_success_at'') in
     if 0 < anchor then anchor + interval else 0)"

definition provider_retry :: "jv \<Rightarrow> jnum" where
  "provider_retry s = num_or (jget s ''provider_retry_at'') 0"

definition provider_blocked :: "jnum \<Rightarrow> jv \<Rightarrow> bool" where
  "provider_blocked now s = (fin (provider_retry s) \<and> now < provider_retry s)"

text \<open>\<open>state.next_allowed_at\<close> after the interval and the provider have been taken into account.\<close>

definition next_allowed :: "refresh \<Rightarrow> jnum \<Rightarrow> jnum" where
  "next_allowed d interval =
    (let s = rf_state d; flr = interval_floor s interval;
         n = (if previous_interval d \<noteq> interval then flr else jmax (jnum_of s ''next_allowed_at'') flr) in
     if provider_blocked (rf_now d) s then jmax n (provider_retry s) else n)"

definition facts_interval :: "jv \<Rightarrow> refresh \<Rightarrow> jnum \<Rightarrow> bool \<Rightarrow> bool \<Rightarrow> jv" where
  "facts_interval m d interval recovery bypass = jsets (rf_state d)
    [(''next_allowed_at'', JNum (next_allowed d interval)), (''interval_ms'', JNum interval),
     (''interval_policy'', interval_label m recovery bypass)]"

definition cache_active :: "jnum \<Rightarrow> jv \<Rightarrow> bool" where
  "cache_active now s = (jget s ''cache_probe_in_flight'' = JTrue \<and> now < jnum_of s ''cache_probe_in_flight_until'')"

definition request_active :: "jnum \<Rightarrow> jv \<Rightarrow> bool" where
  "request_active now s = (jget s ''request_in_flight'' = JTrue \<and> now < jnum_of s ''in_flight_until'')"

definition expire_cache :: "jnum \<Rightarrow> jnum \<Rightarrow> jv \<Rightarrow> jv" where
  "expire_cache now interval s =
    (if jget s ''cache_probe_in_flight'' = JTrue \<and> \<not> cache_active now s then jsets s
       [(''cache_probe_in_flight'', JFalse), (''cache_probe_in_flight_until'', JNull),
        (''cache_probe_for_request_at'', JNull), (''last_failure_class'', JStr ''cache_probe_lease_expired''),
        (''next_allowed_at'', JNum (jmax (jnum_of s ''next_allowed_at'') (now + interval)))]
     else s)"

definition expire_request :: "jnum \<Rightarrow> jv \<Rightarrow> jv" where
  "expire_request now s =
    (if jget s ''request_in_flight'' = JTrue \<and> \<not> request_active now s then jsets s
       [(''request_in_flight'', JFalse), (''in_flight_until'', JNull),
        (''last_failure_class'', JStr ''in_flight_lease_expired'')]
     else s)"

definition unknown_window :: "env \<Rightarrow> refresh \<Rightarrow> bool" where
  "unknown_window e d = in_hours (jnum_of (rf_config d) ''unknown_location_start_hour'')
     (jnum_of (rf_config d) ''unknown_location_end_hour'') (hour_of e (rf_now d))"

definition refresh_enabled :: "env \<Rightarrow> jv \<Rightarrow> refresh \<Rightarrow> bool \<Rightarrow> bool" where
  "refresh_enabled e m d recovery =
    (recovery \<or> plget m ''refresh_anyone_away'' = JTrue \<or> approaching m \<or>
     plget m ''refresh_both_residents_home'' = JTrue \<or>
     plget m ''refresh_resident_states_known'' \<noteq> JTrue \<and> unknown_window e d)"

definition departure_covered :: "jv \<Rightarrow> bool \<Rightarrow> jv \<Rightarrow> bool" where
  "departure_covered m departure s =
    (departure \<and> 0 < num_or (plget m ''departure_event_at'') 0 \<and>
     to_num (plget m ''departure_event_at'') \<le> jnum_of s ''last_request_at'')"

definition cache_probe_needed :: "bool \<Rightarrow> jv \<Rightarrow> bool" where
  "cache_probe_needed bypass s =
    (let pending = num_or (jget s ''last_request_at'') 0 in
     \<not> bypass \<and> waiting_evidence s \<and> 0 < pending \<and>
     \<not> jseq (jget s ''cache_probe_completed_for_request_at'') (JNum pending))"

definition derive_flags :: "env \<Rightarrow> jv \<Rightarrow> refresh \<Rightarrow> bool \<Rightarrow> bool \<Rightarrow> bool \<Rightarrow> jv \<Rightarrow> jv \<Rightarrow> refresh_flags" where
  "derive_flags e m d recovery bypass departure s s' =
    \<lparr>fg_cache_active = cache_active (rf_now d) s,
     fg_cache_settling = (rf_now d < jnum_of s' ''cache_probe_settle_until''),
     fg_request_active = request_active (rf_now d) s,
     fg_departure_covered = departure_covered m departure s',
     fg_enabled = refresh_enabled e m d recovery,
     fg_deadline_blocked = (provider_blocked (rf_now d) s' \<or>
       \<not> bypass \<and> rf_now d < jnum_of s' ''next_allowed_at''),
     fg_waiting_evidence = waiting_evidence s',
     fg_cache_probe_needed = cache_probe_needed bypass s'\<rparr>"

definition refresh_facts :: "env \<Rightarrow> jv \<Rightarrow> ctx \<Rightarrow> refresh \<Rightarrow> (refresh \<times> refresh_decision) run" where
  "refresh_facts e m c d =
    (let recovery = recovery_needed m d; reason = requested_reason m recovery;
         bypass = deadline_bypass m reason; interval = selected_interval m d recovery bypass in
     if \<not> fin interval \<or> interval \<le> 0 then Stop (logged NodeError c)
     else
       (let s1 = facts_interval m d interval recovery bypass;
            s2 = expire_request (rf_now d) (expire_cache (rf_now d) interval s1) in
        Emit c (d\<lparr>rf_state := s2\<rparr>,
          \<lparr>ff_recovery = recovery, ff_lighting = require_lighting m d, ff_reason = reason,
           ff_departure = departure_bypass m reason, ff_arrival = arrival_bypass m reason,
           ff_bypass = bypass, ff_interval = interval,
           ff_flags = derive_flags e m d recovery bypass (departure_bypass m reason) s1 s2\<rparr>)))"

section \<open>Outcomes\<close>

datatype suppress_reason = CacheInFlight | CacheSettling | RequestInFlight | Backoff | MinimumInterval

fun suppress_name :: "suppress_reason \<Rightarrow> string" where
  "suppress_name CacheInFlight = ''cache_probe_in_flight''"
| "suppress_name CacheSettling = ''cache_probe_settling''"
| "suppress_name RequestInFlight = ''in_flight''"
| "suppress_name Backoff = ''backoff''"
| "suppress_name MinimumInterval = ''minimum_interval''"

fun suppress_deadline :: "suppress_reason \<Rightarrow> jv \<Rightarrow> jnum" where
  "suppress_deadline CacheInFlight s = jnum_of s ''cache_probe_in_flight_until''"
| "suppress_deadline CacheSettling s = jnum_of s ''cache_probe_settle_until''"
| "suppress_deadline RequestInFlight s = jnum_of s ''in_flight_until''"
| "suppress_deadline _ s = jnum_of s ''next_allowed_at''"

definition suppress_state :: "suppress_reason \<Rightarrow> jv \<Rightarrow> string" where
  "suppress_state w s =
    (if w = CacheInFlight \<or> w = CacheSettling then ''probing_cache''
     else if w = RequestInFlight then ''in_flight''
     else if waiting_evidence s then ''backoff'' else ''cooldown'')"

text \<open>\<open>state.awaiting_evidence === true ? state.next_allowed_at || null : null\<close>\<close>

definition retry_at :: "jv \<Rightarrow> jv" where
  "retry_at s = (if waiting_evidence s then jor (jget s ''next_allowed_at'') JNull else JNull)"

definition cooldown_at :: "jnum \<Rightarrow> jv \<Rightarrow> jv" where
  "cooldown_at now s = (if \<not> waiting_evidence s \<and> 0 < jnum_of s ''last_success_at'' \<and>
     now < jnum_of s ''next_allowed_at'' then jget s ''next_allowed_at'' else JNull)"

datatype refresh_effect = NoOutput | WakeOutput | NoticeOutput | ProbeOutput

record refresh_result =
  rr_test :: bool
  rr_state :: jv
  rr_output :: refresh_effect
  rr_mirror :: bool

definition refresh_notice :: "env \<Rightarrow> jnum \<Rightarrow> jv" where
  "refresh_notice e wait = JObj
    [(''title'', JStr (wording e ''refresh blocked title'' [])),
     (''message'', JStr (wording e ''refresh blocked'' [num_str wait])),
     (''id'', JStr ''vehicle_primary_refresh_blocked'')]"

definition refresh_suppress ::
  "env \<Rightarrow> suppress_reason \<Rightarrow> jv \<Rightarrow> refresh \<Rightarrow> refresh_decision \<Rightarrow> jv \<times> refresh_result" where
  "refresh_suppress e w m d f =
    (let s = rf_state d;
         wait = jmax 1 (jceil (jdivc (suppress_deadline w s - rf_now d) 1000));
         s' = jsets s
           [(''state'', JStr (suppress_state w s)),
            (''reason'', if w = MinimumInterval then ff_reason f else JStr (suppress_name w)),
            (''enabled'', JTrue), (''updated_at'', JNum (rf_now d)), (''next_retry_at'', retry_at s),
            (''cooldown_until'', cooldown_at (rf_now d) s)];
         manual = (plget m ''reason'' = JStr ''manual_force'') in
     (if manual then jset m ''notification'' (refresh_notice e wait) else m,
      \<lparr>rr_test = rf_test d, rr_state = s', rr_output = (if manual then NoticeOutput else NoOutput),
       rr_mirror = False\<rparr>))"

definition wait_location :: "jv \<Rightarrow> refresh \<Rightarrow> jv \<times> refresh_result" where
  "wait_location m d =
    (m, \<lparr>rr_test = rf_test d, rr_state = jsets (rf_state d)
      [(''state'', JStr ''waiting''), (''reason'', JStr ''waiting_for_resident_location''), (''enabled'', JFalse),
       (''next_retry_at'', JNull), (''cooldown_until'', JNull), (''updated_at'', JNum (rf_now d))],
      rr_output = NoOutput, rr_mirror = False\<rparr>)"

definition departure_done :: "jv \<Rightarrow> refresh \<Rightarrow> jv \<times> refresh_result" where
  "departure_done m d =
    (m, \<lparr>rr_test = rf_test d, rr_state = jsets (rf_state d)
      [(''state'', JStr (if waiting_evidence (rf_state d) then ''awaiting_evidence'' else ''cooldown'')),
       (''reason'', JStr ''resident_departure_already_covered''), (''enabled'', JTrue),
       (''updated_at'', JNum (rf_now d))],
      rr_output = NoOutput, rr_mirror = False\<rparr>)"

definition cache_build :: "jv \<Rightarrow> refresh \<Rightarrow> jv \<times> refresh_result" where
  "cache_build m d =
    (let request = num_or (jget (rf_state d) ''last_request_at'') 0 in
     (plsets m [(''cache_probe_for_request_at'', JNum request),
        (''origin'', dflt (plget m ''origin'') (JStr ''contexto_chegadas'')),
        (''test_mode'', JBool (rf_test d)), (''side_effect'', JStr ''vehicle_primary.cache_probe'')],
      \<lparr>rr_test = rf_test d, rr_state = jsets (rf_state d)
        [(''cache_probe_in_flight'', JTrue),
         (''cache_probe_in_flight_until'', JNum (rf_now d + jnum_of (rf_config d) ''in_flight_lease_ms'')),
         (''cache_probe_for_request_at'', JNum request), (''cache_probe_settle_until'', JNull),
         (''state'', JStr ''probing_cache''), (''reason'', JStr ''pre_wake_cache_probe''),
         (''enabled'', JTrue), (''updated_at'', JNum (rf_now d))],
       rr_output = ProbeOutput, rr_mirror = False\<rparr>))"

definition dispatch_attempts :: "jv \<Rightarrow> jnum" where
  "dispatch_attempts s = jmin 5 (jnum_of s ''attempts'' + 1)"

definition evidence_start :: "refresh \<Rightarrow> jv" where
  "evidence_start d =
    (if \<not> waiting_evidence (rf_state d) \<or> \<not> 0 < jnum_of (rf_state d) ''evidence_wait_started_at''
     then JNum (rf_now d) else jget (rf_state d) ''evidence_wait_started_at'')"

definition dispatch_state :: "jv \<Rightarrow> refresh \<Rightarrow> refresh_decision \<Rightarrow> jv" where
  "dispatch_state m d f =
    (let s = rf_state d; now = rf_now d; cfg = rf_config d; next = JNum (now + ff_interval f) in jsets s
      [(''cache_probe_in_flight'', JFalse), (''cache_probe_in_flight_until'', JNull),
       (''cache_probe_for_request_at'', JNull), (''cache_probe_completed_for_request_at'', JNull),
       (''cache_probe_settle_until'', JNull),
       (''baseline_observed_at'', JObj [(''telemetry'', JNum (num_or (jget (rf_vehicle d) ''telemetry_updated_at'') 0))]),
       (''evidence_wait_started_at'', evidence_start d), (''attempts'', JNum (dispatch_attempts s)),
       (''last_attempt_at'', JNum now), (''last_request_at'', JNum now), (''next_allowed_at'', next),
       (''awaiting_evidence'', JTrue), (''request_in_flight'', JTrue),
       (''in_flight_until'', JNum (now + jnum_of cfg ''in_flight_lease_ms'')),
       (''last_attempt_cycle'', dflt (plget m ''refresh_cycle_id'') JNull),
       (''require_lighting_ready'', JBool (ff_lighting f)), (''recovery_reason'', ff_reason f),
       (''manual_force'', JBool (manual_bypass (ff_reason f))),
       (''resident_departure_force'', JBool (ff_departure f)),
       (''resident_arrival_force'', JBool (ff_arrival f)),
       (''semantic_evidence_window_ms'', JNum (jnum_of cfg ''semantic_evidence_window_ms'')),
       (''state'', JStr ''refreshing''), (''reason'', ff_reason f), (''enabled'', JTrue),
       (''updated_at'', JNum now), (''next_retry_at'', next), (''cooldown_until'', JNull)])"

definition dispatch_message :: "jv \<Rightarrow> refresh \<Rightarrow> refresh_decision \<Rightarrow> jv" where
  "dispatch_message m d f = plsets m
    [(''retry_attempt'', JNum (dispatch_attempts (rf_state d))), (''refresh_requested_at'', JNum (rf_now d)),
     (''vehicle_primary_refresh_recovery'', JBool (ff_recovery f)),
     (''require_lighting_ready'', JBool (ff_lighting f)),
     (''origin'', dflt (plget m ''origin'') (JStr ''contexto_chegadas'')), (''test_mode'', JBool (rf_test d))]"

definition dispatch_build :: "jv \<Rightarrow> refresh \<Rightarrow> refresh_decision \<Rightarrow> jv \<times> refresh_result" where
  "dispatch_build m d f =
    (dispatch_message m d f,
     \<lparr>rr_test = rf_test d, rr_state = dispatch_state m d f, rr_output = WakeOutput,
      rr_mirror = (\<not> rf_test d)\<rparr>)"

section \<open>The chain of switches\<close>

datatype refresh_step = Suppress suppress_reason | DepartureDone | WaitLocation | Probe | Wake

definition choose_step :: "refresh_flags \<Rightarrow> refresh_step" where
  "choose_step g =
    (if fg_cache_active g then Suppress CacheInFlight
     else if fg_cache_settling g then Suppress CacheSettling
     else if fg_request_active g then Suppress RequestInFlight
     else if fg_departure_covered g then DepartureDone
     else if \<not> fg_enabled g then WaitLocation
     else if fg_deadline_blocked g then Suppress (if fg_waiting_evidence g then Backoff else MinimumInterval)
     else if fg_cache_probe_needed g then Probe else Wake)"

fun run_step :: "env \<Rightarrow> refresh_step \<Rightarrow> jv \<Rightarrow> refresh \<Rightarrow> refresh_decision \<Rightarrow> jv \<times> refresh_result" where
  "run_step e (Suppress w) m d f = refresh_suppress e w m d f"
| "run_step e DepartureDone m d f = departure_done m d"
| "run_step e WaitLocation m d f = wait_location m d"
| "run_step e Probe m d f = cache_build m d"
| "run_step e Wake m d f = dispatch_build m d f"

definition refresh_output :: "ctx \<Rightarrow> jv \<times> refresh_result \<Rightarrow> ports run" where
  "refresh_output c = (\<lambda>(m, r).
     let s = jset (rr_state r) ''next_retry_at'' (retry_at (rr_state r));
         c' = sset (rr_test r) c refresh_key s in
     case rr_output r of
       WakeOutput \<Rightarrow> Emit c' [[m], if rr_mirror r then [m] else [], [], [], []]
     | NoticeOutput \<Rightarrow> Emit c' [[], [], [m], [], []]
     | ProbeOutput \<Rightarrow> Emit c' [[], [], [], [], [m]]
     | NoOutput \<Rightarrow> Stop c')"

definition coordinate :: "env \<Rightarrow> ctx \<Rightarrow> jv \<Rightarrow> ports run" where
  "coordinate e c m = wire (state_load e c m) (\<lambda>c1 d.
     wire (refresh_facts e m c1 d) (\<lambda>c2 (d', f).
       refresh_output c2 (run_step e (choose_step (ff_flags f)) m d' f)))"

text \<open>The whole path of a refresh command, from the policy on.\<close>

definition refresh_flow :: "env \<Rightarrow> ctx \<Rightarrow> jv \<Rightarrow> ports run" where
  "refresh_flow e c m = wire (policy_flow e c m) (coordinate e)"

section \<open>What the loaded state keeps\<close>

lemma jget_obj_or_empty [simp]: "jget (obj_or_empty v) k = jget v k"
  by (simp add: obj_or_empty_def jget_not_obj)

lemma is_obj_or_empty [simp]: "is_obj (obj_or_empty v)"
  by (simp add: obj_or_empty_def)

definition load_keys :: "string list" where
  "load_keys = [''version'', ''attempts'', ''last_success_at'', ''last_attempt_at'', ''last_request_at'',
    ''service_accepted_at'', ''next_allowed_at'', ''awaiting_evidence'', ''evidence_wait_started_at'',
    ''last_success_reason'', ''last_evidence_domains'', ''state'', ''reason'', ''cooldown_until'',
    ''in_flight_until'', ''cache_probe_for_request_at'', ''cache_probe_completed_for_request_at'',
    ''cache_probe_in_flight_until'', ''cache_probe_settle_until'', ''failure_notified_at'',
    ''semantic_evidence_window_ms'', ''last_failure_class'', ''failure_source'', ''failure_stage'']"

lemma is_obj_stages [simp]:
  "is_obj s \<Longrightarrow> is_obj (load_times now fut cfg s)" "is_obj s \<Longrightarrow> is_obj (load_migrate p now s)"
  "is_obj s \<Longrightarrow> is_obj (load_leases now fut cfg s)" "is_obj s \<Longrightarrow> is_obj (load_integration now s)"
  by (simp_all add: load_times_def load_migrate_def load_leases_def load_integration_def Let_def)

lemma is_obj_load [simp]: "is_obj (load_state now fut cfg s)"
  by (simp add: load_state_def Let_def)

lemma times_get:
  assumes "is_obj s"
  shows "jget (load_times now fut cfg s) ''attempts'' = load_attempts (jget s ''attempts'')"
    "jget (load_times now fut cfg s) ''last_success_at'' = past_or now fut (jget s ''last_success_at'') (JNum 0)"
    "jget (load_times now fut cfg s) ''last_attempt_at'' = past_or now fut (jget s ''last_attempt_at'') (JNum 0)"
    "jget (load_times now fut cfg s) ''last_request_at'' = past_or now fut (jget s ''last_request_at'')
       (past_or now fut (jget s ''last_attempt_at'') (JNum 0))"
    "jget (load_times now fut cfg s) ''service_accepted_at'' = past_or now fut (jget s ''service_accepted_at'') (JNum 0)"
    "jget (load_times now fut cfg s) ''next_allowed_at'' =
       bounded_future now fut (jget s ''next_allowed_at'') (jnum_of cfg ''provider_backoff_max_ms'')"
  using assms by (simp_all add: load_times_def Let_def jget_jsets)

lemma times_other: "k \<notin> {''version'', ''attempts'', ''last_success_at'', ''last_attempt_at'', ''last_request_at'',
    ''service_accepted_at'', ''next_allowed_at''} \<Longrightarrow> jget (load_times now fut cfg s) k = jget s k"
  by (simp add: load_times_def Let_def)

lemma migrate_other: "k \<notin> {''attempts'', ''awaiting_evidence'', ''evidence_wait_started_at'', ''last_success_at'',
    ''last_success_reason'', ''last_evidence_domains'', ''next_allowed_at'', ''state'', ''reason'', ''cooldown_until''}
   \<Longrightarrow> jget (load_migrate p now s) k = jget s k"
  by (simp add: load_migrate_def Let_def)

lemma migrate_get:
  assumes "is_obj s"
  shows "jget (load_migrate p now s) ''attempts'' \<in> {jget s ''attempts'', JNum (jmax 1 (jnum_of s ''attempts''))}"
    "jget (load_migrate p now s) ''next_allowed_at'' \<in>
       {jget s ''next_allowed_at'', JNum (jmin (jnum_of s ''next_allowed_at'') now)}"
    "jget (load_migrate p now s) ''awaiting_evidence'' \<in> {jget s ''awaiting_evidence'', JTrue}"
  using assms by (simp_all add: load_migrate_def Let_def jget_jsets)

lemma leases_other: "k \<notin> {''in_flight_until'', ''cache_probe_for_request_at'',
    ''cache_probe_completed_for_request_at'', ''cache_probe_in_flight_until'', ''cache_probe_settle_until'',
    ''failure_notified_at'', ''semantic_evidence_window_ms'', ''evidence_wait_started_at''}
   \<Longrightarrow> jget (load_leases now fut cfg s) k = jget s k"
  by (simp add: load_leases_def)

lemma leases_get:
  assumes "is_obj s"
  shows "jget (load_leases now fut cfg s) ''in_flight_until'' =
      bounded_future now fut (jget s ''in_flight_until'') (jnum_of cfg ''in_flight_lease_ms'')"
    "jget (load_leases now fut cfg s) ''cache_probe_in_flight_until'' =
      bounded_future now fut (jget s ''cache_probe_in_flight_until'') (jnum_of cfg ''in_flight_lease_ms'')"
    "jget (load_leases now fut cfg s) ''cache_probe_settle_until'' =
      bounded_future now fut (jget s ''cache_probe_settle_until'') (jnum_of cfg ''cache_probe_settle_ms'')"
  using assms by (simp_all add: load_leases_def jget_jsets)

lemma integration_other: "k \<notin> {''last_failure_class'', ''failure_source'', ''failure_stage'', ''next_allowed_at''}
   \<Longrightarrow> jget (load_integration now s) k = jget s k"
  by (simp add: load_integration_def)

lemma integration_next: "is_obj s \<Longrightarrow> jget (load_integration now s) ''next_allowed_at'' \<in>
    {jget s ''next_allowed_at'', JNum (jmin (jnum_of s ''next_allowed_at'') now)}"
  by (simp add: load_integration_def jget_jsets)

lemmas load_others = times_other migrate_other leases_other integration_other

lemma load_frame:
  "k \<notin> set load_keys \<Longrightarrow> jget (load_state now fut cfg s) k = jget s k"
  by (simp add: load_state_def Let_def load_keys_def load_others)

lemma load_past:
  "jget (load_state now fut cfg s) ''last_request_at'' =
     past_or now fut (jget s ''last_request_at'') (past_or now fut (jget s ''last_attempt_at'') (JNum 0))"
  "jget (load_state now fut cfg s) ''last_attempt_at'' = past_or now fut (jget s ''last_attempt_at'') (JNum 0)"
  "jget (load_state now fut cfg s) ''service_accepted_at'' = past_or now fut (jget s ''service_accepted_at'') (JNum 0)"
  by (simp_all add: load_state_def Let_def load_others times_get)

lemma load_deadlines:
  "jget (load_state now fut cfg s) ''in_flight_until'' =
     bounded_future now fut (jget s ''in_flight_until'') (jnum_of cfg ''in_flight_lease_ms'')"
  "jget (load_state now fut cfg s) ''cache_probe_in_flight_until'' =
     bounded_future now fut (jget s ''cache_probe_in_flight_until'') (jnum_of cfg ''in_flight_lease_ms'')"
  "jget (load_state now fut cfg s) ''cache_probe_settle_until'' =
     bounded_future now fut (jget s ''cache_probe_settle_until'') (jnum_of cfg ''cache_probe_settle_ms'')"
  by (simp_all add: load_state_def Let_def load_others leases_get)

lemma load_attempts_bounds:
  "\<exists>r. jget (load_state now fut cfg s) ''attempts'' = JNum (Fin r) \<and> 0 \<le> r \<and> r \<le> 5"
proof -
  have "\<exists>r. load_attempts v = JNum (Fin r) \<and> 0 \<le> r \<and> r \<le> 5" for v
    by (cases "num_fin v") (auto simp: load_attempts_def num_fin_iff)
  then obtain r where r: "load_attempts (jget (obj_or_empty s) ''attempts'') = JNum (Fin r)" "0 \<le> r" "r \<le> 5"
    by blast
  let ?t = "load_times now fut cfg (obj_or_empty s)"
  have "jget (load_state now fut cfg s) ''attempts'' =
      jget (load_migrate (num_or (jget (obj_or_empty s) ''version'') 0) now ?t) ''attempts''"
    by (simp add: load_state_def Let_def load_others)
  also have "\<dots> \<in> {JNum (Fin r), JNum (Fin (max 1 r))}"
    using migrate_get(1) [of ?t] r by (simp add: times_get)
  finally show ?thesis using r by auto
qed

lemma load_next_ok:
  assumes "P (bounded_future now fut (jget s ''next_allowed_at'') (jnum_of cfg ''provider_backoff_max_ms''))"
    and step: "\<And>v. P v \<Longrightarrow> P (JNum (jmin (to_num v) now))"
  shows "P (jget (load_state now fut cfg s) ''next_allowed_at'')"
proof -
  have either: "P v" if "v \<in> {w, JNum (jmin (to_num w) now)}" "P w" for v w
    using that step [of w] by auto
  let ?t = "load_times now fut cfg (obj_or_empty s)"
  have "P (jget ?t ''next_allowed_at'')" using assms(1) by (simp add: times_get)
  then have "P (jget (load_migrate p now ?t) ''next_allowed_at'')" for p
    by (rule either [OF migrate_get(2), rotated]) simp
  then have "P (jget (load_leases now fut cfg (load_migrate p now ?t)) ''next_allowed_at'')" for p
    by (simp add: leases_other)
  then show ?thesis
    unfolding load_state_def Let_def
    by (rule either [OF integration_next, rotated]) simp
qed

lemma load_next_fin: "fin now \<Longrightarrow> \<exists>n. jget (load_state now fut cfg s) ''next_allowed_at'' = JNum (Fin n)"
  by (rule load_next_ok) (auto simp: bounded_future_def num_fin_iff fin_iff)

text \<open>The deadline of a loaded state is no later than the provider's longest backoff.\<close>

lemma load_next:
  assumes "fin now" "fin fut" "fin (jnum_of cfg ''provider_backoff_max_ms'')"
    and "0 \<le> now + jnum_of cfg ''provider_backoff_max_ms'' + fut"
  shows "jnum_of (load_state now fut cfg s) ''next_allowed_at'' \<le> now + jnum_of cfg ''provider_backoff_max_ms'' + fut"
proof -
  let ?b = "now + jnum_of cfg ''provider_backoff_max_ms'' + fut"
  obtain bb where bb: "?b = Fin bb" using assms(1-3) by (auto simp: fin_iff)
  have "\<exists>n. jget (load_state now fut cfg s) ''next_allowed_at'' = JNum (Fin n) \<and> n \<le> bb"
  proof (rule load_next_ok, goal_cases)
    case 1
    have "0 \<le> bb" using assms(4) unfolding bb by simp
    then show ?case by (auto simp: bounded_future_def num_fin_iff bb)
  next
    case (2 v)
    then show ?case using assms(1) by (auto simp: fin_iff)
  qed
  then show ?thesis by (auto simp: bb)
qed

lemma migrate_success: "is_obj s \<Longrightarrow> jget (load_migrate p now s) ''last_success_at'' \<in> {jget s ''last_success_at'',
    JNum (if fin (num_or (jget s ''last_evidence_at'') 0) \<and> 0 < num_or (jget s ''last_evidence_at'') 0 \<and>
      num_or (jget s ''last_evidence_at'') 0 < jnum_of s ''service_accepted_at'' then num_or (jget s ''last_evidence_at'') 0 else 0)}"
  unfolding load_migrate_def Let_def by (simp only: if_split jget_jsets) simp

lemma load_success_fin: "fin (jnum_of (load_state now fut cfg s) ''last_success_at'')"
proof -
  let ?t = "load_times now fut cfg (obj_or_empty s)"
  have "fin (jnum_of ?t ''last_success_at'')"
    by (simp add: times_get past_or_def valid_past_def num_fin_to_num)
  then have "fin (jnum_of (load_migrate p now ?t) ''last_success_at'')" for p
    using migrate_success [of ?t p now] by (auto split: if_splits)
  then show ?thesis by (simp add: load_state_def Let_def leases_other integration_other)
qed

section \<open>Steps of the coordinator\<close>

definition loaded :: "env \<Rightarrow> ctx \<Rightarrow> jv \<Rightarrow> refresh" where
  "loaded e c m =
    (let t = test_msg m; now = test_clock e m; fut = refresh_future c; cfg = plget m ''refresh_policy_config'' in
     \<lparr>rf_test = t, rf_now = now, rf_future = fut, rf_config = cfg,
      rf_state = load_state now fut cfg (sget t c refresh_key),
      rf_vehicle = mget t c ''vehicle_primary_context_v1''\<rparr>)"

lemma loaded_fields [simp]:
  "rf_test (loaded e c m) = test_msg m" "rf_now (loaded e c m) = test_clock e m"
  "rf_future (loaded e c m) = refresh_future c" "rf_config (loaded e c m) = plget m ''refresh_policy_config''"
  "rf_state (loaded e c m) = load_state (test_clock e m) (refresh_future c) (plget m ''refresh_policy_config'')
     (sget (test_msg m) c refresh_key)"
  by (simp_all add: loaded_def Let_def)

definition command_ok :: "jv \<Rightarrow> bool" where
  "command_ok m = (plget m ''kind'' = JStr ''refresh_command'' \<and> plget m ''refresh_policy_version'' = JNum 1 \<and>
     params_ok (plget m ''refresh_policy_config''))"

lemma state_load_ok: "state_load e c m =
  (if command_ok m then Emit c (loaded e c m)
   else if plget m ''kind'' \<noteq> JStr ''refresh_command'' then Stop c else Stop (logged NodeError c))"
  by (auto simp: state_load_def loaded_def command_ok_def Let_def)

definition chosen_interval :: "jv \<Rightarrow> refresh \<Rightarrow> jnum" where
  "chosen_interval m d = (let r = recovery_needed m d in
     selected_interval m d r (deadline_bypass m (requested_reason m r)))"

definition unforced :: "jv \<Rightarrow> refresh \<Rightarrow> bool" where
  "unforced m d = (\<not> deadline_bypass m (requested_reason m (recovery_needed m d)))"

definition state_at :: "jv \<Rightarrow> refresh \<Rightarrow> jv" where
  "state_at m d = (let r = recovery_needed m d in
     facts_interval m d (chosen_interval m d) r (deadline_bypass m (requested_reason m r)))"

definition decided_state :: "jv \<Rightarrow> refresh \<Rightarrow> jv" where
  "decided_state m d = expire_request (rf_now d) (expire_cache (rf_now d) (chosen_interval m d) (state_at m d))"

lemma refresh_facts_emit:
  assumes "refresh_facts e m c d = Emit c2 (d', f)"
  shows "c2 = c" "d' = d\<lparr>rf_state := decided_state m d\<rparr>" "ff_interval f = chosen_interval m d"
    "ff_flags f = derive_flags e m d (recovery_needed m d) (\<not> unforced m d)
       (departure_bypass m (requested_reason m (recovery_needed m d))) (state_at m d) (decided_state m d)"
    "fin (chosen_interval m d)" "\<not> chosen_interval m d \<le> 0"
  using assms by (auto simp: refresh_facts_def Let_def decided_state_def state_at_def chosen_interval_def
      unforced_def split: if_splits)

lemma coordinateE:
  assumes "sent (coordinate e c m) \<noteq> None \<or> command_ok m \<and> fin (chosen_interval m (loaded e c m)) \<and>
     \<not> chosen_interval m (loaded e c m) \<le> 0"
  obtains f where "command_ok m"
    "refresh_facts e m c (loaded e c m) = Emit c ((loaded e c m)\<lparr>rf_state := decided_state m (loaded e c m)\<rparr>, f)"
    "coordinate e c m = refresh_output c (run_step e (choose_step (ff_flags f)) m
       ((loaded e c m)\<lparr>rf_state := decided_state m (loaded e c m)\<rparr>) f)"
proof -
  have ok: "command_ok m" using assms by (auto simp: coordinate_def state_load_ok split: if_splits)
  have "\<exists>x. refresh_facts e m c (loaded e c m) = Emit c x"
    using assms ok by (auto simp: coordinate_def state_load_ok refresh_facts_def Let_def chosen_interval_def
        split: if_splits)
  then obtain d' f where f: "refresh_facts e m c (loaded e c m) = Emit c (d', f)" by auto
  show thesis
    using that [of f] refresh_facts_emit(2) [OF f] f ok by (simp add: coordinate_def state_load_ok)
qed

lemma decided_obj [simp]: "is_obj (rf_state d) \<Longrightarrow> is_obj (state_at m d)" "is_obj (rf_state d) \<Longrightarrow> is_obj (decided_state m d)"
  by (simp_all add: decided_state_def state_at_def facts_interval_def expire_request_def expire_cache_def Let_def)

lemma state_at_other:
  "k \<notin> {''next_allowed_at'', ''interval_ms'', ''interval_policy''} \<Longrightarrow> jget (state_at m d) k = jget (rf_state d) k"
  by (simp add: state_at_def facts_interval_def Let_def)

lemma decided_other:
  "k \<notin> {''next_allowed_at'', ''interval_ms'', ''interval_policy'', ''cache_probe_in_flight'',
     ''cache_probe_in_flight_until'', ''cache_probe_for_request_at'', ''last_failure_class'',
     ''request_in_flight'', ''in_flight_until''} \<Longrightarrow> jget (decided_state m d) k = jget (rf_state d) k"
  by (simp add: decided_state_def expire_request_def expire_cache_def state_at_other)

lemma decided_next:
  assumes "is_obj (rf_state d)"
  shows "jget (decided_state m d) ''next_allowed_at'' \<in> {JNum (next_allowed d (chosen_interval m d)),
    JNum (jmax (next_allowed d (chosen_interval m d)) (rf_now d + chosen_interval m d))}"
  using assms by (simp add: decided_state_def expire_request_def expire_cache_def state_at_def
      facts_interval_def Let_def jget_jsets)

lemma run_step_port:
  assumes "refresh_output c (run_step e st m d f) = Emit c' ps"
  shows "port 0 ps \<noteq> [] \<longleftrightarrow> st = Wake" "port 4 ps \<noteq> [] \<longleftrightarrow> st = Probe"
  using assms
  by (cases st; auto simp: refresh_output_def Let_def refresh_suppress_def departure_done_def wait_location_def
      cache_build_def dispatch_build_def port_def split: if_splits)+

lemma choose_acts: "choose_step g \<in> {Wake, Probe} \<Longrightarrow> \<not> fg_cache_active g \<and> \<not> fg_cache_settling g \<and>
   \<not> fg_request_active g \<and> \<not> fg_departure_covered g \<and> fg_enabled g \<and> \<not> fg_deadline_blocked g"
  by (auto simp: choose_step_def split: if_splits)

section \<open>When the coordinator acts\<close>

definition acts :: "ports \<Rightarrow> bool" where
  "acts ps = (port 0 ps \<noteq> [] \<or> port 4 ps \<noteq> [])"

text \<open>A stored lease that is still open: one that ends in the future, no further away than a lease may.\<close>

definition lease_open :: "jnum \<Rightarrow> jnum \<Rightarrow> jnum \<Rightarrow> jv \<Rightarrow> bool" where
  "lease_open now fut limit v = (num_fin v \<and> now < to_num v \<and> to_num v \<le> now + limit + fut)"

lemma lease_open_bounded: "lease_open now fut limit v \<Longrightarrow> now < to_num (bounded_future now fut v limit)"
  by (simp add: lease_open_def bounded_future_def)

lemma coordinate_acts:
  assumes "coordinate e c m = Emit c' ps" "acts ps"
  obtains f where "command_ok m"
    "refresh_facts e m c (loaded e c m) = Emit c ((loaded e c m)\<lparr>rf_state := decided_state m (loaded e c m)\<rparr>, f)"
    "choose_step (ff_flags f) \<in> {Wake, Probe}"
    "refresh_output c (run_step e (choose_step (ff_flags f)) m
       ((loaded e c m)\<lparr>rf_state := decided_state m (loaded e c m)\<rparr>) f) = Emit c' ps"
proof -
  have s: "sent (coordinate e c m) \<noteq> None \<or> command_ok m \<and> fin (chosen_interval m (loaded e c m)) \<and>
     \<not> chosen_interval m (loaded e c m) \<le> 0" using assms(1) by simp
  show thesis
  proof (rule coordinateE [OF s])
    fix f assume f: "command_ok m"
      "refresh_facts e m c (loaded e c m) = Emit c ((loaded e c m)\<lparr>rf_state := decided_state m (loaded e c m)\<rparr>, f)"
      "coordinate e c m = refresh_output c (run_step e (choose_step (ff_flags f)) m
       ((loaded e c m)\<lparr>rf_state := decided_state m (loaded e c m)\<rparr>) f)"
    then have out: "refresh_output c (run_step e (choose_step (ff_flags f)) m
       ((loaded e c m)\<lparr>rf_state := decided_state m (loaded e c m)\<rparr>) f) = Emit c' ps" using assms(1) by simp
    then show thesis using that [OF f(1,2)] run_step_port [OF out] assms(2) by (auto simp: acts_def)
  qed
qed

text \<open>C18: One attempt at a time, and never against the provider. Whatever the stored state, a refresh
  command (forced or not) wakes the car or probes the cache only when no wake and no probe is inside its
  lease, the cache is not settling after a probe, the provider's stored retry time has passed, and there is
  a reason to ask (recovery, someone away or approaching, both at home, or the hours for an unknown place).\<close>

theorem acts_when_free:
  fixes e c m
  defines "s \<equiv> sget (test_msg m) c refresh_key" and "now \<equiv> test_clock e m" and "fut \<equiv> refresh_future c"
    and "cfg \<equiv> plget m ''refresh_policy_config''"
  assumes "coordinate e c m = Emit c' ps" and "acts ps"
  shows "\<not> (jget s ''request_in_flight'' = JTrue \<and>
      lease_open now fut (jnum_of cfg ''in_flight_lease_ms'') (jget s ''in_flight_until'')) \<and>
    \<not> (jget s ''cache_probe_in_flight'' = JTrue \<and>
      lease_open now fut (jnum_of cfg ''in_flight_lease_ms'') (jget s ''cache_probe_in_flight_until'')) \<and>
    \<not> lease_open now fut (jnum_of cfg ''cache_probe_settle_ms'') (jget s ''cache_probe_settle_until'') \<and>
    \<not> provider_blocked now s \<and> refresh_enabled e m (loaded e c m) (recovery_needed m (loaded e c m))"
proof (rule coordinate_acts [OF assms(5,6)])
  fix f
  let ?d = "loaded e c m"
  assume f: "refresh_facts e m c ?d = Emit c (?d\<lparr>rf_state := decided_state m ?d\<rparr>, f)"
    "choose_step (ff_flags f) \<in> {Wake, Probe}"
  note flags = refresh_facts_emit(4) [OF f(1)]
  note free = choose_acts [OF f(2), unfolded flags derive_flags_def, simplified]
  have other: "jget (state_at m ?d) k = jget s k" if "k \<in> {''request_in_flight'', ''cache_probe_in_flight''}" for k
    using that by (auto simp: state_at_other load_frame load_keys_def s_def)
  have until: "jget (state_at m ?d) k = jget (rf_state ?d) k"
    if "k \<in> {''in_flight_until'', ''cache_probe_in_flight_until''}" for k
    using that by (auto simp: state_at_other)
  have "provider_retry (decided_state m ?d) = provider_retry s"
    by (simp add: provider_retry_def decided_other load_frame load_keys_def s_def)
  moreover have "jget (decided_state m ?d) ''cache_probe_settle_until'' = jget (rf_state ?d) ''cache_probe_settle_until''"
    by (simp add: decided_other)
  ultimately show ?thesis
    using free lease_open_bounded [of now fut]
    by (auto simp: cache_active_def request_active_def other until load_deadlines now_def fut_def cfg_def s_def
        provider_blocked_def)
qed

lemma jmax_ge: "fin x \<Longrightarrow> fin y \<Longrightarrow> x \<le> jmax x y \<and> y \<le> jmax x y"
  by (auto simp: fin_iff)

text \<open>After a wake at \<open>r\<close>, the deadline of a later command is at least its interval away from \<open>r\<close>.\<close>

lemma fin_past_or: "fin (to_num (past_or now fut v (JNum (Fin x))))"
  by (simp add: past_or_def valid_past_def num_fin_to_num)

lemma load_numbers:
  assumes "fin now"
  obtains r a b n where "jnum_of (load_state now fut cfg s) ''last_request_at'' = Fin r"
    "jnum_of (load_state now fut cfg s) ''service_accepted_at'' = Fin a"
    "jnum_of (load_state now fut cfg s) ''last_success_at'' = Fin b"
    "jnum_of (load_state now fut cfg s) ''next_allowed_at'' = Fin n"
proof -
  have "fin (to_num (past_or now fut v (past_or now fut w (JNum (Fin 0)))))" for v w
    by (simp add: past_or_def valid_past_def num_fin_to_num)
  then have "fin (jnum_of (load_state now fut cfg s) ''last_request_at'')" by (simp add: load_past)
  moreover have "fin (jnum_of (load_state now fut cfg s) ''service_accepted_at'')"
    using fin_past_or [of _ _ _ 0] by (simp add: load_past)
  ultimately show thesis
    using that load_success_fin [of now fut cfg s] load_next_fin [OF assms, of fut cfg s]
    by (auto simp: fin_iff)
qed

lemma next_allowed_after_request:
  assumes "rf_state d = load_state (rf_now d) (rf_future d) (rf_config d) s"
    and "jget s ''last_request_at'' = JNum (Fin r)" "Fin r \<le> rf_now d + rf_future d" "0 < r"
    and "fin i" "fin (rf_now d)"
  shows "fin (next_allowed d i) \<and> Fin r + i \<le> next_allowed d i"
proof -
  let ?s = "rf_state d"
  obtain x a b n where n: "jnum_of ?s ''last_request_at'' = Fin x" "jnum_of ?s ''service_accepted_at'' = Fin a"
    "jnum_of ?s ''last_success_at'' = Fin b" "jnum_of ?s ''next_allowed_at'' = Fin n"
    using load_numbers [OF assms(6)] assms(1) by metis
  obtain iv where "i = Fin iv" using assms(5) by (auto simp: fin_iff)
  note f = n(2-4) this
  have "jnum_of ?s ''last_request_at'' = Fin r"
    using assms(2,3) by (simp add: assms(1) load_past past_or_def valid_past_def)
  then have flr: "interval_floor ?s i = Fin (max (max r a) b + iv)"
    using f assms(4) by (simp add: interval_floor_def Let_def less_max_iff_disj)
  then show ?thesis
    using f by (auto simp: next_allowed_def Let_def provider_blocked_def fin_iff)
qed

lemma acts_after_interval:
  assumes "coordinate e c m = Emit c' ps" "acts ps" "unforced m (loaded e c m)"
    and "jget (sget (test_msg m) c refresh_key) ''last_request_at'' = JNum (Fin r)" "0 < r"
    and "Fin r \<le> test_clock e m + refresh_future c" "fin (test_clock e m)"
  shows "Fin r + chosen_interval m (loaded e c m) \<le> test_clock e m"
proof (rule coordinate_acts [OF assms(1,2)])
  fix f
  let ?d = "loaded e c m" and ?i = "chosen_interval m (loaded e c m)"
  assume f: "refresh_facts e m c ?d = Emit c (?d\<lparr>rf_state := decided_state m ?d\<rparr>, f)"
    "choose_step (ff_flags f) \<in> {Wake, Probe}"
  note flags = refresh_facts_emit(4) [OF f(1)]
  have free: "\<not> rf_now ?d < jnum_of (decided_state m ?d) ''next_allowed_at''"
    using choose_acts [OF f(2), unfolded flags derive_flags_def] assms(3) by simp
  have fi: "fin ?i" by (rule refresh_facts_emit(5) [OF f(1)])
  have na: "fin (next_allowed ?d ?i) \<and> Fin r + ?i \<le> next_allowed ?d ?i"
    using assms(4-7) fi by (intro next_allowed_after_request) simp_all
  have "jget (decided_state m ?d) ''next_allowed_at'' \<in>
      {JNum (next_allowed ?d ?i), JNum (jmax (next_allowed ?d ?i) (rf_now ?d + ?i))}"
    by (rule decided_next) simp
  then have "\<not> rf_now ?d < next_allowed ?d ?i"
    using free na fi assms(7) by (auto simp: fin_iff split: if_splits)
  then show ?thesis using na fi assms(7) by (auto simp: fin_iff)
qed

section \<open>The state left behind\<close>

text \<open>What a coordinated state satisfies at the time it was stored: its attempts are counted between none
  and five, the last request is not in the future, and every open lease has an end.\<close>

definition lease_ok :: "jnum \<Rightarrow> jv \<Rightarrow> string \<Rightarrow> string \<Rightarrow> bool" where
  "lease_ok limit s flag until = (jget s flag = JTrue \<longrightarrow>
     (\<exists>u. jget s until = JNum (Fin u) \<and> Fin u \<le> limit))"

definition coordinated :: "jnum \<Rightarrow> jnum \<Rightarrow> jnum \<Rightarrow> jv \<Rightarrow> bool" where
  "coordinated now fut lease s =
    (is_obj s \<and> jget s ''version'' = JNum 14 \<and>
     (\<exists>n. jget s ''attempts'' = JNum (Fin n) \<and> 0 \<le> n \<and> n \<le> 5) \<and>
     (\<exists>r. jget s ''last_request_at'' = JNum (Fin r) \<and> (r = 0 \<or> Fin r \<le> now + fut)) \<and>
     (\<exists>n. jget s ''next_allowed_at'' = JNum (Fin n)) \<and>
     lease_ok (now + lease + fut) s ''request_in_flight'' ''in_flight_until'' \<and>
     lease_ok (now + lease + fut) s ''cache_probe_in_flight'' ''cache_probe_in_flight_until'')"

definition core_keys :: "string list" where
  "core_keys = [''version'', ''attempts'', ''last_request_at'', ''next_allowed_at'', ''request_in_flight'',
    ''in_flight_until'', ''cache_probe_in_flight'', ''cache_probe_in_flight_until'']"

lemma coordinated_cong:
  "is_obj s' \<Longrightarrow> (\<And>k. k \<in> set core_keys \<Longrightarrow> jget s' k = jget s k) \<Longrightarrow>
     coordinated now fut lease s \<Longrightarrow> coordinated now fut lease s'"
  by (simp add: coordinated_def lease_ok_def core_keys_def)

lemma bounded_active: "now < to_num (bounded_future now fut v limit) \<Longrightarrow> fin now \<Longrightarrow> 0 \<le> now \<Longrightarrow>
  \<exists>u. bounded_future now fut v limit = JNum (Fin u) \<and> Fin u \<le> now + limit + fut"
  by (cases now) (auto simp: bounded_future_def num_fin_iff split: if_splits)

lemma next_allowed_fin:
  assumes "rf_state d = load_state (rf_now d) (rf_future d) (rf_config d) s" "fin i" "fin (rf_now d)"
  shows "fin (next_allowed d i)"
  by (rule load_numbers [OF assms(3), of "rf_future d" "rf_config d" s])
     (use assms(2) in \<open>simp add: next_allowed_def interval_floor_def provider_blocked_def Let_def flip: assms(1)\<close>)

lemma past_or_two: "\<exists>r. past_or now fut v (past_or now fut w (JNum (Fin 0))) = JNum (Fin r) \<and> (r = 0 \<or> Fin r \<le> now + fut)"
  by (auto simp: past_or_def valid_past_def num_fin_iff)

lemma expire_request_lease:
  "is_obj s \<Longrightarrow> jget (expire_request now s) ''request_in_flight'' = JTrue \<Longrightarrow>
     request_active now s \<and> expire_request now s = s"
  by (auto simp: expire_request_def jget_jsets split: if_splits)

lemma expire_cache_lease:
  "is_obj s \<Longrightarrow> jget (expire_cache now i s) ''cache_probe_in_flight'' = JTrue \<Longrightarrow>
     cache_active now s \<and> expire_cache now i s = s"
  by (auto simp: expire_cache_def jget_jsets split: if_splits)

lemma expire_request_other:
  "k \<notin> {''request_in_flight'', ''in_flight_until'', ''last_failure_class''} \<Longrightarrow>
     jget (expire_request now s) k = jget s k"
  by (simp add: expire_request_def)

lemma expire_cache_other:
  "k \<notin> {''cache_probe_in_flight'', ''cache_probe_in_flight_until'', ''cache_probe_for_request_at'',
     ''last_failure_class'', ''next_allowed_at''} \<Longrightarrow> jget (expire_cache now i s) k = jget s k"
  by (simp add: expire_cache_def)

lemma is_obj_expire [simp]: "is_obj s \<Longrightarrow> is_obj (expire_cache now i s)"
  by (simp add: expire_cache_def)

lemma decided_leases:
  assumes "is_obj (rf_state d)"
  shows "jget (decided_state m d) ''request_in_flight'' = JTrue \<Longrightarrow>
      request_active (rf_now d) (rf_state d) \<and>
      jget (decided_state m d) ''in_flight_until'' = jget (rf_state d) ''in_flight_until''"
    "jget (decided_state m d) ''cache_probe_in_flight'' = JTrue \<Longrightarrow>
      cache_active (rf_now d) (rf_state d) \<and>
      jget (decided_state m d) ''cache_probe_in_flight_until'' = jget (rf_state d) ''cache_probe_in_flight_until''"
proof -
  let ?c = "expire_cache (rf_now d) (chosen_interval m d) (state_at m d)"
  have o': "is_obj ?c" "is_obj (state_at m d)" using assms by simp_all
  show "request_active (rf_now d) (rf_state d) \<and>
      jget (decided_state m d) ''in_flight_until'' = jget (rf_state d) ''in_flight_until''"
    if "jget (decided_state m d) ''request_in_flight'' = JTrue"
    using expire_request_lease [OF o'(1), of "rf_now d"] that
    by (simp add: decided_state_def request_active_def expire_cache_other state_at_other)
  show "cache_active (rf_now d) (rf_state d) \<and>
      jget (decided_state m d) ''cache_probe_in_flight_until'' = jget (rf_state d) ''cache_probe_in_flight_until''"
    if "jget (decided_state m d) ''cache_probe_in_flight'' = JTrue"
    using expire_cache_lease [OF o'(2), of "rf_now d" "chosen_interval m d"] that
    by (simp add: decided_state_def expire_request_other cache_active_def state_at_other)
qed

lemma decided_coordinated:
  fixes e c m
  defines "d \<equiv> loaded e c m"
  assumes "fin (chosen_interval m d)" "fin (rf_now d)" "0 \<le> rf_now d"
  shows "coordinated (rf_now d) (rf_future d) (jnum_of (rf_config d) ''in_flight_lease_ms'') (decided_state m d)"
proof -
  have o': "is_obj (rf_state d)" by (simp add: d_def)
  note keep = decided_other [of _ m d]
  have rf: "rf_state d = load_state (rf_now d) (rf_future d) (rf_config d) (sget (test_msg m) c refresh_key)"
    by (simp add: d_def)
  have v: "jget (decided_state m d) ''version'' = JNum 14"
    by (simp add: keep rf load_state_def Let_def load_leases_def load_integration_def migrate_other load_times_def jget_jsets)
  have a: "\<exists>n. jget (decided_state m d) ''attempts'' = JNum (Fin n) \<and> 0 \<le> n \<and> n \<le> 5"
    by (simp add: keep rf load_attempts_bounds)
  have r: "\<exists>r. jget (decided_state m d) ''last_request_at'' = JNum (Fin r) \<and> (r = 0 \<or> Fin r \<le> rf_now d + rf_future d)"
    using past_or_two by (simp add: keep rf load_past)
  have n: "\<exists>n. jget (decided_state m d) ''next_allowed_at'' = JNum (Fin n)"
    using decided_next [OF o', of m] next_allowed_fin [OF rf assms(2,3)] assms(2,3) by (auto simp: fin_iff)
  have l: "lease_ok (rf_now d + jnum_of (rf_config d) ''in_flight_lease_ms'' + rf_future d) (decided_state m d)
      ''request_in_flight'' ''in_flight_until''"
    "lease_ok (rf_now d + jnum_of (rf_config d) ''in_flight_lease_ms'' + rf_future d) (decided_state m d)
      ''cache_probe_in_flight'' ''cache_probe_in_flight_until''"
    using decided_leases [OF o', of m] bounded_active [OF _ assms(3,4)]
    by (auto simp: lease_ok_def request_active_def cache_active_def rf load_deadlines)
  show ?thesis using v a r n l o' by (simp add: coordinated_def)
qed

lemma refresh_output_ctx:
  "ctx_of (refresh_output c (m, r)) =
     sset (rr_test r) c refresh_key (jset (rr_state r) ''next_retry_at'' (retry_at (rr_state r)))"
  by (cases "rr_output r") (simp_all add: refresh_output_def Let_def)

lemma run_step_test: "rr_test (snd (run_step e st m d f)) = rf_test d"
  by (cases st) (simp_all add: refresh_suppress_def departure_done_def wait_location_def cache_build_def
      dispatch_build_def Let_def)

lemma suppressed_coordinated:
  assumes "st \<noteq> Wake" "st \<noteq> Probe" "coordinated now fut lease (rf_state d)"
  shows "coordinated now fut lease (rr_state (snd (run_step e st m d f)))"
  using assms(3)
proof (rule coordinated_cong [rotated 2])
  show "is_obj (rr_state (snd (run_step e st m d f)))"
    using assms by (cases st) (simp_all add: refresh_suppress_def departure_done_def wait_location_def
        Let_def coordinated_def)
  show "jget (rr_state (snd (run_step e st m d f))) k = jget (rf_state d) k" if "k \<in> set core_keys" for k
    using assms(1,2) that by (cases st) (auto simp: refresh_suppress_def departure_done_def wait_location_def
        Let_def core_keys_def)
qed

lemma probe_coordinated:
  assumes "coordinated now fut lease (rf_state d)" "rf_now d = now" "fin now" "fin lease" "fin fut" "0 \<le> fut"
    and "jnum_of (rf_config d) ''in_flight_lease_ms'' = lease"
  shows "coordinated now fut lease (rr_state (snd (cache_build m d)))"
  using assms by (auto simp: coordinated_def cache_build_def Let_def jget_jsets lease_ok_def fin_iff)

lemma wake_coordinated:
  assumes "coordinated now fut lease (rf_state d)" "rf_now d = now" "fin now" "fin lease" "fin fut" "0 \<le> fut"
    and "jnum_of (rf_config d) ''in_flight_lease_ms'' = lease" "fin (ff_interval f)"
  shows "coordinated now fut lease (rr_state (snd (dispatch_build m d f)))"
proof -
  have o': "is_obj (rf_state d)" using assms(1) by (simp add: coordinated_def)
  obtain a b x i n where f: "now = Fin a" "lease = Fin b" "fut = Fin x" "ff_interval f = Fin i"
    "jget (rf_state d) ''attempts'' = JNum (Fin n)" "0 \<le> n" "n \<le> 5" "0 \<le> x"
    using assms by (auto simp: fin_iff coordinated_def)
  have at: "dispatch_attempts (rf_state d) = Fin (min 5 (n + 1))" using f by (simp add: dispatch_attempts_def)
  have v: "jget (rf_state d) ''version'' = JNum 14" using assms(1) by (simp add: coordinated_def)
  have g: "jget (dispatch_state m d f) ''attempts'' = JNum (Fin (min 5 (n + 1)))"
    "jget (dispatch_state m d f) ''last_request_at'' = JNum now"
    "jget (dispatch_state m d f) ''next_allowed_at'' = JNum (now + ff_interval f)"
    "jget (dispatch_state m d f) ''in_flight_until'' = JNum (now + lease)"
    "jget (dispatch_state m d f) ''cache_probe_in_flight'' = JFalse"
    "jget (dispatch_state m d f) ''version'' = JNum 14" "is_obj (dispatch_state m d f)"
    using o' v assms(2,7) at by (simp_all add: dispatch_state_def Let_def jget_jsets)
  show ?thesis
    using g f by (simp add: coordinated_def lease_ok_def dispatch_build_def min_def)
qed

text \<open>C20: The coordinator repairs its state. Whatever is stored (an older version, garbage, time stamps from
  the future), a valid refresh command leaves a well-formed state: the attempts are counted between zero
  and five, the last request is not in the future, the next permission is a number, and an attempt in
  flight has a lease that ends within the configured time.\<close>

theorem coordinator_repairs_state:
  fixes e c m
  defines "d \<equiv> loaded e c m"
  assumes "command_ok m" and "fin (chosen_interval m d)" and "\<not> chosen_interval m d \<le> 0"
    and "fin (rf_now d)" and "0 \<le> rf_now d" and "0 \<le> rf_future d"
  shows "coordinated (rf_now d) (rf_future d) (jnum_of (rf_config d) ''in_flight_lease_ms'')
    (sget (test_msg m) (ctx_of (coordinate e c m)) refresh_key)"
proof (rule coordinateE [of e c m])
  let ?lease = "jnum_of (rf_config d) ''in_flight_lease_ms''" and ?d = "d\<lparr>rf_state := decided_state m d\<rparr>"
  show "sent (coordinate e c m) \<noteq> None \<or> command_ok m \<and> fin (chosen_interval m (loaded e c m)) \<and>
     \<not> chosen_interval m (loaded e c m) \<le> 0" using assms by simp
  fix f
  assume f: "refresh_facts e m c (loaded e c m) = Emit c ((loaded e c m)\<lparr>rf_state := decided_state m (loaded e c m)\<rparr>, f)"
    "coordinate e c m = refresh_output c (run_step e (choose_step (ff_flags f)) m
       ((loaded e c m)\<lparr>rf_state := decided_state m (loaded e c m)\<rparr>) f)"
  let ?st = "choose_step (ff_flags f)"
  have base: "coordinated (rf_now d) (rf_future d) ?lease (rf_state ?d)"
    using decided_coordinated [of m e c] assms(3,5,6) by (simp add: d_def)
  have fut: "fin (rf_future d)" by (simp add: d_def refresh_future_def Let_def)
  have lease: "fin ?lease" using assms(2) by (simp add: command_ok_def params_ok_def required_params_def d_def)
  have "coordinated (rf_now d) (rf_future d) ?lease (rr_state (snd (run_step e ?st m ?d f)))"
  proof (cases ?st)
    case Probe
    show ?thesis unfolding Probe run_step.simps
      by (rule probe_coordinated [OF base _ assms(5) lease fut assms(7)]) simp_all
  next
    case Wake
    have "fin (ff_interval f)" using refresh_facts_emit(3,5) [OF f(1)] by simp
    then show ?thesis unfolding Wake run_step.simps
      by (intro wake_coordinated [OF base _ assms(5) lease fut assms(7)]) simp_all
  qed (rule suppressed_coordinated [OF _ _ base]; simp)+
  note ok = this
  then have "is_obj (rr_state (snd (run_step e ?st m ?d f)))" by (simp add: coordinated_def)
  then have "coordinated (rf_now d) (rf_future d) ?lease
      (jset (rr_state (snd (run_step e ?st m ?d f))) ''next_retry_at'' v)" for v
    by (intro coordinated_cong [OF _ _ ok]) (auto simp: core_keys_def)
  then show ?thesis
    using run_step_test [of e ?st m ?d f]
    by (simp add: f(2) refresh_output_ctx [of c "fst p" "snd p" for p, simplified] d_def)
qed

section \<open>Progress\<close>

text \<open>What a wake leaves in the store.\<close>

lemma wake_stored:
  fixes e c m
  defines "d \<equiv> loaded e c m"
  assumes "coordinate e c m = Emit c' ps" "port 0 ps \<noteq> []"
  defines "s \<equiv> sget (test_msg m) c' refresh_key"
  shows "command_ok m" "fin (chosen_interval m d)" "\<not> chosen_interval m d \<le> 0" "glob c' = glob c"
    "jget s ''last_request_at'' = JNum (rf_now d)"
    "jget s ''next_allowed_at'' = JNum (rf_now d + chosen_interval m d)"
    "jget s ''in_flight_until'' = JNum (rf_now d + jnum_of (rf_config d) ''in_flight_lease_ms'')"
    "jget s ''awaiting_evidence'' = JTrue" "jget s ''request_in_flight'' = JTrue"
    "jget s ''cache_probe_in_flight'' = JFalse"
    "jget s ''cache_probe_settle_until'' = JNull" "jget s ''cache_probe_completed_for_request_at'' = JNull"
    "jget s ''service_accepted_at'' = jget (rf_state d) ''service_accepted_at''"
    "jget s ''last_success_at'' = jget (rf_state d) ''last_success_at''"
    "jget s ''provider_retry_at'' = jget (rf_state d) ''provider_retry_at''"
proof -
  obtain f where f: "command_ok m" "refresh_facts e m c d = Emit c (d\<lparr>rf_state := decided_state m d\<rparr>, f)"
    "choose_step (ff_flags f) \<in> {Wake, Probe}"
    "refresh_output c (run_step e (choose_step (ff_flags f)) m (d\<lparr>rf_state := decided_state m d\<rparr>) f) = Emit c' ps"
    using coordinate_acts [OF assms(2)] assms(3) by (metis acts_def d_def)
  have w: "choose_step (ff_flags f) = Wake" using run_step_port(1) [OF f(4)] assms(3) by simp
  note i = refresh_facts_emit(3,5,6) [OF f(2)]
  show "command_ok m" "fin (chosen_interval m d)" "\<not> chosen_interval m d \<le> 0" using f(1) i by simp_all
  let ?r = "dispatch_state m (d\<lparr>rf_state := decided_state m d\<rparr>) f"
  have c': "c' = sset (test_msg m) c refresh_key (jset ?r ''next_retry_at'' (retry_at ?r))"
    using f(4) by (simp add: w refresh_output_def dispatch_build_def Let_def d_def)
  have s: "s = jset ?r ''next_retry_at'' (retry_at ?r)" by (simp add: s_def c')
  have o': "is_obj (decided_state m d)" by (simp add: d_def)
  show "glob c' = glob c" by (simp add: c')

  show "jget s ''last_request_at'' = JNum (rf_now d)"
    "jget s ''next_allowed_at'' = JNum (rf_now d + chosen_interval m d)"
    "jget s ''in_flight_until'' = JNum (rf_now d + jnum_of (rf_config d) ''in_flight_lease_ms'')"
    "jget s ''awaiting_evidence'' = JTrue" "jget s ''request_in_flight'' = JTrue"
    "jget s ''cache_probe_in_flight'' = JFalse"
    "jget s ''cache_probe_settle_until'' = JNull" "jget s ''cache_probe_completed_for_request_at'' = JNull"
    using o' i by (simp_all add: s dispatch_state_def Let_def jget_jsets)
  show "jget s ''service_accepted_at'' = jget (rf_state d) ''service_accepted_at''"
    "jget s ''last_success_at'' = jget (rf_state d) ''last_success_at''"
    "jget s ''provider_retry_at'' = jget (rf_state d) ''provider_retry_at''"
    using o' by (simp_all add: s dispatch_state_def Let_def decided_other)
qed

lemma load_not_later:
  assumes "fin now" "0 \<le> now" "\<not> now < jnum_of s ''next_allowed_at''"
  shows "jnum_of (load_state now fut cfg s) ''next_allowed_at'' \<le> now"
proof -
  have "\<exists>n. jget (load_state now fut cfg s) ''next_allowed_at'' = JNum (Fin n) \<and> Fin n \<le> now"
  proof (rule load_next_ok, goal_cases)
    case 1
    then show ?case using assms by (auto simp: bounded_future_def num_fin_iff fin_iff)
  next
    case (2 v)
    then show ?case using assms(1) by (auto simp: fin_iff min_def)
  qed
  then show ?thesis by auto
qed

lemma load_past_le:
  assumes "v = past_or now fut w (JNum 0)" "fin now" "fin fut" "0 \<le> now + fut"
  shows "to_num v \<le> now + fut \<and> fin (to_num v)"
  using assms by (auto simp: past_or_def valid_past_def num_fin_iff)

lemma past_or_le:
  "to_num v \<le> B \<Longrightarrow> 0 \<le> B \<Longrightarrow> to_num (past_or now fut v (JNum 0)) \<le> B"
  by (simp add: past_or_def)

lemma load_success_le:
  assumes "to_num (past_or now fut (jget s ''last_success_at'') (JNum 0)) \<le> B"
    and "to_num (past_or now fut (jget s ''service_accepted_at'') (JNum 0)) \<le> B" and "0 \<le> B"
  shows "jnum_of (load_state now fut cfg s) ''last_success_at'' \<le> B"
proof -
  let ?t = "load_times now fut cfg (obj_or_empty s)"
  have a: "jnum_of ?t ''service_accepted_at'' \<le> B" "jnum_of ?t ''last_success_at'' \<le> B"
    using assms(1,2) by (simp_all add: times_get)
  have "jnum_of (load_migrate p now ?t) ''last_success_at'' \<le> B" for p
    using migrate_success [of ?t p now] a assms(3)
    by (auto split: if_splits) (erule (1) jnum_less_le_trans [THEN jnum_less_imp_le])
  then show ?thesis by (simp add: load_state_def Let_def leases_other integration_other)
qed

lemma load_awaiting: "jget s ''awaiting_evidence'' = JTrue \<Longrightarrow> waiting_evidence (load_state now fut cfg s)"
  using migrate_get(3) [of "load_times now fut cfg (obj_or_empty s)" "num_or (jget (obj_or_empty s) ''version'') 0" now]
  by (auto simp: waiting_evidence_def load_state_def Let_def leases_other integration_other times_other)

lemma load_completed: "jget (load_state now fut cfg s) ''cache_probe_completed_for_request_at'' =
    past_or now fut (jget s ''cache_probe_completed_for_request_at'') (JNum 0)"
  by (simp add: load_state_def Let_def integration_other load_leases_def jget_jsets load_others)

lemma decided_next_plain:
  assumes "is_obj (rf_state d)" "jget (rf_state d) ''cache_probe_in_flight'' \<noteq> JTrue"
  shows "jget (decided_state m d) ''next_allowed_at'' = JNum (next_allowed d (chosen_interval m d))"
  using assms
  by (simp add: decided_state_def expire_request_def expire_cache_def state_at_other)
     (simp add: state_at_def facts_interval_def Let_def jget_jsets)

lemma next_allowed_passed:
  assumes "rf_state d = load_state (rf_now d) (rf_future d) (rf_config d) s" "fin i" "fin (rf_now d)" "0 \<le> rf_now d"
    and "jnum_of s ''next_allowed_at'' \<le> rf_now d" "\<not> provider_blocked (rf_now d) (rf_state d)"
    and "jnum_of (rf_state d) ''last_request_at'' + i \<le> rf_now d"
    and "jnum_of (rf_state d) ''service_accepted_at'' + i \<le> rf_now d"
    and "jnum_of (rf_state d) ''last_success_at'' + i \<le> rf_now d"
  shows "\<not> rf_now d < next_allowed d i"
proof -
  let ?s = "rf_state d"
  obtain r a b n where n: "jnum_of ?s ''last_request_at'' = Fin r" "jnum_of ?s ''service_accepted_at'' = Fin a"
    "jnum_of ?s ''last_success_at'' = Fin b" "jnum_of ?s ''next_allowed_at'' = Fin n"
    using load_numbers [OF assms(3)] assms(1) by metis
  obtain iv w where "i = Fin iv" "rf_now d = Fin w" using assms(2,3) by (auto simp: fin_iff)
  note f = n this
  have le: "r + iv \<le> w" "a + iv \<le> w" "b + iv \<le> w" "0 \<le> w" using assms(4,7-9) f by simp_all
  then have flr: "\<exists>q. interval_floor ?s i = Fin q \<and> q \<le> w"
    using f by (auto simp: interval_floor_def Let_def max_def)
  have "\<not> rf_now d < jnum_of s ''next_allowed_at''" using assms(5) by (simp add: less_jnum_def)
  then have "jnum_of ?s ''next_allowed_at'' \<le> Fin w"
    using load_not_later [OF assms(3,4), of s "rf_future d" "rf_config d"] assms(1) f by auto
  with flr assms(6) f show ?thesis by (auto simp: next_allowed_def Let_def)
qed

text \<open>What the next command of the same mode loads after a wake at \<open>n\<close>, if nothing else changes the state.\<close>

lemma wake_reloaded:
  fixes e c m e' c1 m'
  defines "d \<equiv> loaded e c m" and "d' \<equiv> loaded e' c1 m'"
  assumes wake: "coordinate e c m = Emit c1 ps" "port 0 ps \<noteq> []" and m': "test_msg m' = test_msg m"
    and nums: "rf_now d = Fin n" "rf_future d = Fin u" "rf_now d' = Fin n'" "0 < n" "0 \<le> u" "n \<le> n' + u"
  shows "rf_future d' = Fin u" "jget (rf_state d') ''last_request_at'' = JNum (Fin n)"
    "jnum_of (rf_state d') ''service_accepted_at'' \<le> Fin (n + u)"
    "jnum_of (rf_state d') ''last_success_at'' \<le> Fin (n + u)"
    "waiting_evidence (rf_state d')" "jget (rf_state d') ''cache_probe_in_flight'' = JFalse"
    "jget (rf_state d') ''cache_probe_settle_until'' = JNum 0"
    "jget (rf_state d') ''cache_probe_completed_for_request_at'' = JNum 0"
proof -
  let ?s = "sget (test_msg m) c1 refresh_key"
  note st = wake_stored [OF wake, folded d_def]
  have rf: "rf_state d' = load_state (rf_now d') (rf_future d') (rf_config d') ?s"
    by (simp add: d'_def m')
  show fut: "rf_future d' = Fin u" using nums by (simp add: d_def d'_def refresh_future_def st(4))
  show "jget (rf_state d') ''last_request_at'' = JNum (Fin n)"
    using st(5) nums fut by (simp add: rf load_past past_or_def valid_past_def)
  have B: "0 \<le> Fin (n + u)" using nums by simp
  have past: "to_num (past_or (Fin n) (Fin u) v (JNum 0)) \<le> Fin (n + u)" for v
    using B by (simp add: past_or_def valid_past_def)
  have "jnum_of ?s ''service_accepted_at'' \<le> Fin (n + u)" using past nums by (simp add: st(13) load_past d_def)
  moreover have "jnum_of ?s ''last_success_at'' \<le> Fin (n + u)"
    using load_success_le [OF past past B] nums by (simp add: st(14) d_def)
  ultimately show "jnum_of (rf_state d') ''service_accepted_at'' \<le> Fin (n + u)"
    "jnum_of (rf_state d') ''last_success_at'' \<le> Fin (n + u)"
    unfolding rf load_past using B by (intro load_success_le past_or_le; simp)+
  show "waiting_evidence (rf_state d')" using load_awaiting [OF st(8)] by (simp add: rf)
  show "jget (rf_state d') ''cache_probe_in_flight'' = JFalse"
    using st(10) by (simp add: rf load_frame load_keys_def)
  show "jget (rf_state d') ''cache_probe_settle_until'' = JNum 0"
    "jget (rf_state d') ''cache_probe_completed_for_request_at'' = JNum 0"
    using st(11,12) by (simp_all add: rf load_deadlines bounded_future_def load_completed past_or_def valid_past_def)
qed

lemma wake_next_passed:
  fixes e c m e' c1 m'
  defines "d \<equiv> loaded e c m" and "d' \<equiv> loaded e' c1 m'"
  assumes wake: "coordinate e c m = Emit c1 ps" "port 0 ps \<noteq> []" and m': "test_msg m' = test_msg m"
    and nums: "rf_now d = Fin n" "rf_future d = Fin u" "rf_now d' = Fin n'" "chosen_interval m d = Fin i"
      "0 < n" "0 \<le> u" "n + i \<le> n'" "n + u + iv' \<le> n'" "0 < iv'"
    and provider: "\<not> provider_blocked (rf_now d') (rf_state d')"
  shows "\<not> rf_now d' < next_allowed d' (Fin iv')"
proof -
  let ?s = "sget (test_msg m) c1 refresh_key"
  have "n \<le> n' + u" using nums by simp
  note re = wake_reloaded [where e' = e', OF wake m', folded d_def d'_def, OF nums(1-3,5,6) this]
  have rf: "rf_state d' = load_state (rf_now d') (rf_future d') (rf_config d') ?s"
    by (simp add: d'_def m')
  have n0: "jnum_of ?s ''next_allowed_at'' \<le> rf_now d'"
    using wake_stored(6) [OF wake, folded d_def] nums by simp
  have fn: "fin (rf_now d')" using nums by simp
  show ?thesis
  proof (rule load_numbers [OF fn, of "rf_future d'" "rf_config d'" ?s])
    fix r a b x
    assume "jnum_of (load_state (rf_now d') (rf_future d') (rf_config d') ?s) ''service_accepted_at'' = Fin a"
      "jnum_of (load_state (rf_now d') (rf_future d') (rf_config d') ?s) ''last_success_at'' = Fin b"
    note this [folded rf]
    with re nums n0 provider show ?thesis by (intro next_allowed_passed [OF rf]) simp_all
  qed
qed

lemma wake_then_probe:
  fixes e c m e' c1 m'
  defines "d \<equiv> loaded e c m" and "d' \<equiv> loaded e' c1 m'"
  assumes wake: "coordinate e c m = Emit c1 ps" "port 0 ps \<noteq> []"
    and m': "test_msg m' = test_msg m" "command_ok m'" "unforced m' d'"
    and i': "fin (chosen_interval m' d')" "\<not> chosen_interval m' d' \<le> 0"
    and clocks: "0 < rf_now d" "fin (rf_now d)" "fin (rf_now d')" "0 \<le> rf_future d"
    and provider: "\<not> provider_blocked (rf_now d') (rf_state d')"
    and later: "rf_now d + chosen_interval m d \<le> rf_now d'"
      "rf_now d + rf_future d + chosen_interval m' d' \<le> rf_now d'"
      "rf_now d + jnum_of (rf_config d) ''in_flight_lease_ms'' \<le> rf_now d'"
  shows "coordinate e' c1 m' = refresh_output c1 (cache_build m' (d'\<lparr>rf_state := decided_state m' d'\<rparr>))"
    "jget (decided_state m' d') ''last_request_at'' = JNum (rf_now d)"
proof -
  note st = wake_stored [OF wake, folded d_def]
  obtain n n' u i iv' where nums: "rf_now d = Fin n" "rf_future d = Fin u" "rf_now d' = Fin n'"
    "chosen_interval m d = Fin i" "chosen_interval m' d' = Fin iv'"
    using clocks i' st(2) by (auto simp: fin_iff d_def refresh_future_def Let_def split: if_splits)
  have pos: "0 < n" "0 \<le> u" "0 < iv'" using clocks i' nums by (auto simp: not_le)
  have times: "n + i \<le> n'" "n + u + iv' \<le> n'" "n \<le> n' + u" using later nums pos by simp_all
  note re = wake_reloaded [where e' = e', OF wake m'(1), folded d_def d'_def, OF nums(1-3) pos(1,2) times(3)]
  note nx = wake_next_passed [where e' = e', OF wake m'(1), folded d_def d'_def, OF nums(1-4) pos(1,2) times(1,2) pos(3) provider]
  have o': "is_obj (rf_state d')" by (simp add: d'_def)
  have idle: "\<not> request_active (rf_now d') (state_at m' d')"
    using st(7) later(3) nums pos times m'(1)
    by (auto simp: request_active_def state_at_other d'_def load_deadlines bounded_future_def less_jnum_def)
  have plain: "jget (rf_state d') ''cache_probe_in_flight'' \<noteq> JTrue" using re(6) by simp
  note dec = decided_next_plain [OF o' plain, of m']
  have pend: "cache_probe_needed False (decided_state m' d')"
    using re pos by (simp add: cache_probe_needed_def waiting_evidence_def decided_other Let_def)
  have free: "\<not> provider_blocked (rf_now d') (decided_state m' d')"
    using provider by (simp add: provider_blocked_def provider_retry_def decided_other)
  have dep: "\<not> departure_bypass m' (requested_reason m' (recovery_needed m' d'))" and rec: "recovery_needed m' d'"
    using m'(3) re(5) by (simp_all add: unforced_def deadline_bypass_def recovery_needed_def)
  have s: "sent (coordinate e' c1 m') \<noteq> None \<or> command_ok m' \<and> fin (chosen_interval m' (loaded e' c1 m')) \<and>
     \<not> chosen_interval m' (loaded e' c1 m') \<le> 0" using m'(2) i' by (simp add: d'_def)
  show "coordinate e' c1 m' = refresh_output c1 (cache_build m' (d'\<lparr>rf_state := decided_state m' d'\<rparr>))"
  proof (rule coordinateE [OF s], goal_cases)
    case (1 f)
    have "choose_step (ff_flags f) = Probe"
      unfolding refresh_facts_emit(4) [OF 1(2), folded d'_def]
      using re idle nums pos times nx dec pend free rec dep m'(3)
      by (simp add: choose_step_def derive_flags_def cache_active_def state_at_other departure_covered_def
          refresh_enabled_def decided_other)
    then show ?case using 1(3) by (simp add: d'_def)
  qed
  show "jget (decided_state m' d') ''last_request_at'' = JNum (rf_now d)"
    using re(2) nums by (simp add: decided_other)
qed


section \<open>A car that does not answer\<close>

definition std_ms :: jv where
  "std_ms = config_ms std_refresh_config"

lemma std_ms_get [simp]:
  "jget std_ms ''away_interval_ms'' = JNum 900000" "jget std_ms ''arrival_armed_interval_ms'' = JNum 60000"
  "jget std_ms ''approaching_interval_ms'' = JNum 300000" "jget std_ms ''home_interval_ms'' = JNum 1800000"
  "jget std_ms ''in_flight_lease_ms'' = JNum 120000" "jget std_ms ''cache_probe_settle_ms'' = JNum 15000"
  "jget std_ms ''provider_backoff_max_ms'' = JNum 21600000"
  "jget std_ms ''semantic_evidence_window_ms'' = JNum 1200000"
  "jget std_ms ''unknown_location_start_hour'' = JNum 7" "jget std_ms ''unknown_location_end_hour'' = JNum 22"
  by (simp_all add: std_ms_def config_ms_def)

text \<open>A refresh command as the scheduler sends it, with the standard parameters.\<close>

definition scheduled :: "jv \<Rightarrow> bool" where
  "scheduled m = (command_ok m \<and> plget m ''refresh_policy_config'' = std_ms \<and> \<not> test_msg m \<and>
     \<not> approaching m \<and> \<not> armed_restart m \<and> plget m ''reason'' = JUndef \<and> plget m ''recovery_reason'' = JUndef)"

definition recovery_command :: jv where
  "recovery_command = refresh_command [(''refresh_policy_version'', JNum 1), (''refresh_policy_config'', std_ms),
     (''recovery_needed'', JTrue), (''refresh_interval_ms'', JNum 900000)]"

lemma recovery_scheduled [simp]: "scheduled recovery_command"
  by (simp add: scheduled_def command_ok_def params_ok_def required_params_def approaching_def armed_restart_def
      recovery_command_def refresh_command_def plget_def payload_def test_msg_def)

lemma recovery_not_ready: "plget recovery_command ''vehicle_primary_ready'' \<noteq> JTrue"
  by (simp add: recovery_command_def refresh_command_def plget_def payload_def)

lemma scheduledD:
  "scheduled m \<Longrightarrow> command_ok m" "scheduled m \<Longrightarrow> \<not> test_msg m" "scheduled m \<Longrightarrow> test_clock e m = clock e"
  "scheduled m \<Longrightarrow> plget m ''refresh_policy_config'' = std_ms"
  by (simp_all add: scheduled_def test_clock_def)

lemma refresh_ctx_future [simp]: "refresh_future refresh_ctx = Fin 60000"
  by (simp add: refresh_future_def Let_def)

lemma recovery_chosen:
  "scheduled m \<Longrightarrow> waiting_evidence (rf_state (loaded e c m)) \<or> rf_vehicle (loaded e c m) = JUndef \<and>
      plget m ''vehicle_primary_ready'' \<noteq> JTrue \<Longrightarrow>
    \<not> semantic_healthy (loaded e c m) \<Longrightarrow>
    chosen_interval m (loaded e c m) = Fin 900000 \<and> unforced m (loaded e c m)"
  by (auto simp: scheduled_def chosen_interval_def selected_interval_def unforced_def deadline_bypass_def
      manual_bypass_def departure_bypass_def arrival_bypass_def requested_reason_def
      recovery_needed_def derived_recovery_def dflt_def Let_def)

lemma fresh_load: "load_state (Fin 1000000) (Fin 60000) std_ms JUndef = JObj
  [(''version'', JNum 14), (''attempts'', JNum 0), (''last_success_at'', JNum 0), (''last_attempt_at'', JNum 0),
   (''last_request_at'', JNum 0), (''service_accepted_at'', JNum 0), (''next_allowed_at'', JNum 0),
   (''in_flight_until'', JNum 0), (''cache_probe_for_request_at'', JNum 0),
   (''cache_probe_completed_for_request_at'', JNum 0), (''cache_probe_in_flight_until'', JNum 0),
   (''cache_probe_settle_until'', JNum 0), (''failure_notified_at'', JNum 0),
   (''semantic_evidence_window_ms'', JNum 1200000), (''evidence_wait_started_at'', JNum 0)]"
  by (simp add: load_state_def load_times_def load_migrate_def load_leases_def load_integration_def
    Let_def past_or_def valid_past_def bounded_future_def load_attempts_def obj_or_empty_def num_or_def)

lemma wake_run:
  assumes m: "scheduled m" "plget m ''vehicle_primary_ready'' \<noteq> JTrue"
  obtains c1 out where "coordinate (host_at (Fin 1000000)) refresh_ctx m = Emit c1 [[out], [out], [], [], []]"
    "chosen_interval m (loaded (host_at (Fin 1000000)) refresh_ctx m) = Fin 900000"
proof -
  let ?d = "loaded (host_at (Fin 1000000)) refresh_ctx m"
  note m' = scheduledD [OF m(1)]
  have st: "rf_state ?d = load_state (Fin 1000000) (Fin 60000) std_ms JUndef"
    using m' by (simp add: sget_def)
  have v: "rf_vehicle ?d = JUndef" using m' by (simp add: loaded_def Let_def mget_def)
  have ns: "\<not> semantic_healthy ?d" "\<not> waiting_evidence (rf_state ?d)"
    unfolding semantic_healthy_def waiting_evidence_def st fresh_load by (simp_all add: Let_def)
  have ch: "chosen_interval m ?d = Fin 900000" "unforced m ?d" using recovery_chosen m v ns by auto
  have rec: "recovery_needed m ?d" using m(2) v ns by (simp add: recovery_needed_def derived_recovery_def)
  have na: "next_allowed ?d (Fin 900000) = Fin 0"
    unfolding next_allowed_def interval_floor_def provider_blocked_def provider_retry_def st fresh_load by (simp add: Let_def)
  show thesis
  proof (rule coordinateE [of "host_at (Fin 1000000)" refresh_ctx m], goal_cases)
    case (2 f)
    have sa: "state_at m ?d = jsets (rf_state ?d) [(''next_allowed_at'', JNum (Fin 0)), (''interval_ms'', JNum (Fin 900000)),
        (''interval_policy'', interval_label m True False)]"
      using rec ch(2) by (simp add: state_at_def facts_interval_def ch(1) na unforced_def Let_def)
    have ds: "decided_state m ?d = state_at m ?d"
      unfolding decided_state_def sa st fresh_load by (simp add: expire_request_def expire_cache_def)
    have "choose_step (ff_flags f) = Wake"
      unfolding refresh_facts_emit(4) [OF 2(2)] ds sa st fresh_load derive_flags_def
      using rec ch(2) m m' by (simp add: choose_step_def cache_active_def request_active_def provider_blocked_def
        provider_retry_def cache_probe_needed_def waiting_evidence_def departure_covered_def departure_bypass_def
        requested_reason_def dflt_def refresh_enabled_def Let_def unforced_def scheduled_def)
    then show thesis using that ch(1) m' 2(3) by (simp add: refresh_output_def dispatch_build_def Let_def)
  qed (use ch m' in simp)
qed

lemma second_wake:
  assumes wake: "coordinate (host_at (Fin 1000000)) refresh_ctx m = Emit c1 [[out], [out], [], [], []]"
    "chosen_interval m (loaded (host_at (Fin 1000000)) refresh_ctx m) = Fin 900000" and m: "scheduled m" "scheduled m'"
  defines "d' \<equiv> loaded (host_at (Fin 2000000)) c1 m'"
  shows "chosen_interval m' d' = Fin 900000" "unforced m' d'" "\<not> provider_blocked (rf_now d') (rf_state d')"
proof -
  have p: "port 0 [[out], [out], [], [], []] \<noteq> []" by simp
  note st = wake_stored [OF wake(1) p] and m' = scheduledD [OF m(1)] scheduledD [OF m(2)]
  have w: "waiting_evidence (rf_state d')" using load_awaiting st(8) m' by (simp add: d'_def)
  then show "chosen_interval m' d' = Fin 900000" "unforced m' d'"
    using recovery_chosen m by (auto simp: semantic_healthy_def Let_def d'_def)
  have "provider_retry (rf_state d') = 0"
    using st(15) m' by (simp add: provider_retry_def load_frame load_keys_def sget_def d'_def)
  then show "\<not> provider_blocked (rf_now d') (rf_state d')" using m' by (simp add: provider_blocked_def d'_def)
qed

theorem acts_when_free_witness:
  "\<exists>c1 ps. coordinate (host_at (Fin 1000000)) refresh_ctx recovery_command = Emit c1 ps \<and>
     refresh_enabled (host_at (Fin 1000000)) recovery_command
       (loaded (host_at (Fin 1000000)) refresh_ctx recovery_command)
       (recovery_needed recovery_command (loaded (host_at (Fin 1000000)) refresh_ctx recovery_command))"
proof (rule wake_run [OF recovery_scheduled recovery_not_ready])
  fix c1 out
  assume r: "coordinate (host_at (Fin 1000000)) refresh_ctx recovery_command = Emit c1 [[out], [out], [], [], []]"
  show ?thesis using acts_when_free [OF r] r by (simp add: acts_def)
qed

theorem coordinator_repairs_state_witness:
  "\<exists>fut lease. coordinated (Fin 1000000) fut lease
    (sget False (ctx_of (coordinate (host_at (Fin 1000000)) refresh_ctx recovery_command)) refresh_key)"
proof (rule wake_run [OF recovery_scheduled recovery_not_ready])
  assume "chosen_interval recovery_command (loaded (host_at (Fin 1000000)) refresh_ctx recovery_command) = Fin 900000"
  then show ?thesis
    using coordinator_repairs_state [of recovery_command "host_at (Fin 1000000)" refresh_ctx]
      scheduledD [OF recovery_scheduled] by auto
qed


end
