(* ===== verification/JsRegex.thy ===== *)
theory JsRegex
  imports JsText
begin

text \<open>
  The regular expressions of the function nodes that need more than a search for alternatives: a
  pattern is a sequence of literals, runs of white space (\<open>\s+\<close>), \<open>.*\<close>, word boundaries and the end
  of the text; the matcher backtracks. A case-insensitive search lowers the text first (the patterns
  are written in lower case). Also the replacements the nodes make in names and messages.
\<close>

section \<open>Matching\<close>

datatype rx = Lit string | Ws | AnyStar | WordB | EndOf

definition is_word :: "char \<Rightarrow> bool" where
  "is_word c = (let n = code c in 48 \<le> n \<and> n \<le> 57 \<or> 65 \<le> n \<and> n \<le> 90 \<or> 97 \<le> n \<and> n \<le> 122 \<or> n = 95)"

definition is_newline :: "char \<Rightarrow> bool" where
  "is_newline c = (code c = 10 \<or> code c = 13)"

text \<open>\<open>prev\<close>: the character before the position is a word character.\<close>

fun match_here :: "rx list \<Rightarrow> bool \<Rightarrow> string \<Rightarrow> bool" where
  "match_here [] prev s = True"
| "match_here (Lit p # r) prev s =
     (starts_with s p \<and> match_here r (if p = [] then prev else is_word (last p)) (drop (length p) s))"
| "match_here (Ws # r) prev [] = False"
| "match_here (Ws # r) prev (c # s) = (is_space c \<and> (match_here r False s \<or> match_here (Ws # r) False s))"
| "match_here (AnyStar # r) prev [] = match_here r prev []"
| "match_here (AnyStar # r) prev (c # s) =
     (match_here r prev (c # s) \<or> \<not> is_newline c \<and> match_here (AnyStar # r) (is_word c) s)"
| "match_here (WordB # r) prev s =
     (prev \<noteq> (case s of [] \<Rightarrow> False | c # _ \<Rightarrow> is_word c) \<and> match_here r prev s)"
| "match_here (EndOf # r) prev s = (s = [] \<and> match_here r prev s)"

fun search_from :: "rx list \<Rightarrow> bool \<Rightarrow> string \<Rightarrow> bool" where
  "search_from p prev [] = match_here p prev []"
| "search_from p prev (c # s) = (match_here p prev (c # s) \<or> search_from p (is_word c) s)"

definition rx_test :: "rx list \<Rightarrow> string \<Rightarrow> bool" where
  "rx_test p s = search_from p False s"

definition rx_itest :: "rx list \<Rightarrow> string \<Rightarrow> bool" where
  "rx_itest p s = rx_test p (js_lower s)"

section \<open>Replacements\<close>

text \<open>\<open>replace(/[\r\n]+/g, " ")\<close>\<close>

fun unlines :: "string \<Rightarrow> string" where
  "unlines [] = []"
| "unlines (c # s) = (if is_newline c then
     (if s \<noteq> [] \<and> is_newline (hd s) then unlines s else CHR '' '' # unlines s) else c # unlines s)"

text \<open>The Latin-1 part of \<open>\p{L}\<close> and \<open>\p{N}\<close>.\<close>

definition is_letter :: "char \<Rightarrow> bool" where
  "is_letter c = (let n = code c in 65 \<le> n \<and> n \<le> 90 \<or> 97 \<le> n \<and> n \<le> 122 \<or> n = 170 \<or> n = 181 \<or> n = 186 \<or>
     192 \<le> n \<and> n \<noteq> 215 \<and> n \<noteq> 247)"

definition is_number :: "char \<Rightarrow> bool" where
  "is_number c = (let n = code c in 48 \<le> n \<and> n \<le> 57 \<or> n = 178 \<or> n = 179 \<or> n = 185 \<or> 188 \<le> n \<and> n \<le> 190)"

definition plain_name :: "string \<Rightarrow> string" where
  "plain_name s = filter (\<lambda>c. is_letter c \<or> is_number c \<or> c \<in> {CHR '' '', CHR ''_'', CHR ''-''}) s"

definition plain_ascii :: "string \<Rightarrow> string" where
  "plain_ascii s = filter (\<lambda>c. is_word c \<or> c = CHR ''-'') s"

lemma unlines_clean: "list_all (\<lambda>c. \<not> is_newline c) (unlines s)"
proof (induction s)
  case (Cons c s)
  have "\<not> is_newline CHR '' ''" by (simp add: is_newline_def code_def)
  with Cons show ?case by simp
qed simp

lemma unlines_id: "list_all (\<lambda>c. \<not> is_newline c) s \<Longrightarrow> unlines s = s"
  by (induction s) auto

lemma unlines_idem [simp]: "unlines (unlines s) = unlines s"
  by (rule unlines_id [OF unlines_clean])

lemma plain_name_idem [simp]: "plain_name (plain_name s) = plain_name s"
  by (simp add: plain_name_def)

text \<open>A literal alone is a substring search.\<close>

lemma search_literal: "search_from [Lit p] prev s = contains s p"
  by (induction s arbitrary: prev) (cases p; simp)+

end
