(* ===== verification/RefreshResult.thy ===== *)
theory RefreshResult
  imports RefreshCoord JsRegex LightBypass
begin

text \<open>
  What happens to a refresh once it has left the coordinator: the gates that keep test messages from
  the real service calls (\<open>vehicle-primary-*-dispatch-guard.js\<close>), the acceptance of a wake and of a
  cache probe, the classification of failed calls (\<open>vehicle-primary-refresh-error.js\<close>), the provider's
  backoff (\<open>vehicle-primary-provider-backoff-sync.js\<close>) and the periodic publication of the coordinator's
  state (\<open>vehicle-primary-refresh-telemetry.js\<close>). Failures and recoveries command the engine bypass of
  the security light.
\<close>

section \<open>Dispatch gates\<close>

definition or_clock :: "env \<Rightarrow> jv \<Rightarrow> jnum" where
  "or_clock e m = (let n = to_num (plget m ''test_now'') in if truthy (JNum n) then n else clock e)"

definition payload_with :: "jv \<Rightarrow> (string \<times> jv) list \<Rightarrow> jv" where
  "payload_with m kvs = jset m ''payload'' (jspread (payload m) (JObj kvs))"

definition simulated_effect :: "env \<Rightarrow> string \<Rightarrow> jv \<Rightarrow> jv" where
  "simulated_effect e name m = payload_with m
    [(''side_effect'', JStr name), (''simulated'', JTrue), (''dispatched'', JFalse),
     (''dry_run_at'', JNum (or_clock e m))]"

definition guarded :: "env \<Rightarrow> string \<Rightarrow> jv \<Rightarrow> ports" where
  "guarded e name m = (if test_msg m then [[], [simulated_effect e name m]] else [[m], []])"

definition dispatch_guard :: "env \<Rightarrow> string \<Rightarrow> ctx \<Rightarrow> jv \<Rightarrow> ports run" where
  "dispatch_guard e name c m = Emit c (guarded e name m)"

definition refresh_dispatch_guard :: "env \<Rightarrow> ctx \<Rightarrow> jv \<Rightarrow> ports run" where
  "refresh_dispatch_guard e = dispatch_guard e ''vehicle_primary.force_refresh''"

definition probe_dispatch_guard :: "env \<Rightarrow> ctx \<Rightarrow> jv \<Rightarrow> ports run" where
  "probe_dispatch_guard e = dispatch_guard e ''vehicle_primary.cache_probe''"

definition trip_dispatch_guard :: "env \<Rightarrow> ctx \<Rightarrow> jv \<Rightarrow> ports run" where
  "trip_dispatch_guard e = dispatch_guard e ''vehicle_primary.refresh_trip_info''"

definition refresh_notification_guard :: "env \<Rightarrow> ctx \<Rightarrow> jv \<Rightarrow> ports run" where
  "refresh_notification_guard e c m =
    (if jget (jget m ''notification'') ''dismiss_only'' = JTrue \<and> \<not> test_msg m then Emit c [[], [], [], [m]]
     else if \<not> test_msg m then Emit c [[m], [m], [], []]
     else Emit c [[], [], [payload_with m
       [(''test_mode'', JTrue), (''side_effect'', JStr ''notify:resident_primary+persistent_notification''),
        (''simulated'', JTrue), (''dispatched'', JFalse), (''notification_sent'', JFalse),
        (''persistent_notification_created'', JFalse)]], []])"

definition dry_run_terminal :: "ctx \<Rightarrow> jv \<Rightarrow> ports run" where
  "dry_run_terminal c m =
    (let m' = payload_with m [(''test_mode'', JTrue), (''simulated'', JTrue), (''dispatched'', JFalse),
       (''external_call_sent'', JFalse), (''terminal'', JStr ''vehicle_primary_full_dry_run'')] in
     Stop (fset c ''vehicle_primary_last_dry_run_v1'' (payload m')))"

definition manual_refresh :: "env \<Rightarrow> ctx \<Rightarrow> jv \<Rightarrow> jv run" where
  "manual_refresh e c m =
    (if plget m ''event_type'' = JStr ''test'' then Stop c
     else Emit (logged NodeLog c) (JObj [(''payload'', JObj
       [(''kind'', JStr ''refresh_tick''), (''origin'', JStr ''vehicle_primary_dashboard''),
        (''reason'', JStr ''manual_force''), (''force_recovery'', JTrue),
        (''require_lighting_ready'', JFalse), (''requested_at'', JNum (clock e))])]))"

section \<open>Acceptance\<close>

definition refresh_interval :: "jv \<Rightarrow> jnum option" where
  "refresh_interval s = (let i = jnum_of s ''interval_ms'' in if fin i \<and> 0 < i then Some i else None)"

definition request_at :: "jnum \<Rightarrow> jv \<Rightarrow> jnum" where
  "request_at now s = num_or (dflt (jget s ''last_request_at'') (jget s ''last_attempt_at'')) now"

definition accepted_next :: "jnum \<Rightarrow> jv \<Rightarrow> jnum" where
  "accepted_next now s = jmax (num_or (jget s ''next_allowed_at'') 0)
     (case refresh_interval s of Some i \<Rightarrow> request_at now s + i | None \<Rightarrow> now)"

definition waiting_since :: "jnum \<Rightarrow> jv \<Rightarrow> jv" where
  "waiting_since now s = (if 0 < jnum_of s ''evidence_wait_started_at''
     then jget s ''evidence_wait_started_at'' else JNum (request_at now s))"

text \<open>\<open>flow.get(key, "persistent") ?? {}\<close>\<close>

definition stored_refresh :: "ctx \<Rightarrow> jv" where
  "stored_refresh c = dflt (fper c refresh_key) (JObj [])"

definition accepted_state :: "jnum \<Rightarrow> jv \<Rightarrow> jv" where
  "accepted_state now s = jsets s
    [(''request_in_flight'', JFalse), (''in_flight_until'', JNull), (''service_accepted_at'', JNum now),
     (''next_allowed_at'', JNum (accepted_next now s)), (''awaiting_evidence'', JTrue),
     (''evidence_wait_started_at'', waiting_since now s), (''cache_probe_in_flight'', JFalse),
     (''cache_probe_in_flight_until'', JNull), (''cache_probe_for_request_at'', JNull),
     (''cache_probe_completed_for_request_at'', JNull), (''cache_probe_settle_until'', JNull),
     (''state'', JStr ''awaiting_evidence''), (''reason'', JStr ''api_accepted_awaiting_fresh_data''),
     (''next_retry_at'', JNum (accepted_next now s)), (''cooldown_until'', JNull), (''updated_at'', JNum now)]"

definition refresh_accepted :: "env \<Rightarrow> ctx \<Rightarrow> jv \<Rightarrow> jv run" where
  "refresh_accepted e c m = Emit (pset c refresh_key (accepted_state (clock e) (stored_refresh c))) m"

text \<open>\<open>Number(v ?? 0) || null\<close>\<close>

definition num_or_null :: "jv \<Rightarrow> jv" where
  "num_or_null v = jor (JNum (num_or v 0)) JNull"

definition probe_accepted_state :: "jnum \<Rightarrow> jv \<Rightarrow> jv" where
  "probe_accepted_state now s = jsets s
    [(''cache_probe_in_flight'', JFalse), (''cache_probe_in_flight_until'', JNull),
     (''cache_probe_completed_for_request_at'', num_or_null (jget s ''cache_probe_for_request_at'')),
     (''cache_probe_for_request_at'', JNull), (''cache_probe_accepted_at'', JNum now),
     (''cache_probe_settle_until'', JNum (now + 15 * 1000)), (''awaiting_evidence'', JTrue),
     (''state'', JStr ''probing_cache''), (''reason'', JStr ''cache_probe_accepted''),
     (''next_retry_at'', num_or_null (jget s ''next_allowed_at'')), (''cooldown_until'', JNull),
     (''updated_at'', JNum now)]"

definition probe_accepted :: "env \<Rightarrow> ctx \<Rightarrow> jv \<Rightarrow> jv run" where
  "probe_accepted e c m = Emit (pset c refresh_key (probe_accepted_state (clock e) (stored_refresh c))) m"

section \<open>Failures\<close>

definition error_source :: "jv \<Rightarrow> string" where
  "error_source m = plain_name (to_str (dflt (jget (jget (jget m ''error'') ''source'') ''name'') (JStr ''unknown'')))"

definition error_message :: "jv \<Rightarrow> string" where
  "error_message m = take 240 (unlines (to_str (dflt (jget (jget m ''error'') ''message'') (JStr ''unknown''))))"

definition drop_prefix :: "string \<Rightarrow> string \<Rightarrow> string" where
  "drop_prefix p s = (if starts_with s p then drop (length p) s else s)"

definition connection_error :: "string \<Rightarrow> bool" where
  "connection_error msg = (drop_prefix ''error: '' (js_lower msg) \<in> {''noconnectionerror'', ''connection lost''})"

text \<open>\<open>/^(?:Error: )?Unrecognized error: (\{.*\})$/\<close>\<close>

definition error_envelope :: "string \<Rightarrow> string option" where
  "error_envelope msg =
    (let s = drop_prefix ''Error: '' msg; p = ''Unrecognized error: '';
         r = drop (length p) s in
     if starts_with s p \<and> 2 \<le> length r \<and> hd r = CHR 0x7B \<and> last r = CHR 0x7D then Some r else None)"

definition envelope_disconnected :: "jv \<Rightarrow> bool" where
  "envelope_disconnected r = (jget r ''type'' = JStr ''result'' \<and> jget r ''success'' = JFalse \<and>
     jget (jget r ''error'') ''code'' = JNum 3 \<and> jget (jget r ''error'') ''message'' = JStr ''Connection lost'')"

definition ha_disconnected :: "string \<Rightarrow> bool" where
  "ha_disconnected msg = (case error_envelope msg of
     None \<Rightarrow> connection_error msg
   | Some r \<Rightarrow> (case json_parse r of None \<Rightarrow> connection_error msg | Some v \<Rightarrow> envelope_disconnected v))"

datatype failure = IntegrationUnavailable | NoFreshData | ProviderBackoff | Authentication | Timeout
  | Coalesced | ApiError

fun failure_name :: "failure \<Rightarrow> string" where
  "failure_name IntegrationUnavailable = ''integration_unavailable''"
| "failure_name NoFreshData = ''no_fresh_data''"
| "failure_name ProviderBackoff = ''provider_backoff''"
| "failure_name Authentication = ''authentication''"
| "failure_name Timeout = ''timeout''"
| "failure_name Coalesced = ''concurrent_request_coalesced''"
| "failure_name ApiError = ''api_error''"

definition failure_class :: "string \<Rightarrow> failure" where
  "failure_class msg =
    (if rx_itest [Lit ''service'', Ws, Lit ''kia_uvo.update'', Ws, Lit ''not'', Ws, Lit ''found''] msg
     then IntegrationUnavailable
     else if icontains_any msg [''did not return fresh data'', ''fresh data is pending'', ''no fresh data'']
     then NoFreshData
     else if icontains_any msg [''provider denied'', ''backoff is active''] \<or>
       rx_itest [WordB, Lit ''403'', WordB, AnyStar, WordB, Lit ''forbidden'', WordB] msg then ProviderBackoff
     else if icontains_any msg [''401'', ''unauthorised'', ''unauthorized'', ''authentic''] then Authentication
     else if icontains_any msg [''timeout'', ''timed out'', ''readtimeout''] then Timeout
     else if icontains_any msg [''already in progress'', ''coalesced''] then Coalesced
     else ApiError)"

definition cache_failure :: "string \<Rightarrow> bool" where
  "cache_failure source = icontains_any source [''cache'', ''reler'']"

definition trip_failure :: "string \<Rightarrow> bool" where
  "trip_failure source = icontains_any source [''viagen'', ''trip'']"

definition http_accepted :: "string \<Rightarrow> bool" where
  "http_accepted msg = (rx_test [WordB, Lit ''200'', WordB] msg \<or> rx_test [WordB, Lit ''202'', WordB] msg)"

text \<open>A lost connection to Home Assistant says nothing about the provider: only the lease is released.\<close>

definition disconnected_state :: "string \<Rightarrow> jv \<Rightarrow> jv" where
  "disconnected_state source previous =
    (let next = obj_or_empty previous in
     if cache_failure source then jsets next [(''cache_probe_in_flight'', JFalse), (''cache_probe_in_flight_until'', JNull)]
     else jsets next [(''request_in_flight'', JFalse), (''in_flight_until'', JNull)])"

definition refresh_disconnected :: "ctx \<Rightarrow> jv \<Rightarrow> ctx" where
  "refresh_disconnected c m =
    (let t = test_msg m; source = error_source m; previous = sget t c refresh_key in
     logged NodeWarn (if truthy previous \<and> \<not> trip_failure source
       then sset t c refresh_key (disconnected_state source previous) else c))"

definition accepted_in_error :: "jnum \<Rightarrow> jv \<Rightarrow> jv" where
  "accepted_in_error now s = jsets s
    [(''request_in_flight'', JFalse), (''in_flight_until'', JNull), (''awaiting_evidence'', JTrue),
     (''evidence_wait_started_at'', waiting_since now s), (''service_accepted_at'', JNum now),
     (''next_allowed_at'', JNum (accepted_next now s)), (''next_retry_at'', JNum (accepted_next now s)),
     (''cooldown_until'', JNull), (''state'', JStr ''awaiting_evidence''),
     (''reason'', JStr ''api_accepted_awaiting_fresh_data''), (''updated_at'', JNum now)]"

definition failed_endpoint :: "string \<Rightarrow> string" where
  "failed_endpoint source =
    (if trip_failure source then ''public_bindings.call (viagens do dia)''
     else if cache_failure source then ''kia_uvo.update (releitura do cache)''
     else ''public_bindings.call (wake do ve'' @ [CHR 0xED] @ ''culo)'')"

definition engine_relevant :: "failure \<Rightarrow> string \<Rightarrow> bool" where
  "engine_relevant k source = (\<not> trip_failure source \<and> k \<noteq> Coalesced)"

definition failed_next :: "jnum \<Rightarrow> string \<Rightarrow> jv \<Rightarrow> jv" where
  "failed_next now source s =
    (if cache_failure source then JNum (jmax (num_or (jget s ''next_allowed_at'') 0)
       (case refresh_interval s of Some i \<Rightarrow> now + i | None \<Rightarrow> now))
     else jget s ''next_allowed_at'')"

definition failed_engine :: "failure \<Rightarrow> string \<Rightarrow> jv \<Rightarrow> jv" where
  "failed_engine k source s =
    (if engine_relevant k source then
       jsets s [(''engine_communication_failed'', JTrue), (''engine_bypass_recovery_pending'', JFalse)]
     else if \<not> is_bool (jget s ''engine_communication_failed'') then jset s ''engine_communication_failed'' JFalse
     else s)"

definition failed_state :: "jnum \<Rightarrow> failure \<Rightarrow> string \<Rightarrow> jv \<Rightarrow> jv" where
  "failed_state now k source s =
    (let s1 = failed_engine k source (jsets s
       [(''request_in_flight'', JFalse), (''in_flight_until'', JNull), (''cache_probe_in_flight'', JFalse),
        (''cache_probe_in_flight_until'', JNull), (''cache_probe_for_request_at'', JNull),
        (''cache_probe_settle_until'', JNull), (''awaiting_evidence'', JTrue), (''state'', JStr ''backoff''),
        (''reason'', JStr (failure_name k)), (''failure_at'', JNum now), (''failure_source'', JStr source),
        (''failure_endpoint'', JStr (failed_endpoint source)), (''failure_stage'', JStr source),
        (''last_failure_class'', JStr (failure_name k))]);
         s2 = (if cache_failure source then jset s1 ''next_allowed_at'' (failed_next now source s) else s1) in
     jsets s2 [(''next_retry_at'', num_or_null (failed_next now source s)), (''cooldown_until'', JNull),
       (''updated_at'', JNum now)])"

definition notification_worthy :: "failure \<Rightarrow> bool" where
  "notification_worthy k = (k \<noteq> NoFreshData \<and> k \<noteq> Coalesced)"

definition failure_key :: "failure \<Rightarrow> string \<Rightarrow> string" where
  "failure_key k source = failure_name k @ ''|'' @ failed_endpoint source"

definition failure_alert :: "env \<Rightarrow> failure \<Rightarrow> string \<Rightarrow> jv" where
  "failure_alert e k source =
    (let name = (if k = IntegrationUnavailable then ''endpoint unavailable'' else ''refresh failed'') in JObj
      [(''title'', JStr (wording e (name @ '' title'') [])),
       (''message'', JStr (wording e name [failure_name k, failed_endpoint source, source]))])"

definition failure_message :: "env \<Rightarrow> failure \<Rightarrow> string \<Rightarrow> jv \<Rightarrow> jv" where
  "failure_message e k source m =
    (let alert = failure_alert e k source in jsets m
      [(''payload'', jspread (payload m) (JObj [(''test_mode'', JFalse),
          (''side_effect'', JStr ''notify:resident_primary+persistent_notification'')])),
       (''alert'', alert),
       (''notification'', JObj [(''id'', JStr ''vehicle_primary_refresh_failed''),
          (''title'', jget alert ''title''), (''message'', jget alert ''message'')])])"

definition bypass_message :: "string \<Rightarrow> string \<Rightarrow> jv" where
  "bypass_message on source = JObj
    [(''topic'', JStr ''homeassistant/vehicle_primary/engine_bypass/set''), (''qos'', JNum 1),
     (''retain'', JFalse),
     (''payload'', JStr (json_str (JObj [(''requested_state'', JStr on), (''source'', JStr source)])))]"

definition failure_noted :: "bool \<Rightarrow> jnum \<Rightarrow> failure \<Rightarrow> string \<Rightarrow> jv \<Rightarrow> jv" where
  "failure_noted notify now k source s = (if notify then jsets s
     [(''failure_notified_at'', JNum now), (''failure_notification_key'', JStr (failure_key k source))] else s)"

definition refresh_failed :: "env \<Rightarrow> ctx \<Rightarrow> jv \<Rightarrow> ports run" where
  "refresh_failed e c m =
    (let source = error_source m; k = failure_class (error_message m); s = stored_refresh c; now = clock e;
         notify = (notification_worthy k \<and> jget s ''failure_notification_key'' \<noteq> JStr (failure_key k source));
         bypass = (engine_relevant k source \<and> jget s ''engine_communication_failed'' \<noteq> JTrue);
         c1 = logged (if k = ProviderBackoff \<or> k = NoFreshData then NodeWarn else NodeError)
           (pset c refresh_key (failure_noted notify now k source (failed_state now k source s))) in
     if notify \<or> bypass then Emit c1
       [if notify then [failure_message e k source m] else [],
        if bypass then [bypass_message ''ON'' ''api_failure''] else []]
     else Stop c1)"

definition refresh_error :: "env \<Rightarrow> ctx \<Rightarrow> jv \<Rightarrow> ports run" where
  "refresh_error e c m =
    (let source = error_source m; msg = error_message m in
     if ha_disconnected msg then Stop (refresh_disconnected c m)
     else if http_accepted msg \<and> \<not> trip_failure source then
       Stop (logged NodeWarn (pset c refresh_key (accepted_in_error (clock e) (stored_refresh c))))
     else refresh_failed e c m)"

section \<open>The provider's backoff\<close>

definition backoff_state :: "jnum \<Rightarrow> jnum \<Rightarrow> jv \<Rightarrow> jv" where
  "backoff_state now retry s =
    (let next = JNum (jmax (num_or (jget s ''next_allowed_at'') 0) retry) in jsets s
      [(''provider_retry_at'', JNum retry), (''next_allowed_at'', next), (''next_retry_at'', next),
       (''awaiting_evidence'', JTrue), (''request_in_flight'', JFalse), (''in_flight_until'', JNull),
       (''cache_probe_in_flight'', JFalse), (''cache_probe_in_flight_until'', JNull),
       (''cache_probe_for_request_at'', JNull), (''cache_probe_settle_until'', JNull),
       (''state'', JStr ''backoff''), (''reason'', JStr ''provider_backoff''),
       (''last_failure_class'', JStr ''provider_backoff''), (''engine_communication_failed'', JTrue),
       (''engine_bypass_recovery_pending'', JFalse), (''updated_at'', JNum now)])"

definition released_state :: "jnum \<Rightarrow> jv \<Rightarrow> jv" where
  "released_state now s =
    (let s1 = jsets s [(''provider_retry_at'', JNull), (''awaiting_evidence'', JTrue)];
         s2 = (if num_or (jget s ''next_allowed_at'') 0 \<le> num_or (jget s ''provider_retry_at'') 0
           then jsets s1 [(''next_allowed_at'', JNum now), (''next_retry_at'', JNum now)] else s1) in
     jset s2 ''updated_at'' (JNum now))"

definition backoff_sync :: "env \<Rightarrow> ctx \<Rightarrow> jv \<Rightarrow> ports run" where
  "backoff_sync e c m =
    (let s = stored_refresh c; entity = payload m; now = clock e;
         status = to_str (dflt (jget (jget entity ''attributes'') ''status'') (JStr ''unknown''));
         retry = date_parse e (to_str (dflt (jget entity ''state'') (JStr []))) in
     if status = ''rate_limited'' \<and> fin retry \<and> now < retry then
       Emit (pset c refresh_key (backoff_state now retry s)) [[bypass_message ''ON'' ''provider_backoff'']]
     else if 0 < num_or (jget s ''provider_retry_at'') 0 \<and> status = ''available'' then
       Stop (pset c refresh_key (released_state now s))
     else Stop c)"

section \<open>Publication\<close>

text \<open>The published state and its deadline (\<open>None\<close> is \<open>null\<close>).\<close>

definition str_in :: "jv \<Rightarrow> string list \<Rightarrow> bool" where
  "str_in v ks = (v \<in> JStr ` set ks)"

definition shown_state :: "jnum \<Rightarrow> jv \<Rightarrow> jv \<times> jnum option" where
  "shown_state now s =
    (let st = dflt (jget s ''state'') (JStr ''idle''); cooldown = dflt (jget s ''cooldown_until'') (jget s ''next_allowed_at'') in
     if jget s ''cache_probe_in_flight'' = JTrue \<and> now < num_or (jget s ''cache_probe_in_flight_until'') 0
     then (JStr ''probing_cache'', Some (jnum_of s ''cache_probe_in_flight_until''))
     else if now < num_or (jget s ''cache_probe_settle_until'') 0
     then (JStr ''probing_cache'', Some (jnum_of s ''cache_probe_settle_until''))
     else if jget s ''request_in_flight'' = JTrue \<and> now < num_or (jget s ''in_flight_until'') 0
     then (JStr ''in_flight'', Some (jnum_of s ''in_flight_until''))
     else if waiting_evidence s then
       (if \<not> str_in st [''refreshing'', ''awaiting_evidence'', ''probing_cache''] \<or>
           30 * 1000 \<le> now - num_or (jget s ''last_attempt_at'') 0 then JStr ''backoff'' else st,
        (let d = num_or (dflt (jget s ''next_retry_at'') (jget s ''next_allowed_at'')) 0 in
         if truthy (JNum d) then Some d else None))
     else if now < num_or cooldown 0 then (JStr ''cooldown'', Some (to_num cooldown))
     else (if st = JStr ''cooldown'' then JStr ''idle'' else st, None))"

definition remaining_seconds :: "jnum \<Rightarrow> jnum option \<Rightarrow> jnum" where
  "remaining_seconds now deadline = (case deadline of None \<Rightarrow> 0
     | Some d \<Rightarrow> if truthy (JNum d) \<and> now < d then jmax 0 (jceil (jdivc (d - now) 1000)) else 0)"

definition iso_of :: "env \<Rightarrow> jv \<Rightarrow> jv" where
  "iso_of e v = (if 0 < to_num v then JStr (iso e (to_num v)) else JNull)"

text \<open>Level, reason and age in seconds of a time stamp.\<close>

definition timestamp_health :: "jnum \<Rightarrow> jv \<Rightarrow> jnum \<Rightarrow> jnum \<Rightarrow> bool \<Rightarrow> string \<times> string \<times> jv" where
  "timestamp_health now v fresh attention planned =
    (let t = num_or v 0; age = jmax 0 (now - t); secs = JNum (jround (jdivc age 1000)) in
     if \<not> fin t \<or> t \<le> 0 then (''critical'', ''missing'', JNull)
     else if now + 60000 < t then (''critical'', ''future_timestamp'', JNull)
     else if planned then (''healthy'', ''planned_quiet_hours'', secs)
     else if age \<le> fresh then (''healthy'', ''fresh'', secs)
     else if age \<le> attention then (''attention'', ''overdue'', secs)
     else (''critical'', ''stale'', secs))"

definition planned_quiet :: "jv \<Rightarrow> jv \<Rightarrow> bool" where
  "planned_quiet st s = (st = JStr ''waiting'' \<and>
     dflt (jget s ''reason'') (jget s ''recovery_reason'') = JStr ''quiet_hours_both_home'')"

definition refresh_health :: "jv \<Rightarrow> jv \<Rightarrow> string \<times> jv" where
  "refresh_health st s =
    (let failure = dflt (jget s ''last_failure_class'') JNull in
     if str_in st [''unknown'', ''unavailable''] then (''critical'', JStr ''coordinator_unavailable'')
     else if str_in st [''refreshing'', ''in_flight'', ''awaiting_evidence'', ''probing_cache''] then (''active'', JStr ''in_progress'')
     else if planned_quiet st s then (''healthy'', JStr ''planned_quiet_hours'')
     else if truthy failure \<or> st = JStr ''backoff'' then (''attention'', dflt failure (JStr ''backoff''))
     else if st = JStr ''waiting'' then (''attention'', JStr ''waiting_context'')
     else (''healthy'', JStr ''ready''))"

definition shown_interval :: "jv \<Rightarrow> jnum" where
  "shown_interval s = (if 0 < jnum_of s ''interval_ms'' then jnum_of s ''interval_ms'' else 30 * 60000)"

definition fresh_ms :: "jv \<Rightarrow> jnum" where
  "fresh_ms s = jmax (30 * 60000) (shown_interval s)"

definition attention_ms :: "jv \<Rightarrow> jnum" where
  "attention_ms s = jmax (60 * 60000) (shown_interval s * 2)"

definition seconds_of :: "jnum \<Rightarrow> jv" where
  "seconds_of x = JNum (jround (jdivc x 1000))"

definition hour_param :: "jv \<Rightarrow> string \<Rightarrow> jv" where
  "hour_param p k = (if integral (jnum_of p k) then JNum (jnum_of p k) else JNull)"

definition refresh_status :: "env \<Rightarrow> jv \<Rightarrow> jv \<Rightarrow> jv \<Rightarrow> jv" where
  "refresh_status e policy vehicle s =
    (let now = clock e; sd = shown_state now s; st = fst sd; rh = refresh_health st s; waiting = waiting_evidence s;
         df = timestamp_health now (jget vehicle ''telemetry_updated_at'') (fresh_ms s) (attention_ms s) (planned_quiet st s);
         cf = timestamp_health now (jget vehicle ''cache_scanned_at'') (20 * 60000) (30 * 60000) False in JObj
     [(''state'', st), (''reason'', dflt (jget s ''reason'') (dflt (jget s ''recovery_reason'') JNull)),
      (''attempt'', JNum (num_or (jget s ''attempts'') 0)),
      (''last_request_at'', iso_of e (dflt (jget s ''last_request_at'') (jget s ''last_attempt_at''))),
      (''last_success_at'', iso_of e (jget s ''last_success_at'')),
      (''next_retry_at'', if waiting then iso_of e (dflt (jget s ''next_retry_at'') (jget s ''next_allowed_at'')) else JNull),
      (''cooldown_until'', if \<not> waiting then iso_of e (dflt (jget s ''cooldown_until'') (jget s ''next_allowed_at'')) else JNull),
      (''remaining_seconds'', JNum (remaining_seconds now (snd sd))), (''awaiting_evidence'', JBool waiting),
      (''refresh_health'', JStr (fst rh)), (''refresh_health_reason'', snd rh),
      (''data_freshness'', JStr (fst df)), (''data_freshness_reason'', JStr (fst (snd df))),
      (''data_age_seconds'', snd (snd df)), (''data_fresh_within_seconds'', seconds_of (fresh_ms s)),
      (''data_attention_within_seconds'', seconds_of (attention_ms s)),
      (''cache_freshness'', JStr (fst cf)), (''cache_freshness_reason'', JStr (fst (snd cf))),
      (''cache_age_seconds'', snd (snd cf)), (''cache_fresh_within_seconds'', JNum (20 * 60)),
      (''cache_attention_within_seconds'', JNum (30 * 60)),
      (''interval_minutes'', jor (JNum (jdivc (num_or (jget s ''interval_ms'') 0) 60000)) JNull),
      (''interval_policy'', dflt (jget s ''interval_policy'') JNull),
      (''away_interval_minutes'', num_or_null (jget policy ''away_interval_minutes'')),
      (''arrival_armed_interval_minutes'', num_or_null (jget policy ''arrival_armed_interval_minutes'')),
      (''approaching_interval_minutes'', num_or_null (jget policy ''approaching_interval_minutes'')),
      (''home_interval_minutes'', num_or_null (jget policy ''home_interval_minutes'')),
      (''quiet_start_hour'', hour_param policy ''quiet_start_hour''),
      (''quiet_end_hour'', hour_param policy ''quiet_end_hour''),
      (''request_in_flight'', JBool (jget s ''request_in_flight'' = JTrue)),
      (''in_flight_until'', if jget s ''request_in_flight'' = JTrue then iso_of e (jget s ''in_flight_until'') else JNull),
      (''service_accepted_at'', iso_of e (jget s ''service_accepted_at'')),
      (''last_success_reason'', dflt (jget s ''last_success_reason'') JNull),
      (''lighting_ready_after_wake'', JBool (jget s ''lighting_ready_after_wake'' = JTrue)),
      (''last_evidence_domains'', case jget s ''last_evidence_domains'' of JArr xs \<Rightarrow> JArr xs | _ \<Rightarrow> JArr []),
      (''cache_probe_in_flight'', JBool (jget s ''cache_probe_in_flight'' = JTrue)),
      (''cache_probe_accepted_at'', iso_of e (jget s ''cache_probe_accepted_at'')),
      (''last_failure_class'', dflt (jget s ''last_failure_class'') JNull),
      (''engine_communication_failed'', JBool (jget s ''engine_communication_failed'' = JTrue)),
      (''failure_endpoint'', dflt (jget s ''failure_endpoint'') JNull),
      (''failure_stage'', dflt (jget s ''failure_stage'') JNull),
      (''manual_force'', JBool (jget s ''manual_force'' = JTrue)), (''updated_at'', JStr (iso e now))])"

definition retained :: "string \<Rightarrow> string \<Rightarrow> jv" where
  "retained topic text = JObj [(''topic'', JStr topic), (''payload'', JStr text), (''retain'', JTrue), (''qos'', JNum 1)]"

definition refresh_discovery :: jv where
  "refresh_discovery = JObj
    [(''name'', JStr ''Refresh Coordinator''), (''unique_id'', JStr ''vehicle_primary_refresh_coordinator''),
     (''object_id'', JStr ''vehicle_primary_refresh_coordinator''),
     (''state_topic'', JStr ''homeassistant/vehicle_primary/refresh/state''),
     (''value_template'', JStr ''{{ value_json.state }}''),
     (''json_attributes_topic'', JStr ''homeassistant/vehicle_primary/refresh/state''),
     (''icon'', JStr ''mdi:car-clock''),
     (''device'', JObj [(''identifiers'', JArr [JStr ''vehicle_primary_bluelink'']),
       (''name'', JStr ''vehicle_primary''), (''manufacturer'', JStr ''Hyundai'')])]"

definition telemetry_messages :: "jv \<Rightarrow> jv list" where
  "telemetry_messages status =
    [retained ''homeassistant/sensor/creta_refresh_coordinator/config'' [],
     retained ''homeassistant/sensor/vehicle_primary_refresh_coordinator_source/config'' [],
     retained ''homeassistant/sensor/vehicle_primary_refresh_coordinator/config'' (json_str refresh_discovery),
     retained ''homeassistant/vehicle_primary/refresh/state'' (json_str status)]"

definition take_flag :: "string \<Rightarrow> jv \<Rightarrow> ctx \<Rightarrow> jv \<times> ctx" where
  "take_flag k s c = (if jget s k = JTrue
     then (let s' = jset s k JFalse in (s', pset c refresh_key s')) else (s, c))"

definition refresh_telemetry :: "env \<Rightarrow> ctx \<Rightarrow> ports run" where
  "refresh_telemetry e c =
    (let s = stored_refresh c;
         status = refresh_status e (fper c refresh_config_key) (fmem c ''vehicle_primary_context_v1'') s;
         (s1, c1) = take_flag ''recovery_notification_pending'' s c;
         (s2, c2) = take_flag ''engine_bypass_recovery_pending'' s1 c1 in
     Emit c2 [telemetry_messages status,
       if jget s ''recovery_notification_pending'' = JTrue then [JObj [(''notification'',
         JObj [(''id'', JStr ''vehicle_primary_refresh_failed''), (''dismiss_only'', JTrue)])]] else [],
       if jget s1 ''engine_bypass_recovery_pending'' = JTrue then [bypass_message ''OFF'' ''api_recovered''] else []])"

section \<open>Arrivals of the car\<close>

abbreviation trip_action_key :: string where
  "trip_action_key \<equiv> ''security_vehicle_primary_trip_action_v1''"

definition join_str :: "jv \<Rightarrow> string" where
  "join_str v = (if nullish v then [] else to_str v)"

definition trip_event :: "jv \<Rightarrow> string" where
  "trip_event m = join_with '':'' [join_str (plget m ''source''), join_str (plget m ''arrival_stage'')]"

definition trip_repeated :: "jnum \<Rightarrow> string \<Rightarrow> jv \<Rightarrow> bool" where
  "trip_repeated now ev previous =
    (let seen = num_or (jget previous ''at'') 0; old = jget previous ''event_key'' in
     (old = JStr ev \<or> starts_with (to_str (dflt old (JStr []))) (ev @ '':'')) \<and>
     seen \<le> now + 60 * 1000 \<and> now - seen < 10 * 60 * 1000)"

definition confirmed_return :: "jv \<Rightarrow> bool" where
  "confirmed_return m = (plget m ''kind'' = JStr ''arrival'' \<and>
     plget m ''arrival_source_type'' = JStr ''vehicle_primary'' \<and>
     plget m ''arrival_direction'' = JStr ''returning'' \<and> plget m ''external_cycle_confirmed'' = JTrue)"

definition arrival_wake :: "jnum \<Rightarrow> jv \<Rightarrow> jv" where
  "arrival_wake now m = payload_with m
    [(''contract'', JStr ''security.refresh-command.v1''), (''kind'', JStr ''refresh_command''),
     (''reason'', JStr ''vehicle_primary_arrival''), (''recovery_needed'', JTrue), (''force_recovery'', JTrue),
     (''require_lighting_ready'', JTrue), (''test_mode'', JBool (test_msg m)), (''issued_at'', JNum now)]"

definition arrival_trip :: "jv \<Rightarrow> jv" where
  "arrival_trip m = payload_with m
    [(''side_effect'', JStr ''vehicle_primary.refresh_trip_info''), (''test_mode'', JBool (test_msg m))]"

definition vehicle_arrival_actions :: "env \<Rightarrow> ctx \<Rightarrow> jv \<Rightarrow> ports run" where
  "vehicle_arrival_actions e c m =
    (let t = test_msg m; now = or_clock e m; ev = trip_event m in
     if \<not> confirmed_return m \<or> trip_repeated now ev (sget t c trip_action_key) then Stop c
     else Emit (sset t c trip_action_key
         (JObj [(''version'', JNum 3), (''event_key'', JStr ev), (''at'', JNum now)]))
       [if plget m ''request_vehicle_primary_wake'' = JTrue then [arrival_wake now m] else [], [arrival_trip m]])"

section \<open>Commands for the bypass\<close>

text \<open>The commands sent over MQTT are understood by the bypass: printing and parsing them gives the
  branch they mean.\<close>

lemma bypass_message_branch:
  "message_branch (bypass_message ''ON'' ''api_failure'') = AutoActivation"
  "message_branch (bypass_message ''ON'' ''provider_backoff'') = AutoActivation"
  "message_branch (bypass_message ''OFF'' ''api_recovered'') = AutoRecovery"
  by code_simp+

lemma bypass_message_test: "\<not> test_msg (bypass_message on source)"
  by (simp add: test_msg_def plget_def payload_def bypass_message_def)

text \<open>C23: The commands survive their text. Whatever state and source a node puts in a command for the
  bypass, quotes, backslashes and control characters included, the bypass reads exactly them back from the
  JSON text of the message, stays in production, and takes the branch they stand for.\<close>

theorem bypass_command_roundtrip:
  fixes c on source
  defines "d \<equiv> bypass_facts c (bypass_message on source)"
  shows "by_command d = js_upper (js_trim on) \<and> by_source d = source \<and> \<not> by_test d \<and>
    by_branch d = bypass_branch_of (js_upper (js_trim on)) source"
proof -
  have p: "bypass_payload (bypass_message on source) =
      JObj [(''requested_state'', JStr on), (''source'', JStr source)]"
    using json_object_texts [of "''requested_state''" "''source''" on source]
    by (simp add: bypass_payload_def bypass_message_def payload_def json_object_text del: json_str.simps)
  then show ?thesis
    using bypass_message_test [of on source]
    by (simp add: d_def bypass_facts_def bypass_command_def bypass_source_def dflt_def Let_def)
qed

lemma port1_failed:
  assumes "refresh_error e c m = Emit c1 ps"
  shows "port 1 ps \<noteq> [] \<longleftrightarrow> engine_relevant (failure_class (error_message m)) (error_source m) \<and>
      jget (stored_refresh c) ''engine_communication_failed'' \<noteq> JTrue"
    "port 1 ps \<in> {[], [bypass_message ''ON'' ''api_failure'']}"
    "port 0 ps \<noteq> [] \<longleftrightarrow> notification_worthy (failure_class (error_message m)) \<and>
      jget (stored_refresh c) ''failure_notification_key'' \<noteq>
        JStr (failure_key (failure_class (error_message m)) (error_source m))"
  using assms by (auto simp: refresh_error_def refresh_failed_def Let_def port_def split: if_splits)

lemma bypass_after_command:
  assumes "message_branch cmd = b" "\<not> test_msg cmd"
  shows "owner_of False (ctx_of (bypass_flow e c cmd)) = owner_step b (owner_of False c)"
  using bypass_switch_owner [of "bypass_facts c cmd" c] assms by (simp add: bypass_flow_def)

lemma is_obj_failed [simp]: "is_obj (failed_state now k source s) = is_obj s"
  by (simp add: failed_state_def failed_engine_def Let_def)

lemma failure_noted_other:
  "x \<notin> {''failure_notified_at'', ''failure_notification_key''} \<Longrightarrow>
     jget (failure_noted notify now k source s) x = jget s x"
  by (simp add: failure_noted_def)

lemma failed_stored:
  assumes "refresh_error e c m = Emit c1 ps" and "is_obj (stored_refresh c)"
  defines "k \<equiv> failure_class (error_message m)" and "source \<equiv> error_source m" and "s \<equiv> stored_refresh c"
  shows "stored_refresh c1 = failure_noted (notification_worthy k \<and> jget s ''failure_notification_key'' \<noteq>
      JStr (failure_key k source)) (clock e) k source (failed_state (clock e) k source s)"
    "x \<noteq> refresh_key \<Longrightarrow> fper c1 x = fper c x"
proof -
  have o': "is_obj s \<Longrightarrow> \<not> nullish (failure_noted n t k source (failed_state t k source s))" for n t
    by (simp add: failure_noted_def)
  show "stored_refresh c1 = failure_noted (notification_worthy k \<and> jget s ''failure_notification_key'' \<noteq>
      JStr (failure_key k source)) (clock e) k source (failed_state (clock e) k source s)"
    "x \<noteq> refresh_key \<Longrightarrow> fper c1 x = fper c x"
    using assms(1) o' [OF assms(2) [folded s_def]] by (auto simp: refresh_error_def refresh_failed_def Let_def k_def source_def s_def
        stored_refresh_def [of c1] dflt_def split: if_splits)
qed

lemma failed_engine_failed:
  "is_obj s \<Longrightarrow> engine_relevant k source \<Longrightarrow>
     jget (failed_state now k source s) ''engine_communication_failed'' = JTrue"
  by (simp add: failed_state_def failed_engine_def Let_def jget_jsets)

text \<open>A failure of the car's API frees the light from the engine. A failed wake or cache probe that is
  neither a lost connection to Home Assistant nor an accepted request commands the bypass once: the command
  is sent exactly when the communication was not known to have failed, it marks the communication as
  failed, and the bypass answers it by enabling a disabled switch for the automation, leaving a switch that
  is already on with its owner.\<close>

theorem failure_enables_bypass:
  assumes "refresh_error e c m = Emit c1 ps" and "port 1 ps \<noteq> []" and "is_obj (stored_refresh c)"
  shows "jget (stored_refresh c1) ''engine_communication_failed'' = JTrue \<and>
    (\<exists>cmd. port 1 ps = [cmd] \<and> (\<forall>e'. owner_of False (ctx_of (bypass_flow e' c1 cmd)) =
      (case owner_of False c of Disabled \<Rightarrow> Automatic | other \<Rightarrow> other)))"
proof -
  have rel: "engine_relevant (failure_class (error_message m)) (error_source m)"
    using port1_failed(1) [OF assms(1)] assms(2) by simp
  have cmd: "port 1 ps = [bypass_message ''ON'' ''api_failure'']"
    using port1_failed(2) [OF assms(1)] assms(2) by simp
  note f = failed_stored [OF assms(1,3)]
  have c1: "jget (stored_refresh c1) ''engine_communication_failed'' = JTrue"
    unfolding f(1) by (subst failure_noted_other) (simp_all add: failed_engine_failed [OF assms(3) rel])
  have own: "owner_of False c1 = owner_of False c" by (simp add: owner_of_def sget_def f(2))
  have "owner_of False (ctx_of (bypass_flow e' c1 (bypass_message ''ON'' ''api_failure''))) =
      (case owner_of False c of Disabled \<Rightarrow> Automatic | other \<Rightarrow> other)" for e'
    using bypass_after_command [OF bypass_message_branch(1) bypass_message_test, of e' c1] own
    by (cases "owner_of False c") simp_all
  then show ?thesis using cmd c1 by simp
qed

text \<open>The recovery of the car's API returns the light to the engine, once. The periodic publication
  commands the bypass exactly when the coordinator has marked a recovery; it clears the mark, so the next
  publication is silent, and the bypass answers by disabling what the automation enabled and leaving what a
  person enabled.\<close>

theorem recovery_disables_bypass:
  fixes e c
  defines "r \<equiv> refresh_telemetry e c"
  assumes "is_obj (stored_refresh c)"
  shows "\<exists>ps. r = Emit (ctx_of r) ps \<and>
    (port 2 ps \<noteq> [] \<longleftrightarrow> jget (stored_refresh c) ''engine_bypass_recovery_pending'' = JTrue) \<and>
    jget (stored_refresh (ctx_of r)) ''engine_bypass_recovery_pending'' \<noteq> JTrue \<and>
    (\<forall>cmd \<in> set (port 2 ps). \<forall>e'. owner_of False (ctx_of (bypass_flow e' (ctx_of r) cmd)) =
      (case owner_of False c of Automatic \<Rightarrow> Disabled | other \<Rightarrow> other))"
proof -
  have own: "owner_of False (pset x refresh_key v) = owner_of False x" for x v
    by (simp add: owner_of_def sget_def)
  have st: "stored_refresh (pset x refresh_key v) = dflt v (JObj [])" for x v
    by (simp add: stored_refresh_def)
  have recovered: "owner_of False (ctx_of (bypass_flow e' x (bypass_message ''OFF'' ''api_recovered''))) =
      (case owner_of False x of Automatic \<Rightarrow> Disabled | other \<Rightarrow> other)" for e' x
    using bypass_after_command [OF bypass_message_branch(3) bypass_message_test, of e' x]
    by (cases "owner_of False x") simp_all
  show ?thesis
    using assms(2)
    by (auto simp: r_def refresh_telemetry_def take_flag_def Let_def own st recovered dflt_def port_def split: if_splits)
qed

section \<open>Quiet failures\<close>

text \<open>A lasting failure is notified once. After a failed call has raised an alert, the next failure of the
  same class at the same endpoint raises none, whatever its text and time, until another node clears the
  noted failure.\<close>

theorem failure_notified_once:
  assumes "refresh_error e c m = Emit c1 ps" and "port 0 ps \<noteq> []" and "is_obj (stored_refresh c)"
    and "refresh_error e' c1 m' = Emit c2 ps'"
    and "failure_class (error_message m') = failure_class (error_message m)"
    and "failed_endpoint (error_source m') = failed_endpoint (error_source m)"
  shows "port 0 ps' = []"
proof -
  let ?k = "failure_class (error_message m)" and ?s = "stored_refresh c" and ?src = "error_source m"
  have n: "notification_worthy ?k \<and> jget ?s ''failure_notification_key'' \<noteq> JStr (failure_key ?k ?src)"
    using port1_failed(3) [OF assms(1)] assms(2) by simp
  have "jget (stored_refresh c1) ''failure_notification_key'' = JStr (failure_key ?k ?src)"
    unfolding failed_stored(1) [OF assms(1,3)] using n assms(3) by (simp add: failure_noted_def jget_jsets)
  then show ?thesis
    using port1_failed(3) [OF assms(4)] assms(5,6) by (simp add: failure_key_def)
qed

definition lease_fields :: "string list" where
  "lease_fields = [''request_in_flight'', ''in_flight_until'', ''cache_probe_in_flight'', ''cache_probe_in_flight_until'']"

text \<open>A lost connection to Home Assistant is not a failure of the car. When the error says that the
  connection was lost (by either of the two texts or the structured result), nothing is sent, and of the
  stored state only the fields of a lease change: deadlines, attempts, evidence and known failures stay.\<close>

theorem disconnect_keeps_deadlines:
  assumes "ha_disconnected (error_message m)" and "x \<notin> set lease_fields"
  shows "\<not> emits (refresh_error e c m) \<and> \<not> raises (refresh_error e c m) \<and>
    jget (sget (test_msg m) (ctx_of (refresh_error e c m)) refresh_key) x =
    jget (sget (test_msg m) c refresh_key) x"
  using assms by (auto simp: refresh_error_def refresh_disconnected_def disconnected_state_def lease_fields_def
      Let_def)

section \<open>The provider is left alone\<close>

lemma acts_unblocked:
  assumes "coordinate e c m = Emit c' ps" "acts ps"
  shows "\<not> provider_blocked (test_clock e m) (sget (test_msg m) c refresh_key)"
proof (rule coordinate_acts [OF assms])
  fix f
  let ?d = "loaded e c m"
  assume f: "refresh_facts e m c ?d = Emit c (?d\<lparr>rf_state := decided_state m ?d\<rparr>, f)"
    "choose_step (ff_flags f) \<in> {Wake, Probe}"
  then show ?thesis
    using choose_acts [OF f(2)]
    by (simp add: refresh_facts_emit(4) [OF f(1)] derive_flags_def provider_blocked_def provider_retry_def
        decided_other load_frame load_keys_def)
qed

lemma backoff_stored:
  assumes "backoff_sync e c m = Emit c1 ps" "is_obj (stored_refresh c)"
  defines "retry \<equiv> date_parse e (to_str (dflt (jget (payload m) ''state'') (JStr [])))"
  shows "fin retry" "clock e < retry" "jget (fper c1 refresh_key) ''provider_retry_at'' = JNum retry"
    "ps = [[bypass_message ''ON'' ''provider_backoff'']]"
  using assms by (auto simp: backoff_sync_def backoff_state_def Let_def jget_jsets split: if_splits)


section \<open>Wakes over time\<close>

datatype refresh_event = Command jv | Accepted jv | ProbeAccepted jv | Failed jv | BackoffSync jv | Publish
  | Configure jv

fun run_refresh :: "env \<Rightarrow> refresh_event \<Rightarrow> ctx \<Rightarrow> ports run" where
  "run_refresh e (Command m) c = refresh_flow e c m"
| "run_refresh e (Accepted m) c = wire (refresh_accepted e c m) (\<lambda>c m. Emit c [[m]])"
| "run_refresh e (ProbeAccepted m) c = wire (probe_accepted e c m) (\<lambda>c m. Emit c [[m]])"
| "run_refresh e (Failed m) c = refresh_error e c m"
| "run_refresh e (BackoffSync m) c = backoff_sync e c m"
| "run_refresh e Publish c = refresh_telemetry e c"
| "run_refresh e (Configure m) c = refresh_config e c m"

text \<open>An event that is no wake of the car, at a time that does not precede the last wake by more than the
  tolerance.\<close>

definition wakes :: "env \<Rightarrow> ctx \<Rightarrow> jv \<Rightarrow> bool" where
  "wakes e c m = (\<not> test_msg m \<and> (case sent (refresh_flow e c m) of None \<Rightarrow> False | Some ps \<Rightarrow> port 0 ps \<noteq> []))"

fun quiet_event :: "env \<Rightarrow> jnum \<Rightarrow> refresh_event \<Rightarrow> ctx \<Rightarrow> bool" where
  "quiet_event e w (Command m) c = (\<not> wakes e c m \<and> w \<le> clock e + refresh_future c)"
| "quiet_event e w ev c = True"

text \<open>The states after a wake at \<open>w\<close>, before the next one.\<close>

inductive since_wake :: "jnum \<Rightarrow> ctx \<Rightarrow> bool" where
  woke: "wakes e c m \<Longrightarrow> fin (clock e) \<Longrightarrow> 0 < clock e \<Longrightarrow> since_wake (clock e) (ctx_of (refresh_flow e c m))"
| quiet: "since_wake w c \<Longrightarrow> quiet_event e w ev c \<Longrightarrow> since_wake w (ctx_of (run_refresh e ev c))"

definition last_request :: "ctx \<Rightarrow> jv" where
  "last_request c = jget (fper c refresh_key) ''last_request_at''"

lemma stored_refresh_get [simp]: "jget (stored_refresh c) k = jget (fper c refresh_key) k"
  by (cases "fper c refresh_key") (simp_all add: stored_refresh_def dflt_def)

lemma last_request_pset [simp]: "last_request (pset c refresh_key s) = jget s ''last_request_at''"
  "k \<noteq> refresh_key \<Longrightarrow> last_request (pset c k s) = last_request c"
  "last_request (logged x c) = last_request c" "last_request (fset c k s) = last_request c"
  "last_request (sset True c k s) = last_request c"
  by (simp_all add: last_request_def sset_def)

lemma last_request_sset: "last_request (sset t c refresh_key s) =
    (if t then last_request c else jget s ''last_request_at'')"
  by (simp add: last_request_def sset_def)

lemma failed_request: "last_request (ctx_of (refresh_error e c m)) = last_request c"
proof -
  have "jget (failed_state now k src s) ''last_request_at'' = jget s ''last_request_at''" for now k src s
    by (simp add: failed_state_def failed_engine_def Let_def)
  then have "jget (failure_noted n now k src (failed_state now k src s)) ''last_request_at'' =
      jget s ''last_request_at''" for n now k src s
    by (simp add: failure_noted_other)
  then have failed: "last_request (ctx_of (refresh_failed e c m)) = last_request c"
    by (simp add: refresh_failed_def Let_def last_request_def)
  have "last_request (refresh_disconnected c m) = last_request c"
    by (simp add: refresh_disconnected_def last_request_sset Let_def disconnected_state_def)
       (simp add: last_request_def sget_def)
  moreover have "jget (accepted_in_error now s) ''last_request_at'' = jget s ''last_request_at''" for now s
    by (simp add: accepted_in_error_def)
  ultimately show ?thesis
    using failed by (simp add: refresh_error_def Let_def) (simp add: last_request_def)
qed

lemma other_request:
  "last_request (ctx_of (refresh_accepted e c m)) = last_request c"
  "last_request (ctx_of (probe_accepted e c m)) = last_request c"
  "last_request (ctx_of (backoff_sync e c m)) = last_request c"
  "last_request (ctx_of (refresh_telemetry e c)) = last_request c"
  "last_request (ctx_of (refresh_config e c m)) = last_request c"
  by (simp_all add: refresh_accepted_def accepted_state_def probe_accepted_def probe_accepted_state_def
      backoff_sync_def backoff_state_def released_state_def refresh_telemetry_def take_flag_def
      refresh_config_def Let_def last_request_def [of c])

lemma policy_flow_cases:
  "policy_flow e c m =
    (if plget m ''kind'' \<noteq> JStr ''refresh_command'' then Stop c
     else if \<not> config_ready (fper c refresh_config_key) then Stop (logged NodeError c)
     else quiet_hours e c (policy_message e c m))"
  by (simp add: policy_flow_unroll) (simp add: policy_flow_def refresh_policy_def after_policy_def port_def Let_def)

lemma policy_flow_emit:
  assumes "policy_flow e c m = Emit c1 m1"
  shows "c1 = c" "plget m ''kind'' = JStr ''refresh_command''" "config_ready (fper c refresh_config_key)"
    "\<exists>q p. m1 = plsets (policy_message e c m)
       [(''refresh_quiet_hours_active'', q), (''refresh_quiet_hours_blocked'', p)]"
  using assms by (auto simp: policy_flow_cases quiet_hours_def Let_def split: if_splits)

lemma policy_flow_request: "last_request (ctx_of (policy_flow e c m)) = last_request c"
proof -
  have "last_request (sset t c refresh_key (jsets (obj_or_empty (sget t c refresh_key)) [(''state'', v1), (''reason'', v2),
      (''enabled'', v3), (''next_retry_at'', v4), (''cooldown_until'', v5), (''updated_at'', v6)])) = last_request c"
    for t v1 v2 v3 v4 v5 v6
    by (simp add: last_request_sset) (simp add: last_request_def sget_def)
  then show ?thesis by (simp add: policy_flow_cases quiet_hours_def Let_def del: integral.simps)
qed

lemma coordinate_request:
  assumes "last_request c = JNum (Fin w)" "\<not> test_msg m \<longrightarrow> Fin w \<le> clock e + refresh_future c"
    and "\<not> test_msg m \<longrightarrow> (\<forall>ps. sent (coordinate e c m) = Some ps \<longrightarrow> port 0 ps = [])"
  shows "last_request (ctx_of (coordinate e c m)) = JNum (Fin w)"
proof (cases "command_ok m \<and> fin (chosen_interval m (loaded e c m)) \<and> \<not> chosen_interval m (loaded e c m) \<le> 0")
  case True
  then have s: "sent (coordinate e c m) \<noteq> None \<or> command_ok m \<and> fin (chosen_interval m (loaded e c m)) \<and>
     \<not> chosen_interval m (loaded e c m) \<le> 0" by blast
  show ?thesis
  proof (rule coordinateE [OF s])
    fix f
    let ?d = "(loaded e c m)\<lparr>rf_state := decided_state m (loaded e c m)\<rparr>"
    let ?p = "run_step e (choose_step (ff_flags f)) m ?d f"
    assume f: "coordinate e c m = refresh_output c ?p"
    have ctx: "ctx_of (coordinate e c m) = sset (test_msg m) c refresh_key
        (jset (rr_state (snd ?p)) ''next_retry_at'' (retry_at (rr_state (snd ?p))))"
      using refresh_output_ctx [of c "fst ?p" "snd ?p"] run_step_test [of e _ m ?d f] by (simp add: f)
    show ?thesis
    proof (cases "test_msg m")
      case False
      have "choose_step (ff_flags f) \<noteq> Wake"
        using assms(3) False by (auto simp: f refresh_output_def dispatch_build_def Let_def)
      then have "jget (rr_state (snd ?p)) ''last_request_at'' = jget (decided_state m (loaded e c m)) ''last_request_at''"
        by (cases "choose_step (ff_flags f)") (simp_all add: refresh_suppress_def departure_done_def
            wait_location_def cache_build_def Let_def)
      also have "\<dots> = JNum (Fin w)"
        using assms(1,2) False
        by (simp add: decided_other load_past past_or_def valid_past_def last_request_def sget_def test_clock_def)
      finally show ?thesis using False by (simp add: ctx last_request_sset)
    qed (simp add: ctx assms(1))
  qed
next
  case False
  then show ?thesis
    using assms(1) by (auto simp: coordinate_def state_load_ok refresh_facts_def Let_def chosen_interval_def)
qed

lemma policy_keeps_test: "plget m ''kind'' = JStr ''refresh_command'' \<Longrightarrow>
   test_msg (plsets (policy_message e c m) [(''refresh_quiet_hours_active'', q), (''refresh_quiet_hours_blocked'', p)])
     = test_msg m"
  by (simp add: policy_message_forced)

lemma policy_flow_testE:
  assumes "policy_flow e c m = Emit c1 m1"
  shows "c1 = c" "test_msg m1 = test_msg m"
  using policy_flow_emit [OF assms] policy_keeps_test by auto

lemma refresh_flow_sent:
  assumes "sent (refresh_flow e c m) = Some ps"
  obtains m1 where "policy_flow e c m = Emit c m1" "sent (coordinate e c m1) = Some ps" "test_msg m1 = test_msg m"
proof (cases "policy_flow e c m")
  case (Emit c1 m1)
  then show thesis using that policy_flow_testE [OF Emit] assms by (simp add: refresh_flow_def)
qed (use assms in \<open>simp_all add: refresh_flow_def\<close>)

lemma refresh_flow_request:
  assumes "last_request c = JNum (Fin w)" "quiet_event e (Fin w) (Command m) c"
  shows "last_request (ctx_of (refresh_flow e c m)) = JNum (Fin w)"
proof (cases "policy_flow e c m")
  case (Emit c1 m1)
  note t = policy_flow_testE [OF Emit]
  have flow: "refresh_flow e c m = coordinate e c m1" using Emit t(1) by (simp add: refresh_flow_def)
  have "\<not> test_msg m \<longrightarrow> (\<forall>ps. sent (coordinate e c m1) = Some ps \<longrightarrow> port 0 ps = [])"
    using assms(2) by (auto simp: wakes_def flow)
  then show ?thesis
    using assms t(2) unfolding flow by (intro coordinate_request) simp_all
next
  case (Stop c1)
  then show ?thesis using policy_flow_request [of e c m] assms(1) by (simp add: refresh_flow_def)
next
  case (Raise c1)
  then show ?thesis using policy_flow_request [of e c m] assms(1) by (simp add: refresh_flow_def)
qed

lemma wire_request: "last_request (ctx_of (wire r (\<lambda>c m. Emit c (g m)))) = last_request (ctx_of r)"
  by (cases r) simp_all

lemma since_wake_request:
  "since_wake w c \<Longrightarrow> last_request c = JNum w \<and> fin w \<and> 0 < w"
proof (induction rule: since_wake.induct)
  case (woke e c m)
  then obtain ps where r: "sent (refresh_flow e c m) = Some ps" "port 0 ps \<noteq> []" "\<not> test_msg m"
    by (auto simp: wakes_def split: option.splits)
  obtain m1 where p: "policy_flow e c m = Emit c m1" "sent (coordinate e c m1) = Some ps" "test_msg m1 = test_msg m"
    by (rule refresh_flow_sent [OF r(1)])
  note co = run_eqI [OF p(2)]
  have "last_request (ctx_of (coordinate e c m1)) = JNum (test_clock e m1)"
    using wake_stored(5) [OF co r(2)] p(3) r(3) by (simp add: last_request_def sget_def)
  then show ?case using woke p r(3) by (simp add: refresh_flow_def test_clock_def)
next
  case (quiet w c e ev)
  show ?case
  proof (cases ev)
    case (Command m)
    then show ?thesis using quiet refresh_flow_request [of c _ e m] by (auto simp: fin_iff)
  qed (use quiet in \<open>simp_all add: failed_request other_request wire_request\<close>)
qed

lemma chosen_interval_minute:
  assumes "config_ok cfg" "jget cfg ''complete'' = JTrue" "plget m1 ''refresh_policy_config'' = config_ms cfg"
    and "plget m1 ''refresh_interval_ms'' = JNum (interval_ms cfg i)"
  shows "\<exists>v. chosen_interval m1 (loaded e c m1) = Fin v \<and> 60000 \<le> v"
proof -
  have "\<exists>v. interval_ms cfg j = Fin v \<and> 60000 \<le> v" for j
    by (rule interval_bounds [OF assms(1,2), of j]) blast
  note iv = this
  have ms: "jnum_of (config_ms cfg) (interval_field j) = interval_ms cfg j" for j
    by (simp add: config_ms_interval interval_ms_def)
  show ?thesis
    using iv [of ArrivalArmed] iv [of Approaching] iv [of Away] iv [of i] ms [of ArrivalArmed] ms [of Approaching]
      ms [of Away] assms(3,4)
    by (simp add: chosen_interval_def selected_interval_def Let_def)
qed

text \<open>C22: The car is not woken twice within a minute. Through any interleaving of refresh commands, accepted
  and failed calls, provider announcements, publications and changes of the parameters, once the car has
  been woken no unforced command wakes it again or probes its cache before a minute has passed, whatever
  interval the presence of the residents selects, as long as the configuration is complete.\<close>

theorem wakes_a_minute_apart:
  assumes "since_wake w c"
    and "config_ok (fper c refresh_config_key)" and "jget (fper c refresh_config_key) ''complete'' = JTrue"
    and "refresh_flow e c m = Emit c' ps" and "acts ps" and "\<not> test_msg m" and "\<not> forced m"
    and "fin (clock e)" and "w \<le> clock e + refresh_future c"
  shows "w + 60000 \<le> clock e"
proof -
  obtain x where w: "w = Fin x" "last_request c = JNum (Fin x)" "0 < x"
    using since_wake_request [OF assms(1)] by (auto simp: fin_iff)
  have sent: "sent (refresh_flow e c m) = Some ps" using assms(4) by simp
  obtain m1 where p: "policy_flow e c m = Emit c m1" "sent (coordinate e c m1) = Some ps" "test_msg m1 = test_msg m"
    by (rule refresh_flow_sent [OF sent])
  obtain q b where m1: "m1 = plsets (policy_message e c m)
      [(''refresh_quiet_hours_active'', q), (''refresh_quiet_hours_blocked'', b)]"
    and kind: "plget m ''kind'' = JStr ''refresh_command''"
    using policy_flow_emit [OF p(1)] by blast
  note get = policy_message_get [OF kind] policy_message_forced [OF kind]
  let ?cfg = "fper c refresh_config_key"
  have get1: "plget m1 ''refresh_policy_config'' = config_ms ?cfg"
    "plget m1 ''refresh_interval_ms'' = JNum (interval_ms ?cfg (choose_interval (read_presence e c m)))"
    by (simp_all add: m1 get config_ms_interval interval_ms_def)
  obtain v where v: "chosen_interval m1 (loaded e c m1) = Fin v" "60000 \<le> v"
    using chosen_interval_minute [OF assms(2,3) get1] by blast
  have "deadline_bypass m1 (requested_reason m1 r) = forced m1" for r
    by (auto simp: deadline_bypass_def requested_reason_def forced_def dflt_def manual_bypass_def
        departure_bypass_def arrival_bypass_def Let_def)
  moreover have "forced m1 = forced (policy_message e c m)"
    by (simp add: m1 forced_def departure_bypass_def arrival_bypass_def)
  moreover note policy_message_forced(1) [OF kind]
  ultimately have "unforced m1 (loaded e c m1)" using assms(7) by (simp add: unforced_def)
  then have "Fin x + Fin v \<le> test_clock e m1"
    using acts_after_interval [OF run_eqI [OF p(2)] assms(5)] w v assms(6,8,9) p(3)
    by (simp add: last_request_def sget_def test_clock_def)
  then show ?thesis
    using v w assms(6,8) p(3) by (auto simp: test_clock_def fin_iff)
qed

section \<open>Dry runs\<close>

text \<open>A refresh command up to the service calls: port 0 holds the real calls (the wake and the cache
  probe behind their gates), port 1 what is only simulated.\<close>

definition refresh_services :: "env \<Rightarrow> ctx \<Rightarrow> jv \<Rightarrow> ports run" where
  "refresh_services e c m = wire (refresh_flow e c m) (\<lambda>c1 ps.
     let gs = map (guarded e ''vehicle_primary.force_refresh'') (port 0 ps) @
              map (guarded e ''vehicle_primary.cache_probe'') (port 4 ps) in
     Emit c1 [concat (map (port 0) gs), concat (map (port 1) gs)])"

lemma isolated_policy_flow: "test_msg m \<Longrightarrow> isolated c (ctx_of (policy_flow e c m))"
  by (simp add: policy_flow_cases quiet_hours_def policy_message_forced Let_def del: integral.simps)

lemma isolated_coordinate: "test_msg m \<Longrightarrow> isolated c (ctx_of (coordinate e c m))"
proof -
  assume t: "test_msg m"
  show ?thesis
  proof (cases "command_ok m \<and> fin (chosen_interval m (loaded e c m)) \<and> \<not> chosen_interval m (loaded e c m) \<le> 0")
    case True
    then have s: "sent (coordinate e c m) \<noteq> None \<or> command_ok m \<and> fin (chosen_interval m (loaded e c m)) \<and>
       \<not> chosen_interval m (loaded e c m) \<le> 0" by blast
    show ?thesis
    proof (rule coordinateE [OF s])
      fix f
      let ?d = "(loaded e c m)\<lparr>rf_state := decided_state m (loaded e c m)\<rparr>"
      let ?p = "run_step e (choose_step (ff_flags f)) m ?d f"
      assume "coordinate e c m = refresh_output c ?p"
      then show ?thesis
        using refresh_output_ctx [of c "fst ?p" "snd ?p"] run_step_test [of e _ m ?d f] t by simp
    qed
  next
    case False
    then show ?thesis
      by (auto simp: coordinate_def state_load_ok refresh_facts_def Let_def chosen_interval_def)
  qed
qed

lemma isolated_refresh_flow: "test_msg m \<Longrightarrow> isolated c (ctx_of (refresh_flow e c m))"
proof -
  assume t: "test_msg m"
  show ?thesis
  proof (cases "policy_flow e c m")
    case (Emit c1 m1)
    then show ?thesis using policy_flow_testE [OF Emit] isolated_coordinate t by (simp add: refresh_flow_def)
  qed (use isolated_policy_flow [OF t, of c e] in \<open>simp_all add: refresh_flow_def\<close>)
qed

lemma coordinate_output_test:
  assumes "coordinate e c m = Emit c' ps" "test_msg m" "x \<in> set (port 0 ps) \<or> x \<in> set (port 4 ps)"
  shows "test_msg x"
proof -
  have "acts ps" using assms(3) by (auto simp: acts_def)
  then show ?thesis
  proof (rule coordinate_acts [OF assms(1)])
    fix f
    let ?d = "(loaded e c m)\<lparr>rf_state := decided_state m (loaded e c m)\<rparr>"
    assume f: "command_ok m" "choose_step (ff_flags f) \<in> {Wake, Probe}"
      "refresh_output c (run_step e (choose_step (ff_flags f)) m ?d f) = Emit c' ps"
    have o': "is_obj m" "is_obj (payload m)"
      using f(1) plget_objs [of m "''kind''"] by (auto simp: command_ok_def)
    have "plget x ''test_mode'' = JTrue"
      using f(2,3) assms(2,3) o'
      by (auto simp: refresh_output_def dispatch_build_def dispatch_message_def cache_build_def Let_def port_def
          plget_plsets)
    then show ?thesis by (simp add: test_msg_def)
  qed
qed

interpretation services: dry_run_gate refresh_services test_msg
proof
  fix e c m
  assume t: "test_msg m"
  show "isolated c (ctx_of (refresh_services e c m))"
    using isolated_refresh_flow [OF t, of c e]
    by (cases "refresh_flow e c m") (simp_all add: refresh_services_def Let_def)
next
  fix e c m c' ps
  assume t: "test_msg m" and r: "refresh_services e c m = Emit c' ps"
  obtain c1 qs where q: "refresh_flow e c m = Emit c1 qs"
    using r by (auto simp: refresh_services_def wire_Emit_iff)
  then have "sent (refresh_flow e c m) = Some qs" by simp
  then obtain m1 where m1: "sent (coordinate e c m1) = Some qs" "test_msg m1 = test_msg m"
    by (rule refresh_flow_sent)
  have "test_msg x" if "x \<in> set (port 0 qs) \<or> x \<in> set (port 4 qs)" for x
    using coordinate_output_test [OF run_eqI [OF m1(1)]] m1(2) t that by simp
  then show "port 0 ps = []"
    using r q by (auto simp: refresh_services_def guarded_def Let_def)
qed


section \<open>Arrivals are acted on once\<close>

text \<open>One arrival of the car is acted on once. After the actions of a confirmed return have been sent,
  the same arrival (same source and stage) reported again within ten minutes sends nothing.\<close>

theorem arrival_actions_once:
  assumes "vehicle_arrival_actions e c m = Emit c1 ps" and "test_msg m' = test_msg m"
    and "trip_event m' = trip_event m" and "or_clock e m = Fin t" and "or_clock e' m' = Fin t'"
    and "t \<le> t' + 60000" and "t' - t < 600000"
  shows "\<not> emits (vehicle_arrival_actions e' c1 m')"
proof -
  have "sget (test_msg m) c1 trip_action_key =
      JObj [(''version'', JNum 3), (''event_key'', JStr (trip_event m)), (''at'', JNum (Fin t))]"
    using assms(1,4) by (auto simp: vehicle_arrival_actions_def Let_def split: if_splits)
  then have "trip_repeated (Fin t') (trip_event m') (sget (test_msg m') c1 trip_action_key)"
    using assms(2,3,6,7) by (simp add: trip_repeated_def Let_def)
  then show ?thesis using assms(5) by (simp add: vehicle_arrival_actions_def Let_def)
qed

section \<open>Examples\<close>

definition failed_call :: "string \<Rightarrow> jv" where
  "failed_call text = JObj [(''error'', JObj [(''message'', JStr text),
     (''source'', JObj [(''name'', JStr ''Atualizar veiculo'')])])]"

lemma timeout_call:
  "failure_class (error_message (failed_call ''timeout'')) = Timeout"
  "engine_relevant Timeout (error_source (failed_call ''timeout''))"
  "\<not> ha_disconnected (error_message (failed_call ''timeout''))"
  "\<not> http_accepted (error_message (failed_call ''timeout''))"
  by code_simp+

lemma empty_stored: "stored_refresh empty_ctx = JObj []"
  by (simp add: stored_refresh_def dflt_def empty_ctx_def)

lemma timeout_error:
  "\<exists>c1 x y. refresh_error e empty_ctx (failed_call ''timeout'') = Emit c1 [[x], [y]]"
  using timeout_call by (simp add: refresh_error_def refresh_failed_def Let_def empty_stored notification_worthy_def)

theorem failure_enables_bypass_witness:
  "\<exists>c1 x y. refresh_error (host_at 5) empty_ctx (failed_call ''timeout'') = Emit c1 [[x], [y]] \<and>
     jget (stored_refresh c1) ''engine_communication_failed'' = JTrue"
proof -
  obtain c1 x y where r: "refresh_error (host_at 5) empty_ctx (failed_call ''timeout'') = Emit c1 [[x], [y]]"
    using timeout_error by blast
  then show ?thesis using failure_enables_bypass [OF r] by (simp add: empty_stored)
qed

theorem failure_notified_once_witness:
  "\<exists>c1 x y. refresh_error (host_at 5) empty_ctx (failed_call ''timeout'') = Emit c1 [[x], [y]] \<and>
     (\<forall>c2 ps. refresh_error (host_at 6) c1 (failed_call ''timeout'') = Emit c2 ps \<longrightarrow> port 0 ps = [])"
proof -
  obtain c1 x y where r: "refresh_error (host_at 5) empty_ctx (failed_call ''timeout'') = Emit c1 [[x], [y]]"
    using timeout_error by blast
  then show ?thesis using failure_notified_once [OF r] by (simp add: empty_stored)
qed

theorem recovery_disables_bypass_witness:
  "\<exists>ps. refresh_telemetry (host_at 5) (pset empty_ctx refresh_key
       (JObj [(''engine_bypass_recovery_pending'', JTrue)])) =
     Emit (ctx_of (refresh_telemetry (host_at 5) (pset empty_ctx refresh_key
       (JObj [(''engine_bypass_recovery_pending'', JTrue)])))) ps \<and> port 2 ps \<noteq> []"
  using recovery_disables_bypass [of "pset empty_ctx refresh_key (JObj [(''engine_bypass_recovery_pending'', JTrue)])" "host_at 5"]
  by (auto simp: stored_refresh_def dflt_def)

theorem disconnect_keeps_deadlines_witness:
  "\<not> emits (refresh_error (host_at 5) refresh_ctx (failed_call ''Connection lost'')) \<and>
   jget (fper (ctx_of (refresh_error (host_at 5) refresh_ctx (failed_call ''Connection lost''))) refresh_key) ''next_allowed_at'' =
   jget (fper refresh_ctx refresh_key) ''next_allowed_at''"
proof -
  have d: "ha_disconnected (error_message (failed_call ''Connection lost''))" by code_simp
  have "\<not> test_msg (failed_call ''Connection lost'')"
    by (simp add: test_msg_def plget_def payload_def failed_call_def)
  then show ?thesis
    using disconnect_keeps_deadlines [OF d, of "''next_allowed_at''" "host_at 5" refresh_ctx]
    by (simp add: lease_fields_def sget_def del: refresh_ctx_reads)
qed


definition returned_car :: jv where
  "returned_car = JObj [(''payload'', JObj [(''kind'', JStr ''arrival''),
     (''arrival_source_type'', JStr ''vehicle_primary''), (''arrival_direction'', JStr ''returning''),
     (''external_cycle_confirmed'', JTrue), (''source'', JStr ''vehicle_primary''), (''arrival_stage'', JStr ''gate'')])]"

lemma returned_clock: "or_clock (host_at (Fin t)) returned_car = Fin t"
  by (simp add: or_clock_def Let_def returned_car_def plget_def payload_def)

theorem arrival_actions_once_witness:
  "\<exists>c1 ps. vehicle_arrival_actions (host_at (Fin 1000)) empty_ctx returned_car = Emit c1 ps \<and>
     \<not> emits (vehicle_arrival_actions (host_at (Fin 2000)) c1 returned_car)"
proof -
  have "\<not> trip_repeated (Fin 1000) (trip_event returned_car) (sget (test_msg returned_car) empty_ctx trip_action_key)"
    by code_simp
  moreover have "confirmed_return returned_car" by code_simp
  ultimately obtain c1 ps where r: "vehicle_arrival_actions (host_at (Fin 1000)) empty_ctx returned_car = Emit c1 ps"
    using returned_clock by (simp add: vehicle_arrival_actions_def Let_def)
  then show ?thesis using arrival_actions_once [OF r refl refl returned_clock returned_clock] by auto
qed

text \<open>A wake the resident asks for while the provider does not want to be asked: it is answered with a notice.\<close>

definition manual_command :: jv where
  "manual_command = refresh_command [(''refresh_policy_version'', JNum 1), (''refresh_policy_config'', std_ms),
     (''reason'', JStr ''manual_force''), (''force_recovery'', JTrue), (''refresh_interval_ms'', JNum 900000)]"

lemma manual_get [simp]:
  "plget manual_command ''kind'' = JStr ''refresh_command''" "plget manual_command ''refresh_policy_version'' = JNum 1"
  "plget manual_command ''refresh_policy_config'' = std_ms" "plget manual_command ''reason'' = JStr ''manual_force''"
  "plget manual_command ''force_recovery'' = JTrue" "plget manual_command ''refresh_interval_ms'' = JNum 900000"
  "plget manual_command ''refresh_arrival_restart_pending'' = JUndef"
  "plget manual_command ''refresh_anyone_approaching'' = JUndef"
  "\<not> test_msg manual_command" "test_clock e manual_command = clock e"
  by (simp_all add: manual_command_def refresh_command_def plget_def payload_def test_msg_def test_clock_def)

lemma manual_blocked_emits:
  assumes "provider_blocked (clock e) (fper c refresh_key)"
  shows "\<exists>c1 ps. coordinate e c manual_command = Emit c1 ps"
proof (rule coordinateE [of e c manual_command], goal_cases)
  case 1
  have "chosen_interval manual_command (loaded e c manual_command) = Fin 900000"
    by (simp add: chosen_interval_def selected_interval_def armed_restart_def approaching_def deadline_bypass_def
        manual_bypass_def requested_reason_def dflt_def Let_def)
  then show ?case by (simp add: command_ok_def params_ok_def required_params_def)
next
  case (2 f)
  let ?m = manual_command and ?d = "loaded e c manual_command"
  have rec: "recovery_needed ?m ?d" by (simp add: recovery_needed_def)
  have dep: "\<not> departure_bypass ?m (requested_reason ?m True)"
    by (simp add: departure_bypass_def requested_reason_def dflt_def)
  have "provider_blocked (clock e) (decided_state ?m ?d)"
    using assms by (simp add: provider_blocked_def provider_retry_def decided_other load_frame load_keys_def sget_def)
  then have "\<exists>w. choose_step (ff_flags f) = Suppress w"
    unfolding refresh_facts_emit(4) [OF 2(2)] using rec dep
    by (simp add: choose_step_def derive_flags_def departure_covered_def refresh_enabled_def)
  then show ?case
    using 2(3) by (auto simp: refresh_output_def refresh_suppress_def Let_def)
qed

definition limited_provider :: jv where
  "limited_provider = JObj [(''payload'', JObj [(''state'', JStr ''2026-01-01T00:00:00Z''),
     (''attributes'', JObj [(''status'', JStr ''rate_limited'')])])]"


lemma wake_reads:
  assumes "coordinate e c m = Emit c1 ps" "port 0 ps \<noteq> []" "\<not> test_msg m"
  shows "fmem c1 = fmem c" "k \<noteq> refresh_key \<Longrightarrow> fper c1 k = fper c k" "glob c1 = glob c"
proof -
  have "\<exists>p. refresh_output c p = Emit c1 ps \<and> rr_test (snd p) = test_msg m"
  proof (rule coordinate_acts [OF assms(1)], goal_cases)
    case 1
    then show ?case using assms(2) by (simp add: acts_def)
  next
    case (2 f)
    show ?case by (rule exI, rule conjI, rule 2(4)) (simp add: run_step_test)
  qed
  then obtain p where "refresh_output c p = Emit c1 ps" "rr_test (snd p) = test_msg m" by blast
  then have "c1 = sset False c refresh_key (jset (rr_state (snd p)) ''next_retry_at'' (retry_at (rr_state (snd p))))"
    using refresh_output_ctx [of c "fst p" "snd p"] assms(3) by simp
  then show "fmem c1 = fmem c" "k \<noteq> refresh_key \<Longrightarrow> fper c1 k = fper c k" "glob c1 = glob c"
    by (simp_all add: sset_def)
qed

text \<open>Two scheduled refreshes through the policy, a thousand seconds apart: a wake, then a cache probe.\<close>

lemma nobody_seen:
  fixes e c
  defines "r \<equiv> read_presence e c (refresh_command [])"
  assumes "fmem c = (\<lambda>_. JUndef)"
  shows "\<not> both_home r" "\<not> anyone_approaching r" "\<not> restart_pending r"
proof -
  have r: "pr_payload r = JObj [(''kind'', JStr ''refresh_command'')]" "pr_people r = JUndef" "pr_vehicle r = JUndef"
    using assms(2) by (simp_all add: r_def read_presence_def Let_def refresh_command_def payload_def mget_def)
  have v: "resident_value r x k = JUndef \<and> \<not> resident_ready r x" if "x \<in> set roles" for x k
    using that by (auto simp: roles_def resident_value_def resident_ready_def Let_def r dflt_def)
  have s: "resident_state r x = []" if "x \<in> set roles" for x
    using v [OF that] by (simp add: resident_state_def dflt_def js_lower_def)
  have "hd roles \<in> set roles" by (simp add: roles_def)
  then show "\<not> both_home r" using v by (auto simp: both_home_def list_all_iff resident_in_def)
  have "\<not> resident_approaching r" "\<not> pending_approach r" "\<not> nearby_resident r" "\<not> vehicle_approaching r"
    using v s r(3) by (auto simp: resident_approaching_def pending_approach_def nearby_resident_def
        vehicle_approaching_def list_ex_iff resident_in_def Let_def)
  then show "\<not> anyone_approaching r" by (simp add: anyone_approaching_def)
  then show "\<not> restart_pending r" by (simp add: restart_pending_def)
qed

lemma policy_scheduled:
  assumes "fmem c = (\<lambda>_. JUndef)" "fper c refresh_config_key = std_refresh_config"
  obtains m1 where "policy_flow e c (refresh_command []) = Emit c m1" "scheduled m1"
    "plget m1 ''vehicle_primary_ready'' \<noteq> JTrue"
proof -
  let ?m = "refresh_command []"
  have get: "plget ?m k = (if k = ''kind'' then JStr ''refresh_command'' else JUndef)" for k
    by (simp add: refresh_command_def plget_def payload_def)
  then have kind: "plget ?m ''kind'' = JStr ''refresh_command''" and t: "\<not> test_msg ?m"
    by (simp_all add: test_msg_def) (simp add: refresh_command_def)
  note seen = nobody_seen [where e = e, OF assms(1)]
  note pg = policy_message_get [where e = e and c = c, OF kind] policy_message_forced [where e = e and c = c, OF kind]
  have cfg: "config_ok (fper c refresh_config_key)" "jget (fper c refresh_config_key) ''complete'' = JTrue"
    using std_refresh_ok assms(2) by simp_all
  have "\<not> night_pause e c ?m" using seen(1) by (simp add: night_pause_def Let_def)
  then obtain m1 where p: "policy_flow e c ?m = Emit c m1"
    using policy_assigns_interval [OF cfg kind, of e] by auto
  obtain q b where m1: "m1 = plsets (policy_message e c ?m)
      [(''refresh_quiet_hours_active'', q), (''refresh_quiet_hours_blocked'', b)]"
    using policy_flow_emit [OF p] by blast
  have ms: "config_ms std_refresh_config = std_ms" by (simp add: std_ms_def)
  have o': "is_obj ?m" "is_obj (payload ?m)" by (simp_all add: refresh_command_def payload_def)
  have "plget (policy_message e c ?m) ''refresh_anyone_approaching'' = JFalse"
    "plget (policy_message e c ?m) ''refresh_arrival_restart_pending'' = JFalse"
    using seen o' by (simp_all add: policy_message_def Let_def use_interval_def plget_plsets policy_fields_def)
  then have "scheduled m1" "plget m1 ''vehicle_primary_ready'' \<noteq> JTrue"
    using pg t assms(2) ms
    by (simp_all add: m1 scheduled_def command_ok_def approaching_def armed_restart_def get policy_fields_def
        params_ok_def required_params_def)
  then show thesis using that p by blast
qed

theorem wakes_a_minute_apart_witness:
  "\<exists>c c' ps. since_wake (Fin 1000000) c \<and>
     refresh_flow (host_at (Fin 2000000)) c (refresh_command []) = Emit c' ps \<and> acts ps \<and>
     Fin 1000000 + 60000 \<le> clock (host_at (Fin 2000000))"
proof (rule policy_scheduled [of refresh_ctx "host_at (Fin 1000000)"])
  let ?m = "refresh_command []"
  fix m1
  assume m1: "policy_flow (host_at (Fin 1000000)) refresh_ctx ?m = Emit refresh_ctx m1" "scheduled m1"
    "plget m1 ''vehicle_primary_ready'' \<noteq> JTrue"
  have cmd: "\<not> test_msg ?m" "\<not> forced ?m"
    by (simp_all add: test_msg_def forced_def refresh_command_def plget_def payload_def manual_bypass_def
        departure_bypass_def arrival_bypass_def dflt_def Let_def)
  obtain c1 out where w: "coordinate (host_at (Fin 1000000)) refresh_ctx m1 = Emit c1 [[out], [out], [], [], []]"
    "chosen_interval m1 (loaded (host_at (Fin 1000000)) refresh_ctx m1) = Fin 900000"
    by (rule wake_run [OF m1(2,3)])
  have f1: "refresh_flow (host_at (Fin 1000000)) refresh_ctx ?m = Emit c1 [[out], [out], [], [], []]"
    using m1(1) w(1) by (simp add: refresh_flow_def)
  then have s: "since_wake (Fin 1000000) c1"
    using since_wake.woke [of "host_at (Fin 1000000)" refresh_ctx ?m] cmd by (simp add: wakes_def)
  have c1: "fmem c1 = (\<lambda>_. JUndef)" "fper c1 refresh_config_key = std_refresh_config" "glob c1 = glob refresh_ctx"
    using wake_reads [OF w(1) _ scheduledD(2) [OF m1(2)]] by simp_all
  obtain m2 where m2: "policy_flow (host_at (Fin 2000000)) c1 ?m = Emit c1 m2" "scheduled m2"
    by (rule policy_scheduled [OF c1(1,2)])
  note sw = second_wake [OF w m1(2) m2(2)]
  have p: "port 0 [[out], [out], [], [], []] \<noteq> []" by simp
  note m' = scheduledD [OF m1(2)] scheduledD [OF m2(2)]
  have "refresh_flow (host_at (Fin 2000000)) c1 ?m = refresh_output c1 (cache_build m2
      ((loaded (host_at (Fin 2000000)) c1 m2)\<lparr>rf_state := decided_state m2 (loaded (host_at (Fin 2000000)) c1 m2)\<rparr>))"
    using wake_then_probe(1) [OF w(1) p _ _ sw(2)] sw m' w(2) m2(1) c1 by (simp add: refresh_flow_def refresh_future_def)
  then obtain c2 x where f2: "refresh_flow (host_at (Fin 2000000)) c1 ?m = Emit c2 [[], [], [], [], [x]]"
    by (simp add: refresh_output_def cache_build_def Let_def)
  have a: "acts [[], [], [], [], [x]]" by (simp add: acts_def port_def)
  have "config_ok (fper c1 refresh_config_key)" "jget (fper c1 refresh_config_key) ''complete'' = JTrue"
    using std_refresh_ok c1 by simp_all
  then show ?thesis
    using wakes_a_minute_apart [OF s _ _ f2 a cmd] s f2 a c1 by (auto simp: refresh_future_def)
qed simp_all

end
