(* ===== verification/VehicleLife.thy ===== *)
theory VehicleLife
  imports Places RefreshCoord
begin

text \<open>
  The lifecycle of the car (\<open>vehicle-lifecycle-*.js\<close>): a snapshot or a location event becomes the context
  of the car that the other tabs read. \<open>vehicle_normalize\<close> reads position, engine, lock and telemetry,
  \<open>vehicle_movement\<close> compares the position with the last one, \<open>vehicle_load\<close> restores what survives a
  restart, \<open>vehicle_use\<close> decides whether the car is in use, \<open>arrival_step\<close> tracks the excursion and announces
  or blocks the return, \<open>vehicle_finalize\<close> stores the result and builds the context, \<open>evidence_step\<close> closes
  a refresh whose telemetry has arrived, and \<open>vehicle_output\<close> sends the context (port 0), the arrival
  (port 1), a request for a refresh (port 2) and the blocked transition (port 3).

  The in-flight object \<open>msg._vehicle\<close> is the record \<open>vehicle\<close>, its position the record \<open>place\<close>.
\<close>

section \<open>Test messages\<close>

definition test_reset_keys :: "string list" where
  "test_reset_keys = [''security_vehicle_primary_recovery_v1__test'', ''vehicle_primary_arrival_armed__test'',
    ''vehicle_primary_in_use__test'', ''vehicle_primary_context_v1__test'',
    ''security_vehicle_primary_recovery_logged__test'', ''security_vehicle_primary_ready_logged__test'',
    ''vehicle_primary_location_observation_v1__test'', ''security_vehicle_primary_test_clock'',
    ''security_vehicle_primary_refresh_v1__test'']"

definition test_snapshot :: "env \<Rightarrow> jv \<Rightarrow> jv \<Rightarrow> jv" where
  "test_snapshot e shared m =
    (let stamp = iso e (jmax (clock e) (to_num (jor (jget shared ''observed_at'') (JNum 0))));
         tr = jget (jget shared ''transitions'') ''vehicle_primary'';
         active = (jget tr ''domain'' = JStr ''vehicle_primary'' \<and>
           jseq (jget tr ''test_case'') (jget m ''_location_test_case'') \<and>
           jget m ''_location_test_reset'' \<noteq> JTrue);
         entity = test_entity stamp in JObj
     [(''event'', JStr (if active then ''location_update'' else ''context_snapshot'')),
      (''source'', JStr (if active then ''vehicle_primary'' else ''refresh'')),
      (''refresh_cycle_id'', plget m ''refresh_cycle_id''),
      (''trigger_entity'', if active then JStr ''device_tracker.vehicle_primary'' else JUndef),
      (''trigger_state'', if active then jget tr ''state'' else JUndef),
      (''trigger_prev_state'', if active then jget tr ''prev'' else JUndef),
      (''vehicle_primary'', entity ''device_tracker.vehicle_primary'' (jget shared ''vehicle_primary'')
         (JObj [(''gps_accuracy'', JNum 20)])),
      (''vehicle_primary_engine'', entity ''binary_sensor.vehicle_primary_engine''
         (jget shared ''vehicle_primary_engine'') (JObj [])),
      (''vehicle_primary_lock'', entity ''lock.vehicle_primary_door_lock'' (jget shared ''vehicle_primary_lock'') (JObj [])),
      (''vehicle_primary_last_updated'', entity ''sensor.vehicle_primary_last_updated_at'' (JStr stamp) (JObj [])),
      (''vehicle_primary_last_scanned'', entity ''sensor.vehicle_primary_last_scanned_at'' (JStr stamp) (JObj []))])"

definition vehicle_test_adapter :: "env \<Rightarrow> ctx \<Rightarrow> jv \<Rightarrow> jv run" where
  "vehicle_test_adapter e c m =
    (if \<not> test_msg m \<or> plget m ''event'' \<noteq> JStr ''context_snapshot'' then Emit c m
     else
       (let c1 = (if jget m ''_location_test_reset'' = JTrue
              then fold (\<lambda>k c. fset c k JUndef) test_reset_keys c else c);
            (c2, shared) = test_shared (clock e) c1 in
        Emit c2 (jset m ''payload'' (test_snapshot e shared m))))"

section \<open>Reading the car\<close>

record place =
  pl_entity :: jv
  pl_state :: jv
  pl_latitude :: jv
  pl_longitude :: jv
  pl_accuracy :: jv
  pl_reliable :: bool
  pl_updated :: jv
  pl_ready :: bool
  pl_stale :: bool
  pl_distance :: jv
  pl_gate :: jv
  pl_home :: bool
  pl_home_for :: jv

record vehicle =
  vh_test :: bool
  vh_policy :: jv
  vh_place :: place
  vh_engine_state :: jv
  vh_engine_on :: bool
  vh_engine_off :: bool
  vh_engine_known :: bool
  vh_engine_fresh :: bool
  vh_comm_failed :: bool
  vh_engine_updated :: jv
  vh_lock_state :: jv
  vh_lock_fresh :: bool
  vh_lock_updated :: jv
  vh_unlocked :: bool
  vh_telemetry :: jv
  vh_telemetry_future :: bool
  vh_scanned :: jv
  vh_scanned_future :: bool
  vh_location_event :: bool
  vh_event :: jv
  vh_reason :: jv
  vh_trigger_entity :: jv
  vh_trigger :: jv
  vh_trigger_prev :: jv
  vh_state_changed :: bool
  vh_cycle :: jv

definition entity_at :: "env \<Rightarrow> jv \<Rightarrow> jv" where
  "entity_at e x =
    (let preferred = parse_date e (jget (jget x ''attributes'') ''location_observed_at'') in
     if fin preferred then JNum preferred
     else fin_or_null (parse_date e (dflt (jget x ''last_updated'') (jget x ''last_changed''))))"

definition entity_fresh :: "env \<Rightarrow> jnum \<Rightarrow> jv \<Rightarrow> jnum \<Rightarrow> bool" where
  "entity_fresh e fut x ttl = (let v = entity_at e x in v \<noteq> JNull \<and> recent (to_num v) (clock e) fut ttl)"

definition read_place :: "env \<Rightarrow> jv \<Rightarrow> jv \<Rightarrow> place" where
  "read_place e policy raw =
    (let attrs = dflt (jget raw ''attributes'') (JObj []); state = jget raw ''state'';
         fut = to_num (jget policy ''future_tolerance_seconds'') * 1000;
         ttl = to_num (jget policy ''vehicle_location_fresh_minutes'') * 60000;
         dist = jnum_of attrs ''canonical_distance_home_m''; changed = parse_date e (jget raw ''last_changed'') in
     \<lparr>pl_entity = jget raw ''entity_id'', pl_state = state,
      pl_latitude = num_or_nan (jget attrs ''latitude''), pl_longitude = num_or_nan (jget attrs ''longitude''),
      pl_accuracy = num_or_nan (jget attrs ''gps_accuracy''),
      pl_reliable = (fin (jnum_of attrs ''latitude'') \<and> fin (jnum_of attrs ''longitude'')),
      pl_updated = entity_at e raw, pl_ready = (valid_zone state \<and> entity_fresh e fut raw ttl),
      pl_stale = (\<not> entity_fresh e fut raw ttl),
      pl_distance = fin_or_null dist, pl_gate = num_or_nan (jget attrs ''canonical_distance_gate_m''),
      pl_home = (if fin dist then dist \<le> jnum_of policy ''home_radius_m'' else state = JStr ''home''),
      pl_home_for = (if fin changed then JNum (clock e - changed) else JNull)\<rparr>)"

definition failure_classes :: "string list" where
  "failure_classes = [''integration_unavailable'', ''provider_backoff'', ''authentication'', ''timeout'',
    ''no_fresh_data'', ''api_error'']"

definition comm_failed :: "jv \<Rightarrow> bool" where
  "comm_failed s = (case jget s ''engine_communication_failed'' of
     JBool b \<Rightarrow> b | _ \<Rightarrow> str_among (jget s ''last_failure_class'') failure_classes)"

text \<open>A reported time stamp and whether it lies in the future.\<close>

definition reported_at :: "env \<Rightarrow> jv \<Rightarrow> string \<Rightarrow> jnum" where
  "reported_at e m k = parse_date e (jget (plget m k) ''state'')"

definition reported_future :: "env \<Rightarrow> jnum \<Rightarrow> jnum \<Rightarrow> bool" where
  "reported_future e fut r = (fin r \<and> clock e + fut < r)"

definition reported_past :: "env \<Rightarrow> jnum \<Rightarrow> jnum \<Rightarrow> jv" where
  "reported_past e fut r = (if fin r \<and> \<not> reported_future e fut r then JNum r else JNull)"

definition read_vehicle :: "env \<Rightarrow> ctx \<Rightarrow> jv \<Rightarrow> vehicle" where
  "read_vehicle e c m =
    (let t = test_msg m; policy = glob c ''location_policy_v1'';
         fut = to_num (jget policy ''future_tolerance_seconds'') * 1000;
         signal = to_num (jget policy ''vehicle_signal_fresh_minutes'') * 60000;
         engine = plget m ''vehicle_primary_engine''; es = jget engine ''state'';
         lock = plget m ''vehicle_primary_lock''; ls = jget lock ''state'';
         telemetry = reported_at e m ''vehicle_primary_last_updated'';
         scanned = reported_at e m ''vehicle_primary_last_scanned'' in
     \<lparr>vh_test = t, vh_policy = policy, vh_place = read_place e policy (plget m ''vehicle_primary''),
      vh_engine_state = es, vh_engine_on = str_among es [''on'', ''running''],
      vh_engine_off = str_among es [''off'', ''stopped'', ''idle''],
      vh_engine_known = str_among es [''on'', ''running'', ''off'', ''stopped'', ''idle''],
      vh_engine_fresh = (if fin telemetry then \<not> reported_future e fut telemetry \<and> clock e - telemetry \<le> signal
        else entity_fresh e fut engine signal),
      vh_comm_failed = comm_failed (sget t c refresh_key), vh_engine_updated = entity_at e engine,
      vh_lock_state = ls, vh_lock_fresh = entity_fresh e fut lock signal, vh_lock_updated = entity_at e lock,
      vh_unlocked = (entity_fresh e fut lock signal \<and> ls = JStr ''unlocked''),
      vh_telemetry = reported_past e fut telemetry, vh_telemetry_future = reported_future e fut telemetry,
      vh_scanned = reported_past e fut scanned, vh_scanned_future = reported_future e fut scanned,
      vh_location_event = (plget m ''event'' = JStr ''location_update''), vh_event = plget m ''event'',
      vh_reason = plget m ''reason'', vh_trigger_entity = plget m ''trigger_entity'',
      vh_trigger = plget m ''trigger_state'', vh_trigger_prev = plget m ''trigger_prev_state'',
      vh_state_changed = (plget m ''canonical_state_changed'' \<noteq> JFalse), vh_cycle = plget m ''refresh_cycle_id''\<rparr>)"

definition vehicle_normalize :: "env \<Rightarrow> ctx \<Rightarrow> jv \<Rightarrow> vehicle run" where
  "vehicle_normalize e c m =
    (if policy_ready (glob c ''location_policy_v1'') then Emit c (read_vehicle e c m)
     else Stop (logged NodeError c))"

section \<open>Movement\<close>

text \<open>The distance from a stored observation; \<open>None\<close> when the two are not comparable.\<close>

definition moved_distance :: "jv \<Rightarrow> place \<Rightarrow> real option" where
  "moved_distance previous p =
    (case (jreal (jget previous ''latitude''), jreal (jget previous ''longitude''),
           jreal (pl_latitude p), jreal (pl_longitude p)) of
       (Some a, Some b, Some x, Some y) \<Rightarrow> sphere_distance a b x y
     | _ \<Rightarrow> None)"

definition required_movement :: "vehicle \<Rightarrow> jv \<Rightarrow> jnum" where
  "required_movement d previous = jmax (jnum_of (vh_policy d) ''movement_threshold_m'')
     (num_or0 (jget previous ''gps_accuracy'') + num_or0 (pl_accuracy (vh_place d)))"

definition zone_changed :: "vehicle \<Rightarrow> bool" where
  "zone_changed d = (valid_zone (vh_trigger_prev d) \<and> \<not> jseq (vh_trigger d) (vh_trigger_prev d) \<and>
     str_among (vh_trigger d) [''home'', ''not_home'', ''near_home''])"

definition significant_movement :: "vehicle \<Rightarrow> jv \<Rightarrow> bool" where
  "significant_movement d previous =
    ((case moved_distance previous (vh_place d) of None \<Rightarrow> False
      | Some x \<Rightarrow> real_at_least x (required_movement d previous)) \<and>
     num_or0 (jget previous ''updated_at'') < num_or0 (pl_updated (vh_place d)))"

abbreviation observation_key :: string where
  "observation_key \<equiv> ''vehicle_primary_location_observation_v1''"

definition observation :: "place \<Rightarrow> jv" where
  "observation p = JObj
    [(''version'', JNum 1), (''latitude'', pl_latitude p), (''longitude'', pl_longitude p),
     (''gps_accuracy'', pl_accuracy p), (''state'', pl_state p), (''updated_at'', pl_updated p)]"

record movement =
  mv_fresh :: bool
  mv_observation :: jv

definition vehicle_movement :: "ctx \<Rightarrow> vehicle \<Rightarrow> movement run" where
  "vehicle_movement c d =
    (let t = vh_test d; p = vh_place d; previous = sget t c observation_key;
         zone = zone_changed d; significant = significant_movement d previous;
         fresh = (vh_location_event d \<and> pl_ready p \<and> (zone \<or> significant));
         c1 = (if vh_location_event d \<and> pl_reliable p \<and> (\<not> truthy previous \<or> zone \<or> significant)
           then sset t c observation_key (observation p) else c) in
     Emit (if \<not> t \<and> fresh then logged NodeLog c1 else c1)
       \<lparr>mv_fresh = fresh, mv_observation = sget t c1 observation_key\<rparr>)"

section \<open>What survives a restart\<close>

abbreviation recovery_key :: string where
  "recovery_key \<equiv> ''security_vehicle_primary_recovery_v1''"

abbreviation armed_key :: string where
  "armed_key \<equiv> ''vehicle_primary_arrival_armed''"

definition vehicle_future :: "vehicle \<Rightarrow> jnum" where
  "vehicle_future d = jnum_of (vh_policy d) ''future_tolerance_seconds'' * 1000"

definition recovery_valid :: "vehicle \<Rightarrow> jnum \<Rightarrow> jv \<Rightarrow> bool" where
  "recovery_valid d now r =
    (let seen = num_or (jget r ''last_confirmed_at'') 0; u = jget r ''in_use'' in
     is_obj r \<and> jget r ''version'' = JNum 1 \<and> (u = JUndef \<or> is_bool u) \<and>
     (u = JUndef \<or> 0 < seen \<and> recent seen now (vehicle_future d) (jnum_of (vh_policy d) ''vehicle_recovery_hours'' * 3600000)))"

definition bool_or_false :: "string \<Rightarrow> jv \<Rightarrow> jv" where
  "bool_or_false k r = (if is_bool (jget r k) then r else jset r k JFalse)"

definition recovery_repaired :: "vehicle \<Rightarrow> jnum \<Rightarrow> jv \<Rightarrow> jv" where
  "recovery_repaired d now r0 =
    (let r1 = bool_or_false ''trip_active'' r0;
         r2 = (if jget r1 ''in_use'' \<noteq> JTrue then jsets r1 [(''trip_active'', JFalse), (''trip_started_at'', JNull)] else r1);
         r3 = bool_or_false ''arrival_armed'' r2; s = jget r3 ''trip_started_at'' in
     if \<not> nullish s \<and> (\<not> num_fin s \<or> now + vehicle_future d < to_num s)
     then jset r3 ''trip_started_at'' JNull else r3)"

record trip =
  tp_recovery :: jv
  tp_armed :: bool
  tp_external :: jv

definition loaded_recovery :: "env \<Rightarrow> ctx \<Rightarrow> vehicle \<Rightarrow> jv" where
  "loaded_recovery e c d =
    (let stored = sget (vh_test d) c recovery_key in recovery_repaired d (clock e)
       (if recovery_valid d (clock e) stored then stored else JObj [(''version'', JNum 1)]))"

definition loaded_trip :: "env \<Rightarrow> ctx \<Rightarrow> vehicle \<Rightarrow> trip" where
  "loaded_trip e c d =
    (let r = loaded_recovery e c d; armed = mget (vh_test d) c armed_key; since = num_or (jget r ''external_since'') 0 in
     \<lparr>tp_recovery = r, tp_armed = (if is_bool armed then armed = JTrue else jget r ''arrival_armed'' = JTrue),
      tp_external = (if fin since \<and> 0 < since \<and> since \<le> clock e + vehicle_future d then JNum since else JNull)\<rparr>)"

definition vehicle_load :: "env \<Rightarrow> ctx \<Rightarrow> vehicle \<Rightarrow> trip run" where
  "vehicle_load e c d =
    (let stored = sget (vh_test d) c recovery_key in
     Emit (if \<not> recovery_valid d (clock e) stored \<and> stored \<noteq> JUndef then logged NodeWarn c else c)
       (loaded_trip e c d))"

section \<open>Is the car in use?\<close>

text \<open>Comparisons in the conditions of the switches, where both sides are numbers or the comparison fails.\<close>

fun num_le :: "jv \<Rightarrow> jv \<Rightarrow> bool" where
  "num_le (JNum x) (JNum y) = (x \<le> y)"
| "num_le _ _ = False"

fun num_less :: "jv \<Rightarrow> jv \<Rightarrow> bool" where
  "num_less (JNum x) (JNum y) = (x < y)"
| "num_less _ _ = False"

definition trip_revalidated :: "vehicle \<Rightarrow> trip \<Rightarrow> bool" where
  "trip_revalidated d tp =
    (let p = vh_place d; dist = pl_distance p in
     jget (tp_recovery tp) ''in_use'' = JTrue \<and> pl_ready p \<and>
     (num_less (jget (vh_policy d) ''home_radius_m'') dist \<or> dist = JNull \<and> pl_state p = JStr ''not_home''))"

definition unlocked_at_home :: "vehicle \<Rightarrow> bool" where
  "unlocked_at_home d =
    (let p = vh_place d; near = jget (vh_policy d) ''near_home_radius_m'' in
     vh_lock_fresh d \<and> vh_unlocked d \<and> pl_ready p \<and>
     (num_le (pl_gate p) near \<or> num_le (pl_distance p) near \<or>
      pl_distance p = JNull \<and> pl_gate p = JNull \<and> pl_state p = JStr ''home''))"

datatype use_evidence = EngineOn | EngineOff | TripRevalidated | UnlockedAtHome | UsePending

definition decide_use :: "vehicle \<Rightarrow> trip \<Rightarrow> use_evidence" where
  "decide_use d tp =
    (if vh_engine_on d then EngineOn else if vh_engine_off d then EngineOff
     else if trip_revalidated d tp then TripRevalidated
     else if unlocked_at_home d then UnlockedAtHome else UsePending)"

fun use_value :: "use_evidence \<Rightarrow> bool option" where
  "use_value EngineOn = Some True"
| "use_value EngineOff = Some False"
| "use_value TripRevalidated = Some True"
| "use_value UnlockedAtHome = Some False"
| "use_value UsePending = None"

fun use_reason :: "use_evidence \<Rightarrow> string" where
  "use_reason EngineOn = ''known_engine_on''"
| "use_reason EngineOff = ''known_engine_off''"
| "use_reason TripRevalidated = ''persisted_trip_revalidated_by_fresh_away_location''"
| "use_reason UnlockedAtHome = ''fresh_home_unlocked_engine_pending''"
| "use_reason UsePending = ''insufficient_current_evidence''"

fun use_jv :: "bool option \<Rightarrow> jv" where
  "use_jv None = JNull"
| "use_jv (Some b) = JBool b"

section \<open>The excursion and the return\<close>

definition place_near :: "vehicle \<Rightarrow> bool" where
  "place_near d =
    (let p = vh_place d; r = jnum_of (vh_policy d) ''near_home_radius_m'' in pl_ready p \<and>
     (inside (pl_gate p) r \<or> inside (pl_distance p) r \<or>
      pl_distance p = JNull \<and> pl_gate p = JNull \<and> pl_state p = JStr ''home''))"

definition place_home :: "vehicle \<Rightarrow> bool" where
  "place_home d =
    (let p = vh_place d in pl_ready p \<and> (if pl_distance p \<noteq> JNull
       then to_num (pl_distance p) \<le> jnum_of (vh_policy d) ''home_radius_m'' else pl_state p = JStr ''home''))"

definition place_away :: "vehicle \<Rightarrow> bool" where
  "place_away d =
    (let p = vh_place d in pl_ready p \<and> (if pl_distance p \<noteq> JNull
       then jnum_of (vh_policy d) ''home_radius_m'' < to_num (pl_distance p) else pl_state p = JStr ''not_home''))"

definition observed_ok :: "env \<Rightarrow> vehicle \<Rightarrow> jnum \<Rightarrow> bool" where
  "observed_ok e d x = (fin x \<and> 0 < x \<and> x \<le> clock e + vehicle_future d)"

definition approach_entry :: "vehicle \<Rightarrow> bool" where
  "approach_entry d = (vh_trigger d = JStr ''near_home'' \<and>
     vh_trigger_prev d \<noteq> JStr ''near_home'' \<and> vh_trigger_prev d \<noteq> JStr ''home'')"

definition departed :: "vehicle \<Rightarrow> bool" where
  "departed d = (vh_trigger_prev d = JStr ''home'' \<and> vh_trigger d \<noteq> JStr ''home'')"

definition stale_catchup :: "vehicle \<Rightarrow> bool" where
  "stale_catchup d = (\<not> approach_entry d \<and> pl_home (vh_place d) \<and> pl_home_for (vh_place d) \<noteq> JNull \<and>
     jnum_of (vh_policy d) ''primary_home_grace_minutes'' * 60000 < to_num (pl_home_for (vh_place d)))"

text \<open>The start of the stay outside after this observation, and whether the stay is long enough.\<close>

definition stay_start :: "env \<Rightarrow> vehicle \<Rightarrow> jv \<Rightarrow> jv" where
  "stay_start e d since =
    (let p = vh_place d; obs = to_num (pl_updated p) in
     if pl_ready p \<and> external_zone (pl_state p) \<and> \<not> observed_ok e d (to_num since)
     then JNum (if observed_ok e d obs then obs else clock e) else since)"

definition stay_confirmed :: "env \<Rightarrow> vehicle \<Rightarrow> jv \<Rightarrow> bool" where
  "stay_confirmed e d since =
    (let obs = to_num (pl_updated (vh_place d));
         confirm = num_or (jget (vh_policy d) ''external_cycle_confirm_seconds'') 60 * 1000 in
     observed_ok e d obs \<and> observed_ok e d (to_num since) \<and> confirm \<le> obs - to_num since)"

definition arms :: "env \<Rightarrow> vehicle \<Rightarrow> jv \<Rightarrow> bool" where
  "arms e d since =
    (pl_ready (vh_place d) \<and> stay_confirmed e d since \<and>
     (external_zone (pl_state (vh_place d)) \<or>
      vh_location_event d \<and> external_zone (vh_trigger_prev d) \<and> \<not> external_zone (vh_trigger d)))"

record arrival_facts =
  af_armed :: bool
  af_eligible :: bool
  af_blocked :: bool
  af_final_armed :: bool
  af_external :: jv

definition vehicle_arrival_facts :: "env \<Rightarrow> vehicle \<Rightarrow> trip \<Rightarrow> arrival_facts" where
  "vehicle_arrival_facts e d tp =
    (let p = vh_place d; since = stay_start e d (tp_external tp);
         armed = ((tp_armed tp \<or> arms e d since) \<and> \<not> departed d);
         base = (vh_location_event d \<and> vh_state_changed d \<and> pl_ready p \<and> valid_zone (vh_trigger_prev d)) in
     \<lparr>af_armed = armed,
      af_eligible = (base \<and> \<not> departed d \<and> \<not> stale_catchup d \<and> (approach_entry d \<or> place_near d) \<and> armed),
      af_blocked = (base \<and> \<not> jseq (vh_trigger d) (vh_trigger_prev d) \<and> str_among (vh_trigger d) [''home'', ''near_home'']),
      af_final_armed = (armed \<and> \<not> (\<not> vh_location_event d \<and> place_home d)),
      af_external = (if pl_ready p \<and> \<not> external_zone (pl_state p) then JNull else since)\<rparr>)"

section \<open>Announcing or blocking the return\<close>

definition test_mark :: "vehicle \<Rightarrow> jv \<Rightarrow> (string \<times> jv) list" where
  "test_mark d m = [(''_location_test'', JBool (vh_test d)),
    (''_location_test_case'', if vh_test d then dflt (jget m ''_location_test_case'') JNull else JUndef)]"

definition arrival_stage :: "vehicle \<Rightarrow> string" where
  "arrival_stage d = (if approach_entry d then ''approach'' else ''home'')"

definition event_time :: "env \<Rightarrow> vehicle \<Rightarrow> jv" where
  "event_time e d = dflt (pl_updated (vh_place d)) (JNum (clock e))"

definition vehicle_arrival_build :: "env \<Rightarrow> jv \<Rightarrow> vehicle \<Rightarrow> jv" where
  "vehicle_arrival_build e m d = JObj (test_mark d m @ [(''payload'', JObj
    [(''contract'', JStr ''security.arrival.v1''), (''kind'', JStr ''arrival''), (''source'', JStr ''vehicle_primary''),
     (''arriving'', JArr [JStr ''vehicle_primary'']), (''arrival_source_type'', JStr ''vehicle_primary''),
     (''arrival_stage'', JStr (arrival_stage d)), (''arrival_direction'', JStr ''returning''),
     (''external_cycle_confirmed'', JTrue), (''request_vehicle_primary_wake'', JBool (approach_entry d)),
     (''event_at'', event_time e d), (''refresh_cycle_id'', vh_cycle d)])])"

definition vehicle_arrival_key :: "vehicle \<Rightarrow> string" where
  "vehicle_arrival_key d = ''vehicle_primary:'' @ arrival_stage d"

definition arrival_repeated :: "jnum \<Rightarrow> vehicle \<Rightarrow> jv \<Rightarrow> bool" where
  "arrival_repeated now d r =
    (let key = vehicle_arrival_key d; seen = num_or (jget r ''last_arrival_at'') 0;
         previous = to_str (dflt (jget r ''last_arrival_key'') (JStr [])) in
     (previous = key \<or> starts_with previous (key @ '':'')) \<and> seen \<le> now + vehicle_future d \<and>
     now - seen < jnum_of (vh_policy d) ''arrival_dedupe_minutes'' * 60000)"

definition blocked_reason :: "vehicle \<Rightarrow> arrival_facts \<Rightarrow> string" where
  "blocked_reason d f =
    (if departed d then ''departure_from_home''
     else if \<not> af_final_armed f then ''external_cycle_not_confirmed''
     else if stale_catchup d then ''stale_home_catchup'' else ''transition_not_arrival_eligible'')"

definition vehicle_blocked_build :: "env \<Rightarrow> jv \<Rightarrow> vehicle \<Rightarrow> arrival_facts \<Rightarrow> jv" where
  "vehicle_blocked_build e m d f = JObj (test_mark d m @ [(''payload'', JObj
    [(''contract'', JStr ''security.arrival-direction.v1''), (''kind'', JStr ''arrival_blocked''),
     (''source'', JStr ''vehicle_primary''), (''trigger_state'', vh_trigger d),
     (''trigger_prev_state'', vh_trigger_prev d), (''direction_reason'', JStr (blocked_reason d f)),
     (''simulated'', JBool (vh_test d)), (''dispatched'', JFalse), (''event_at'', event_time e d)])])"

text \<open>The outcome of the two gates: the trip after it, the arrival and the blocked transition to send.\<close>

record outcome =
  oc_recovery :: jv
  oc_armed :: bool
  oc_external :: jv
  oc_arrival :: "jv option"
  oc_blocked :: "jv option"

definition arrival_step :: "env \<Rightarrow> jv \<Rightarrow> vehicle \<Rightarrow> trip \<Rightarrow> outcome" where
  "arrival_step e m d tp =
    (let f = vehicle_arrival_facts e d tp; r = tp_recovery tp; now = clock e;
         acted = af_eligible f \<or> af_blocked f;
         armed = (af_final_armed f \<and> \<not> (acted \<and> \<not> approach_entry d \<and> place_near d));
         repeated = arrival_repeated now d r in
     \<lparr>oc_recovery = (if af_eligible f \<and> \<not> repeated then jsets r
         [(''last_arrival_key'', JStr (vehicle_arrival_key d)), (''last_arrival_at'', JNum now)] else r),
      oc_armed = armed, oc_external = af_external f,
      oc_arrival = (if af_eligible f \<and> \<not> repeated then Some (vehicle_arrival_build e m d) else None),
      oc_blocked = (if \<not> af_eligible f \<and> af_blocked f then Some (vehicle_blocked_build e m d f) else None)\<rparr>)"

section \<open>Storing the trip and the context\<close>

definition finalized_recovery :: "env \<Rightarrow> vehicle \<Rightarrow> use_evidence \<Rightarrow> outcome \<Rightarrow> jv" where
  "finalized_recovery e d u oc =
    (let now = clock e; in_use = use_value u;
         r1 = jsets (oc_recovery oc) [(''arrival_armed'', JBool (oc_armed oc)), (''external_since'', oc_external oc)];
         r2 = (case in_use of None \<Rightarrow> r1 | Some b \<Rightarrow> jsets r1 [(''in_use'', JBool b), (''last_confirmed_at'', JNum now)]);
         r3 = jset r2 ''in_use_reason'' (JStr (use_reason u));
         r4 = (case in_use of None \<Rightarrow> r3 | Some b \<Rightarrow> jset r3 ''trip_active'' (JBool (b \<and> place_away d)));
         r5 = (if truthy (jget r4 ''trip_active'') \<and> \<not> num_fin (jget r4 ''trip_started_at'')
           then jset r4 ''trip_started_at'' (JNum now) else r4);
         r6 = (if in_use = Some False then jset r5 ''trip_started_at'' JNull else r5) in
     jset r6 ''updated_at'' (JNum now))"

definition place_jv :: "place \<Rightarrow> jv" where
  "place_jv p = JObj
    [(''entity_id'', pl_entity p), (''state'', pl_state p), (''latitude'', pl_latitude p),
     (''longitude'', pl_longitude p), (''gps_accuracy'', pl_accuracy p), (''location_reliable'', JBool (pl_reliable p)),
     (''state_valid'', JBool (pl_ready p)), (''updated_at'', pl_updated p), (''stale'', JBool (pl_stale p)),
     (''ready'', JBool (pl_ready p)), (''distance_m'', pl_distance p), (''gate_distance_m'', pl_gate p),
     (''primary_home'', JBool (pl_home p)), (''primary_home_for_ms'', pl_home_for p)]"

definition bool_if_ready :: "place \<Rightarrow> bool \<Rightarrow> jv" where
  "bool_if_ready p b = (if pl_ready p then JBool b else JNull)"

definition latest_at :: "vehicle \<Rightarrow> jnum" where
  "latest_at d = fold jmax (map to_num (filter num_fin [pl_updated (vh_place d), vh_engine_updated d, vh_lock_updated d])) 0"

definition truthy_copy :: "jv \<Rightarrow> jv" where
  "truthy_copy v = (if truthy v then jspread v (JObj []) else JNull)"

definition context_ready :: "vehicle \<Rightarrow> use_evidence \<Rightarrow> bool" where
  "context_ready d u = (pl_ready (vh_place d) \<and> use_value u \<noteq> None)"

definition vehicle_context :: "vehicle \<Rightarrow> movement \<Rightarrow> use_evidence \<Rightarrow> outcome \<Rightarrow> jv \<Rightarrow> jv" where
  "vehicle_context d mv u oc recovery =
    (let p = vh_place d; stage = map_option (\<lambda>a. plget a ''arrival_stage'') (oc_arrival oc);
         policy = vh_policy d in JObj
     [(''location'', place_jv p),
      (''current_location_since'', jor (JNum (num_or (jget (mv_observation mv) ''updated_at'') 0)) JNull),
      (''movement_threshold_m'', JNum (jnum_of policy ''movement_threshold_m'')),
      (''home_radius_m'', JNum (jnum_of policy ''home_radius_m'')),
      (''near_home_radius_m'', JNum (jnum_of policy ''near_home_radius_m'')),
      (''last_confirmed_location'', truthy_copy (mv_observation mv)),
      (''telemetry_updated_at'', vh_telemetry d), (''telemetry_timestamp_future'', JBool (vh_telemetry_future d)),
      (''cache_scanned_at'', vh_scanned d), (''cache_timestamp_future'', JBool (vh_scanned_future d)),
      (''distance_home_m'', pl_distance p), (''home'', bool_if_ready p (place_home d)),
      (''near_home'', bool_if_ready p (place_near d \<and> \<not> place_home d)), (''away'', bool_if_ready p (place_away d)),
      (''approaching_home'', JBool (stage = Some (JStr ''approach''))),
      (''arrived_home'', JBool (stage = Some (JStr ''home''))), (''engine_on'', JBool (vh_engine_on d)),
      (''engine_state'', vh_engine_state d), (''engine_state_valid'', JBool (vh_engine_known d)),
      (''engine_stale'', JBool (\<not> vh_engine_fresh d)), (''engine_communication_failed'', JBool (vh_comm_failed d)),
      (''engine_updated_at'', vh_engine_updated d), (''lock_state'', vh_lock_state d), (''unlocked'', JBool (vh_unlocked d)),
      (''lock_state_valid'', JBool (vh_lock_fresh d \<and> str_among (vh_lock_state d) [''locked'', ''unlocked''])),
      (''lock_stale'', JBool (\<not> vh_lock_fresh d)), (''lock_updated_at'', vh_lock_updated d),
      (''in_use'', use_jv (use_value u)), (''in_use_pending'', JBool (use_value u = None)),
      (''in_use_reason'', JStr (use_reason u)),
      (''trip_active'', JBool (use_value u = Some True \<and> jget recovery ''trip_active'' = JTrue)),
      (''trip_started_at'', dflt (jget recovery ''trip_started_at'') JNull), (''state_valid'', JBool (pl_ready p)),
      (''ready'', JBool (context_ready d u)),
      (''lighting_ready'', JBool (pl_ready p \<and> vh_engine_known d \<and> \<not> vh_comm_failed d)),
      (''stale'', JBool (pl_stale p \<or> use_value u = None)), (''updated_at'', JNum (latest_at d)),
      (''arrival_armed'', JBool (oc_armed oc))])"

definition vehicle_finalize :: "env \<Rightarrow> ctx \<Rightarrow> vehicle \<Rightarrow> movement \<Rightarrow> use_evidence \<Rightarrow> outcome \<Rightarrow> jv run" where
  "vehicle_finalize e c d mv u oc =
    (let t = vh_test d; r = finalized_recovery e d u oc;
         c1 = mset t (mset t c ''vehicle_primary_in_use'' (use_jv (use_value u))) armed_key (JBool (oc_armed oc)) in
     Emit (sset t c1 recovery_key r) (vehicle_context d mv u oc r))"

section \<open>The evidence a refresh waits for\<close>

definition object_or_empty :: "jv \<Rightarrow> jv" where
  "object_or_empty v = (if is_objectlike v then v else JObj [])"

definition evidence_request :: "jv \<Rightarrow> jnum" where
  "evidence_request s = num_or (dflt (jget s ''last_request_at'') (jget s ''last_attempt_at'')) 0"

definition attempt_current :: "jnum \<Rightarrow> jnum \<Rightarrow> jv \<Rightarrow> bool" where
  "attempt_current now fut s =
    (let window = jnum_of s ''semantic_evidence_window_ms''; seen = jnum_of s ''last_attempt_at'' in
     0 < num_or (jget s ''last_attempt_at'') 0 \<and> fin window \<and> 0 < window \<and> seen \<le> now + fut \<and>
     now - seen \<le> window + fut)"

definition evidence_confirmed :: "jnum \<Rightarrow> jnum \<Rightarrow> jv \<Rightarrow> jv \<Rightarrow> bool" where
  "evidence_confirmed now fut s telemetry =
    (let baseline = num_or (jget (jget s ''baseline_observed_at'') ''telemetry'') 0;
         current = num_or telemetry 0; request = evidence_request s in
     attempt_current now fut s \<and> 0 < current \<and> current \<le> now + fut \<and> (baseline \<le> 0 \<or> baseline < current) \<and>
     0 < request \<and> request - fut \<le> current)"

definition evidence_next :: "jnum \<Rightarrow> jv \<Rightarrow> jnum" where
  "evidence_next now s =
    (let interval = (if 0 < jnum_of s ''interval_ms'' then jnum_of s ''interval_ms'' else 0);
         cache = (jseq (JNum (num_or (jget s ''cache_probe_completed_for_request_at'') 0)) (JNum (evidence_request s)) \<and>
           0 < num_or (jget s ''cache_probe_accepted_at'') 0) in
     jmax (jmax (jmax now (num_or (jget s ''next_allowed_at'') 0)) (num_or (jget s ''last_request_at'') now + interval))
       (if cache then now + interval else 0))"

definition confirmed_state :: "jnum \<Rightarrow> bool \<Rightarrow> jv \<Rightarrow> jv \<Rightarrow> jv" where
  "confirmed_state now comm ctx s =
    (let next = evidence_next now s; lit = (jget ctx ''ready'' = JTrue \<and> jget ctx ''engine_state_valid'' = JTrue) in
     jspread s (JObj
     [(''attempts'', JNum 0), (''last_success_at'', JNum now), (''next_allowed_at'', JNum next),
      (''awaiting_evidence'', JFalse), (''evidence_wait_started_at'', JNull), (''request_in_flight'', JFalse),
      (''in_flight_until'', JNull), (''cache_probe_in_flight'', JFalse), (''cache_probe_in_flight_until'', JNull),
      (''cache_probe_for_request_at'', JNull), (''cache_probe_completed_for_request_at'', JNull),
      (''cache_probe_settle_until'', JNull), (''failure_notified_at'', JNull), (''failure_notification_key'', JNull),
      (''recovery_notification_pending'', JBool (0 < num_or (jget s ''failure_notified_at'') 0)),
      (''last_failure_class'', JNull), (''failure_at'', JNull), (''failure_source'', JNull),
      (''failure_endpoint'', JNull), (''failure_stage'', JNull), (''state'', JStr ''cooldown''),
      (''reason'', dflt (jget s ''recovery_reason'') (JStr ''refresh_success'')), (''cooldown_until'', JNum next),
      (''next_retry_at'', JNull), (''last_evidence_at'', JNum now),
      (''last_evidence_domains'', JArr [JStr ''telemetry'']), (''engine_communication_failed'', JFalse),
      (''engine_bypass_recovery_pending'', JBool (jget s ''engine_bypass_recovery_pending'' = JTrue \<or> comm)),
      (''lighting_ready_after_wake'', JBool lit),
      (''last_success_reason'', JStr (if lit then ''fresh_telemetry_engine_state_known'' else ''fresh_telemetry_context_ready'')),
      (''baseline_observed_at'', JNull), (''require_lighting_ready'', JFalse), (''recovery_reason'', JNull)]))"

text \<open>The two switches behind the context: without a wake pending, or without new telemetry, nothing changes.\<close>

definition evidence_step :: "env \<Rightarrow> ctx \<Rightarrow> vehicle \<Rightarrow> jv \<Rightarrow> (jv \<times> jv) run" where
  "evidence_step e c d ctx =
    (let t = vh_test d; s = object_or_empty (sget t c refresh_key); now = clock e in
     if waiting_evidence s \<and> evidence_confirmed now (vehicle_future d) s (jget ctx ''telemetry_updated_at'') then
       (let s' = confirmed_state now (vh_comm_failed d) ctx s in
        Emit (logged NodeLog (sset t c refresh_key s'))
          (jsets ctx [(''engine_communication_failed'', JFalse), (''lighting_ready'', jget s' ''lighting_ready_after_wake'')], s'))
     else Emit c (ctx, s))"

section \<open>The messages\<close>

definition num_or_null0 :: "jv \<Rightarrow> jv" where
  "num_or_null0 v = jor (JNum (num_or v 0)) JNull"

definition refresh_summary :: "jv \<Rightarrow> jv" where
  "refresh_summary s = JObj
    [(''state'', dflt (jget s ''state'') (JStr ''idle'')),
     (''reason'', dflt (jget s ''reason'') (dflt (jget s ''recovery_reason'') JNull)),
     (''attempt'', JNum (num_or (jget s ''attempts'') 0)),
     (''last_request_at'', num_or_null0 (dflt (jget s ''last_request_at'') (jget s ''last_attempt_at''))),
     (''last_success_at'', num_or_null0 (jget s ''last_success_at'')),
     (''next_retry_at'', num_or_null0 (jget s ''next_retry_at'')),
     (''cooldown_until'', num_or_null0 (jget s ''cooldown_until'')),
     (''awaiting_evidence'', JBool (waiting_evidence s)),
     (''request_in_flight'', JBool (jget s ''request_in_flight'' = JTrue)),
     (''in_flight_until'', num_or_null0 (jget s ''in_flight_until'')),
     (''last_failure_class'', dflt (jget s ''last_failure_class'') JNull),
     (''manual_force'', JBool (jget s ''manual_force'' = JTrue))]"

definition home_transition :: "vehicle \<Rightarrow> bool" where
  "home_transition d = (vh_location_event d \<and> pl_ready (vh_place d) \<and> valid_zone (vh_trigger_prev d) \<and>
     vh_trigger d = JStr ''home'' \<and> vh_trigger_prev d \<noteq> JStr ''home'')"

definition vehicle_payload :: "vehicle \<Rightarrow> jv \<Rightarrow> jv" where
  "vehicle_payload d ctx =
    (let ready = (jget ctx ''ready'' = JTrue);
         why = (if ready then jget ctx ''in_use_reason'' else JStr ''vehicle_context_pending'') in JObj
     [(''contract'', JStr ''security.vehicle_primary-context.v1''), (''kind'', JStr ''vehicle_primary_context''),
      (''context'', ctx), (''event'', vh_event d), (''reason'', dflt (vh_reason d) why),
      (''source'', JStr ''vehicle_primary''), (''trigger_entity'', vh_trigger_entity d),
      (''trigger_state'', vh_trigger d), (''trigger_prev_state'', vh_trigger_prev d),
      (''confirmed_home_transition'', JBool (home_transition d)), (''refresh_cycle_id'', vh_cycle d),
      (''updated_at'', jget ctx ''updated_at''), (''valid'', jget ctx ''state_valid''), (''ready'', jget ctx ''ready''),
      (''lighting_ready'', jget ctx ''lighting_ready''), (''stale'', jget ctx ''stale''), (''readiness_reason'', why)])"

definition mark_test :: "vehicle \<Rightarrow> jv \<Rightarrow> jv \<Rightarrow> jv" where
  "mark_test d tc m = (if vh_test d then plsets
     (jsets m [(''_location_test'', JTrue), (''_location_test_case'', tc)])
     [(''test_mode'', JTrue), (''test_case'', tc)] else m)"

definition movement_refresh :: "env \<Rightarrow> vehicle \<Rightarrow> movement \<Rightarrow> jv list" where
  "movement_refresh e d mv =
    (if \<not> vh_test d \<and> mv_fresh mv then [JObj [(''payload'', JObj
       [(''kind'', JStr ''refresh_tick''), (''origin'', JStr ''contexto_vehicle_primary''),
        (''reason'', JStr (if vh_engine_fresh d then ''vehicle_primary_location_changed''
          else ''vehicle_primary_location_changed_engine_stale'')),
        (''force_recovery'', JTrue), (''require_lighting_ready'', JBool (\<not> vh_engine_fresh d)),
        (''requested_at'', JNum (clock e))])]] else [])"

abbreviation vehicle_context_key :: string where
  "vehicle_context_key \<equiv> ''vehicle_primary_context_v1''"

definition vehicle_output :: "env \<Rightarrow> ctx \<Rightarrow> jv \<Rightarrow> vehicle \<Rightarrow> movement \<Rightarrow> outcome \<Rightarrow> jv \<Rightarrow> jv \<Rightarrow> ports run" where
  "vehicle_output e c m d mv oc ctx0 s =
    (let t = vh_test d; tc = dflt (jget m ''_location_test_case'') JNull;
         ctx = jset ctx0 ''refresh'' (refresh_summary s); ready = jget ctx ''ready'';
         c1 = mset t c vehicle_context_key ctx;
         c2 = (if \<not> jseq (mget t c1 ''security_vehicle_primary_ready_logged'') ready
           then logged NodeLog (mset t c1 ''security_vehicle_primary_ready_logged'' ready) else c1) in
     Emit c2 [[mark_test d tc (jset m ''payload'' (vehicle_payload d ctx))],
       map (mark_test d tc) (one_of (oc_arrival oc)), movement_refresh e d mv, one_of (oc_blocked oc)])"

definition vehicle_flow :: "env \<Rightarrow> ctx \<Rightarrow> jv \<Rightarrow> ports run" where
  "vehicle_flow e c m = wire (vehicle_normalize e c m) (\<lambda>c d.
     wire (vehicle_movement c d) (\<lambda>c mv.
     wire (vehicle_load e c d) (\<lambda>c tp.
       (let u = decide_use d tp; oc = arrival_step e m d tp in
        wire (vehicle_finalize e c d mv u oc) (\<lambda>c ctx.
        wire (evidence_step e c d ctx) (\<lambda>c (ctx, s).
          vehicle_output e c m d mv oc ctx s))))))"

section \<open>One message\<close>

lemma read_vehicle_fields [simp]:
  "vh_test (read_vehicle e c m) = test_msg m" "vh_policy (read_vehicle e c m) = glob c ''location_policy_v1''"
  "vh_comm_failed (read_vehicle e c m) = comm_failed (sget (test_msg m) c refresh_key)"
  by (simp_all add: read_vehicle_def Let_def)

lemma movement_emit: "\<exists>c1 mv. vehicle_movement c d = Emit c1 mv"
  by (simp add: vehicle_movement_def Let_def)

lemma same_mode [simp]:
  "mget t (sset t c k v) k' = (if t \<and> k' = k then v else mget t c k')"
  "sget t (mset t c k v) k' = (if t \<and> k' = k then v else sget t c k')"
  by (simp_all add: mget_def sget_def mset_def sset_def)

lemma movement_frame:
  assumes "vehicle_movement c d = Emit c1 mv"
  shows "k \<noteq> observation_key \<Longrightarrow> sget (vh_test d) c1 k = sget (vh_test d) c k"
    "k \<noteq> observation_key \<Longrightarrow> mget (vh_test d) c1 k = mget (vh_test d) c k" "glob c1 = glob c"
  using assms
  by (auto simp: vehicle_movement_def Let_def split: if_splits)

lemma loaded_trip_cong:
  "sget (vh_test d) c1 recovery_key = sget (vh_test d) c recovery_key \<Longrightarrow>
   mget (vh_test d) c1 armed_key = mget (vh_test d) c armed_key \<Longrightarrow> loaded_trip e c1 d = loaded_trip e c d"
  by (simp add: loaded_trip_def loaded_recovery_def)

lemma load_emit: "\<exists>c1. vehicle_load e c d = Emit c1 (loaded_trip e c d) \<and> fmem c1 = fmem c \<and> fper c1 = fper c \<and> glob c1 = glob c"
  by (simp add: vehicle_load_def Let_def)

text \<open>The evidence a message brings for the refresh in flight.\<close>

definition brings_evidence :: "env \<Rightarrow> ctx \<Rightarrow> jv \<Rightarrow> bool" where
  "brings_evidence e c m =
    (let d = read_vehicle e c m; s = object_or_empty (sget (test_msg m) c refresh_key) in
     waiting_evidence s \<and> evidence_confirmed (clock e) (vehicle_future d) s (vh_telemetry d))"

lemma evidence_facts:
  assumes "evidence_step e c d ctx = Emit c' (ctx', s)"
  shows "sget (vh_test d) c' k = (if k = refresh_key \<and> waiting_evidence (object_or_empty (sget (vh_test d) c refresh_key)) \<and>
      evidence_confirmed (clock e) (vehicle_future d) (object_or_empty (sget (vh_test d) c refresh_key))
        (jget ctx ''telemetry_updated_at'')
      then confirmed_state (clock e) (vh_comm_failed d) ctx (object_or_empty (sget (vh_test d) c refresh_key))
      else sget (vh_test d) c k)"
    "k \<noteq> refresh_key \<Longrightarrow> mget (vh_test d) c' k = mget (vh_test d) c k" "glob c' = glob c"
    "k \<notin> {''engine_communication_failed'', ''lighting_ready''} \<Longrightarrow> jget ctx' k = jget ctx k" "is_obj ctx' = is_obj ctx"
  using assms by (auto simp: evidence_step_def Let_def split: if_splits)

lemma is_obj_context [simp]: "is_obj (vehicle_context d mv u oc r)"
  by (simp add: vehicle_context_def Let_def)

definition vehicle_keys :: "string list" where
  "vehicle_keys = [observation_key, recovery_key, refresh_key, armed_key, ''vehicle_primary_in_use'',
    vehicle_context_key, ''security_vehicle_primary_ready_logged'']"

lemma vehicle_flow_facts:
  fixes e c m
  defines "d \<equiv> read_vehicle e c m" and "t \<equiv> test_msg m"
  defines "tp \<equiv> loaded_trip e c d"
  defines "u \<equiv> decide_use d tp" and "oc \<equiv> arrival_step e m d tp"
  assumes "vehicle_flow e c m = Emit c' ps"
  shows "policy_ready (glob c ''location_policy_v1'')" "glob c' = glob c"
    "sget t c' recovery_key = finalized_recovery e d u oc" "mget t c' armed_key = JBool (oc_armed oc)"
    "\<exists>ctx. sget t c' refresh_key = (if brings_evidence e c m
       then confirmed_state (clock e) (vh_comm_failed d) ctx (object_or_empty (sget t c refresh_key))
       else sget t c refresh_key)"
    "jget (mget t c' vehicle_context_key) ''in_use'' = use_jv (use_value u)"
    "\<exists>tc. port 1 ps = map (mark_test d tc) (one_of (oc_arrival oc))"
    "k \<notin> set vehicle_keys \<Longrightarrow> sget t c' k = sget t c k"
proof -
  show pol: "policy_ready (glob c ''location_policy_v1'')"
    using assms(6) by (auto simp: vehicle_flow_def vehicle_normalize_def split: if_splits)
  have t: "vh_test d = t" by (simp add: d_def t_def)
  obtain c1 mv where mv: "vehicle_movement c d = Emit c1 mv" using movement_emit by blast
  note fr = movement_frame [OF mv, unfolded t]
  have tp1: "loaded_trip e c1 d = tp" unfolding tp_def by (rule loaded_trip_cong) (simp_all add: fr t)
  obtain c2 where c2: "vehicle_load e c1 d = Emit c2 tp" "fmem c2 = fmem c1" "fper c2 = fper c1" "glob c2 = glob c1"
    using load_emit [of e c1 d] tp1 by auto
  let ?r = "finalized_recovery e d u oc"
  let ?ctx = "vehicle_context d mv u oc ?r"
  let ?c3 = "sset t (mset t (mset t c2 ''vehicle_primary_in_use'' (use_jv (use_value u))) armed_key (JBool (oc_armed oc)))
    recovery_key ?r"
  have s2: "sget t c2 k = sget t c1 k" "mget t c2 k = mget t c1 k" for k
    by (simp_all add: sget_def mget_def c2)
  have refresh: "sget t ?c3 refresh_key = sget t c refresh_key" by (simp add: s2 fr)
  have telemetry: "jget ?ctx ''telemetry_updated_at'' = vh_telemetry d" "jget ?ctx ''in_use'' = use_jv (use_value u)"
    by (simp_all add: vehicle_context_def Let_def)
  have brings: "brings_evidence e c m \<longleftrightarrow> waiting_evidence (object_or_empty (sget t c refresh_key)) \<and>
      evidence_confirmed (clock e) (vehicle_future d) (object_or_empty (sget t c refresh_key)) (vh_telemetry d)"
    by (simp add: brings_evidence_def Let_def d_def t_def)
  let ?ev = "evidence_step e ?c3 d ?ctx"
  obtain c4 ctx s where ev: "?ev = Emit c4 (ctx, s)" by (cases "?ev") (auto simp: evidence_step_def Let_def split: if_splits)
  have out: "vehicle_output e c4 m d mv oc ctx s = Emit c' ps"
    using assms(6) pol mv c2(1) ev
    by (simp add: vehicle_flow_def vehicle_normalize_def vehicle_finalize_def u_def oc_def t Let_def flip: d_def)
  have c4: "sget t c4 refresh_key = (if brings_evidence e c m
       then confirmed_state (clock e) (vh_comm_failed d) ?ctx (object_or_empty (sget t c refresh_key))
       else sget t c refresh_key)" "jget ctx ''in_use'' = use_jv (use_value u)" "is_obj ctx"
    "sget t c4 recovery_key = ?r" "mget t c4 armed_key = JBool (oc_armed oc)" "glob c4 = glob c"
    using refresh telemetry fr(3) c2(4)
    by (simp_all add: evidence_facts [OF ev, unfolded t] brings is_obj_context)
  have out': "sget t c' k = sget t c4 k" "mget t c' k = mget t c4 k"
    if "k \<notin> {vehicle_context_key, ''security_vehicle_primary_ready_logged''}" for k
    using out that by (auto simp: vehicle_output_def Let_def t split: if_splits)
  show "glob c' = glob c" "\<exists>tc. port 1 ps = map (mark_test d tc) (one_of (oc_arrival oc))"
    "jget (mget t c' vehicle_context_key) ''in_use'' = use_jv (use_value u)"
    using out c4 by (auto simp: vehicle_output_def Let_def t split: if_splits)
  have "sget t c4 k = sget t c k" if "k \<notin> set vehicle_keys"
    using that by (simp add: vehicle_keys_def evidence_facts [OF ev, unfolded t] s2 fr)
  then show "sget t c' k = sget t c k" if "k \<notin> set vehicle_keys"
    using that out' [of k] by (simp add: vehicle_keys_def)
  show "sget t c' recovery_key = finalized_recovery e d u oc" "mget t c' armed_key = JBool (oc_armed oc)"
    "\<exists>ctx. sget t c' refresh_key = (if brings_evidence e c m
       then confirmed_state (clock e) (vh_comm_failed d) ctx (object_or_empty (sget t c refresh_key))
       else sget t c refresh_key)"
    using c4 by (auto simp: out')
qed

lemma vehicle_flow_emits: "policy_ready (glob c ''location_policy_v1'') \<Longrightarrow> emits (vehicle_flow e c m)"
proof -
  assume p: "policy_ready (glob c ''location_policy_v1'')"
  obtain c1 mv where mv: "vehicle_movement c (read_vehicle e c m) = Emit c1 mv" using movement_emit by blast
  obtain c2 where c2: "vehicle_load e c1 (read_vehicle e c m) = Emit c2 (loaded_trip e c1 (read_vehicle e c m))"
    using load_emit by blast
  have "emits (wire (evidence_step e x d y) (\<lambda>c (ctx, s). vehicle_output e c m d' mv' oc ctx s))" for x d y d' mv' oc
    by (simp add: evidence_step_def vehicle_output_def Let_def)
  then show ?thesis
    using p mv c2 by (simp add: vehicle_flow_def vehicle_normalize_def vehicle_finalize_def Let_def)
qed

section \<open>Evidence\<close>

text \<open>Only new telemetry closes a refresh. A message about the car changes the stored state of the refresh
  only when an attempt waits for evidence and the message carries telemetry that the provider produced
  after the telemetry known when the car was woken and not before the request, while the attempt is
  recent; then the attempt is closed: nothing is in flight, the attempts are counted from zero and no
  failure is left. A cache receipt, a position or the state of the engine alone never closes it.\<close>

theorem evidence_is_new_telemetry:
  fixes e c m
  defines "t \<equiv> test_msg m" and "fut \<equiv> jnum_of (glob c ''location_policy_v1'') ''future_tolerance_seconds'' * 1000"
  defines "s \<equiv> sget t c refresh_key" and "tel \<equiv> reported_at e m ''vehicle_primary_last_updated''"
  assumes "vehicle_flow e c m = Emit c' ps" and "sget t c' refresh_key \<noteq> s"
  shows "waiting_evidence s \<and> fin tel \<and> 0 < tel \<and> tel \<le> clock e + fut \<and> evidence_request s - fut \<le> tel \<and>
    (num_or (jget (jget s ''baseline_observed_at'') ''telemetry'') 0 \<le> 0 \<or>
     num_or (jget (jget s ''baseline_observed_at'') ''telemetry'') 0 < tel) \<and>
    clock e - jnum_of s ''last_attempt_at'' \<le> jnum_of s ''semantic_evidence_window_ms'' + fut \<and>
    (let s' = sget t c' refresh_key in \<not> waiting_evidence s' \<and> jget s' ''request_in_flight'' = JFalse \<and>
       jget s' ''attempts'' = JNum 0 \<and> jget s' ''last_failure_class'' = JNull)"
proof -
  note ff = vehicle_flow_facts(5) [OF assms(5), folded t_def]
  have b: "brings_evidence e c m" using ff assms(6) by (auto simp: s_def split: if_splits)
  obtain ctx where s': "sget t c' refresh_key =
      confirmed_state (clock e) (vh_comm_failed (read_vehicle e c m)) ctx (object_or_empty s)"
    using ff b by (auto simp: s_def)
  have w: "waiting_evidence (object_or_empty s)"
    and ev: "evidence_confirmed (clock e) fut (object_or_empty s) (reported_past e fut tel)"
    using b by (simp_all add: brings_evidence_def Let_def read_vehicle_def vehicle_future_def s_def t_def fut_def tel_def)
  have o': "object_or_empty s = s" using w by (auto simp: object_or_empty_def waiting_evidence_def split: if_splits)
  have tel: "reported_past e fut tel = JNum tel" "fin tel"
    using ev by (auto simp: evidence_confirmed_def Let_def reported_past_def split: if_splits)
  show ?thesis
    using ev w tel unfolding s' o' evidence_confirmed_def Let_def attempt_current_def
    by (simp add: confirmed_state_def Let_def waiting_evidence_def jspread_def jget_jsets)
qed

section \<open>Dry runs\<close>

interpretation car: dry_run vehicle_flow test_msg
proof
  fix e c m
  assume t: "test_msg m"
  let ?d = "read_vehicle e c m"
  show "isolated c (ctx_of (vehicle_flow e c m))"
  proof (cases "policy_ready (glob c ''location_policy_v1'')")
    case True
    obtain c1 mv where mv: "vehicle_movement c ?d = Emit c1 mv" using movement_emit by blast
    then have i1: "isolated c c1" using t by (auto simp: vehicle_movement_def Let_def split: if_splits)
    obtain c2 where c2: "vehicle_load e c1 ?d = Emit c2 (loaded_trip e c1 ?d)" "isolated c c2"
      using i1 t by (simp add: vehicle_load_def Let_def)
    let ?u = "decide_use ?d (loaded_trip e c1 ?d)" and ?oc = "arrival_step e m ?d (loaded_trip e c1 ?d)"
    obtain c3 ctx where c3: "vehicle_finalize e c2 ?d mv ?u ?oc = Emit c3 ctx" "isolated c c3"
      using c2(2) t by (simp add: vehicle_finalize_def Let_def)
    obtain c4 ctx' s where c4: "evidence_step e c3 ?d ctx = Emit c4 (ctx', s)" "isolated c c4"
      using c3(2) t by (cases "evidence_step e c3 ?d ctx") (auto simp: evidence_step_def Let_def split: if_splits)
    have "isolated c (ctx_of (vehicle_output e c4 m ?d mv ?oc ctx' s))"
      using c4(2) t by (simp add: vehicle_output_def Let_def)
    then show ?thesis
      using True mv c2(1) c3(1) c4(1) by (simp add: vehicle_flow_def vehicle_normalize_def Let_def)
  qed (simp add: vehicle_flow_def vehicle_normalize_def isolated_def)
qed

section \<open>One arrival per return\<close>

text \<open>A message that shows the car outside, or just back from outside, after a stay of the configured time.\<close>

definition shows_stay :: "env \<Rightarrow> ctx \<Rightarrow> jv \<Rightarrow> bool" where
  "shows_stay e c m = (let d = read_vehicle e c m in arms e d (stay_start e d (tp_external (loaded_trip e c d))))"

text \<open>The states after the car has been announced at home, through restarts and any messages that show no
  further stay outside.\<close>

inductive after_return :: "ctx \<Rightarrow> bool" where
  home: "vehicle_flow e c m = Emit c1 ps \<Longrightarrow> \<not> test_msg m \<Longrightarrow> x \<in> set (port 1 ps) \<Longrightarrow>
    plget x ''arrival_stage'' = JStr ''home'' \<Longrightarrow> after_return c1"
| message: "after_return c \<Longrightarrow> test_msg m \<or> \<not> shows_stay e c m \<Longrightarrow> after_return (ctx_of (vehicle_flow e c m))"
| restart: "after_return c \<Longrightarrow> after_return (c\<lparr>fmem := \<lambda>_. JUndef\<rparr>)"

definition unarmed :: "ctx \<Rightarrow> bool" where
  "unarmed c = (fmem c armed_key \<noteq> JTrue \<and> jget (fper c recovery_key) ''arrival_armed'' \<noteq> JTrue)"

lemma bool_or_false_other [simp]: "k' \<noteq> k \<Longrightarrow> jget (bool_or_false k r) k' = jget r k'"
  by (simp add: bool_or_false_def)

lemma bool_or_false_true [simp]: "jget (bool_or_false k r) k = JTrue \<longleftrightarrow> jget r k = JTrue"
  by (cases "is_obj r"; cases "jget r k") (simp_all add: bool_or_false_def jget_not_obj)

lemma repaired_armed: "jget (recovery_repaired d now r) ''arrival_armed'' = JTrue \<longleftrightarrow> jget r ''arrival_armed'' = JTrue"
  by (simp add: recovery_repaired_def Let_def)

lemma unarmed_trip: "unarmed c \<Longrightarrow> \<not> vh_test d \<Longrightarrow> \<not> tp_armed (loaded_trip e c d)"
  by (auto simp: unarmed_def loaded_trip_def loaded_recovery_def Let_def repaired_armed mget_def sget_def tkey_def)

lemma finalized_armed: "jget (finalized_recovery e d u oc) ''arrival_armed'' = JTrue \<Longrightarrow> oc_armed oc"
  by (cases "is_obj (oc_recovery oc)"; cases "use_value u")
     (auto simp: finalized_recovery_def Let_def jget_jsets jget_jset jget_not_obj split: if_splits)

lemma step_unarmed:
  assumes "vehicle_flow e c m = Emit c1 ps" "\<not> test_msg m"
    and "\<not> oc_armed (arrival_step e m (read_vehicle e c m) (loaded_trip e c (read_vehicle e c m)))"
  shows "unarmed c1"
proof -
  note ff = vehicle_flow_facts(3,4) [OF assms(1)]
  have "fmem c1 armed_key = JFalse" using ff(2) assms(2,3) by (simp add: mget_def tkey_def)
  moreover have "jget (fper c1 recovery_key) ''arrival_armed'' \<noteq> JTrue"
    using ff(1) assms(2,3) finalized_armed by (auto simp: sget_def)
  ultimately show ?thesis by (simp add: unarmed_def)
qed

lemma mark_test_stage: "plget (mark_test d tc x) ''arrival_stage'' = plget x ''arrival_stage''"
  by (simp add: mark_test_def) (simp add: plget_def payload_def)

lemma after_return_unarmed: "after_return c \<Longrightarrow> unarmed c"
proof (induction rule: after_return.induct)
  case (home e c m c1 ps x)
  let ?d = "read_vehicle e c m"
  let ?oc = "arrival_step e m ?d (loaded_trip e c ?d)"
  obtain tc where "port 1 ps = map (mark_test ?d tc) (one_of (oc_arrival ?oc))"
    using vehicle_flow_facts(7) [OF home(1)] by blast
  then obtain a where a: "oc_arrival ?oc = Some a" "plget a ''arrival_stage'' = JStr ''home''"
    using home(3,4) by (auto simp: one_of_def mark_test_stage split: option.splits)
  then have "\<not> approach_entry ?d"
    by (auto simp: arrival_step_def Let_def vehicle_arrival_build_def plget_def payload_def test_mark_def
        arrival_stage_def split: if_splits)
  then have "\<not> oc_armed ?oc"
    using a(1) by (auto simp: arrival_step_def Let_def vehicle_arrival_facts_def split: if_splits)
  then show ?case by (rule step_unarmed [OF home(1,2)])
next
  case (message c m e)
  show ?case
  proof (cases "test_msg m \<or> \<not> emits (vehicle_flow e c m)")
    case True
    then show ?thesis
    proof
      assume "test_msg m"
      then have "isolated c (ctx_of (vehicle_flow e c m))" by (rule car.test_isolated)
      moreover have "\<not> test_key armed_key" by (simp add: test_key_def)
      ultimately show ?thesis using message.IH by (simp add: isolated_def unarmed_def)
    next
      assume "\<not> emits (vehicle_flow e c m)"
      then have "\<not> policy_ready (glob c ''location_policy_v1'')" using vehicle_flow_emits by blast
      then show ?thesis
        using message.IH by (simp add: vehicle_flow_def vehicle_normalize_def unarmed_def)
    qed
  next
    case False
    then obtain ps where r: "vehicle_flow e c m = Emit (ctx_of (vehicle_flow e c m)) ps" using emits_run by blast
    have "\<not> tp_armed (loaded_trip e c (read_vehicle e c m))" using unarmed_trip message.IH False by simp
    then have "\<not> oc_armed (arrival_step e m (read_vehicle e c m) (loaded_trip e c (read_vehicle e c m)))"
      using message.hyps(2) False by (simp add: arrival_step_def vehicle_arrival_facts_def Let_def shows_stay_def)
    then show ?thesis using step_unarmed [OF r] False by blast
  qed
next
  case (restart c)
  then show ?case by (simp add: unarmed_def)
qed

text \<open>C26: One return, one announcement at home. Once the car has been announced at home, no later message
  announces an arrival again, through restarts of the server and any positions, zones and engine reports,
  until the car has been seen outside, in a position read recently and newer by the configured time than
  the start of its stay outside.\<close>

theorem one_arrival_per_return:
  assumes "after_return c" and "vehicle_flow e c m = Emit c' ps" and "\<not> test_msg m" and "port 1 ps \<noteq> []"
  shows "let d = read_vehicle e c m; p = vh_place d; since = stay_start e d (tp_external (loaded_trip e c d)) in
    pl_ready p \<and> (external_zone (pl_state p) \<or> external_zone (vh_trigger_prev d)) \<and>
    0 < to_num since \<and> to_num (pl_updated p) \<le> clock e + vehicle_future d \<and>
    num_or (jget (vh_policy d) ''external_cycle_confirm_seconds'') 60 * 1000 \<le> to_num (pl_updated p) - to_num since"
proof -
  let ?d = "read_vehicle e c m"
  have "\<not> tp_armed (loaded_trip e c ?d)" using unarmed_trip after_return_unarmed assms(1,3) by simp
  moreover have "oc_arrival (arrival_step e m ?d (loaded_trip e c ?d)) \<noteq> None"
    using vehicle_flow_facts(7) [OF assms(2)] assms(4) by (auto simp: one_of_def split: option.splits)
  ultimately have "arms e ?d (stay_start e ?d (tp_external (loaded_trip e c ?d)))"
    by (auto simp: arrival_step_def vehicle_arrival_facts_def Let_def split: if_splits)
  then show ?thesis by (auto simp: arms_def stay_confirmed_def observed_ok_def Let_def)
qed

section \<open>Use of the car\<close>

lemma repaired_in_use: "jget (recovery_repaired d now r) ''in_use'' = jget r ''in_use''"
  by (simp add: recovery_repaired_def Let_def bool_or_false_def)

text \<open>The car is called in use only on evidence. The stored context says that the car is in use only when
  the engine is known to run, or, while nothing is known of the engine, when a use confirmed within the
  configured hours is stored and a recent position still shows the car away from home; so a restart never
  invents a trip and a stopped engine always ends it.\<close>

theorem in_use_on_evidence:
  fixes e c m
  defines "t \<equiv> test_msg m" and "engine \<equiv> jget (plget m ''vehicle_primary_engine'') ''state''"
  defines "stored \<equiv> sget t c recovery_key" and "p \<equiv> vh_place (read_vehicle e c m)"
    and "policy \<equiv> glob c ''location_policy_v1''"
  assumes "vehicle_flow e c m = Emit c' ps" and "jget (mget t c' vehicle_context_key) ''in_use'' = JTrue"
  shows "str_among engine [''on'', ''running''] \<or>
    \<not> str_among engine [''on'', ''running'', ''off'', ''stopped'', ''idle''] \<and> jget stored ''in_use'' = JTrue \<and>
    0 < jnum_of stored ''last_confirmed_at'' \<and>
    clock e - jnum_of stored ''last_confirmed_at'' \<le> jnum_of policy ''vehicle_recovery_hours'' * 3600000 \<and>
    pl_ready p \<and> (num_less (jget policy ''home_radius_m'') (pl_distance p) \<or>
      pl_distance p = JNull \<and> pl_state p = JStr ''not_home'')"
proof -
  let ?d = "read_vehicle e c m"
  have eng: "vh_engine_on ?d = str_among engine [''on'', ''running'']"
    "vh_engine_off ?d = str_among engine [''off'', ''stopped'', ''idle'']"
    by (simp_all add: read_vehicle_def Let_def engine_def)
  have "use_jv (use_value (decide_use ?d (loaded_trip e c ?d))) = JTrue"
    using vehicle_flow_facts(6) [OF assms(6)] assms(7) by (simp add: t_def)
  then have "vh_engine_on ?d \<or> \<not> vh_engine_on ?d \<and> \<not> vh_engine_off ?d \<and> trip_revalidated ?d (loaded_trip e c ?d)"
    by (auto simp: decide_use_def split: if_splits)
  moreover have "jget (loaded_recovery e c ?d) ''in_use'' = JTrue \<Longrightarrow>
      recovery_valid ?d (clock e) stored \<and> jget stored ''in_use'' = JTrue"
    by (simp add: loaded_recovery_def Let_def repaired_in_use t_def stored_def split: if_splits)
  ultimately show ?thesis
    by (auto simp: eng trip_revalidated_def loaded_trip_def recovery_valid_def Let_def recent_def num_or_def p_def
        policy_def str_among_def split: if_splits)
qed

section \<open>Examples\<close>

lemma std_location_car [simp]:
  "jget std_location ''home_radius_m'' = JNum 100" "jget std_location ''vehicle_location_fresh_minutes'' = JNum 30"
  "jget std_location ''primary_home_grace_minutes'' = JNum 10" "jget std_location ''arrival_dedupe_minutes'' = JNum 10"
  "jget std_location ''vehicle_recovery_hours'' = JNum 24"
  by (simp_all add: std_location_def stored_policy_def location_defaults_def)

text \<open>A location event at the time of the clock; the time stamps in the messages are named.\<close>

definition car_env :: "rat \<Rightarrow> env" where
  "car_env t = (host_at (Fin t))\<lparr>date_parse := \<lambda>s. if s = ''now'' then Fin t else NaN\<rparr>"

lemma car_env_reads [simp]: "clock (car_env t) = Fin t" "date_parse (car_env t) = (\<lambda>s. if s = ''now'' then Fin t else NaN)"
  by (simp_all add: car_env_def)

definition car_report :: "string \<Rightarrow> string \<Rightarrow> string \<Rightarrow> jv" where
  "car_report zone prev engine = JObj [(''payload'', JObj
    [(''event'', JStr ''location_update''), (''trigger_state'', JStr zone), (''trigger_prev_state'', JStr prev),
     (''vehicle_primary'', JObj [(''state'', JStr zone), (''last_updated'', JStr ''now'')]),
     (''vehicle_primary_engine'', JObj [(''state'', JStr engine)]),
     (''vehicle_primary_last_updated'', JObj [(''state'', JStr ''now'')])])]"

lemma car_report_reads:
  "\<not> test_msg (car_report z p g)" "jget (plget (car_report z p g) ''vehicle_primary_engine'') ''state'' = JStr g"
  by (simp_all add: test_msg_def plget_def payload_def car_report_def)

definition car_place :: "string \<Rightarrow> rat \<Rightarrow> place" where
  "car_place z t = \<lparr>pl_entity = JUndef, pl_state = JStr z, pl_latitude = JNull, pl_longitude = JNull, pl_accuracy = JNull,
     pl_reliable = False, pl_updated = JNum (Fin t), pl_ready = True, pl_stale = False, pl_distance = JNull,
     pl_gate = JNull, pl_home = (z = ''home''), pl_home_for = JNull\<rparr>"

lemma car_read:
  fixes c t z p g
  assumes "glob c ''location_policy_v1'' = std_location" "valid_zone (JStr z)"
  defines "d \<equiv> read_vehicle (car_env t) c (car_report z p g)"
  shows "vh_place d = car_place z t" "vh_trigger d = JStr z" "vh_trigger_prev d = JStr p" "vh_location_event d"
    "vh_state_changed d" "vh_policy d = std_location" "\<not> vh_test d" "vehicle_future d = Fin 60000"
    "vh_engine_on d = str_among (JStr g) [''on'', ''running'']" "vh_telemetry d = JNum (Fin t)"
  using assms(1,2)
  by (simp_all add: d_def read_vehicle_def Let_def car_report_def plget_def payload_def read_place_def car_place_def
      entity_at_def entity_fresh_def parse_date_def dflt_def fin_or_null_def num_or_nan_def recent_def
      reported_at_def reported_past_def reported_future_def vehicle_future_def test_msg_def)

lemma car_zones [simp]:
  "valid_zone (JStr ''home'')" "valid_zone (JStr ''near_home'')" "valid_zone (JStr ''not_home'')"
  "\<not> external_zone (JStr ''home'')" "\<not> external_zone (JStr ''near_home'')" "external_zone (JStr ''not_home'')"
  by (simp_all add: valid_zone_def external_zone_def str_among_def image_iff)

lemma car_runs:
  assumes "glob c ''location_policy_v1'' = std_location"
  obtains c' ps where "vehicle_flow e c m = Emit c' ps" "glob c' ''location_policy_v1'' = std_location"
proof -
  have "emits (vehicle_flow e c m)" using assms by (intro vehicle_flow_emits) simp
  then obtain ps where r: "vehicle_flow e c m = Emit (ctx_of (vehicle_flow e c m)) ps" using emits_run by blast
  then show thesis using that vehicle_flow_facts(2) [OF r] assms by simp
qed

theorem in_use_on_evidence_witness:
  "\<exists>c' ps. vehicle_flow (car_env 1000000) default_policies (car_report ''home'' ''near_home'' ''on'') = Emit c' ps \<and>
     jget (mget False c' vehicle_context_key) ''in_use'' = JTrue \<and> str_among (JStr ''on'') [''on'', ''running'']"
proof -
  have g: "glob default_policies ''location_policy_v1'' = std_location" by simp
  obtain c' ps where r: "vehicle_flow (car_env 1000000) default_policies (car_report ''home'' ''near_home'' ''on'') = Emit c' ps"
    by (rule car_runs [OF g])
  have "vh_engine_on (read_vehicle (car_env 1000000) default_policies (car_report ''home'' ''near_home'' ''on''))"
    using car_read(9) [OF g car_zones(1), of 1000000 "''near_home''" "''on''"] by (simp add: str_among_def)
  then have u: "jget (mget False c' vehicle_context_key) ''in_use'' = JTrue"
    using vehicle_flow_facts(6) [OF r] by (simp add: decide_use_def car_report_reads)
  then show ?thesis
    using in_use_on_evidence [OF r] r by (auto simp: car_report_reads str_among_def)
qed

text \<open>The state of the excursion after an event, from the state before it.\<close>

definition trip_at :: "rat \<Rightarrow> ctx \<Rightarrow> string \<Rightarrow> string \<Rightarrow> trip" where
  "trip_at t c z p = loaded_trip (car_env t) c (read_vehicle (car_env t) c (car_report z p ''off''))"

lemma repaired_version: "is_obj r \<Longrightarrow> is_obj (recovery_repaired d now r) \<and>
    jget (recovery_repaired d now r) ''version'' = jget r ''version'' \<and>
    jget (recovery_repaired d now r) ''external_since'' = jget r ''external_since'' \<and>
    jget (recovery_repaired d now r) ''last_arrival_key'' = jget r ''last_arrival_key''"
  by (simp add: recovery_repaired_def Let_def bool_or_false_def)

lemma loaded_version: "is_obj (loaded_recovery e c d) \<and> jget (loaded_recovery e c d) ''version'' = JNum 1"
  by (simp add: loaded_recovery_def Let_def repaired_version) (simp add: recovery_valid_def Let_def repaired_version)

definition event_outcome :: "rat \<Rightarrow> ctx \<Rightarrow> string \<Rightarrow> string \<Rightarrow> outcome" where
  "event_outcome t c z p = arrival_step (car_env t) (car_report z p ''off'')
     (read_vehicle (car_env t) c (car_report z p ''off'')) (trip_at t c z p)"

lemma outcome_recovery: "is_obj (oc_recovery (event_outcome t c z p)) \<and>
    jget (oc_recovery (event_outcome t c z p)) ''version'' = JNum 1"
  using loaded_version by (simp add: event_outcome_def arrival_step_def Let_def trip_at_def loaded_trip_def)

lemma car_event:
  assumes "glob c ''location_policy_v1'' = std_location" "valid_zone (JStr z)"
    and "vehicle_flow (car_env t) c (car_report z p ''off'') = Emit c' ps"
  shows "fmem c' armed_key = JBool (oc_armed (event_outcome t c z p))"
    "port 1 ps \<noteq> [] \<longleftrightarrow> oc_arrival (event_outcome t c z p) \<noteq> None"
    "is_obj (fper c' recovery_key) \<and> jget (fper c' recovery_key) ''version'' = JNum 1 \<and>
     jget (fper c' recovery_key) ''in_use'' = JFalse \<and> jget (fper c' recovery_key) ''last_confirmed_at'' = JNum (Fin t) \<and>
     jget (fper c' recovery_key) ''external_since'' = oc_external (event_outcome t c z p) \<and>
     jget (fper c' recovery_key) ''last_arrival_key'' = jget (oc_recovery (event_outcome t c z p)) ''last_arrival_key''"
proof -
  note ff = vehicle_flow_facts [OF assms(3), folded trip_at_def, folded event_outcome_def, simplified car_report_reads]
  show "fmem c' armed_key = JBool (oc_armed (event_outcome t c z p))" using ff(4) by (simp add: mget_def tkey_def)
  show "port 1 ps \<noteq> [] \<longleftrightarrow> oc_arrival (event_outcome t c z p) \<noteq> None"
    using ff(7) by (auto simp: one_of_def split: option.splits)
  have "use_value (decide_use (read_vehicle (car_env t) c (car_report z p ''off'')) (trip_at t c z p)) = Some False"
    by (simp add: decide_use_def read_vehicle_def Let_def car_report_reads str_among_def)
  then show "is_obj (fper c' recovery_key) \<and> jget (fper c' recovery_key) ''version'' = JNum 1 \<and>
     jget (fper c' recovery_key) ''in_use'' = JFalse \<and> jget (fper c' recovery_key) ''last_confirmed_at'' = JNum (Fin t) \<and>
     jget (fper c' recovery_key) ''external_since'' = oc_external (event_outcome t c z p) \<and>
     jget (fper c' recovery_key) ''last_arrival_key'' = jget (oc_recovery (event_outcome t c z p)) ''last_arrival_key''"
    using ff(3) outcome_recovery [of t c z p]
    by (simp add: sget_def finalized_recovery_def Let_def jget_jsets)
qed

text \<open>The next event finds what the previous one left, for a day.\<close>

lemma next_trip:
  assumes "glob c ''location_policy_v1'' = std_location" "valid_zone (JStr z)"
    and "vehicle_flow (car_env t) c (car_report z p ''off'') = Emit c' ps"
    and "glob c' ''location_policy_v1'' = std_location" "valid_zone (JStr z')" "0 < t" "t \<le> t'" "t' \<le> t + 86400000"
  shows "tp_armed (trip_at t' c' z' p') = oc_armed (event_outcome t c z p)"
    "oc_external (event_outcome t c z p) = JNull \<Longrightarrow> tp_external (trip_at t' c' z' p') = JNull"
    "oc_external (event_outcome t c z p) = JNum (Fin x) \<Longrightarrow> 0 < x \<Longrightarrow> x \<le> t' \<Longrightarrow> tp_external (trip_at t' c' z' p') = JNum (Fin x)"
    "jget (tp_recovery (trip_at t' c' z' p')) ''last_arrival_key'' = jget (oc_recovery (event_outcome t c z p)) ''last_arrival_key''"
proof -
  note ce = car_event [OF assms(1-3)]
  let ?d = "read_vehicle (car_env t') c' (car_report z' p' ''off'')"
  note rd = car_read [OF assms(4,5), of t' p' "''off''"]
  have "recovery_valid ?d (Fin t') (fper c' recovery_key)"
    using ce(3) assms(6-8) rd(6,8) by (simp add: recovery_valid_def Let_def recent_def)
  then have since: "jget (tp_recovery (trip_at t' c' z' p')) ''external_since'' = oc_external (event_outcome t c z p)"
    and "jget (tp_recovery (trip_at t' c' z' p')) ''last_arrival_key'' = jget (oc_recovery (event_outcome t c z p)) ''last_arrival_key''"
    using ce(3) rd(7) by (simp_all add: trip_at_def loaded_trip_def loaded_recovery_def Let_def sget_def repaired_version)
  show "jget (tp_recovery (trip_at t' c' z' p')) ''last_arrival_key'' = jget (oc_recovery (event_outcome t c z p)) ''last_arrival_key''"
    by fact
  show "tp_armed (trip_at t' c' z' p') = oc_armed (event_outcome t c z p)"
    using ce(1) rd(7) by (simp add: trip_at_def loaded_trip_def Let_def mget_def tkey_def)
  show "oc_external (event_outcome t c z p) = JNull \<Longrightarrow> tp_external (trip_at t' c' z' p') = JNull"
    "oc_external (event_outcome t c z p) = JNum (Fin x) \<Longrightarrow> 0 < x \<Longrightarrow> x \<le> t' \<Longrightarrow> tp_external (trip_at t' c' z' p') = JNum (Fin x)"
    using since rd(8) by (simp_all add: trip_at_def loaded_trip_def Let_def)
qed

text \<open>Back home, out again, and back after the configured time.\<close>

lemmas event_defs = event_outcome_def arrival_step_def vehicle_arrival_facts_def arms_def stay_start_def
  stay_confirmed_def observed_ok_def stale_catchup_def departed_def approach_entry_def place_near_def inside_def
  car_place_def arrival_repeated_def vehicle_arrival_key_def arrival_stage_def str_among_def Let_def

lemma home_event:
  assumes "glob c ''location_policy_v1'' = std_location" "0 < t" "tp_armed (trip_at t c ''home'' ''near_home'')"
    "tp_external (trip_at t c ''home'' ''near_home'') = JNull"
    "jget (tp_recovery (trip_at t c ''home'' ''near_home'')) ''last_arrival_key'' = JUndef"
  shows "oc_arrival (event_outcome t c ''home'' ''near_home'') = Some (vehicle_arrival_build (car_env t)
      (car_report ''home'' ''near_home'' ''off'') (read_vehicle (car_env t) c (car_report ''home'' ''near_home'' ''off'')))"
    "\<not> oc_armed (event_outcome t c ''home'' ''near_home'')" "oc_external (event_outcome t c ''home'' ''near_home'') = JNull"
    "jget (oc_recovery (event_outcome t c ''home'' ''near_home'')) ''last_arrival_key'' = JStr ''vehicle_primary:home''"
  using assms car_read [OF assms(1) car_zones(1), of t "''near_home''" "''off''"] loaded_version
  by (simp_all add: event_defs dflt_def jget_jsets) (simp add: trip_at_def loaded_trip_def Let_def loaded_version)

lemma out_event:
  assumes "glob c ''location_policy_v1'' = std_location" "0 < t" "\<not> tp_armed (trip_at t c ''not_home'' ''home'')"
    "tp_external (trip_at t c ''not_home'' ''home'') = JNull"
  shows "\<not> oc_armed (event_outcome t c ''not_home'' ''home'')"
    "oc_external (event_outcome t c ''not_home'' ''home'') = JNum (Fin t)"
    "oc_recovery (event_outcome t c ''not_home'' ''home'') = tp_recovery (trip_at t c ''not_home'' ''home'')"
    "\<not> shows_stay (car_env t) c (car_report ''not_home'' ''home'' ''off'')"
  using assms car_read [OF assms(1) car_zones(3), of t "''home''" "''off''"]
  by (simp_all add: event_defs shows_stay_def flip: trip_at_def)

lemma back_event:
  assumes "glob c ''location_policy_v1'' = std_location" "0 < x" "x + 60000 \<le> t"
    "tp_external (trip_at t c ''near_home'' ''not_home'') = JNum (Fin x)"
    "jget (tp_recovery (trip_at t c ''near_home'' ''not_home'')) ''last_arrival_key'' = JStr ''vehicle_primary:home''"
  shows "oc_arrival (event_outcome t c ''near_home'' ''not_home'') \<noteq> None"
  using assms car_read [OF assms(1) car_zones(2), of t "''not_home''" "''off''"]
  by (simp add: event_defs dflt_def)

theorem one_arrival_per_return_witness:
  "\<exists>c c' ps. after_return c \<and>
     vehicle_flow (car_env 3000000) c (car_report ''near_home'' ''not_home'' ''off'') = Emit c' ps \<and> port 1 ps \<noteq> []"
proof -
  let ?c0 = "fset default_policies armed_key JTrue" and ?P = "\<lambda>c. glob c ''location_policy_v1'' = std_location"
  let ?m1 = "car_report ''home'' ''near_home'' ''off''" and ?m2 = "car_report ''not_home'' ''home'' ''off''"
  have p0: "?P ?c0" by simp
  have t0: "tp_armed (trip_at 1000000 ?c0 ''home'' ''near_home'')"
    "tp_external (trip_at 1000000 ?c0 ''home'' ''near_home'') = JNull"
    "jget (tp_recovery (trip_at 1000000 ?c0 ''home'' ''near_home'')) ''last_arrival_key'' = JUndef"
    using car_read(7) [OF p0 car_zones(1), of 1000000 "''near_home''" "''off''"]
    by (simp_all add: trip_at_def loaded_trip_def loaded_recovery_def Let_def mget_def sget_def tkey_def
        recovery_valid_def repaired_version)
  obtain c1 ps1 where r1: "vehicle_flow (car_env 1000000) ?c0 ?m1 = Emit c1 ps1" "?P c1" by (rule car_runs [OF p0])
  note h = home_event [OF p0 _ t0, simplified]
  obtain tc where "port 1 ps1 = map (mark_test (read_vehicle (car_env 1000000) ?c0 ?m1) tc)
      [vehicle_arrival_build (car_env 1000000) ?m1 (read_vehicle (car_env 1000000) ?c0 ?m1)]"
    using vehicle_flow_facts(7) [OF r1(1), folded trip_at_def, folded event_outcome_def] h(1) by (auto simp: one_of_def)
  then have a1: "after_return c1"
    using car_read(2) [OF p0 car_zones(1), of 1000000 "''near_home''" "''off''"]
    by (intro after_return.home [OF r1(1) car_report_reads(1)])
       (auto simp: mark_test_def car_report_reads vehicle_arrival_build_def plget_def payload_def test_mark_def arrival_stage_def
         approach_entry_def)
  obtain c2 ps2 where r2: "vehicle_flow (car_env 2000000) c1 ?m2 = Emit c2 ps2" "?P c2" by (rule car_runs [OF r1(2)])
  note n1 = next_trip [where t' = 2000000 and p' = "''home''", OF p0 car_zones(1) r1 car_zones(3), simplified]
  have t1: "\<not> tp_armed (trip_at 2000000 c1 ''not_home'' ''home'')"
    "tp_external (trip_at 2000000 c1 ''not_home'' ''home'') = JNull" using n1 h by simp_all
  note o' = out_event [OF r1(2) _ t1, simplified]
  have a2: "after_return c2" using after_return.message [OF a1 disjI2 [OF o'(4)]] r2(1) by simp
  note n2 = next_trip [where t' = 3000000 and p' = "''not_home''", OF r1(2) car_zones(3) r2 car_zones(2), simplified]
  have "oc_arrival (event_outcome 3000000 c2 ''near_home'' ''not_home'') \<noteq> None"
    by (rule back_event [OF r2(2), of 2000000]) (use n1 n2 h o' in simp_all)
  moreover obtain c3 ps3 where r3: "vehicle_flow (car_env 3000000) c2 (car_report ''near_home'' ''not_home'' ''off'') = Emit c3 ps3"
    by (rule car_runs [OF r2(2)])
  ultimately have "port 1 ps3 \<noteq> []" using car_event(2) [OF r2(2) car_zones(2) r3] by simp
  then show ?thesis using one_arrival_per_return [OF a2 r3 car_report_reads(1)] a2 r3 by blast
qed

text \<open>A wake whose telemetry arrives.\<close>

definition awaiting_state :: jv where
  "awaiting_state = JObj [(''awaiting_evidence'', JTrue), (''last_attempt_at'', JNum 900000),
     (''last_request_at'', JNum 900000), (''semantic_evidence_window_ms'', JNum 1200000)]"

lemma awaiting_evidence:
  assumes "glob c ''location_policy_v1'' = std_location" "fper c refresh_key = awaiting_state"
  shows "brings_evidence (car_env 1000000) c (car_report ''home'' ''home'' ''off'')"
  using car_read [OF assms(1) car_zones(1), of 1000000 "''home''" "''off''"] assms(2)
  by (simp add: brings_evidence_def Let_def car_report_reads sget_def object_or_empty_def awaiting_state_def
      waiting_evidence_def evidence_confirmed_def attempt_current_def evidence_request_def dflt_def)

theorem evidence_is_new_telemetry_witness:
  "\<exists>c' ps. vehicle_flow (car_env 1000000) (pset default_policies refresh_key awaiting_state)
       (car_report ''home'' ''home'' ''off'') = Emit c' ps \<and> \<not> waiting_evidence (sget False c' refresh_key)"
proof -
  let ?c = "pset default_policies refresh_key awaiting_state" and ?m = "car_report ''home'' ''home'' ''off''"
  have g: "glob ?c ''location_policy_v1'' = std_location" "fper ?c refresh_key = awaiting_state" by simp_all
  obtain c' ps where r: "vehicle_flow (car_env 1000000) ?c ?m = Emit c' ps" by (rule car_runs [OF g(1)])
  obtain ctx where "sget False c' refresh_key = confirmed_state (Fin 1000000)
      (vh_comm_failed (read_vehicle (car_env 1000000) ?c ?m)) ctx (object_or_empty (sget False ?c refresh_key))"
    using vehicle_flow_facts(5) [OF r] awaiting_evidence [OF g] by (auto simp: car_report_reads)
  then have "jget (sget False c' refresh_key) ''awaiting_evidence'' = JFalse"
    by (simp add: confirmed_state_def Let_def jspread_def jget_jsets)
  then have "sget (test_msg ?m) c' refresh_key \<noteq> sget (test_msg ?m) ?c refresh_key"
    by (auto simp: car_report_reads sget_def awaiting_state_def)
  then show ?thesis
    using evidence_is_new_telemetry [OF r] r by (simp add: car_report_reads Let_def)
qed

end
