(* ===== verification/PeopleLocation.thy ===== *)
theory PeopleLocation
  imports Places Policies
begin

text \<open>
  Where the residents are. Each resident has two sources, the Home Assistant application and iCloud.
  \<open>people_observe\<close> reads them, \<open>people_select\<close> chooses one source per resident, and \<open>people_classify\<close>
  (\<open>people-location-classify-near-home.js\<close>) turns the chosen position into a canonical zone and decides
  which messages are movements: it sends one message per resident whose zone changed, and the message that
  came in when it still means something. \<open>people_publish\<close> prints the decision for the map of Home Assistant,
  and \<open>vehicle_classify\<close> classifies the position of the car in the same way. The first two and the last are
  kept as texts in \<open>update-people-location-selection.mjs\<close>.

  The in-flight objects \<open>msg._location_candidates\<close> and \<open>msg._canonical_locations\<close> are the records
  \<open>candidate\<close>, \<open>decision\<close> and \<open>located\<close>. A copy of a message by \<open>JSON.parse(JSON.stringify(msg))\<close> is the
  message. The coordinates of the house and the gate come from environment variables, the record \<open>site\<close>.
\<close>

section \<open>Reading the sources\<close>

record candidate =
  cd_entity :: jv
  cd_index :: nat
  cd_label :: string
  cd_state :: string
  cd_valid :: bool
  cd_observed :: jv
  cd_reported :: jv
  cd_latitude :: jv
  cd_longitude :: jv
  cd_accuracy :: jv
  cd_reliable :: bool
  cd_fresh :: bool
  cd_reporting :: bool

text \<open>The nodes of this tab tolerate a minute of clock drift, whatever the policy says.\<close>

definition seen_within :: "env \<Rightarrow> jnum \<Rightarrow> jv \<Rightarrow> bool" where
  "seen_within e limit v = (v \<noteq> JNull \<and> to_num v \<le> clock e + 60000 \<and> clock e - to_num v \<le> limit)"

definition read_candidate :: "env \<Rightarrow> jv \<Rightarrow> nat \<Rightarrow> jv \<times> string \<Rightarrow> candidate option" where
  "read_candidate e policy i entry =
    (let x = fst entry; attrs = jget x ''attributes'';
         observed = tracker_at e x ''location_observed_at'' ''last_changed'';
         reported = tracker_at e x ''source_reported_at'' ''last_updated'';
         latitude = num_or_nan (jget attrs ''latitude''); longitude = num_or_nan (jget attrs ''longitude'');
         accuracy = num_or_nan (jget attrs ''gps_accuracy'');
         state = to_str (dflt (jget x ''state'') (JStr [])) in
     if \<not> is_objectlike x then None
     else Some \<lparr>cd_entity = x, cd_index = i, cd_label = snd entry, cd_state = state,
       cd_valid = (state \<notin> set ['''', ''unknown'', ''unavailable'']), cd_observed = observed, cd_reported = reported,
       cd_latitude = latitude, cd_longitude = longitude, cd_accuracy = accuracy,
       cd_reliable = (latitude \<noteq> JNull \<and> longitude \<noteq> JNull \<and>
         (accuracy = JNull \<or> to_num accuracy \<le> jnum_of policy ''max_gps_accuracy_m'')),
       cd_fresh = seen_within e (jnum_of policy ''location_fresh_minutes'' * 60 * 1000) observed,
       cd_reporting = seen_within e (jnum_of policy ''source_report_fresh_minutes'' * 60 * 1000) reported\<rparr>)"

definition tracker_entries :: "jv \<Rightarrow> string \<Rightarrow> (jv \<times> string) list" where
  "tracker_entries m role =
    [(plget m role, ''Home Assistant App''), (plget m (role @ ''_icloud''), ''iCloud'')]"

definition read_candidates :: "env \<Rightarrow> jv \<Rightarrow> jv \<Rightarrow> string \<Rightarrow> candidate list" where
  "read_candidates e policy m role =
    List.map_filter (\<lambda>(i, entry). read_candidate e policy i entry) (enumerate 0 (tracker_entries m role))"

record observed =
  ob_msg :: jv
  ob_policy :: jv
  ob_candidates :: "string \<Rightarrow> candidate list"

definition people_observe :: "env \<Rightarrow> ctx \<Rightarrow> jv \<Rightarrow> observed run" where
  "people_observe e c m =
    (let policy = glob c ''location_policy_v1'' in
     if \<not> policy_ready policy then Stop (logged NodeError c)
     else if test_msg m then Emit c \<lparr>ob_msg = m, ob_policy = JUndef, ob_candidates = (\<lambda>_. [])\<rparr>
     else Emit c \<lparr>ob_msg = m, ob_policy = policy, ob_candidates = read_candidates e policy m\<rparr>)"

section \<open>Choosing a source\<close>

definition rank_accuracy :: "candidate \<Rightarrow> jnum" where
  "rank_accuracy d = (if cd_accuracy d \<noteq> JNull \<and> Fin 0 \<le> to_num (cd_accuracy d) then to_num (cd_accuracy d) else PInf)"

definition rank_observed :: "candidate \<Rightarrow> jnum" where
  "rank_observed d = (if nullish (cd_observed d) then NInf else to_num (cd_observed d))"

definition jabs :: "jnum \<Rightarrow> jnum" where
  "jabs x = jmax x (- x)"

text \<open>One turn of the loop: the reason when the candidate replaces the selected source.\<close>

definition replaces :: "jnum \<Rightarrow> candidate \<Rightarrow> candidate \<Rightarrow> string option" where
  "replaces tie s d =
    (let delta = rank_observed d - rank_observed s; pick = (\<lambda>b why. if b then Some why else None) in
     if cd_fresh s \<noteq> cd_fresh d then pick (cd_fresh d) ''fresh_location''
     else if cd_reliable s \<noteq> cd_reliable d then pick (cd_reliable d) ''reliable_coordinates''
     else if tie < jabs delta then pick (Fin 0 < delta) ''materially_newer''
     else if rank_accuracy s \<noteq> rank_accuracy d then pick (rank_accuracy d < rank_accuracy s) ''better_accuracy_within_tie''
     else if rank_observed d \<noteq> rank_observed s then pick (rank_observed s < rank_observed d) ''newer_with_equal_accuracy''
     else pick (cd_valid s \<noteq> cd_valid d \<and> cd_valid d) ''valid_state'')"

fun scan_sources :: "jnum \<Rightarrow> candidate \<Rightarrow> string \<Rightarrow> candidate list \<Rightarrow> candidate \<times> string" where
  "scan_sources tie s why [] = (s, why)"
| "scan_sources tie s why (d # ds) =
    (case replaces tie s d of None \<Rightarrow> scan_sources tie s why ds | Some why' \<Rightarrow> scan_sources tie d why' ds)"

fun choose_source :: "jnum \<Rightarrow> candidate list \<Rightarrow> candidate option \<times> string" where
  "choose_source tie [] = (None, ''no_source'')"
| "choose_source tie (d # ds) = (let r = scan_sources tie d ''first_source'' ds in (Some (fst r), snd r))"

definition signature :: "candidate option \<Rightarrow> jv" where
  "signature s = (case s of None \<Rightarrow> JNull | Some d \<Rightarrow> JStr (json_str (JArr
     [JStr (cd_state d), cd_latitude d, cd_longitude d, cd_accuracy d, cd_observed d])))"

record 'c decision =
  dn_selected :: "'c option"
  dn_candidates :: "candidate list"
  dn_reason :: string
  dn_changed :: bool
  dn_previous :: jv

record 'c located =
  lo_msg :: jv
  lo_policy :: jv
  lo_decisions :: "string \<Rightarrow> 'c decision option"

abbreviation decisions_key :: string where
  "decisions_key \<equiv> ''canonical_location_decisions_v1''"

definition select_decision :: "jnum \<Rightarrow> jv \<Rightarrow> jv \<Rightarrow> candidate list \<Rightarrow> candidate decision" where
  "select_decision tie m previous cands =
    (let r = choose_source tie cands; s = fst r; entity_id = (case s of None \<Rightarrow> JUndef | Some d \<Rightarrow> jget (cd_entity d) ''entity_id'') in
     \<lparr>dn_selected = s, dn_candidates = cands, dn_reason = snd r,
      dn_changed = (\<not> jseq (signature s) (jget previous ''signature'')),
      dn_previous = dflt (jget previous ''state'')
        (if jseq entity_id (plget m ''trigger_entity'') then plget m ''trigger_prev_state'' else JNull)\<rparr>)"

definition jopt :: "('a \<Rightarrow> jv) \<Rightarrow> 'a option \<Rightarrow> jv" where
  "jopt f x = (case x of None \<Rightarrow> JNull | Some a \<Rightarrow> f a)"

definition decision_record :: "jnum \<Rightarrow> candidate option \<Rightarrow> jv" where
  "decision_record now s = JObj
    [(''signature'', signature s), (''state'', jopt (\<lambda>d. JStr (cd_state d)) s),
     (''selected_index'', jopt (\<lambda>d. JNum (Fin (of_nat (cd_index d)))) s), (''observed_at'', jopt cd_observed s),
     (''updated_at'', JNum now)]"

definition tracker_name :: "string \<Rightarrow> jv" where
  "tracker_name role = JStr (''device_tracker.'' @ role @ ''_location'')"

text \<open>What the choice for a resident writes into the message; the trigger only for the message's source.\<close>

definition select_message :: "string \<Rightarrow> candidate decision \<Rightarrow> jv \<Rightarrow> jv" where
  "select_message role dn m =
    (let m1 = plsets m [(role @ ''_selected'', jopt cd_entity (dn_selected dn))] in
     if plget m1 ''source'' = JStr role then
       plsets m1 ([(''trigger_prev_state'', dn_previous dn),
         (''trigger_state'', jopt (\<lambda>d. JStr (cd_state d)) (dn_selected dn)), (''trigger_entity'', tracker_name role)] @
         (if plget m1 ''event'' = JStr ''location_update'' \<and> \<not> dn_changed dn then [(''event'', JStr ''context_update'')] else []))
     else m1)"

definition people_select :: "env \<Rightarrow> ctx \<Rightarrow> observed \<Rightarrow> candidate located run" where
  "people_select e c ob =
    (let m = ob_msg ob; policy = ob_policy ob; previous = dflt (fper c decisions_key) (JObj []);
         tie = jnum_of policy ''recency_tie_seconds'' * 1000;
         dn = (\<lambda>role. select_decision tie m (jget previous role) (ob_candidates ob role)) in
     if test_msg m then Emit c \<lparr>lo_msg = m, lo_policy = policy, lo_decisions = (\<lambda>_. None)\<rparr>
     else if \<not> policy_ready policy then Stop (logged NodeError c)
     else if nullish (payload m) then Raise c
     else Emit (pset c decisions_key (jsets (jspread previous (JObj []))
           (map (\<lambda>role. (role, decision_record (clock e) (dn_selected (dn role)))) residents)))
         \<lparr>lo_msg = fold (\<lambda>role. select_message role (dn role)) residents m, lo_policy = policy,
          lo_decisions = (\<lambda>role. if role \<in> set residents then Some (dn role) else None)\<rparr>)"

section \<open>Canonical zones\<close>

record site =
  home_lat :: jnum
  home_lon :: jnum
  gate_lat :: jnum
  gate_lon :: jnum

abbreviation ring_state :: string where
  "ring_state \<equiv> ''location_update_ring''"

text \<open>The distance in whole metres, \<open>null\<close> without coordinates on both sides.\<close>

definition metres :: "jnum \<Rightarrow> jnum \<Rightarrow> jv \<Rightarrow> jv \<Rightarrow> jv" where
  "metres a b x y =
    (case (jreal (JNum a), jreal (JNum b), jreal x, jreal y) of
       (Some a', Some b', Some x', Some y') \<Rightarrow>
         (case sphere_distance a' b' x' y' of None \<Rightarrow> JNum NaN
          | Some d \<Rightarrow> JNum (Fin (of_int \<lfloor>d + 1 / 2\<rfloor>)))
     | _ \<Rightarrow> JNull)"

definition raw_fallback :: "string \<Rightarrow> string" where
  "raw_fallback s = (if s \<in> set [''unknown'', ''unavailable'', ''home'', ''near_home'', ring_state] then s else ''not_home'')"

text \<open>The canonical zone of a reported state and the distances to house and gate.\<close>

definition zone_of :: "jnum \<Rightarrow> jnum \<Rightarrow> string \<Rightarrow> jv \<Rightarrow> jv \<Rightarrow> string" where
  "zone_of home near raw d g =
    (let ds = map to_num (filter num_fin [d, g]) in
     if d \<noteq> JNull \<and> to_num d \<le> home then ''home''
     else if ds \<noteq> [] \<and> fold jmin (tl ds) (hd ds) \<le> near then ''near_home''
     else if raw \<in> set [''home'', ''near_home'', ring_state] then ''not_home''
     else raw_fallback raw)"

record classified = candidate +
  cl_raw :: string
  cl_home :: jv
  cl_gate :: jv
  cl_advanced :: bool

definition annotate :: "jv \<Rightarrow> string \<Rightarrow> (string \<times> jv) list \<Rightarrow> jv" where
  "annotate x zone attrs = jspread x (JObj [(''state'', JStr zone),
     (''attributes'', jspread (dflt (jget x ''attributes'') (JObj [])) (JObj attrs))])"

definition zone_attributes :: "jnum \<Rightarrow> jnum \<Rightarrow> string \<Rightarrow> jv \<Rightarrow> jv \<Rightarrow> (string \<times> jv) list" where
  "zone_attributes home near raw d g =
    [(''raw_location_state'', JStr raw), (''canonical_distance_home_m'', d), (''canonical_distance_gate_m'', g),
     (''home_radius_m'', JNum home), (''near_home_radius_m'', JNum near), (''decision_owner'', JStr ''node_red'')]"

definition classify :: "site \<Rightarrow> jnum \<Rightarrow> jnum \<Rightarrow> bool \<Rightarrow> candidate \<Rightarrow> classified" where
  "classify st home near advanced d =
    (let distance = (\<lambda>a b. if cd_reliable d then metres a b (cd_latitude d) (cd_longitude d) else JNull);
         dh = distance (home_lat st) (home_lon st); dg = distance (gate_lat st) (gate_lon st);
         zone = zone_of home near (cd_state d) dh dg;
         x = annotate (cd_entity d) zone (zone_attributes home near (cd_state d) dh dg) in
     candidate.extend (d\<lparr>cd_state := zone,
         cd_entity := jset x ''attributes'' (jset (jget x ''attributes'') ''canonical_observation_advanced'' (JBool advanced))\<rparr>)
       \<lparr>cl_raw = cd_state d, cl_home = dh, cl_gate = dg, cl_advanced = advanced\<rparr>)"

text \<open>The decision for a resident after classification, the memory of the zones, and the residents whose
  zone changed with a new observation.\<close>

record moved =
  md_previous :: jv
  md_raw_previous :: jv
  md_state_changed :: bool
  md_raw_changed :: bool

record zones =
  zn_msg :: jv
  zn_decisions :: "string \<Rightarrow> classified decision option"
  zn_next :: jv
  zn_changed :: "string list"

abbreviation zones_key :: string where
  "zones_key \<equiv> ''canonical_near_home_people_v1''"

text \<open>Is the observation newer than the one behind the remembered zone?\<close>

definition observation_advanced :: "jv \<Rightarrow> candidate \<Rightarrow> bool" where
  "observation_advanced prior d =
    (let p = jnum_of prior ''observed_at'' in \<not> fin p \<or> fin (to_num (cd_observed d)) \<and> p < to_num (cd_observed d))"

definition zone_moved :: "jv \<Rightarrow> jv \<Rightarrow> classified \<Rightarrow> moved" where
  "zone_moved prior previous_state s =
    (let raw_changed = (truthy (jget prior ''raw_state'') \<and> \<not> jseq (JStr (cl_raw s)) (jget prior ''raw_state'')) in
     \<lparr>md_previous = dflt (jget prior ''state'') (JStr (raw_fallback (to_str (dflt previous_state (JStr []))))),
      md_raw_previous = dflt (jget prior ''raw_state'') (JStr (to_str (dflt previous_state (JStr [])))),
      md_state_changed = (truthy (jget prior ''state'') \<and> \<not> jseq (JStr (cd_state s)) (jget prior ''state'')),
      md_raw_changed = raw_changed\<rparr>)"

definition zone_record :: "jnum \<Rightarrow> jv \<Rightarrow> classified \<Rightarrow> jv" where
  "zone_record now prior s =
    (if cl_advanced s then JObj
       [(''state'', JStr (cd_state s)), (''raw_state'', JStr (cl_raw s)), (''observed_at'', cd_observed s),
        (''updated_at'', JNum now)]
     else jset (jspread prior (JObj [])) ''updated_at'' (JNum now))"

definition zone_message :: "string \<Rightarrow> moved \<Rightarrow> classified \<Rightarrow> jv \<Rightarrow> jv" where
  "zone_message role mv s m =
    (let m1 = plsets m [(role @ ''_selected'', cd_entity s)] in
     if plget m1 ''source'' = JStr role then
       plsets m1 ([(''trigger_prev_state'', md_previous mv), (''trigger_state'', JStr (cd_state s)),
         (''trigger_raw_prev_state'', md_raw_previous mv), (''trigger_raw_state'', JStr (cl_raw s)),
         (''trigger_entity'', tracker_name role)] @
         (if \<not> cl_advanced s \<or> jseq (JStr (cd_state s)) (md_previous mv) \<and> \<not> md_raw_changed mv
          then [(''event'', JStr ''context_update'')] else []))
     else m1)"

text \<open>The turn of the loop for one resident. A resident without a source makes the node raise.\<close>

definition classify_role :: "site \<Rightarrow> env \<Rightarrow> jv \<Rightarrow> jv \<Rightarrow> (string \<Rightarrow> candidate decision option) \<Rightarrow> string \<Rightarrow> zones \<Rightarrow> zones option" where
  "classify_role st e policy previous dns role z =
    (case dns role of
       None \<Rightarrow> Some z
     | Some dn \<Rightarrow>
       (case dn_selected dn of
          None \<Rightarrow> None
        | Some d \<Rightarrow>
          let prior = dflt (jget previous role) (JObj []); advanced = observation_advanced prior d;
              s = classify st (jnum_of policy ''home_radius_m'') (jnum_of policy ''near_home_radius_m'') advanced d;
              mv = zone_moved prior (dn_previous dn) s in
          Some \<lparr>zn_msg = zone_message role mv s (zn_msg z),
            zn_decisions = (zn_decisions z)(role \<mapsto> \<lparr>dn_selected = Some s, dn_candidates = dn_candidates dn,
              dn_reason = dn_reason dn, dn_changed = dn_changed dn, dn_previous = md_previous mv\<rparr>),
            zn_next = jset (zn_next z) role (zone_record (clock e) prior s),
            zn_changed = (if md_state_changed mv \<and> advanced then zn_changed z @ [role] else zn_changed z)\<rparr>))"

fun classify_roles :: "(string \<Rightarrow> zones \<Rightarrow> zones option) \<Rightarrow> string list \<Rightarrow> zones \<Rightarrow> zones option" where
  "classify_roles step [] z = Some z"
| "classify_roles step (role # roles) z = (case step role z of None \<Rightarrow> None | Some z' \<Rightarrow> classify_roles step roles z')"

text \<open>The message that announces the movement of one resident.\<close>

definition moved_event :: "jv \<Rightarrow> classified located \<Rightarrow> string \<Rightarrow> classified located" where
  "moved_event previous lo role =
    (let s = Option.bind (lo_decisions lo role) dn_selected; prior = jget previous role in
     lo\<lparr>lo_msg := plsets (lo_msg lo)
       [(''event'', JStr ''location_update''), (''source'', JStr role), (''trigger_prev_state'', jget prior ''state''),
        (''trigger_state'', jopt (\<lambda>d. JStr (cd_state d)) s), (''trigger_raw_prev_state'', jget prior ''raw_state''),
        (''trigger_raw_state'', jopt (\<lambda>d. JStr (cl_raw d)) s), (''trigger_entity'', tracker_name role)]\<rparr>)"

definition zone_events :: "jv \<Rightarrow> string list \<Rightarrow> classified located \<Rightarrow> classified located list" where
  "zone_events previous changed lo =
    (let m = lo_msg lo; events = map (moved_event previous lo) changed in
     if changed = [] then [lo]
     else if plget m ''event'' = JStr ''location_update'' \<and> plget m ''source'' \<notin> JStr ` set changed then events @ [lo]
     else events)"

definition people_classify :: "site \<Rightarrow> env \<Rightarrow> ctx \<Rightarrow> candidate located \<Rightarrow> classified located list run" where
  "people_classify st e c lo =
    (let m = lo_msg lo; policy = dflt (lo_policy lo) (glob c ''location_policy_v1'');
         previous = dflt (fper c zones_key) (JObj []) in
     if test_msg m then Emit c [\<lparr>lo_msg = m, lo_policy = lo_policy lo, lo_decisions = (\<lambda>_. None)\<rparr>]
     else if \<not> (policy_ready policy \<and> fin (jnum_of policy ''home_radius_m'') \<and> fin (jnum_of policy ''near_home_radius_m''))
     then Stop (logged NodeError c)
     else case classify_roles (classify_role st e policy previous (lo_decisions lo)) residents
         \<lparr>zn_msg = m, zn_decisions = (\<lambda>_. None), zn_next = jspread previous (JObj []), zn_changed = []\<rparr> of
       None \<Rightarrow> Raise c
     | Some z \<Rightarrow> Emit (pset c zones_key (zn_next z)) (zone_events previous (zn_changed z)
         \<lparr>lo_msg = zn_msg z, lo_policy = lo_policy lo, lo_decisions = zn_decisions z\<rparr>))"

text \<open>The three nodes in a row.\<close>

definition people_locate :: "site \<Rightarrow> env \<Rightarrow> ctx \<Rightarrow> jv \<Rightarrow> classified located list run" where
  "people_locate st e c m = wire (wire (people_observe e c m) (people_select e)) (people_classify st e)"

section \<open>Publishing the position\<close>

definition iso_or_null :: "env \<Rightarrow> jv \<Rightarrow> jv" where
  "iso_or_null e v = (if v = JNull then JNull else JStr (iso e (to_num v)))"

definition source_summary :: "env \<Rightarrow> candidate \<Rightarrow> jv" where
  "source_summary e d = JObj
    [(''name'', JStr (cd_label d)), (''last_updated'', iso_or_null e (cd_reported d)),
     (''location_observed_at'', iso_or_null e (cd_observed d)), (''position_fresh'', JBool (cd_fresh d)),
     (''reporting_fresh'', JBool (cd_reporting d)), (''reliable_coordinates'', JBool (cd_reliable d)),
     (''gps_accuracy'', cd_accuracy d)]"

definition position_attributes :: "env \<Rightarrow> jv \<Rightarrow> string \<Rightarrow> classified decision \<Rightarrow> classified \<Rightarrow> jv" where
  "position_attributes e policy role dn s =
    (let current = (cd_fresh s \<and> cd_valid s); num = (\<lambda>k. JNum (jnum_of policy k));
         body = JObj
      [(''state'', JStr (if current then cd_state s else ''unavailable'')), (''raw_location_state'', JStr (cl_raw s)),
       (''selected_location_source'', JStr (cd_label s)),
       (''location_sources'', JArr (map (source_summary e) (dn_candidates dn))), (''binding_role'', JStr role),
       (''decision_owner'', JStr ''node_red''), (''selection_policy_version'', JNum 1),
       (''selection_reason'', JStr (dn_reason dn)), (''location_observed_at'', iso_or_null e (cd_observed s)),
       (''source_reported_at'', iso_or_null e (cd_reported s)), (''home_radius_m'', num ''home_radius_m''),
       (''near_home_radius_m'', num ''near_home_radius_m''), (''location_fresh_minutes'', num ''location_fresh_minutes''),
       (''source_report_fresh_minutes'', num ''source_report_fresh_minutes''), (''location_fresh'', JBool current)] in
     if current \<and> cd_reliable s \<and> num_fin (cd_latitude s) \<and> num_fin (cd_longitude s) then
       jsets body ([(''latitude'', cd_latitude s), (''longitude'', cd_longitude s)] @
         (if num_fin (cd_accuracy s) then [(''gps_accuracy'', cd_accuracy s)] else []) @ [(''source_type'', JStr ''gps'')])
     else body)"

definition retained_text :: "string \<Rightarrow> string \<Rightarrow> jv" where
  "retained_text topic text = JObj
    [(''topic'', JStr topic), (''payload'', JStr text), (''qos'', JStr ''1''), (''retain'', JTrue)]"

definition position_messages :: "env \<Rightarrow> classified located \<Rightarrow> string \<Rightarrow> jv list" where
  "position_messages e lo role =
    (case lo_decisions lo role of
       None \<Rightarrow> []
     | Some dn \<Rightarrow>
       (case dn_selected dn of
          None \<Rightarrow> []
        | Some s \<Rightarrow>
          let topic = ''smart_home/location/'' @ role in
          [retained_text (topic @ ''/state'') (if cd_fresh s \<and> cd_valid s then cd_state s else ''unavailable''),
           retained_text (topic @ ''/attributes'') (json_str (position_attributes e (lo_policy lo) role dn s))]))"

definition people_publish :: "env \<Rightarrow> ctx \<Rightarrow> classified located \<Rightarrow> jv list run" where
  "people_publish e c lo =
    (if test_msg (lo_msg lo) then Stop c else Emit c (concat (map (position_messages e lo) residents)))"

section \<open>The position of the car\<close>

abbreviation car_zone_key :: string where
  "car_zone_key \<equiv> ''canonical_near_home_vehicle_v1''"

definition vehicle_message :: "jv \<Rightarrow> jv \<Rightarrow> string \<Rightarrow> jv \<Rightarrow> jv" where
  "vehicle_message entity previous_state zone m =
    (let m1 = plsets m [(''vehicle_primary'', entity)] in
     if plget m1 ''event'' = JStr ''location_update'' then plsets m1
       [(''trigger_prev_state'', previous_state), (''trigger_state'', JStr zone),
        (''canonical_state_changed'', JBool (\<not> jseq (JStr zone) previous_state))]
     else m1)"

definition vehicle_classify :: "site \<Rightarrow> env \<Rightarrow> ctx \<Rightarrow> jv \<Rightarrow> jv run" where
  "vehicle_classify st e c m =
    (let policy = glob c ''location_policy_v1''; home = jnum_of policy ''home_radius_m'';
         near = jnum_of policy ''near_home_radius_m''; worst = jnum_of policy ''max_gps_accuracy_m'';
         x = plget m ''vehicle_primary''; attrs = dflt (jget x ''attributes'') (JObj []);
         lat = jnum_of attrs ''latitude''; lon = jnum_of attrs ''longitude''; accuracy = jnum_of attrs ''gps_accuracy'';
         reliable = (fin lat \<and> fin lon \<and> (\<not> fin accuracy \<or> accuracy \<le> worst));
         raw = to_str (dflt (jget x ''state'') (JStr ''unknown''));
         distance = (\<lambda>a b. if reliable then metres a b (JNum lat) (JNum lon) else JNull);
         dh = distance (home_lat st) (home_lon st); dg = distance (gate_lat st) (gate_lon st);
         zone = zone_of home near raw dh dg;
         previous_state = dflt (jget (fper c car_zone_key) ''state'')
           (JStr (raw_fallback (to_str (dflt (plget m ''trigger_prev_state'') (JStr []))))) in
     if test_msg m then Emit c m
     else if \<not> (policy_ready policy \<and> fin home \<and> fin near \<and> fin worst) then Stop (logged NodeError c)
     else if \<not> is_objectlike x then Emit c m
     else Emit (pset c car_zone_key (JObj
         [(''state'', JStr zone), (''raw_state'', JStr raw),
          (''observed_at'', dflt (jget attrs ''location_observed_at'') (dflt (jget x ''last_changed'') JNull)),
          (''updated_at'', JNum (clock e))]))
       (vehicle_message (annotate x zone (zone_attributes home near raw dh dg)) previous_state zone m))"

section \<open>The best source\<close>

text \<open>The order of the loop as a relation: freshness, then reliable coordinates, then a materially newer
  observation, then accuracy, then the newer observation, then a valid state.\<close>

definition better :: "jnum \<Rightarrow> candidate \<Rightarrow> candidate \<Rightarrow> bool" where
  "better tie a b =
    (cd_fresh a \<and> \<not> cd_fresh b \<or> cd_fresh a = cd_fresh b \<and>
     (cd_reliable a \<and> \<not> cd_reliable b \<or> cd_reliable a = cd_reliable b \<and>
      (if tie < jabs (rank_observed a - rank_observed b) then rank_observed b < rank_observed a
       else rank_accuracy a < rank_accuracy b \<or> rank_accuracy a = rank_accuracy b \<and>
        (rank_observed b < rank_observed a \<or> rank_observed a = rank_observed b \<and> cd_valid a \<and> \<not> cd_valid b))))"

definition same_rank :: "candidate \<Rightarrow> candidate \<Rightarrow> bool" where
  "same_rank a b = (cd_fresh a = cd_fresh b \<and> cd_reliable a = cd_reliable b \<and> rank_observed a = rank_observed b \<and>
     rank_accuracy a = rank_accuracy b \<and> cd_valid a = cd_valid b)"

definition real_time :: "candidate \<Rightarrow> bool" where
  "real_time d = (rank_observed d \<noteq> NaN \<and> rank_observed d \<noteq> PInf)"

lemma jabs_swap: "jabs (x - y) = jabs (y - x)"
  by (cases x; cases y) (auto simp: jabs_def minus_jnum_def jmax_def)

lemma rank_accuracy_number [simp]: "rank_accuracy d \<noteq> NaN"
  by (auto simp: rank_accuracy_def)

lemma delta_sign:
  assumes "real_time a" "real_time b"
  shows "tie < jabs (rank_observed a - rank_observed b) \<Longrightarrow>
    Fin 0 < rank_observed a - rank_observed b \<longleftrightarrow> rank_observed b < rank_observed a"
  using assms by (cases "rank_observed a"; cases "rank_observed b") (auto simp: real_time_def minus_jnum_def jabs_def jmax_def)

lemma replaces_better:
  assumes "real_time a" "real_time b"
  shows "replaces tie a b \<noteq> None \<longleftrightarrow> better tie b a"
  using delta_sign [OF assms(2,1), of tie]
  by (cases "cd_fresh a = cd_fresh b"; cases "cd_reliable a = cd_reliable b";
      cases "tie < jabs (rank_observed b - rank_observed a)"; cases "rank_accuracy a = rank_accuracy b")
     (auto simp: replaces_def better_def Let_def)

lemma better_asym:
  assumes "better tie a b"
  shows "\<not> better tie b a"
  using assms jabs_swap [of "rank_observed a" "rank_observed b"]
  by (auto simp: better_def split: if_splits dest: jnum_less_asym jnum_less_imp_le)

lemma better_total:
  assumes "real_time a" "real_time b" "\<not> better tie a b" "\<not> better tie b a" "\<not> tie < Fin 0"
  shows "same_rank a b"
proof -
  have less: "x < y \<or> x = y \<or> y < x" if "x \<noteq> NaN" "y \<noteq> NaN" for x y :: jnum
    using that by (cases x; cases y) auto
  have zero: "rank_observed a = rank_observed b \<Longrightarrow> \<not> tie < jabs (rank_observed a - rank_observed b)"
    using assms(1,5) by (cases "rank_observed b") (auto simp: real_time_def jabs_def minus_jnum_def jmax_def)
  show ?thesis
    using assms(1-4) zero less [of "rank_observed a" "rank_observed b"] less [of "rank_accuracy a" "rank_accuracy b"]
      jabs_swap [of "rank_observed a" "rank_observed b"]
    by (cases "rank_observed a = rank_observed b") (auto simp: better_def same_rank_def real_time_def split: if_splits)
qed

lemma read_candidates_short: "length (read_candidates e policy m role) \<le> 2"
  by (simp add: read_candidates_def tracker_entries_def map_filter_simps enumerate_eq_zip split: option.splits)

lemma read_candidates_real: "d \<in> set (read_candidates e policy m role) \<Longrightarrow> real_time d"
  by (auto simp: read_candidates_def List.map_filter_def read_candidate_def real_time_def rank_observed_def tracker_at_def
      fin_or_null_def fin_iff Let_def split: if_splits)

text \<open>C35: The best of the two sources is taken. Of the sources of a resident that can be read, the node
  takes one that no other one beats, in the order freshness, reliable coordinates, materially newer
  observation, accuracy, newer observation, valid state; listing the sources the other way round gives the
  same source, or one that agrees with it on all of these.\<close>

theorem best_source_taken:
  fixes e policy m role
  defines "ds \<equiv> read_candidates e policy m role"
  assumes "fst (choose_source tie ds) = Some s" and "\<not> tie < Fin 0"
  shows "s \<in> set ds \<and> (\<forall>d\<in>set ds. \<not> better tie d s) \<and>
    (\<exists>s'. fst (choose_source tie (rev ds)) = Some s' \<and> (s' = s \<or> same_rank s' s))"
proof -
  have self: "\<not> better tie d d" for d using better_asym by blast
  have real: "real_time d" if "d \<in> set ds" for d using that read_candidates_real by (simp add: ds_def)
  consider "ds = []" | a where "ds = [a]" | a b where "ds = [a, b]"
    using read_candidates_short [of e policy m role] unfolding ds_def [symmetric]
    by (cases ds; cases "tl ds"; cases "tl (tl ds)") auto
  then show ?thesis
  proof cases
    case (3 a b)
    then have r: "real_time a" "real_time b" using real by simp_all
    have ab: "fst (choose_source tie [a, b]) = Some (if better tie b a then b else a)"
      and ba: "fst (choose_source tie [b, a]) = Some (if better tie a b then a else b)"
      using replaces_better [OF r, of tie] replaces_better [OF r(2,1), of tie]
      by (cases "replaces tie a b"; cases "replaces tie b a"; simp add: Let_def)+
    show ?thesis
      using assms(2) ab ba 3 self better_asym [of tie a b] better_total [OF r, of tie] assms(3)
      by (auto simp: same_rank_def split: if_splits)
  qed (use assms(2) self in auto)
qed

section \<open>Movements\<close>

definition chosen :: "'c located \<Rightarrow> string \<Rightarrow> 'c option" where
  "chosen lo role = Option.bind (lo_decisions lo role) dn_selected"

definition moves :: "classified located \<Rightarrow> string \<Rightarrow> bool" where
  "moves lo role = (plget (lo_msg lo) ''source'' = JStr role \<and> plget (lo_msg lo) ''event'' = JStr ''location_update'')"

definition observed_of :: "classified located \<Rightarrow> string \<Rightarrow> jnum" where
  "observed_of lo role = (case chosen lo role of None \<Rightarrow> NaN | Some s \<Rightarrow> to_num (cd_observed s))"

definition zone_time :: "ctx \<Rightarrow> string \<Rightarrow> jnum" where
  "zone_time c role = jnum_of (jget (fper c zones_key) role) ''observed_at''"

lemma classify_fields [simp]:
  "cd_observed (classify st home near advanced d) = cd_observed d" "cl_advanced (classify st home near advanced d) = advanced"
  "cl_raw (classify st home near advanced d) = cd_state d" "cd_fresh (classify st home near advanced d) = cd_fresh d"
  by (simp_all add: classify_def Let_def candidate.defs)

lemma classified_fields:
  fixes s :: classified
  assumes "s = classify st home near advanced d"
  shows "cd_state s = zone_of home near (cd_state d) (cl_home s) (cl_gate s)"
    "\<not> cd_reliable s \<longrightarrow> cl_home s = JNull \<and> cl_gate s = JNull" "jget (cd_entity s) ''state'' = JStr (cd_state s)"
  unfolding assms by (simp_all add: classify_def Let_def candidate.defs annotate_def jspread_def jget_jsets)

lemma resident_keys:
  "role \<in> set residents \<Longrightarrow> role @ ''_selected'' \<notin> {''source'', ''event'', ''trigger_state'', ''trigger_prev_state'', ''test_mode''}"
  by (auto simp: residents_def)

lemma zone_message_source:
  assumes "role \<in> set residents"
  shows "plget (zone_message role mv s m) ''source'' = plget m ''source''"
  using resident_keys [OF assms] by (simp add: zone_message_def Let_def)

lemma zone_message_event:
  assumes "role \<in> set residents" "plget m ''source'' = JStr source"
  shows "source \<noteq> role \<Longrightarrow> plget (zone_message role mv s m) ''event'' = plget m ''event''"
    "source = role \<Longrightarrow> plget (zone_message role mv s m) ''event'' = JStr ''location_update'' \<Longrightarrow> cl_advanced s"
proof -
  have "is_obj m \<and> is_obj (payload m)" using plget_objs [OF assms(2)] by simp
  then show "source \<noteq> role \<Longrightarrow> plget (zone_message role mv s m) ''event'' = plget m ''event''"
    "source = role \<Longrightarrow> plget (zone_message role mv s m) ''event'' = JStr ''location_update'' \<Longrightarrow> cl_advanced s"
    using assms resident_keys [OF assms(1)]
    by (auto simp: zone_message_def Let_def plget_plsets split: if_splits)
qed

text \<open>What one turn of the loop leaves.\<close>

lemma classify_role_facts:
  assumes "classify_role st e policy previous dns role z = Some z'" "dns role = Some dn" "is_obj (zn_next z)"
    and "role \<in> set residents"
  obtains d s mv where "dn_selected dn = Some d"
    "s = classify st (jnum_of policy ''home_radius_m'') (jnum_of policy ''near_home_radius_m'')
       (observation_advanced (dflt (jget previous role) (JObj [])) d) d"
    "zn_msg z' = zone_message role mv s (zn_msg z)"
    "\<And>r. Option.bind (zn_decisions z' r) dn_selected = (if r = role then Some s else Option.bind (zn_decisions z r) dn_selected)"
    "is_obj (zn_next z')" "obj_wf (zn_next z) \<Longrightarrow> obj_wf (zn_next z')"
    "\<And>r. jget (zn_next z') r = (if r = role then zone_record (clock e) (dflt (jget previous role) (JObj [])) s else jget (zn_next z) r)"
    "set (zn_changed z') \<subseteq> set (zn_changed z) \<union> (if cl_advanced s then {role} else {})"
proof -
  obtain d where d: "dn_selected dn = Some d"
    using assms(1,2) by (auto simp: classify_role_def split: option.splits)
  let ?prior = "dflt (jget previous role) (JObj [])"
  define s where "s = classify st (jnum_of policy ''home_radius_m'') (jnum_of policy ''near_home_radius_m'')
    (observation_advanced ?prior d) d"
  define mv where "mv = zone_moved ?prior (dn_previous dn) s"
  have z: "z' = \<lparr>zn_msg = zone_message role mv s (zn_msg z),
      zn_decisions = (zn_decisions z)(role \<mapsto> \<lparr>dn_selected = Some s, dn_candidates = dn_candidates dn,
        dn_reason = dn_reason dn, dn_changed = dn_changed dn, dn_previous = md_previous mv\<rparr>),
      zn_next = jset (zn_next z) role (zone_record (clock e) ?prior s),
      zn_changed = (if md_state_changed mv \<and> observation_advanced ?prior d then zn_changed z @ [role] else zn_changed z)\<rparr>"
    using assms(1,2) d by (simp add: classify_role_def Let_def s_def mv_def)
  have "cl_advanced s = observation_advanced ?prior d" by (simp add: s_def)
  then show thesis
    using assms(3) by (intro that [OF d s_def, of mv]) (auto simp: z jget_jset)
qed

lemma zone_record_time:
  "cl_advanced s \<Longrightarrow> jnum_of (zone_record now prior s) ''observed_at'' = to_num (cd_observed s)"
  "\<not> cl_advanced s \<Longrightarrow> obj_wf prior \<Longrightarrow> jnum_of (zone_record now prior s) ''observed_at'' = jnum_of prior ''observed_at''"
  by (simp_all add: zone_record_def jget_jspread)

lemma zone_record_wf: "obj_wf (zone_record now prior s)"
  by (simp add: zone_record_def)

text \<open>The run of the classification for both residents.\<close>

lemma classify_run:
  assumes "people_classify st e c lo = Emit c' los" "\<not> test_msg (lo_msg lo)"
    and "\<forall>r\<in>set residents. lo_decisions lo r \<noteq> None" and "role \<in> set residents"
  obtains z :: zones and d :: candidate and s :: classified where "c' = pset c zones_key (zn_next z)"
    "los = zone_events (dflt (fper c zones_key) (JObj [])) (zn_changed z)
       \<lparr>lo_msg = zn_msg z, lo_policy = lo_policy lo, lo_decisions = zn_decisions z\<rparr>"
    "chosen lo role = Some d" "cd_observed s = cd_observed d"
    "cl_advanced s = observation_advanced (dflt (jget (fper c zones_key) role) (JObj [])) d"
    "s = classify st (jnum_of (dflt (lo_policy lo) (glob c ''location_policy_v1'')) ''home_radius_m'') (jnum_of (dflt (lo_policy lo) (glob c ''location_policy_v1'')) ''near_home_radius_m'') (cl_advanced s) d"
    "Option.bind (zn_decisions z role) dn_selected = Some s" "obj_wf (zn_next z)"
    "jget (zn_next z) role = zone_record (clock e) (dflt (jget (fper c zones_key) role) (JObj [])) s"
    "plget (zn_msg z) ''source'' = plget (lo_msg lo) ''source''" "set (zn_changed z) \<subseteq> set residents"
    "role \<in> set (zn_changed z) \<Longrightarrow> cl_advanced s"
    "plget (zn_msg z) ''source'' = JStr role \<Longrightarrow> plget (zn_msg z) ''event'' = JStr ''location_update'' \<Longrightarrow> cl_advanced s"
proof -
  let ?previous = "dflt (fper c zones_key) (JObj [])" and ?p = "''resident_primary''" and ?s = "''resident_secondary''"
  let ?step = "classify_role st e (dflt (lo_policy lo) (glob c ''location_policy_v1'')) ?previous (lo_decisions lo)"
  let ?z0 = "\<lparr>zn_msg = lo_msg lo, zn_decisions = (\<lambda>_. None), zn_next = jspread ?previous (JObj []), zn_changed = []\<rparr>"
  obtain z where z: "classify_roles ?step residents ?z0 = Some z" "c' = pset c zones_key (zn_next z)"
    "los = zone_events ?previous (zn_changed z) \<lparr>lo_msg = zn_msg z, lo_policy = lo_policy lo, lo_decisions = zn_decisions z\<rparr>"
    using assms(1,2) by (auto simp: people_classify_def Let_def split: if_splits option.splits)
  obtain z1 where z1: "?step ?p ?z0 = Some z1" "?step ?s z1 = Some z"
    using z(1) by (auto simp: residents_def split: option.splits)
  obtain dp ds where dn: "lo_decisions lo ?p = Some dp" "lo_decisions lo ?s = Some ds"
    using assms(3) by (auto simp: residents_def)
  have res: "?p \<in> set residents" "?s \<in> set residents" by (simp_all add: residents_def)
  obtain d1 s1 mv1 where one: "dn_selected dp = Some d1"
    "s1 = classify st (jnum_of (dflt (lo_policy lo) (glob c ''location_policy_v1'')) ''home_radius_m'') (jnum_of (dflt (lo_policy lo) (glob c ''location_policy_v1'')) ''near_home_radius_m'')
       (observation_advanced (dflt (jget ?previous ?p) (JObj [])) d1) d1"
    "zn_msg z1 = zone_message ?p mv1 s1 (lo_msg lo)"
    "\<And>r. Option.bind (zn_decisions z1 r) dn_selected = (if r = ?p then Some s1 else None)" "is_obj (zn_next z1)"
    "obj_wf (zn_next z1)"
    "jget (zn_next z1) ?p = zone_record (clock e) (dflt (jget ?previous ?p) (JObj [])) s1"
    "set (zn_changed z1) \<subseteq> (if cl_advanced s1 then {?p} else {})"
    by (rule classify_role_facts [OF z1(1) dn(1) _ res(1)]) simp_all
  obtain d2 s2 mv2 where two: "dn_selected ds = Some d2"
    "s2 = classify st (jnum_of (dflt (lo_policy lo) (glob c ''location_policy_v1'')) ''home_radius_m'') (jnum_of (dflt (lo_policy lo) (glob c ''location_policy_v1'')) ''near_home_radius_m'')
       (observation_advanced (dflt (jget ?previous ?s) (JObj [])) d2) d2"
    "zn_msg z = zone_message ?s mv2 s2 (zn_msg z1)"
    "\<And>r. Option.bind (zn_decisions z r) dn_selected = (if r = ?s then Some s2 else Option.bind (zn_decisions z1 r) dn_selected)"
    "obj_wf (zn_next z1) \<Longrightarrow> obj_wf (zn_next z)"
    "\<And>r. jget (zn_next z) r = (if r = ?s then zone_record (clock e) (dflt (jget ?previous ?s) (JObj [])) s2 else jget (zn_next z1) r)"
    "set (zn_changed z) \<subseteq> set (zn_changed z1) \<union> (if cl_advanced s2 then {?s} else {})"
    by (rule classify_role_facts [OF z1(2) dn(2) one(5) res(2)]) simp_all
  have src: "plget (zn_msg z1) ''source'' = plget (lo_msg lo) ''source''"
    "plget (zn_msg z) ''source'' = plget (lo_msg lo) ''source''"
    using zone_message_source [OF res(1)] zone_message_source [OF res(2)] one(3) two(3) by simp_all
  have ev: "plget (zn_msg z) ''source'' = JStr ?p \<Longrightarrow> plget (zn_msg z) ''event'' = JStr ''location_update'' \<Longrightarrow> cl_advanced s1"
    "plget (zn_msg z) ''source'' = JStr ?s \<Longrightarrow> plget (zn_msg z) ''event'' = JStr ''location_update'' \<Longrightarrow> cl_advanced s2"
    using src zone_message_event(1) [OF res(2), of "zn_msg z1" ?p mv2 s2] zone_message_event(2) [OF res(1), of "lo_msg lo" ?p mv1 s1]
      zone_message_event(2) [OF res(2), of "zn_msg z1" ?s mv2 s2]
    by (simp_all flip: two(3) one(3))
  have sub: "set (zn_changed z) \<subseteq> set residents" "?p \<in> set (zn_changed z) \<Longrightarrow> cl_advanced s1"
    "?s \<in> set (zn_changed z) \<Longrightarrow> cl_advanced s2"
    using one(8) two(7) by (auto simp: residents_def split: if_splits)
  consider "role = ?p" | "role = ?s" using assms(4) by (auto simp: residents_def)
  then show thesis
  proof cases
    case 1
    then show thesis
      using one(1,6,7) two(5) two(6) [of ?p] two(4) [of ?p] one(4) [of ?p] ev(1) sub(1,2) src(2) dn(1)
      by (intro that [of z d1 s1, OF z(2,3)]) (simp_all add: one(2) chosen_def)
  next
    case 2
    then show thesis
      using two(1) one(6) two(5) two(6) [of ?s] two(4) [of ?s] ev(2) sub(1,3) src(2) dn(2)
      by (intro that [of z d2 s2, OF z(2,3)]) (simp_all add: two(2) chosen_def)
  qed
qed

lemma scan_sources_member: "fst (scan_sources tie s why ds) \<in> insert s (set ds)"
  by (induction tie s why ds rule: scan_sources.induct) (auto split: option.splits)

lemma choose_member: "fst (choose_source tie ds) = Some s \<Longrightarrow> s \<in> set ds"
  using scan_sources_member by (cases ds) (fastforce simp: Let_def)+

lemma read_observed_fin: "d \<in> set (read_candidates e policy m role) \<Longrightarrow> fin (to_num (cd_observed d))"
  by (auto simp: read_candidates_def List.map_filter_def read_candidate_def tracker_at_def fin_or_null_def Let_def
      split: if_splits)

lemma select_message_test: "role \<in> set residents \<Longrightarrow> test_msg (select_message role dn m) = test_msg m"
  by (auto simp: residents_def select_message_def Let_def)

text \<open>What classification starts from.\<close>

lemma located:
  assumes "people_locate st e c m = Emit c' los" "\<not> test_msg m"
  obtains c1 :: ctx and lo where "people_classify st e c1 lo = Emit c' los" "\<not> test_msg (lo_msg lo)"
    "\<forall>r\<in>set residents. lo_decisions lo r \<noteq> None" "fper c1 zones_key = fper c zones_key"
    "\<And>r d. chosen lo r = Some d \<Longrightarrow> fin (to_num (cd_observed d))" "\<And>x. dflt (lo_policy lo) x = glob c ''location_policy_v1''"
proof -
  let ?policy = "glob c ''location_policy_v1''"
  let ?ob = "\<lparr>ob_msg = m, ob_policy = ?policy, ob_candidates = read_candidates e ?policy m\<rparr>"
  obtain c1 lo where r: "people_select e c ?ob = Emit c1 lo" "people_classify st e c1 lo = Emit c' los"
    using assms by (auto simp: people_locate_def wire_Emit_iff people_observe_def Let_def split: if_splits)
  have "\<not> test_msg (lo_msg lo)"
    using r(1) assms(2) select_message_test
    by (auto simp: people_select_def Let_def residents_def split: if_splits)
  moreover have "\<forall>r\<in>set residents. lo_decisions lo r \<noteq> None" "fper c1 zones_key = fper c zones_key"
    using r(1) assms(2) by (auto simp: people_select_def Let_def split: if_splits)
  moreover have "fin (to_num (cd_observed d))" if "chosen lo x = Some d" for x d
    using r(1) assms(2) that choose_member read_observed_fin
    by (fastforce simp: people_select_def Let_def chosen_def select_decision_def split: if_splits)
  moreover have "dflt (lo_policy lo) x = ?policy" for x
    using r(1) assms(2) by (auto simp: people_select_def policy_ready_def dflt_def nullish_iff Let_def split: if_splits)
  ultimately show thesis using r(2) that by blast
qed

lemma plget_written: "plget (plsets m kvs) k = v \<Longrightarrow> v \<noteq> JUndef \<Longrightarrow> is_obj m \<and> is_obj (payload m)"
  using plget_objs [of "plsets m kvs" k v] by auto

lemma event_source:
  assumes "plget (lo_msg (moved_event previous lo r)) ''source'' = JStr role"
  shows "r = role"
proof (rule ccontr)
  assume "r \<noteq> role"
  have "is_obj (lo_msg lo) \<and> is_obj (payload (lo_msg lo))"
    using plget_written [where v = "JStr role"] assms by (simp add: moved_event_def Let_def)
  then show False using assms \<open>r \<noteq> role\<close> by (simp add: moved_event_def Let_def plget_plsets)
qed

text \<open>One run of the nodes, seen from one resident.\<close>

lemma movement_step:
  assumes "people_locate st e c m = Emit c' los" "\<not> test_msg m" "role \<in> set residents"
  obtains t where "fin t" "\<And>lo. lo \<in> set los \<Longrightarrow> observed_of lo role = t" "obj_wf (fper c' zones_key)"
    "obj_wf (jget (fper c' zones_key) role)"
    "\<And>lo. lo \<in> set los \<Longrightarrow> moves lo role \<Longrightarrow> zone_time c' role = t \<and> (fin (zone_time c role) \<longrightarrow> zone_time c role < t)"
    "obj_wf (jget (fper c zones_key) role) \<Longrightarrow> fin (zone_time c role) \<Longrightarrow> fin (zone_time c' role) \<and> zone_time c role \<le> zone_time c' role"
proof -
  obtain c1 lo where l: "people_classify st e c1 lo = Emit c' los" "\<not> test_msg (lo_msg lo)"
    "\<forall>r\<in>set residents. lo_decisions lo r \<noteq> None" "fper c1 zones_key = fper c zones_key"
    "\<And>r d. chosen lo r = Some d \<Longrightarrow> fin (to_num (cd_observed d))"
    by (rule located [OF assms(1,2)]) blast
  obtain z :: zones and d :: candidate and s :: classified where z: "c' = pset c1 zones_key (zn_next z)"
    "los = zone_events (dflt (fper c1 zones_key) (JObj [])) (zn_changed z)
       \<lparr>lo_msg = zn_msg z, lo_policy = lo_policy lo, lo_decisions = zn_decisions z\<rparr>"
    "chosen lo role = Some d" "cd_observed s = cd_observed d"
    "cl_advanced s = observation_advanced (dflt (jget (fper c1 zones_key) role) (JObj [])) d"
    "s = classify st (jnum_of (dflt (lo_policy lo) (glob c1 ''location_policy_v1'')) ''home_radius_m'') (jnum_of (dflt (lo_policy lo) (glob c1 ''location_policy_v1'')) ''near_home_radius_m'') (cl_advanced s) d"
    "Option.bind (zn_decisions z role) dn_selected = Some s" "obj_wf (zn_next z)"
    "jget (zn_next z) role = zone_record (clock e) (dflt (jget (fper c1 zones_key) role) (JObj [])) s"
    "role \<in> set (zn_changed z) \<Longrightarrow> cl_advanced s"
    "plget (zn_msg z) ''source'' = JStr role \<Longrightarrow> plget (zn_msg z) ''event'' = JStr ''location_update'' \<Longrightarrow> cl_advanced s"
    by (rule classify_run [OF l(1-3) assms(3)]) blast
  let ?t = "to_num (cd_observed s)"
  have t: "fin ?t" using l(5) [OF z(3)] z(4) by simp
  have adv: "cl_advanced s" if "lo' \<in> set los" "moves lo' role" for lo'
    using that z(2,10,11) event_source by (fastforce simp: zone_events_def moves_def Let_def split: if_splits)
  have new: "cl_advanced s \<Longrightarrow> zone_time c' role = ?t \<and> (fin (zone_time c role) \<longrightarrow> zone_time c role < ?t)"
    using z(5) t l(4) by (auto simp: zone_time_def z(1,4,9) zone_record_time(1) observation_advanced_def)
  have old: "zone_time c' role = zone_time c role \<and> fin (zone_time c role)" if "\<not> cl_advanced s" "obj_wf (jget (fper c zones_key) role)"
    using that z(5) l(4) zone_record_time(2) [OF that(1)]
    by (auto simp: zone_time_def z(1,4,9) observation_advanced_def dflt_def Let_def)
  show thesis
  proof (rule that [OF t])
    show "observed_of lo' role = ?t" if "lo' \<in> set los" for lo'
      using that z(2,7) by (auto simp: zone_events_def Let_def observed_of_def chosen_def moved_event_def split: if_splits)
    show "obj_wf (fper c' zones_key)" "obj_wf (jget (fper c' zones_key) role)"
      using z(8,9) by (simp_all add: z(1) zone_record_wf)
    show "zone_time c' role = ?t \<and> (fin (zone_time c role) \<longrightarrow> zone_time c role < ?t)" if "lo' \<in> set los" "moves lo' role" for lo'
      using new adv that by blast
    show "fin (zone_time c' role) \<and> zone_time c role \<le> zone_time c' role"
      if "obj_wf (jget (fper c zones_key) role)" "fin (zone_time c role)"
      using new old that t by (cases "cl_advanced s") (auto simp: jnum_less_imp_le fin_iff)
  qed
qed

text \<open>Whatever happens in the flow afterwards: more positions, dry runs, errors, other nodes.\<close>

inductive zones_later :: "ctx \<Rightarrow> ctx \<Rightarrow> bool" where
  start: "zones_later c c"
| position: "zones_later c c1 \<Longrightarrow> zones_later c (ctx_of (people_locate st e c1 m))"
| other: "zones_later c c1 \<Longrightarrow> fper c2 zones_key = fper c1 zones_key \<Longrightarrow> zones_later c c2"

lemma quiet_run:
  assumes "test_msg m \<or> \<not> emits (people_locate st e c m)"
  shows "fper (ctx_of (people_locate st e c m)) zones_key = fper c zones_key"
proof -
  have sel: "fper (ctx_of (people_select e c ob)) zones_key = fper c zones_key" for c ob
    by (simp add: people_select_def Let_def)
  have cls: "test_msg (lo_msg lo) \<or> \<not> emits (people_classify st e c lo) \<Longrightarrow>
      fper (ctx_of (people_classify st e c lo)) zones_key = fper c zones_key" for c lo
    by (auto simp: people_classify_def Let_def split: option.splits)
  have tst: "people_select e c ob = Emit c1 lo \<Longrightarrow> test_msg (ob_msg ob) \<Longrightarrow> test_msg (lo_msg lo)" for c c1 ob lo
    by (auto simp: people_select_def Let_def)
  have obs: "people_observe e c m = Emit c1 ob \<Longrightarrow> c1 = c \<and> ob_msg ob = m" for c1 ob
    by (auto simp: people_observe_def Let_def split: if_splits)
  have stop: "\<not> emits (people_observe e c m) \<Longrightarrow> fper (ctx_of (people_observe e c m)) = fper c"
    by (simp add: people_observe_def Let_def)
  show ?thesis
  proof (cases "people_observe e c m")
    case (Emit c1 ob)
    note o' = obs [OF this] Emit
    show ?thesis
    proof (cases "people_select e c ob")
      case (Emit c2 lo)
      then show ?thesis
        using o' sel [of c ob] cls [of lo c2] tst [OF Emit] assms by (auto simp: people_locate_def)
    qed (use o' sel [of c ob] in \<open>auto simp: people_locate_def\<close>)
  qed (use stop in \<open>auto simp: people_locate_def\<close>)
qed

lemma movement_memory:
  assumes "people_locate st e c m = Emit c' los" "\<not> test_msg m" "role \<in> set residents"
    and "obj_wf (jget (fper c zones_key) role)" "fin (zone_time c role)"
  shows "obj_wf (jget (fper c' zones_key) role) \<and> fin (zone_time c' role) \<and> zone_time c role \<le> zone_time c' role"
  by (rule movement_step [OF assms(1-3)]) (simp add: assms(4,5))

lemma zone_time_monotone:
  assumes "zones_later c c'" "role \<in> set residents" "obj_wf (jget (fper c zones_key) role)" "fin (zone_time c role)"
  shows "obj_wf (jget (fper c' zones_key) role) \<and> fin (zone_time c' role) \<and> zone_time c role \<le> zone_time c' role"
  using assms
proof induction
  case (start c)
  then show ?case by (auto simp: fin_iff)
next
  case (position c c1 st e m)
  show ?case
  proof (cases "\<not> test_msg m \<and> emits (people_locate st e c1 m)")
    case True
    then obtain c2 los where r: "people_locate st e c1 m = Emit c2 los" by (auto simp: emits_iff)
    have ih: "obj_wf (jget (fper c1 zones_key) role)" "fin (zone_time c1 role)" "zone_time c role \<le> zone_time c1 role"
      using position by blast+
    show ?thesis
      using movement_memory [OF r _ position.prems(1) ih(1,2)] True jnum_le_trans [OF ih(3)] r by simp
  next
    case False
    then show ?thesis using quiet_run [of m st e c1] position by (auto simp: zone_time_def)
  qed
qed (auto simp: zone_time_def)

text \<open>C36: One observation, one movement. When the nodes announce a movement of a resident, whatever is
  received afterwards (positions of both residents, dry runs, failures, restarts) the next movement of the
  same resident is announced only with a position observed later; reports of the same position, changed
  radii or the other resident's messages never repeat it.\<close>

theorem one_movement_per_observation:
  assumes "people_locate st e c m = Emit c1 los" "lo \<in> set los" "moves lo role" "role \<in> set residents" "\<not> test_msg m"
    and "zones_later c1 c2"
    and "people_locate st' e' c2 m' = Emit c3 los'" "lo' \<in> set los'" "moves lo' role" "\<not> test_msg m'"
  shows "observed_of lo role < observed_of lo' role"
proof -
  obtain t where t: "fin t" "observed_of lo role = t" "obj_wf (jget (fper c1 zones_key) role)" "zone_time c1 role = t"
    by (rule movement_step [OF assms(1,5,4)]) (use assms(2,3) in blast)
  note later = zone_time_monotone [OF assms(6,4) t(3)]
  obtain t' where t': "observed_of lo' role = t'" "fin (zone_time c2 role) \<longrightarrow> zone_time c2 role < t'"
    by (rule movement_step [OF assms(7,10,4)]) (use assms(8,9) in blast)
  show ?thesis using later t t' jnum_le_less_trans by auto
qed

section \<open>Canonical zones\<close>

lemma raw_fallback_range: "raw_fallback s \<in> {''unknown'', ''unavailable'', ''home'', ''near_home'', ring_state, ''not_home''}"
  by (simp add: raw_fallback_def)

lemma zone_of_range: "zone_of home near raw d g \<in> {''home'', ''near_home'', ''not_home'', ''unknown'', ''unavailable''}"
  by (auto simp: zone_of_def raw_fallback_def Let_def)

lemma zone_of_home: "zone_of home near raw d g = ''home'' \<longleftrightarrow> d \<noteq> JNull \<and> to_num d \<le> home"
  by (auto simp: zone_of_def raw_fallback_def Let_def)

lemma zone_of_near: "zone_of home near raw d g = ''near_home'' \<longleftrightarrow> \<not> (d \<noteq> JNull \<and> to_num d \<le> home) \<and>
    (num_fin d \<and> to_num d \<le> near \<or> num_fin g \<and> to_num g \<le> near)"
proof -
  have le: "Fin (min a b) \<le> x \<longleftrightarrow> Fin a \<le> x \<or> Fin b \<le> x" for a b x by (cases x) auto
  let ?ds = "map to_num (filter num_fin [d, g])"
  have ds: "?ds \<noteq> [] \<and> fold jmin (tl ?ds) (hd ?ds) \<le> near \<longleftrightarrow> num_fin d \<and> to_num d \<le> near \<or> num_fin g \<and> to_num g \<le> near"
    by (cases "num_fin d"; cases "num_fin g") (auto simp: num_fin_iff le)
  have raw: "raw_fallback raw = ''near_home'' \<Longrightarrow> raw \<in> set [''home'', ''near_home'', ring_state]"
    by (auto simp: raw_fallback_def split: if_splits)
  show ?thesis unfolding zone_of_def Let_def ds using raw by (cases "raw_fallback raw = ''near_home''") (auto split: if_splits)
qed

lemma metres_number: "metres a b x y = JNull \<or> (\<exists>n. metres a b x y = JNum n)"
  by (simp add: metres_def split: option.splits)

text \<open>C37: Zones come from distances. Whatever text the chosen source reports, the nodes know five zones; a
  resident is home exactly when the distance to the house is known and within the radius, near home exactly
  when not home and within the larger radius of house or gate, and neither without reliable coordinates. The
  entity in the message carries the same zone.\<close>

theorem zones_from_distances:
  fixes c
  defines "home \<equiv> jnum_of (glob c ''location_policy_v1'') ''home_radius_m''"
    and "near \<equiv> jnum_of (glob c ''location_policy_v1'') ''near_home_radius_m''"
  assumes "people_locate st e c m = Emit c' los" "\<not> test_msg m" "lo \<in> set los" "role \<in> set residents"
  shows "\<exists>s. chosen lo role = Some s \<and>
    cd_state s \<in> {''home'', ''near_home'', ''not_home'', ''unknown'', ''unavailable''} \<and>
    (cd_state s = ''home'' \<longleftrightarrow> cl_home s \<noteq> JNull \<and> to_num (cl_home s) \<le> home) \<and>
    (cd_state s = ''near_home'' \<longleftrightarrow> \<not> (cl_home s \<noteq> JNull \<and> to_num (cl_home s) \<le> home) \<and>
       (num_fin (cl_home s) \<and> to_num (cl_home s) \<le> near \<or> num_fin (cl_gate s) \<and> to_num (cl_gate s) \<le> near)) \<and>
    (\<not> cd_reliable s \<longrightarrow> cl_home s = JNull \<and> cl_gate s = JNull) \<and>
    jget (cd_entity s) ''state'' = JStr (cd_state s)"
proof -
  obtain c1 lo0 where l: "people_classify st e c1 lo0 = Emit c' los" "\<not> test_msg (lo_msg lo0)"
    "\<forall>r\<in>set residents. lo_decisions lo0 r \<noteq> None" "\<And>x. dflt (lo_policy lo0) x = glob c ''location_policy_v1''"
    by (rule located [OF assms(3,4)]) blast
  obtain z :: zones and d :: candidate and s :: classified where
    z: "los = zone_events (dflt (fper c1 zones_key) (JObj [])) (zn_changed z)
       \<lparr>lo_msg = zn_msg z, lo_policy = lo_policy lo0, lo_decisions = zn_decisions z\<rparr>"
    "s = classify st (jnum_of (dflt (lo_policy lo0) (glob c1 ''location_policy_v1'')) ''home_radius_m'') (jnum_of (dflt (lo_policy lo0) (glob c1 ''location_policy_v1'')) ''near_home_radius_m'') (cl_advanced s) d"
    "Option.bind (zn_decisions z role) dn_selected = Some s"
    by (rule classify_run [OF l(1-3) assms(6)]) blast
  have sel: "chosen lo role = Some s"
    using assms(5) z(1,3) by (auto simp: zone_events_def Let_def chosen_def moved_event_def split: if_splits)
  have "s = classify st home near (cl_advanced s) d" using z(2) l(4) by (simp add: home_def near_def)
  then have fields: "cd_state s = zone_of home near (cd_state d) (cl_home s) (cl_gate s)"
    "\<not> cd_reliable s \<longrightarrow> cl_home s = JNull \<and> cl_gate s = JNull" "jget (cd_entity s) ''state'' = JStr (cd_state s)"
    by (metis classified_fields)+
  note zone = zone_of_range [of home near "cd_state d" "cl_home s" "cl_gate s", folded fields(1)]
    zone_of_home [of home near "cd_state d" "cl_home s" "cl_gate s", folded fields(1)]
    zone_of_near [of home near "cd_state d" "cl_home s" "cl_gate s", folded fields(1)]
  show ?thesis
    by (rule exI [of _ s], intro conjI) (fact sel zone fields)+
qed

section \<open>A walk home\<close>

definition phone_env :: "rat \<Rightarrow> env" where
  "phone_env t = (host_at (Fin t))\<lparr>date_parse := \<lambda>s. if s = ''now'' then Fin t else NaN\<rparr>"

definition phone :: "string \<Rightarrow> jv \<Rightarrow> jv" where
  "phone s x = JObj [(''entity_id'', JStr ''device_tracker.phone''), (''state'', JStr s),
     (''attributes'', JObj [(''latitude'', x), (''longitude'', x), (''location_observed_at'', JStr ''now'')])]"

definition walk :: "string \<Rightarrow> jv \<Rightarrow> jv" where
  "walk s x = JObj [(''payload'', JObj [(''event'', JStr ''location_update''), (''source'', JStr ''resident_primary''),
     (''trigger_entity'', JStr ''device_tracker.phone''), (''trigger_prev_state'', JStr ''home''),
     (''resident_primary'', phone s x), (''resident_secondary'', phone ''office'' JUndef)])]"

abbreviation origin :: site where
  "origin \<equiv> \<lparr>home_lat = Fin 0, home_lon = Fin 0, gate_lat = NaN, gate_lon = NaN\<rparr>"

definition phone_candidate :: "rat \<Rightarrow> string \<Rightarrow> jv \<Rightarrow> candidate" where
  "phone_candidate t s x = \<lparr>cd_entity = phone s x, cd_index = 0, cd_label = ''Home Assistant App'', cd_state = s, cd_valid = (s \<notin> set ['''', ''unknown'', ''unavailable'']),
     cd_observed = JNum (Fin t), cd_reported = JNull, cd_latitude = num_or_nan x, cd_longitude = num_or_nan x,
     cd_accuracy = JNull, cd_reliable = (num_or_nan x \<noteq> JNull), cd_fresh = True, cd_reporting = False\<rparr>"

lemma phone_env_reads [simp]:
  "clock (phone_env t) = Fin t" "date_parse (phone_env t) = (\<lambda>s. if s = ''now'' then Fin t else NaN)"
  by (simp_all add: phone_env_def)

lemma walk_reads [simp]:
  "\<not> test_msg (walk s x)" "plget (walk s x) ''source'' = JStr ''resident_primary''" "is_obj (walk s x)"
  "is_obj (payload (walk s x))" "plget (walk s x) ''event'' = JStr ''location_update''"
  "plget (walk s x) ''trigger_entity'' = JStr ''device_tracker.phone''" "plget (walk s x) ''trigger_prev_state'' = JStr ''home''"
  by (simp_all add: walk_def test_msg_def plget_def payload_def)

lemma walk_candidates:
  "read_candidates (phone_env t) std_location (walk s x) ''resident_primary'' = [phone_candidate t s x]"
  "read_candidates (phone_env t) std_location (walk s x) ''resident_secondary'' = [phone_candidate t ''office'' JUndef]"
  by (simp_all add: read_candidates_def tracker_entries_def enumerate_eq_zip map_filter_simps read_candidate_def walk_def phone_def
      plget_def payload_def tracker_at_def parse_date_def dflt_def fin_or_null_def seen_within_def phone_candidate_def num_or_nan_def Let_def)

lemma metres_origin: "metres (Fin 0) (Fin 0) (JNum (Fin 0)) (JNum (Fin 0)) = JNum (Fin 0)"
  by (simp add: metres_def sphere_distance_def haversine_def js_atan2_def Let_def)

lemma walk_observed:
  assumes "glob c ''location_policy_v1'' = std_location"
  shows "people_observe (phone_env t) c (walk s x) = Emit c \<lparr>ob_msg = walk s x, ob_policy = std_location,
    ob_candidates = read_candidates (phone_env t) std_location (walk s x)\<rparr>"
  using assms by (simp add: people_observe_def policy_ready_def Let_def)

definition walk_decision :: "rat \<Rightarrow> ctx \<Rightarrow> string \<Rightarrow> jv \<Rightarrow> string \<Rightarrow> candidate decision" where
  "walk_decision t c s x role = select_decision (jnum_of std_location ''recency_tie_seconds'' * 1000) (walk s x) (jget (fper c decisions_key) role)
     (read_candidates (phone_env t) std_location (walk s x) role)"

lemma walk_chosen:
  "dn_selected (walk_decision t c s x ''resident_primary'') = Some (phone_candidate t s x)"
  "dn_selected (walk_decision t c s x ''resident_secondary'') = Some (phone_candidate t ''office'' JUndef)"
  by (simp_all add: walk_decision_def select_decision_def walk_candidates Let_def)

lemma walk_selected:
  assumes "glob c ''location_policy_v1'' = std_location"
  obtains c1 lo where "wire (people_observe (phone_env t) c (walk s x)) (people_select (phone_env t)) = Emit c1 lo"
    "glob c1 = glob c" "fper c1 zones_key = fper c zones_key" "lo_policy lo = std_location" "\<not> test_msg (lo_msg lo)"
    "lo_decisions lo ''resident_primary'' = Some (walk_decision t c s x ''resident_primary'')"
    "lo_decisions lo ''resident_secondary'' = Some (walk_decision t c s x ''resident_secondary'')"
    "plget (lo_msg lo) ''source'' = JStr ''resident_primary''"
    "dn_changed (walk_decision t c s x ''resident_primary'') \<Longrightarrow> plget (lo_msg lo) ''event'' = JStr ''location_update''"
proof -
  let ?dn = "walk_decision t c s x"
  let ?c1 = "pset c decisions_key (jsets (jspread (dflt (fper c decisions_key) (JObj [])) (JObj []))
     (map (\<lambda>role. (role, decision_record (Fin t) (dn_selected (?dn role)))) residents))"
  let ?lo = "\<lparr>lo_msg = fold (\<lambda>role. select_message role (?dn role)) residents (walk s x), lo_policy = std_location,
     lo_decisions = (\<lambda>role. if role \<in> set residents then Some (?dn role) else None)\<rparr>"
  have "wire (people_observe (phone_env t) c (walk s x)) (people_select (phone_env t)) = Emit ?c1 ?lo"
    using is_obj_not_nullish [OF walk_reads(4)]
    by (simp add: walk_observed [OF assms] people_select_def policy_ready_def Let_def walk_decision_def [abs_def] cong: if_cong)
  moreover have "\<not> test_msg (lo_msg ?lo)" by (simp add: residents_def select_message_test)
  moreover have "plget (lo_msg ?lo) ''source'' = JStr ''resident_primary''"
    "dn_changed (?dn ''resident_primary'') \<Longrightarrow> plget (lo_msg ?lo) ''event'' = JStr ''location_update''"
    by (simp_all add: residents_def select_message_def Let_def plget_plsets)
  ultimately show thesis using that by (simp add: residents_def)
qed

lemma std_home_radius: "jget std_location ''home_radius_m'' = JNum 100"
  by (simp add: std_location_def stored_policy_def location_defaults_def)

lemma std_kept: "dflt std_location x = std_location"
  by (simp add: dflt_def std_location_def stored_policy_def)

lemma walk_classified:
  assumes "glob c ''location_policy_v1'' = std_location" and "prior = dflt (jget (fper c zones_key) ''resident_primary'') (JObj [])"
    and "adv = observation_advanced prior (phone_candidate t s x)"
    and "k = classify origin (Fin 100) (Fin 350) adv (phone_candidate t s x)"
    and "mv = zone_moved prior (dn_previous (walk_decision t c s x ''resident_primary'')) k"
  obtains c' :: ctx and z :: zones and m k2 mv2 where
    "people_locate origin (phone_env t) c (walk s x) = Emit c' (zone_events (dflt (fper c zones_key) (JObj [])) (zn_changed z)
       \<lparr>lo_msg = zn_msg z, lo_policy = std_location, lo_decisions = zn_decisions z\<rparr>)" "glob c' = glob c"
    "plget (zn_msg z) ''source'' = JStr ''resident_primary''"
    "jget (fper c' zones_key) ''resident_primary'' = zone_record (Fin t) prior k"
    "md_state_changed mv \<Longrightarrow> adv \<Longrightarrow> ''resident_primary'' \<in> set (zn_changed z)"
    "zn_msg z = zone_message ''resident_secondary'' mv2 k2 (zone_message ''resident_primary'' mv k m)"
    "plget m ''source'' = JStr ''resident_primary''"
    "dn_changed (walk_decision t c s x ''resident_primary'') \<Longrightarrow> plget m ''event'' = JStr ''location_update''"
proof -
  obtain c1 lo where l: "wire (people_observe (phone_env t) c (walk s x)) (people_select (phone_env t)) = Emit c1 lo"
    "glob c1 = glob c" "fper c1 zones_key = fper c zones_key" "lo_policy lo = std_location" "\<not> test_msg (lo_msg lo)"
    "lo_decisions lo ''resident_primary'' = Some (walk_decision t c s x ''resident_primary'')"
    "lo_decisions lo ''resident_secondary'' = Some (walk_decision t c s x ''resident_secondary'')"
    "plget (lo_msg lo) ''source'' = JStr ''resident_primary''"
    "dn_changed (walk_decision t c s x ''resident_primary'') \<Longrightarrow> plget (lo_msg lo) ''event'' = JStr ''location_update''"
    by (rule walk_selected [OF assms(1), of t s x]) blast
  let ?previous = "dflt (fper c zones_key) (JObj [])"
  let ?z0 = "\<lparr>zn_msg = lo_msg lo, zn_decisions = (\<lambda>_. None), zn_next = jspread ?previous (JObj []), zn_changed = []\<rparr>"
  obtain z where z: "classify_roles (classify_role origin (phone_env t) std_location ?previous (lo_decisions lo)) residents ?z0 = Some z"
    by (simp add: residents_def classify_role_def l(6,7) walk_chosen Let_def)
  have radii: "fin (jnum_of std_location ''home_radius_m'')" "fin (jnum_of std_location ''near_home_radius_m'')"
    by (simp_all add: std_home_radius)
  have run: "people_locate origin (phone_env t) c (walk s x) = Emit (pset c1 zones_key (zn_next z)) (zone_events ?previous (zn_changed z)
       \<lparr>lo_msg = zn_msg z, lo_policy = std_location, lo_decisions = zn_decisions z\<rparr>)"
    using z radii by (simp add: people_locate_def l std_kept people_classify_def policy_ready_def Let_def)
  show thesis
    using z l(8,9)
    by (intro that [OF run, where m = "lo_msg lo"])
       (auto simp: l(2) assms(2-5) std_home_radius residents_def classify_role_def l(6,7) walk_chosen Let_def zone_message_source jget_jset)
qed

lemma zone_events_move:
  assumes "plget (lo_msg lo) ''source'' = JStr role"
    and "plget (lo_msg lo) ''event'' = JStr ''location_update'' \<or> role \<in> set changed"
  shows "\<exists>lo'\<in>set (zone_events previous changed lo). moves lo' role"
proof -
  have obj: "is_obj (lo_msg lo)" "is_obj (payload (lo_msg lo))" using plget_objs [OF assms(1)] by simp_all
  have "moves (moved_event previous lo role) role"
    using obj by (simp add: moves_def moved_event_def Let_def plget_plsets)
  moreover have "moves lo role" if "plget (lo_msg lo) ''event'' = JStr ''location_update''"
    using that assms(1) by (simp add: moves_def)
  ultimately show ?thesis using assms by (auto simp: zone_events_def Let_def)
qed

lemma phone_observed: "cd_observed (phone_candidate t s x) = JNum (Fin t)"
  by (simp add: phone_candidate_def)

lemma walk_zone:
  "zone_of 100 350 ''office'' JNull JNull = ''not_home''" "zone_of 100 350 ''home'' (JNum (Fin 0)) g = ''home''"
  by (simp_all add: zone_of_def raw_fallback_def)

lemma walk_class:
  "cd_state (classify origin (Fin 100) (Fin 350) adv (phone_candidate t ''office'' JUndef)) = ''not_home''"
  "cd_state (classify origin (Fin 100) (Fin 350) adv (phone_candidate t ''home'' (JNum (Fin 0)))) = ''home''"
  using metres_origin walk_zone
  by (simp_all add: classify_def Let_def candidate.defs phone_candidate_def num_or_nan_def fin_or_null_def)

lemma walk_out:
  obtains c los lo where "people_locate origin (phone_env 1000000) default_policies (walk ''office'' JUndef) = Emit c los"
    "lo \<in> set los" "moves lo ''resident_primary''" "glob c ''location_policy_v1'' = std_location"
    "jget (jget (fper c zones_key) ''resident_primary'') ''state'' = JStr ''not_home''" "zone_time c ''resident_primary'' = Fin 1000000"
proof -
  have p: "glob default_policies ''location_policy_v1'' = std_location" by (simp add: default_policies_def)
  have u: "fper default_policies k = JUndef" for k by (simp add: default_policies_def empty_ctx_def)
  let ?d = "phone_candidate 1000000 ''office'' JUndef" and ?dn = "walk_decision 1000000 default_policies ''office'' JUndef ''resident_primary''"
  let ?k = "classify origin (Fin 100) (Fin 350) True ?d"
  have adv: "observation_advanced (JObj []) ?d" by (simp add: observation_advanced_def)
  have sel: "fst (choose_source tie [?d]) = Some ?d" for tie by simp
  have dn: "dn_previous ?dn = JStr ''home''" "dn_changed ?dn"
    by (simp_all add: walk_decision_def select_decision_def Let_def u walk_candidates signature_def)
       (simp_all add: phone_candidate_def phone_def dflt_def)
  have pr: "md_previous (zone_moved (JObj []) (JStr ''home'') ?k) = JStr ''home''"
    by (simp add: zone_moved_def Let_def dflt_def raw_fallback_def)
  obtain c and z :: zones and m k2 mv2 where z: "people_locate origin (phone_env 1000000) default_policies (walk ''office'' JUndef) =
      Emit c (zone_events (dflt (fper default_policies zones_key) (JObj [])) (zn_changed z)
       \<lparr>lo_msg = zn_msg z, lo_policy = std_location, lo_decisions = zn_decisions z\<rparr>)" "glob c = glob default_policies"
    "plget (zn_msg z) ''source'' = JStr ''resident_primary''"
    "jget (fper c zones_key) ''resident_primary'' = zone_record (Fin 1000000) (JObj []) ?k"
    "zn_msg z = zone_message ''resident_secondary'' mv2 k2 (zone_message ''resident_primary'' (zone_moved (JObj []) (JStr ''home'') ?k) ?k m)"
    "plget m ''source'' = JStr ''resident_primary''" "plget m ''event'' = JStr ''location_update''"
    by (rule walk_classified [OF p, where prior = "JObj []" and adv = True and k = ?k
          and mv = "zone_moved (JObj []) (JStr ''home'') ?k" and t = 1000000 and s = "''office''" and x = JUndef])
       (use dn adv in \<open>simp_all add: u dflt_def\<close>)
  have res: "''resident_primary'' \<in> set residents" "''resident_secondary'' \<in> set residents" by (simp_all add: residents_def)
  have first: "plget (zone_message ''resident_primary'' (zone_moved (JObj []) (JStr ''home'') ?k) ?k m) ''event'' = JStr ''location_update''"
    if "plget m ''source'' = JStr ''resident_primary''" "plget m ''event'' = JStr ''location_update''" for m
    using that plget_objs [OF that(1)] by (simp add: zone_message_def Let_def plget_plsets pr walk_class)
  have "plget (zn_msg z) ''event'' = JStr ''location_update''"
    using first [OF z(6,7)] zone_message_event(1) [OF res(2)] zone_message_source [OF res(1)] z(6) by (simp add: z(5))
  then obtain lo where "lo \<in> set (zone_events (dflt (fper default_policies zones_key) (JObj [])) (zn_changed z)
       \<lparr>lo_msg = zn_msg z, lo_policy = std_location, lo_decisions = zn_decisions z\<rparr>)" "moves lo ''resident_primary''"
    using zone_events_move z(3) by force
  then show thesis
    using z(2,4) p by (intro that [OF z(1)]) (simp_all add: zone_record_def walk_class zone_time_def phone_observed)
qed

lemma walk_back:
  assumes "glob c ''location_policy_v1'' = std_location" "zone_time c ''resident_primary'' = Fin t0" "t0 < t"
    and "jget (jget (fper c zones_key) ''resident_primary'') ''state'' = JStr ''not_home''"
  shows "\<exists>c' los. people_locate origin (phone_env t) c (walk ''home'' (JNum (Fin 0))) = Emit c' los \<and>
    (\<exists>lo\<in>set los. moves lo ''resident_primary'')"
proof -
  let ?d = "phone_candidate t ''home'' (JNum (Fin 0))" and ?prior = "dflt (jget (fper c zones_key) ''resident_primary'') (JObj [])"
  let ?k = "classify origin (Fin 100) (Fin 350) True ?d"
  let ?mv = "zone_moved ?prior (dn_previous (walk_decision t c ''home'' (JNum (Fin 0)) ''resident_primary'')) ?k"
  have adv: "True = observation_advanced ?prior ?d"
    using assms(2,3) by (simp add: observation_advanced_def phone_observed zone_time_def)
  have mv: "md_state_changed ?mv" using assms(4) by (simp add: zone_moved_def Let_def walk_class)
  obtain c' and z :: zones where z: "people_locate origin (phone_env t) c (walk ''home'' (JNum (Fin 0))) =
      Emit c' (zone_events (dflt (fper c zones_key) (JObj [])) (zn_changed z)
       \<lparr>lo_msg = zn_msg z, lo_policy = std_location, lo_decisions = zn_decisions z\<rparr>)"
    "plget (zn_msg z) ''source'' = JStr ''resident_primary''" "''resident_primary'' \<in> set (zn_changed z)"
    by (rule walk_classified [OF assms(1) refl adv refl refl]) (use mv in blast)
  then show ?thesis using zone_events_move by force
qed

theorem one_movement_per_observation_witness:
  "\<exists>c1 los lo c3 los' lo'. people_locate origin (phone_env 1000000) default_policies (walk ''office'' JUndef) = Emit c1 los \<and>
     lo \<in> set los \<and> people_locate origin (phone_env 2000000) c1 (walk ''home'' (JNum (Fin 0))) = Emit c3 los' \<and>
     lo' \<in> set los' \<and> observed_of lo ''resident_primary'' < observed_of lo' ''resident_primary''"
proof -
  obtain c los lo where a: "people_locate origin (phone_env 1000000) default_policies (walk ''office'' JUndef) = Emit c los"
    "lo \<in> set los" "moves lo ''resident_primary''" "glob c ''location_policy_v1'' = std_location"
    "jget (jget (fper c zones_key) ''resident_primary'') ''state'' = JStr ''not_home''" "zone_time c ''resident_primary'' = Fin 1000000"
    by (rule walk_out)
  obtain c' los' lo' where b: "people_locate origin (phone_env 2000000) c (walk ''home'' (JNum (Fin 0))) = Emit c' los'"
    "lo' \<in> set los'" "moves lo' ''resident_primary''"
    using walk_back [OF a(4,6) _ a(5), of 2000000] by auto
  have "''resident_primary'' \<in> set residents" by (simp add: residents_def)
  then show ?thesis
    using one_movement_per_observation [OF a(1-3) _ walk_reads(1) zones_later.start b walk_reads(1)] a(1,2) b(1,2) by blast
qed

theorem zones_from_distances_witness:
  "\<exists>c los lo s. people_locate origin (phone_env 1000000) default_policies (walk ''office'' JUndef) = Emit c los \<and> lo \<in> set los \<and>
     chosen lo ''resident_primary'' = Some s \<and> cd_state s \<in> {''home'', ''near_home'', ''not_home'', ''unknown'', ''unavailable''}"
proof -
  obtain c los lo where a: "people_locate origin (phone_env 1000000) default_policies (walk ''office'' JUndef) = Emit c los" "lo \<in> set los"
    by (rule walk_out) blast
  have "''resident_primary'' \<in> set residents" by (simp add: residents_def)
  then show ?thesis using zones_from_distances [OF a(1) walk_reads(1) a(2)] a by blast
qed

theorem best_source_taken_witness:
  "phone_candidate 1000000 ''home'' (JNum (Fin 0)) \<in>
     set (read_candidates (phone_env 1000000) std_location (walk ''home'' (JNum (Fin 0))) ''resident_primary'')"
  using best_source_taken [of 60000 "phone_env 1000000" std_location "walk ''home'' (JNum (Fin 0))" "''resident_primary''"
      "phone_candidate 1000000 ''home'' (JNum (Fin 0))"]
  by (simp add: walk_candidates)

end
