(* ===== verification/PeopleLife.thy ===== *)
theory PeopleLife
  imports Places Policies
begin

text \<open>
  The lifecycle of the residents (\<open>people-lifecycle-*.js\<close>, \<open>people-notification-*.js\<close>). A message of the
  location nodes becomes the context of the residents that the other tabs read, and may announce an arrival.
  \<open>people_normalize\<close> reads both positions, \<open>people_load\<close> restores what was stored (who is armed for an arrival,
  since when each is outside, excursions near the house, arrivals seen only by a snapshot), \<open>people_facts\<close>
  derives direction and evidence, \<open>people_route\<close> announces, recovers or blocks the arrival and drops
  repetitions, \<open>notify_facts\<close> and \<open>notify_build\<close> keep the cycle of the early notice, \<open>people_finalize\<close> merges
  the result into the store and sends the context (port 0), the arrival (port 1), an arrival for the light only
  (port 2), a blocked transition (port 3) and the notices (port 4).

  Messages travel between these nodes on their own, so two messages may both load before either is stored: the
  flow is \<open>people_read\<close>, which reads the store, and \<open>people_write\<close>, which merges what changed since then.
  The in-flight object \<open>msg._people\<close> is the record \<open>people\<close>, its positions the records \<open>person\<close>, what it
  loads and changes the record \<open>life\<close>; a key that is absent from the objects keyed by resident is the value
  \<open>JUndef\<close>.
\<close>

section \<open>Test messages\<close>

definition people_reset_keys :: "string list" where
  "people_reset_keys = [''security_people_recovery_v1__test'', ''people_notification_cycles_v1__test'',
    ''people_arrival_armed__test'', ''people_context_v1__test'', ''security_people_ready_logged__test'',
    ''security_people_test_clock'']"

definition people_test_snapshot :: "env \<Rightarrow> jv \<Rightarrow> jv \<Rightarrow> jv" where
  "people_test_snapshot e shared m =
    (let stamp = iso e (jmax (clock e) (to_num (jor (jget shared ''observed_at'') (JNum 0))));
         tr = jget (jget shared ''transitions'') ''people'';
         active = (jget tr ''domain'' = JStr ''people'' \<and> jseq (jget tr ''test_case'') (jget m ''_location_test_case'') \<and>
           jget m ''_location_test_reset'' \<noteq> JTrue);
         source = (if active then jget tr ''source'' else JStr ''refresh'');
         tracker = (\<lambda>name role. test_entity stamp name (jget shared role) (JObj [(''gps_accuracy'', JNum 20)]));
         primary = tracker ''device_tracker.mobile_primary_source_1'' ''resident_primary'';
         secondary = tracker ''device_tracker.mobile_secondary_source_1'' ''resident_secondary'' in JObj
     [(''event'', JStr (if active then ''location_update'' else ''context_snapshot'')), (''source'', source),
      (''refresh_cycle_id'', plget m ''refresh_cycle_id''),
      (''trigger_entity'', if active then JStr (''device_tracker.'' @ (if source = JStr ''resident_primary''
         then ''mobile_primary_source_1'' else ''mobile_secondary_source_1'')) else JUndef),
      (''trigger_state'', if active then jget tr ''state'' else JUndef),
      (''trigger_prev_state'', if active then jget tr ''prev'' else JUndef),
      (''resident_primary'', primary),
      (''resident_primary_icloud'', tracker ''device_tracker.mobile_primary_source_2'' ''resident_primary''),
      (''resident_secondary'', secondary),
      (''resident_secondary_icloud'', tracker ''device_tracker.mobile_secondary_source_2'' ''resident_secondary''),
      (''resident_primary_selected'', primary), (''resident_secondary_selected'', secondary)])"

definition people_test_adapter :: "env \<Rightarrow> ctx \<Rightarrow> jv \<Rightarrow> jv run" where
  "people_test_adapter e c m =
    (if \<not> test_msg m \<or> plget m ''event'' \<noteq> JStr ''context_snapshot'' then Emit c m
     else
       (let c1 = (if jget m ''_location_test_reset'' = JTrue
              then fold (\<lambda>k c. fset c k JUndef) people_reset_keys c else c);
            (c2, shared) = test_shared (clock e) c1 in
        Emit c2 (jset m ''payload'' (people_test_snapshot e shared m))))"

section \<open>Reading the positions\<close>

record person =
  ps_entity :: jv
  ps_state :: jv
  ps_raw :: string
  ps_latitude :: jv
  ps_longitude :: jv
  ps_accuracy :: jv
  ps_reliable :: bool
  ps_ready :: bool
  ps_updated :: jv
  ps_reported :: jv
  ps_source_stale :: bool
  ps_advanced :: bool
  ps_reporting :: bool
  ps_stale :: bool
  ps_distance :: jv
  ps_gate :: jv
  ps_home :: bool
  ps_away :: bool
  ps_stationary :: bool
  ps_home_for :: jv

definition current_home :: "person \<Rightarrow> bool" where
  "current_home p = (ps_ready p \<and> ps_home p)"

record people =
  pe_test :: bool
  pe_policy :: jv
  pe_person :: "string \<Rightarrow> person"
  pe_source :: jv
  pe_trigger :: jv
  pe_prev :: jv
  pe_raw :: jv
  pe_raw_prev :: jv
  pe_cycle :: jv
  pe_entity :: jv
  pe_event :: bool

definition fresh_at :: "env \<Rightarrow> jnum \<Rightarrow> jnum \<Rightarrow> jv \<Rightarrow> bool" where
  "fresh_at e fut ttl v = (v \<noteq> JNull \<and> to_num v \<le> clock e + fut \<and> clock e - to_num v \<le> ttl)"

definition read_person :: "env \<Rightarrow> jv \<Rightarrow> jv \<Rightarrow> jv \<Rightarrow> jv \<Rightarrow> person" where
  "read_person e policy x primary fallback =
    (let attrs = dflt (jget x ''attributes'') (JObj []); state = jget x ''state'';
         fut = jnum_of policy ''future_tolerance_seconds'' * 1000;
         ttl = jnum_of policy ''location_fresh_minutes'' * 60000;
         report_ttl = jnum_of policy ''source_report_fresh_minutes'' * 60000;
         observed = tracker_at e x ''location_observed_at'' ''last_changed'';
         reported = tracker_at e x ''source_reported_at'' ''last_updated'';
         latitude = num_observation (jget attrs ''latitude''); longitude = num_observation (jget attrs ''longitude'');
         dist = num_observation (jget attrs ''canonical_distance_home_m'');
         home = (if dist \<noteq> JNull then to_num dist \<le> jnum_of policy ''home_radius_m'' else state = JStr ''home'');
         away = (if dist \<noteq> JNull then jnum_of policy ''home_radius_m'' < to_num dist
                 else str_among state [''not_home'', ''near_home'']);
         reporting = list_ex (\<lambda>s. fresh_at e fut report_ttl (tracker_at e s ''source_reported_at'' ''last_updated''))
           [primary, fallback];
         changed = parse_date e (jget x ''last_changed'') in
     \<lparr>ps_entity = jget x ''entity_id'', ps_state = state,
      ps_raw = to_str (dflt (jget attrs ''raw_location_state'') (dflt state (JStr []))),
      ps_latitude = latitude, ps_longitude = longitude, ps_accuracy = num_observation (jget attrs ''gps_accuracy''),
      ps_reliable = (latitude \<noteq> JNull \<and> longitude \<noteq> JNull),
      ps_ready = (valid_zone state \<and> fresh_at e fut ttl observed), ps_updated = observed, ps_reported = reported,
      ps_source_stale = (\<not> fresh_at e fut report_ttl reported),
      ps_advanced = (jget attrs ''canonical_observation_advanced'' \<noteq> JFalse), ps_reporting = reporting,
      ps_stale = (\<not> fresh_at e fut ttl observed), ps_distance = dist,
      ps_gate = num_observation (jget attrs ''canonical_distance_gate_m''), ps_home = home, ps_away = away,
      ps_stationary = (state = JStr ''home'' \<and> home \<and> \<not> away \<and> reporting),
      ps_home_for = (if fin changed then JNum (clock e - changed) else JNull)\<rparr>)"

definition read_people :: "env \<Rightarrow> ctx \<Rightarrow> jv \<Rightarrow> people" where
  "read_people e c m =
    (let policy = glob c ''location_policy_v1'' in
     \<lparr>pe_test = test_msg m, pe_policy = policy,
      pe_person = (\<lambda>role. read_person e policy (plget m (role @ ''_selected'')) (plget m role) (plget m (role @ ''_icloud''))),
      pe_source = plget m ''source'', pe_trigger = plget m ''trigger_state'', pe_prev = plget m ''trigger_prev_state'',
      pe_raw = plget m ''trigger_raw_state'', pe_raw_prev = plget m ''trigger_raw_prev_state'',
      pe_cycle = plget m ''refresh_cycle_id'', pe_entity = plget m ''trigger_entity'',
      pe_event = (plget m ''event'' = JStr ''location_update'')\<rparr>)"

definition people_normalize :: "env \<Rightarrow> ctx \<Rightarrow> jv \<Rightarrow> people run" where
  "people_normalize e c m =
    (if policy_ready (glob c ''location_policy_v1'') then Emit c (read_people e c m)
     else Stop (logged NodeError c))"

text \<open>\<open>data.people[data.source]\<close>, and the key it is read with.\<close>

definition source_key :: "people \<Rightarrow> string" where
  "source_key d = to_str (pe_source d)"

definition source_person :: "people \<Rightarrow> person option" where
  "source_person d = (if source_key d \<in> set residents then Some (pe_person d (source_key d)) else None)"

definition of_source :: "people \<Rightarrow> (person \<Rightarrow> bool) \<Rightarrow> bool" where
  "of_source d f = (case source_person d of None \<Rightarrow> False | Some p \<Rightarrow> f p)"

section \<open>What is stored\<close>

text \<open>Entries by resident: \<open>armed\<close> for an arrival, outside since, the excursion near the house, and the arrival
  that only a snapshot saw.\<close>

record life =
  lf_recovery :: jv
  lf_armed :: "string \<Rightarrow> jv"
  lf_external :: "string \<Rightarrow> jv"
  lf_excursion :: "string \<Rightarrow> jv"
  lf_candidate :: "string \<Rightarrow> jv"

abbreviation life_key :: string where
  "life_key \<equiv> ''security_people_recovery_v1''"

abbreviation people_armed_key :: string where
  "people_armed_key \<equiv> ''people_arrival_armed''"

definition people_future :: "people \<Rightarrow> jnum" where
  "people_future d = jnum_of (pe_policy d) ''future_tolerance_seconds'' * 1000"

definition observed_ok_at :: "env \<Rightarrow> people \<Rightarrow> jnum \<Rightarrow> bool" where
  "observed_ok_at e d x = (fin x \<and> 0 < x \<and> x \<le> clock e + people_future d)"

definition arrivals_kept :: "env \<Rightarrow> people \<Rightarrow> jv \<Rightarrow> jv" where
  "arrivals_kept e d r = JObj (filter (\<lambda>kv. num_fin (snd kv) \<and> \<not> clock e + people_future d < to_num (snd kv) \<and>
     \<not> jnum_of (pe_policy d) ''arrival_dedupe_minutes'' * 60000 < clock e - to_num (snd kv)) (jentries r))"

definition life_record :: "jv \<Rightarrow> jv" where
  "life_record stored = (if is_obj stored \<and> jget stored ''version'' = JNum 1 then stored
     else JObj [(''version'', JNum 1), (''recent_arrivals'', JObj [])])"

definition load_armed :: "jv \<Rightarrow> jv \<Rightarrow> string \<Rightarrow> jv" where
  "load_armed memory r role =
    (let a = (if is_obj memory then memory else if is_objectlike (jget r ''arrival_armed'') then jget r ''arrival_armed'' else JObj []) in
     JBool (jget a role = JTrue))"

definition load_external :: "env \<Rightarrow> people \<Rightarrow> jv \<Rightarrow> string \<Rightarrow> jv" where
  "load_external e d r role =
    (let x = jnum_of (jget r ''external_since'') role in if observed_ok_at e d x then JNum x else JNull)"

definition load_excursion :: "env \<Rightarrow> people \<Rightarrow> jv \<Rightarrow> string \<Rightarrow> jv" where
  "load_excursion e d r role =
    (let item = jget (jget r ''local_excursions'') role; a = jnum_of item ''started_at''; b = jnum_of item ''expires_at'';
         limit = num_or (jget (pe_policy d) ''local_excursion_minutes'') 90 * 60000 in
     if observed_ok_at e d a \<and> fin b \<and> clock e \<le> b \<and> b - a \<le> limit + 1000
     then JObj [(''started_at'', JNum a), (''expires_at'', JNum b)] else JUndef)"

definition load_candidate :: "env \<Rightarrow> people \<Rightarrow> jv \<Rightarrow> string \<Rightarrow> jv" where
  "load_candidate e d r role =
    (let item = jget (jget r ''home_arrival_candidates'') role; a = jget item ''observed_at''; b = jget item ''expires_at'';
         limit = jnum_of (pe_policy d) ''arrival_recovery_minutes'' * 60000 in
     if num_fin a \<and> observed_ok_at e d (to_num a) \<and> num_fin b \<and> clock e \<le> to_num b \<and> to_num a < to_num b \<and>
        to_num b - to_num a \<le> limit + 1000
     then jspread item (JObj []) else JUndef)"

definition loaded_life :: "env \<Rightarrow> ctx \<Rightarrow> people \<Rightarrow> life" where
  "loaded_life e c d =
    (let r = life_record (sget (pe_test d) c life_key); recent = jget r ''recent_arrivals'' in
     \<lparr>lf_recovery = jset r ''recent_arrivals'' (arrivals_kept e d (if is_obj recent then recent else JObj [])),
      lf_armed = load_armed (mget (pe_test d) c people_armed_key) r, lf_external = load_external e d r,
      lf_excursion = load_excursion e d r, lf_candidate = load_candidate e d r\<rparr>)"

definition people_load :: "env \<Rightarrow> ctx \<Rightarrow> people \<Rightarrow> life run" where
  "people_load e c d =
    (let stored = sget (pe_test d) c life_key in
     Emit (if \<not> (is_obj stored \<and> jget stored ''version'' = JNum 1) \<and> stored \<noteq> JUndef then logged NodeWarn c else c)
       (loaded_life e c d))"

section \<open>Direction and evidence\<close>

text \<open>A position that was observed outside starts or continues the stay; a stay of the configured length arms.\<close>

definition confirm_ms :: "people \<Rightarrow> jnum" where
  "confirm_ms d = num_or (jget (pe_policy d) ''external_cycle_confirm_seconds'') 60 * 1000"

definition home_grace :: "people \<Rightarrow> jnum" where
  "home_grace d = jnum_of (pe_policy d) ''primary_home_grace_minutes'' * 60000"

definition seen_outside :: "person \<Rightarrow> bool" where
  "seen_outside p = (ps_ready p \<and> ps_advanced p \<and> external_zone (ps_state p))"

definition outside_since :: "env \<Rightarrow> people \<Rightarrow> person \<Rightarrow> jv \<Rightarrow> jv" where
  "outside_since e d p since =
    (let obs = to_num (ps_updated p) in
     if seen_outside p \<and> \<not> observed_ok_at e d (to_num since)
     then JNum (if observed_ok_at e d obs then obs else clock e) else since)"

definition outside_long :: "env \<Rightarrow> people \<Rightarrow> person \<Rightarrow> jv \<Rightarrow> bool" where
  "outside_long e d p since =
    (let obs = to_num (ps_updated p) in
     observed_ok_at e d obs \<and> observed_ok_at e d (to_num since) \<and> confirm_ms d \<le> obs - to_num since)"

definition note_outside :: "env \<Rightarrow> people \<Rightarrow> life \<Rightarrow> life" where
  "note_outside e d l =
    (let ext = (\<lambda>role. if role \<in> set residents then outside_since e d (pe_person d role) (lf_external l role) else lf_external l role) in
     l\<lparr>lf_external := ext,
       lf_armed := (\<lambda>role. if role \<in> set residents \<and> seen_outside (pe_person d role) \<and> outside_long e d (pe_person d role) (ext role)
         then JTrue else lf_armed l role)\<rparr>)"

definition source_moved :: "people \<Rightarrow> bool" where
  "source_moved d = (case source_person d of None \<Rightarrow> True | Some p \<Rightarrow> ps_advanced p)"

definition source_home :: "people \<Rightarrow> bool" where
  "source_home d = of_source d current_home"

definition unavailable_zone :: "jv \<Rightarrow> bool" where
  "unavailable_zone v = str_among v [''unknown'', ''unavailable'']"

text \<open>The two ways an event arms its own source: a snapshot had seen this very arrival, or the stay ends with
  this observation.\<close>

definition candidate_confirmed :: "people \<Rightarrow> life \<Rightarrow> bool" where
  "candidate_confirmed d l =
    (pe_event d \<and> pe_trigger d = JStr ''home'' \<and> (external_zone (pe_prev d) \<or> unavailable_zone (pe_prev d)) \<and>
     of_source d ps_ready \<and> source_moved d \<and> source_home d \<and>
     (case source_person d of None \<Rightarrow> False | Some p \<Rightarrow>
        jseq (jget (lf_candidate l (source_key d)) ''observed_at'') (JNum (to_num (ps_updated p)))))"

definition stay_ended :: "env \<Rightarrow> people \<Rightarrow> life \<Rightarrow> bool" where
  "stay_ended e d l =
    (pe_event d \<and> of_source d ps_ready \<and> source_moved d \<and> external_zone (pe_prev d) \<and> \<not> external_zone (pe_trigger d) \<and>
     of_source d (\<lambda>p. outside_long e d p (lf_external l (source_key d))))"

definition arm_source :: "env \<Rightarrow> people \<Rightarrow> life \<Rightarrow> life" where
  "arm_source e d l = (if candidate_confirmed d l \<or> stay_ended e d l
     then l\<lparr>lf_armed := (lf_armed l)(source_key d := JTrue)\<rparr> else l)"

definition person_approach :: "people \<Rightarrow> bool" where
  "person_approach d = (source_moved d \<and> pe_trigger d = JStr ''near_home'' \<and> external_zone (pe_prev d) \<and> \<not> source_home d)"

definition person_departure :: "people \<Rightarrow> bool" where
  "person_departure d = (source_moved d \<and> pe_prev d = JStr ''home'' \<and> pe_trigger d \<noteq> JStr ''home'')"

definition excursion_start :: "people \<Rightarrow> bool" where
  "excursion_start d = (person_departure d \<and> pe_trigger d = JStr ''near_home'' \<and> of_source d ps_ready \<and> \<not> source_home d)"

definition wake_ring_entry :: "people \<Rightarrow> bool" where
  "wake_ring_entry d = (source_moved d \<and> pe_raw d = JStr ''location_update_ring'' \<and> pe_raw_prev d \<noteq> JStr ''location_update_ring'' \<and>
     of_source d (\<lambda>p. external_zone (ps_state p)) \<and> \<not> source_home d)"

definition home_long :: "people \<Rightarrow> person \<Rightarrow> bool" where
  "home_long d p = (ps_home_for p \<noteq> JNull \<and> home_grace d < to_num (ps_home_for p))"

definition excursion_item :: "env \<Rightarrow> people \<Rightarrow> jv" where
  "excursion_item e d =
    (let obs = (case source_person d of None \<Rightarrow> NaN | Some p \<Rightarrow> to_num (ps_updated p));
         start = (if observed_ok_at e d obs then obs else clock e) in JObj
     [(''started_at'', JNum start),
      (''expires_at'', JNum (start + num_or (jget (pe_policy d) ''local_excursion_minutes'') 90 * 60000))])"

definition note_excursion :: "env \<Rightarrow> people \<Rightarrow> life \<Rightarrow> life" where
  "note_excursion e d l =
    (let k = source_key d; closes = (\<lambda>role. role \<in> set residents \<and> ps_ready (pe_person d role) \<and> ps_advanced (pe_person d role) \<and>
           (external_zone (ps_state (pe_person d role)) \<or> current_home (pe_person d role) \<and> home_long d (pe_person d role)));
         l1 = (if excursion_start d then l\<lparr>lf_excursion := (lf_excursion l)(k := excursion_item e d)\<rparr> else l);
         l2 = (if of_source d (\<lambda>p. ps_ready p \<and> external_zone (ps_state p))
               then l1\<lparr>lf_excursion := (lf_excursion l1)(k := JUndef)\<rparr> else l1);
         l3 = l2\<lparr>lf_excursion := (\<lambda>role. if closes role then JUndef else lf_excursion l2 role),
                 lf_candidate := (\<lambda>role. if closes role then JUndef else lf_candidate l2 role)\<rparr> in
     if person_departure d then l3\<lparr>lf_candidate := (lf_candidate l3)(k := JUndef)\<rparr> else l3)"

text \<open>Is the position inside the larger radius of house or gate?\<close>

definition person_near :: "people \<Rightarrow> person \<Rightarrow> bool" where
  "person_near d p = (let r = jnum_of (pe_policy d) ''near_home_radius_m'' in ps_ready p \<and>
     (inside (ps_gate p) r \<or> inside (ps_distance p) r \<or>
      ps_distance p = JNull \<and> ps_gate p = JNull \<and> ps_state p = JStr ''home''))"

record person_facts =
  pf_ready :: bool
  pf_prev_valid :: bool
  pf_prev_unavailable :: bool
  pf_approach :: bool
  pf_wake_ring :: bool
  pf_departure :: bool
  pf_stale :: bool
  pf_near :: bool
  pf_confirmed :: bool
  pf_directional :: bool
  pf_excursion_start :: bool

definition person_facts_of :: "people \<Rightarrow> life \<Rightarrow> person_facts" where
  "person_facts_of d l =
    \<lparr>pf_ready = of_source d ps_ready, pf_prev_valid = valid_zone (pe_prev d),
     pf_prev_unavailable = unavailable_zone (pe_prev d), pf_approach = person_approach d, pf_wake_ring = wake_ring_entry d,
     pf_departure = person_departure d, pf_stale = (\<not> person_approach d \<and> of_source d (\<lambda>p. ps_home p \<and> home_long d p)),
     pf_near = of_source d (person_near d), pf_confirmed = (lf_armed l (source_key d) = JTrue),
     pf_directional = (of_source d ps_ready \<and> source_moved d \<and> \<not> jseq (pe_trigger d) (pe_prev d) \<and>
       str_among (pe_trigger d) [''home'', ''near_home'']), pf_excursion_start = excursion_start d\<rparr>"

text \<open>A snapshot that finds a resident at home ends the stay, and keeps the arrival for the event that follows.\<close>

definition snapshot_home :: "people \<Rightarrow> person \<Rightarrow> bool" where
  "snapshot_home d p = (ps_ready p \<and> (if ps_distance p \<noteq> JNull then to_num (ps_distance p) \<le> jnum_of (pe_policy d) ''home_radius_m''
     else ps_state p = JStr ''home''))"

definition candidate_item :: "people \<Rightarrow> person \<Rightarrow> jv" where
  "candidate_item d p = (let obs = to_num (ps_updated p) in JObj
     [(''observed_at'', JNum obs), (''expires_at'', JNum (obs + jnum_of (pe_policy d) ''arrival_recovery_minutes'' * 60000))])"

definition note_snapshot :: "env \<Rightarrow> people \<Rightarrow> life \<Rightarrow> life" where
  "note_snapshot e d l =
    (if pe_event d then l else
     (let at_home = (\<lambda>role. role \<in> set residents \<and> snapshot_home d (pe_person d role)) in
      l\<lparr>lf_candidate := (\<lambda>role. let p = pe_person d role in
          if at_home role \<and> lf_armed l role = JTrue \<and> current_home p \<and> observed_ok_at e d (to_num (ps_updated p)) \<and>
             \<not> home_grace d < to_num (ps_home_for p) then candidate_item d p else lf_candidate l role),
        lf_armed := (\<lambda>role. if at_home role then JFalse else lf_armed l role),
        lf_external := (\<lambda>role. if at_home role then JNull else lf_external l role)\<rparr>))"

definition note_source :: "people \<Rightarrow> life \<Rightarrow> life" where
  "note_source d l =
    (let k = source_key d;
         l1 = (if of_source d (\<lambda>p. ps_ready p \<and> ps_advanced p \<and> \<not> external_zone (ps_state p))
               then l\<lparr>lf_external := (lf_external l)(k := JNull)\<rparr> else l) in
     if person_departure d then l1\<lparr>lf_armed := (lf_armed l1)(k := JFalse)\<rparr> else l1)"

definition people_facts :: "env \<Rightarrow> people \<Rightarrow> life \<Rightarrow> person_facts \<times> life" where
  "people_facts e d l0 =
    (let l = note_excursion e d (arm_source e d (note_outside e d l0)) in
     (person_facts_of d l, note_snapshot e d (note_source d l)))"

section \<open>Announcing, recovering or blocking\<close>

text \<open>The conditions of the three switches.\<close>

definition arrival_eligible :: "people \<Rightarrow> person_facts \<Rightarrow> bool" where
  "arrival_eligible d f = (pe_event d \<and> pf_ready f \<and> pf_prev_valid f \<and> \<not> pf_departure f \<and> \<not> pf_stale f \<and> pf_confirmed f \<and>
     (pf_approach f \<or> pf_near f))"

definition recovery_eligible :: "people \<Rightarrow> person_facts \<Rightarrow> bool" where
  "recovery_eligible d f = (pe_event d \<and> pf_ready f \<and> pf_prev_unavailable f \<and> \<not> pf_stale f \<and>
     (pe_trigger d = JStr ''near_home'' \<and> \<not> source_home d \<or> pe_trigger d = JStr ''home'' \<and> source_home d) \<and> pf_confirmed f)"

definition blocked_eligible :: "people \<Rightarrow> person_facts \<Rightarrow> bool" where
  "blocked_eligible d f = (pe_event d \<and> pf_directional f)"

definition people_mark :: "people \<Rightarrow> jv \<Rightarrow> (string \<times> jv) list" where
  "people_mark d m = [(''_location_test'', JBool (pe_test d)),
    (''_location_test_case'', if pe_test d then dflt (jget m ''_location_test_case'') JNull else JUndef)]"

definition from_source :: "people \<Rightarrow> (person \<Rightarrow> jv) \<Rightarrow> jv" where
  "from_source d f = (case source_person d of None \<Rightarrow> JNull | Some p \<Rightarrow> dflt (f p) JNull)"

definition event_at :: "env \<Rightarrow> people \<Rightarrow> jv" where
  "event_at e d = dflt (from_source d ps_updated) (JNum (clock e))"

definition resident_snapshot :: "people \<Rightarrow> jv" where
  "resident_snapshot d = JObj
    [(''state'', from_source d ps_state), (''gate_distance_m'', from_source d ps_gate),
     (''distance_m'', from_source d ps_distance), (''current_home'', JBool (source_home d)),
     (''ready'', JBool (of_source d ps_ready)), (''stale'', JBool (of_source d ps_stale)),
     (''updated_at'', from_source d ps_updated)]"

definition arrival_message :: "env \<Rightarrow> jv \<Rightarrow> people \<Rightarrow> string \<Rightarrow> (string \<times> jv) list \<Rightarrow> jv" where
  "arrival_message e m d stage extra = JObj (people_mark d m @ [(''payload'', JObj
    ([(''contract'', JStr ''security.arrival.v1''), (''kind'', JStr ''arrival''), (''source'', pe_source d),
      (''arriving'', JArr [pe_source d]), (''arrival_source_type'', JStr ''person''), (''arrival_stage'', JStr stage),
      (''arrival_previous_state'', pe_prev d), (''arrival_direction'', JStr ''returning''),
      (''external_cycle_confirmed'', JTrue)] @ extra @
     [(''event_at'', event_at e d), (''arrival_resident_snapshot'', resident_snapshot d),
      (''refresh_cycle_id'', pe_cycle d)]))])"

definition people_stage :: "person_facts \<Rightarrow> string" where
  "people_stage f = (if pf_approach f then ''approach'' else ''home'')"

definition recovery_stage :: "people \<Rightarrow> string" where
  "recovery_stage d = (if pe_trigger d = JStr ''home'' then ''home'' else ''approach'')"

definition disarm_source :: "people \<Rightarrow> life \<Rightarrow> life" where
  "disarm_source d l = l\<lparr>lf_armed := (lf_armed l)(source_key d := JFalse)\<rparr>"

definition drop_candidate :: "people \<Rightarrow> life \<Rightarrow> life" where
  "drop_candidate d l = l\<lparr>lf_candidate := (lf_candidate l)(source_key d := JUndef)\<rparr>"

definition arrival_life :: "people \<Rightarrow> person_facts \<Rightarrow> life \<Rightarrow> life" where
  "arrival_life d f l =
    (let l1 = (if \<not> pf_approach f \<and> pf_near f then disarm_source d l else l) in
     if pe_trigger d = JStr ''home'' then drop_candidate d l1 else l1)"

definition recovery_life :: "people \<Rightarrow> life \<Rightarrow> life" where
  "recovery_life d l = (if pe_trigger d = JStr ''home'' then drop_candidate d (disarm_source d l) else l)"

definition blocked_message :: "env \<Rightarrow> jv \<Rightarrow> people \<Rightarrow> person_facts \<Rightarrow> jv" where
  "blocked_message e m d f = JObj (people_mark d m @ [(''payload'', JObj
    [(''contract'', JStr ''security.arrival-direction.v1''), (''kind'', JStr ''arrival_blocked''), (''source'', pe_source d),
     (''trigger_state'', pe_trigger d), (''trigger_prev_state'', pe_prev d),
     (''direction_reason'', JStr (if pf_departure f then ''departure_from_home''
        else if \<not> pf_confirmed f then ''external_cycle_not_confirmed''
        else if pf_stale f then ''stale_home_catchup'' else ''transition_not_arrival_eligible'')),
     (''simulated'', JBool (pe_test d)), (''dispatched'', JFalse), (''event_at'', event_at e d)])])"

text \<open>The key of an arrival in the memory of recent ones.\<close>

definition arrival_event_key :: "env \<Rightarrow> people \<Rightarrow> string \<Rightarrow> string" where
  "arrival_event_key e d stage = join_with '':'' [key_text (pe_source d), stage, to_str (dflt (pe_trigger d) (JStr ''?'')),
     num_str (num_or (event_at e d) (clock e))]"

definition recovery_event_key :: "env \<Rightarrow> people \<Rightarrow> string" where
  "recovery_event_key e d = join_with '':'' [''lighting_tracker_recovery_approach'', key_text (pe_source d),
     num_str (num_or (event_at e d) (clock e))]"

record routed =
  rt_people :: people
  rt_baseline :: life
  rt_life :: life
  rt_facts :: person_facts
  rt_arrival :: "jv option"
  rt_lighting :: "jv option"
  rt_blocked :: "jv option"

definition seen_before :: "string \<Rightarrow> life \<Rightarrow> bool" where
  "seen_before k l = truthy (jget (jget (lf_recovery l) ''recent_arrivals'') k)"

definition note_arrival :: "env \<Rightarrow> string \<Rightarrow> life \<Rightarrow> life" where
  "note_arrival e k l = l\<lparr>lf_recovery := jset (lf_recovery l) ''recent_arrivals''
     (jset (jget (lf_recovery l) ''recent_arrivals'') k (JNum (clock e)))\<rparr>"

definition people_route :: "env \<Rightarrow> jv \<Rightarrow> people \<Rightarrow> life \<Rightarrow> person_facts \<Rightarrow> life \<Rightarrow> routed" where
  "people_route e m d base f l =
    (let idle = \<lparr>rt_people = d, rt_baseline = base, rt_life = l, rt_facts = f, rt_arrival = None, rt_lighting = None,
           rt_blocked = None\<rparr> in
     if arrival_eligible d f then
       (let k = arrival_event_key e d (people_stage f); l1 = arrival_life d f l in
        if seen_before k l1 then idle\<lparr>rt_life := l1\<rparr>
        else idle\<lparr>rt_life := note_arrival e k l1, rt_arrival := Some (arrival_message e m d (people_stage f) [])\<rparr>)
     else if recovery_eligible d f then
       (let k = recovery_event_key e d; l1 = recovery_life d l in
        if seen_before k l1 then idle\<lparr>rt_life := l1\<rparr>
        else idle\<lparr>rt_life := note_arrival e k l1,
          rt_lighting := Some (arrival_message e m d (recovery_stage d) [(''illumination_only'', JTrue)])\<rparr>)
     else if blocked_eligible d f then idle\<lparr>rt_blocked := Some (blocked_message e m d f)\<rparr>
     else idle)"

text \<open>What a message does, after the adapter of test messages, before the store is written.\<close>

definition people_read :: "env \<Rightarrow> ctx \<Rightarrow> jv \<Rightarrow> (jv \<times> routed) run" where
  "people_read e c m =
    wire (people_normalize e c m) (\<lambda>c d. wire (people_load e c d) (\<lambda>c l0.
      let (f, l) = people_facts e d l0 in Emit c (m, people_route e m d l0 f l)))"

section \<open>The early notice\<close>

abbreviation cycles_key :: string where
  "cycles_key \<equiv> ''people_notification_cycles_v1''"

definition person_jv :: "person \<Rightarrow> jv" where
  "person_jv p = JObj
    [(''entity_id'', ps_entity p), (''state'', ps_state p), (''raw_state'', JStr (ps_raw p)), (''latitude'', ps_latitude p),
     (''longitude'', ps_longitude p), (''gps_accuracy'', ps_accuracy p), (''location_reliable'', JBool (ps_reliable p)),
     (''state_valid'', JBool (ps_ready p)), (''updated_at'', ps_updated p), (''source_updated_at'', ps_reported p),
     (''source_stale'', JBool (ps_source_stale p)), (''observation_advanced'', JBool (ps_advanced p)),
     (''any_source_reporting'', JBool (ps_reporting p)), (''stale'', JBool (ps_stale p)), (''ready'', JBool (ps_ready p)),
     (''distance_m'', ps_distance p), (''gate_distance_m'', ps_gate p),
     (''current_home'', if ps_ready p then JBool (ps_home p) else JNull), (''primary_home'', JBool (ps_home p)),
     (''best_location_away'', JBool (ps_away p)), (''any_tracker_home'', JBool (ps_home p)),
     (''any_tracker_away'', JBool (ps_away p)), (''stationary_home'', JBool (ps_stationary p)),
     (''primary_home_for_ms'', ps_home_for p)]"

definition notice_radius :: "people \<Rightarrow> jnum" where
  "notice_radius d = jnum_of (pe_policy d) ''notification_approach_radius_m''"

definition notice_current :: "env \<Rightarrow> people \<Rightarrow> person \<Rightarrow> bool" where
  "notice_current e d p = (ps_ready p \<and> \<not> ps_stale p \<and> num_fin (ps_distance p) \<and> num_fin (ps_updated p) \<and>
     Fin 0 < to_num (ps_updated p) \<and> to_num (ps_updated p) \<le> clock e + people_future d \<and>
     clock e - to_num (ps_updated p) \<le> jnum_of (pe_policy d) ''location_fresh_minutes'' * 60000)"

definition notice_due :: "env \<Rightarrow> people \<Rightarrow> person \<Rightarrow> jv \<Rightarrow> bool" where
  "notice_due e d p cycle = (notice_current e d p \<and> fin (notice_radius d) \<and>
     (\<not> truthy cycle \<or> jnum_of cycle ''observed_at'' < to_num (ps_updated p)))"

text \<open>A new cycle starts when there is none, when the radius changed, and when a completed one is left.\<close>

definition notice_cycle :: "people \<Rightarrow> string \<Rightarrow> person \<Rightarrow> jv \<Rightarrow> jv" where
  "notice_cycle d role p cycle =
    (if \<not> truthy cycle \<or> \<not> jseq (jget cycle ''radius_m'') (JNum (notice_radius d)) \<or>
        truthy (jget cycle ''completed'') \<and> \<not> current_home p
     then JObj [(''id'', JStr (role @ '':'' @ num_str (to_num (ps_updated p)))), (''radius_m'', JNum (notice_radius d)),
       (''outside'', JFalse), (''issued'', JFalse), (''completed'', JFalse)]
     else cycle)"

definition notice_eligible :: "people \<Rightarrow> life \<Rightarrow> string \<Rightarrow> person \<Rightarrow> jv \<Rightarrow> bool" where
  "notice_eligible d l role p cycle =
    (let dist = to_num (ps_distance p) in
     \<not> truthy (jget cycle ''issued'') \<and> \<not> truthy (jget cycle ''completed'') \<and> truthy (jget cycle ''outside'') \<and>
     dist \<le> notice_radius d \<and> dist < jnum_of cycle ''distance_m'' \<and> \<not> current_home p \<and> lf_armed l role = JTrue)"

definition notice_moved :: "people \<Rightarrow> person \<Rightarrow> jv \<Rightarrow> jv" where
  "notice_moved d p cycle =
    (let c1 = (if notice_radius d < to_num (ps_distance p) then jset cycle ''outside'' JTrue else cycle);
         c2 = (if current_home p then jset c1 ''completed'' JTrue else c1) in
     jsets c2 [(''observed_at'', ps_updated p), (''distance_m'', ps_distance p)])"

text \<open>The turn of the loop for one resident: the new cycles and the residents with a notice.\<close>

definition notice_role :: "env \<Rightarrow> people \<Rightarrow> life \<Rightarrow> string \<Rightarrow> jv \<times> string list \<Rightarrow> jv \<times> string list" where
  "notice_role e d l role acc =
    (let p = pe_person d role; cycle = jget (fst acc) role; cycle' = notice_cycle d role p cycle in
     if notice_due e d p cycle then
       (jset (fst acc) role (notice_moved d p cycle'), if notice_eligible d l role p cycle' then snd acc @ [role] else snd acc)
     else acc)"

definition notice_state :: "jv \<Rightarrow> jv" where
  "notice_state saved = (if jget saved ''version'' = JNum 1 then saved
     else JObj [(''version'', JNum 1), (''residents'', JObj [])])"

text \<open>The notice of an announced arrival: none before the resident was outside the radius, and with the name of
  the cycle when there is one.\<close>

definition arrival_notice :: "people \<Rightarrow> jv \<Rightarrow> jv option \<Rightarrow> jv option" where
  "arrival_notice d cycles arrival =
    (let cycle = (if source_key d \<in> set residents then jget cycles (source_key d) else JUndef) in
     case arrival of
       None \<Rightarrow> None
     | Some a \<Rightarrow>
       if plget a ''arrival_stage'' = JStr ''approach'' \<and> jget cycle ''outside'' \<noteq> JTrue then None
       else Some (if truthy cycle then plsets a [(''notification_cycle_id'', jget cycle ''id'')] else a))"

record notified =
  nt_routed :: routed
  nt_state :: jv
  nt_roles :: "string list"
  nt_notices :: "jv list"

definition notify_facts :: "env \<Rightarrow> ctx \<Rightarrow> routed \<Rightarrow> notified run" where
  "notify_facts e c r =
    (let d = rt_people r; t = pe_test d; state = notice_state (sget t c cycles_key); cycles = jget state ''residents'';
         acc = fold (notice_role e d (rt_life r)) residents (cycles, []); state' = jset state ''residents'' (fst acc) in
     if nullish cycles then Raise c
     else Emit (sset t c cycles_key state') \<lparr>nt_routed = r, nt_state = state', nt_roles = snd acc,
       nt_notices = one_of (arrival_notice d (fst acc) (rt_arrival r))\<rparr>)"

definition notice_message :: "jv \<Rightarrow> people \<Rightarrow> jv \<Rightarrow> string \<Rightarrow> jv" where
  "notice_message m d cycles role =
    (let p = pe_person d role in JObj [(''_location_test'', JBool (pe_test d)), (''payload'', JObj
      [(''contract'', JStr ''security.arrival.v1''), (''kind'', JStr ''arrival''), (''source'', JStr role),
       (''arriving'', JArr [JStr role]), (''arrival_source_type'', JStr ''person''), (''arrival_stage'', JStr ''approach''),
       (''arrival_direction'', JStr ''returning''), (''external_cycle_confirmed'', JTrue), (''notification_only'', JTrue),
       (''notification_cycle_id'', jget (jget cycles role) ''id''), (''notification_radius_m'', JNum (notice_radius d)),
       (''event_at'', ps_updated p), (''arrival_resident_snapshot'', person_jv p), (''test_mode'', JBool (pe_test d)),
       (''test_case'', dflt (jget m ''_location_test_case'') JNull)])])"

definition notify_build :: "ctx \<Rightarrow> jv \<Rightarrow> notified \<Rightarrow> notified run" where
  "notify_build c m n =
    (let d = rt_people (nt_routed n); cycles = jget (nt_state n) ''residents'';
         cycles' = fold (\<lambda>role cs. jset cs role (jset (jget cs role) ''issued'' JTrue)) (nt_roles n) cycles;
         state' = jset (nt_state n) ''residents'' cycles'; early = map (notice_message m d cycles') (nt_roles n);
         kept = filter (\<lambda>a. plget a ''source'' \<notin> JStr ` set (nt_roles n)) (nt_notices n) in
     if nt_roles n = [] then Emit c n
     else Emit (sset (pe_test d) c cycles_key state') (n\<lparr>nt_state := state', nt_notices := early @ kept\<rparr>))"

section \<open>Storing and publishing\<close>

text \<open>Entries this message did not change are taken from the store, where another message may have written
  them in the meantime.\<close>

definition merge_entry :: "jv \<Rightarrow> string \<Rightarrow> (string \<Rightarrow> jv) \<Rightarrow> (string \<Rightarrow> jv) \<Rightarrow> string \<Rightarrow> jv" where
  "merge_entry latest field base mine role =
    (if jget latest ''version'' = JNum 1 \<and> truthy (jget latest field) \<and> role \<in> set residents \<and> json_same (mine role) (base role)
     then jget (jget latest field) role else mine role)"

definition merge_life :: "jv \<Rightarrow> life \<Rightarrow> life \<Rightarrow> life" where
  "merge_life latest base mine = mine\<lparr>
     lf_armed := merge_entry latest ''arrival_armed'' (lf_armed base) (lf_armed mine),
     lf_external := merge_entry latest ''external_since'' (lf_external base) (lf_external mine),
     lf_excursion := merge_entry latest ''local_excursions'' (lf_excursion base) (lf_excursion mine),
     lf_candidate := merge_entry latest ''home_arrival_candidates'' (lf_candidate base) (lf_candidate mine)\<rparr>"

text \<open>The entries of the two residents. A source that is no resident can leave a further entry behind, which no
  node reads.\<close>

definition by_resident :: "(string \<Rightarrow> jv) \<Rightarrow> jv" where
  "by_resident f = JObj (map (\<lambda>role. (role, f role)) residents)"

definition stored_life :: "env \<Rightarrow> people \<Rightarrow> jv \<Rightarrow> life \<Rightarrow> jv" where
  "stored_life e d latest l = jsets (lf_recovery l)
    [(''arrival_armed'', by_resident (lf_armed l)), (''external_since'', by_resident (lf_external l)),
     (''local_excursions'', by_resident (lf_excursion l)), (''home_arrival_candidates'', by_resident (lf_candidate l)),
     (''recent_arrivals'', arrivals_kept e d
        (jspread (dflt (jget latest ''recent_arrivals'') (JObj [])) (jget (lf_recovery l) ''recent_arrivals''))),
     (''updated_at'', JNum (clock e))]"

definition nearest_distance :: "people \<Rightarrow> jv" where
  "nearest_distance d = (case filter (\<lambda>v. v \<noteq> JNull) (map (\<lambda>role. ps_distance (pe_person d role)) residents) of
     [] \<Rightarrow> JNull | v # vs \<Rightarrow> JNum (fold jmin (map to_num vs) (to_num v)))"

definition person_out :: "people \<Rightarrow> person \<Rightarrow> bool" where
  "person_out d p = (ps_ready p \<and> (if ps_distance p \<noteq> JNull then jnum_of (pe_policy d) ''home_radius_m'' < to_num (ps_distance p)
     else ps_state p = JStr ''not_home''))"

definition people_context :: "people \<Rightarrow> life \<Rightarrow> jv" where
  "people_context d l =
    (let p = pe_person d ''resident_primary''; s = pe_person d ''resident_secondary''; ready = (ps_ready p \<and> ps_ready s) in JObj
     [(''resident_primary'', person_jv p), (''resident_secondary'', person_jv s),
      (''home_radius_m'', JNum (jnum_of (pe_policy d) ''home_radius_m'')),
      (''near_home_radius_m'', JNum (jnum_of (pe_policy d) ''near_home_radius_m'')),
      (''best_location_away'', JBool (ps_away p \<or> ps_away s)), (''any_tracker_away'', JBool (ps_away p \<or> ps_away s)),
      (''anyone_away'', if ready then JBool (person_out d p \<or> person_out d s) else JNull),
      (''nearest_distance_m'', nearest_distance d), (''state_valid'', JBool ready), (''ready'', JBool ready),
      (''stale'', JBool (ps_stale p \<or> ps_stale s)),
      (''updated_at'', JNum (fold jmax (map to_num (filter num_fin [ps_updated p, ps_updated s])) 0)),
      (''arrival_armed'', by_resident (lf_armed l)), (''local_excursions'', by_resident (lf_excursion l))])"

definition people_payload :: "people \<Rightarrow> person_facts \<Rightarrow> jv \<Rightarrow> jv" where
  "people_payload d f ctx =
    (let ready = (jget ctx ''ready'' = JTrue) in JObj
     [(''contract'', JStr ''security.people-context.v1''), (''kind'', JStr ''people_context''), (''context'', ctx),
      (''trigger_entity'', pe_entity d), (''trigger_state'', pe_trigger d), (''trigger_prev_state'', pe_prev d),
      (''confirmed_home_transition'', JBool (pe_event d \<and> pf_ready f \<and> pf_prev_valid f \<and> pe_trigger d = JStr ''home'' \<and>
         pe_prev d \<noteq> JStr ''home'')),
      (''refresh_cycle_id'', pe_cycle d), (''updated_at'', jget ctx ''updated_at''), (''valid'', jget ctx ''state_valid''),
      (''ready'', jget ctx ''ready''), (''stale'', jget ctx ''stale''), (''source'', dflt (pe_source d) (JStr ''people'')),
      (''reason'', JStr (if ready then ''current_entities'' else ''entity_stale_or_unavailable''))])"

definition mark_dry :: "people \<Rightarrow> jv \<Rightarrow> jv \<Rightarrow> jv" where
  "mark_dry d tc a = (if pe_test d then plsets a [(''test_mode'', JTrue), (''test_case'', tc)] else a)"

definition people_finalize :: "env \<Rightarrow> ctx \<Rightarrow> jv \<Rightarrow> notified \<Rightarrow> ports run" where
  "people_finalize e c m n =
    (let r = nt_routed n; d = rt_people r; t = pe_test d; latest = sget t c life_key;
         l = merge_life latest (rt_baseline r) (rt_life r); ctx = people_context d l;
         tc = dflt (jget m ''_location_test_case'') JNull; logged_key = ''security_people_ready_logged'';
         c1 = mset t (sset t (mset t c people_armed_key (by_resident (lf_armed l))) life_key (stored_life e d latest l))
           ''people_context_v1'' ctx;
         c2 = (if \<not> jseq (mget t c1 logged_key) (jget ctx ''ready'')
           then logged NodeLog (mset t c1 logged_key (jget ctx ''ready'')) else c1) in
     Emit c2 [[mark_dry d tc (jset m ''payload'' (people_payload d (rt_facts r) ctx))],
       one_of (map_option (mark_dry d tc) (rt_arrival r)), one_of (rt_lighting r), one_of (rt_blocked r), nt_notices n])"

text \<open>What a message does once it reaches the store, and the whole flow when no other message comes between.\<close>

definition people_write :: "env \<Rightarrow> ctx \<Rightarrow> jv \<times> routed \<Rightarrow> ports run" where
  "people_write e c x =
    wire (wire (notify_facts e c (snd x)) (\<lambda>c n. notify_build c (fst x) n)) (\<lambda>c n. people_finalize e c (fst x) n)"

definition people_flow :: "env \<Rightarrow> ctx \<Rightarrow> jv \<Rightarrow> ports run" where
  "people_flow e c m = wire (people_read e c m) (people_write e)"

section \<open>What a run leaves\<close>

lemma residents_distinct: "distinct residents"
  by (simp add: residents_def)

lemma by_resident_get: "role \<in> set residents \<Longrightarrow> jget (by_resident f) role = f role"
  by (auto simp: by_resident_def residents_def)

lemma by_resident_obj [simp]: "is_obj (by_resident f)" "truthy (by_resident f)"
  by (simp_all add: by_resident_def)

lemma read_facts:
  assumes "people_read e c m = Emit c0 x"
  defines "d \<equiv> read_people e c m"
  shows "fper c0 = fper c" "fmem c0 = fmem c" "glob c0 = glob c"
    "x = (m, people_route e m d (loaded_life e c d) (fst (people_facts e d (loaded_life e c d))) (snd (people_facts e d (loaded_life e c d))))"
  using assms
  by (auto simp: people_read_def people_normalize_def people_load_def d_def Let_def wire_Emit_iff
      split: if_splits prod.splits)

lemma route_keeps [simp]:
  "rt_people (people_route e m d base f l) = d" "rt_baseline (people_route e m d base f l) = base"
  "rt_facts (people_route e m d base f l) = f"
  by (simp_all add: people_route_def Let_def)

lemma notify_facts_frame:
  assumes "notify_facts e c r = Emit c' n"
  shows "nt_routed n = r" "fmem c' k = (if pe_test (rt_people r) \<and> k = tkey True cycles_key then fmem c' k else fmem c k)"
    "k \<noteq> cycles_key \<Longrightarrow> fper c' k = fper c k"
  using assms by (auto simp: notify_facts_def Let_def sset_def split: if_splits)

lemma notify_build_frame:
  assumes "notify_build c m n = Emit c' n'"
  shows "nt_routed n' = nt_routed n"
    "fmem c' k = (if pe_test (rt_people (nt_routed n)) \<and> k = tkey True cycles_key then fmem c' k else fmem c k)"
    "k \<noteq> cycles_key \<Longrightarrow> fper c' k = fper c k"
  using assms by (auto simp: notify_build_def Let_def sset_def split: if_splits)

lemma mark_production: "\<not> pe_test d \<Longrightarrow> mark_dry d tc = (\<lambda>a. a)"
  by (simp add: mark_dry_def fun_eq_iff)

lemma finalize_run:
  fixes c
  assumes "\<not> pe_test (rt_people (nt_routed n))"
  defines "r \<equiv> nt_routed n"
  defines "l \<equiv> merge_life (fper c life_key) (rt_baseline r) (rt_life r)"
  shows "fper (ctx_of (people_finalize e c m n)) = (fper c)(life_key := stored_life e (rt_people r) (fper c life_key) l)"
    "fmem (ctx_of (people_finalize e c m n)) people_armed_key = by_resident (lf_armed l)"
    "sent (people_finalize e c m n) = Some [[jset m ''payload'' (people_payload (rt_people r) (rt_facts r) (people_context (rt_people r) l))],
       one_of (rt_arrival r), one_of (rt_lighting r), one_of (rt_blocked r), nt_notices n]"
  using assms(1)
  by (simp_all add: people_finalize_def Let_def r_def l_def sget_def sset_def mset_def mget_def tkey_def mark_production option.map_ident)

lemma write_facts:
  fixes c
  assumes "people_write e c (m, r) = Emit c' ps" "\<not> pe_test (rt_people r)"
  defines "l \<equiv> merge_life (fper c life_key) (rt_baseline r) (rt_life r)"
  shows "fper c' life_key = stored_life e (rt_people r) (fper c life_key) l" "fmem c' people_armed_key = by_resident (lf_armed l)"
    "port 1 ps = one_of (rt_arrival r)" "port 2 ps = one_of (rt_lighting r)"
proof -
  obtain c1 n1 c2 n2 where s: "notify_facts e c r = Emit c1 n1" "notify_build c1 m n1 = Emit c2 n2" "people_finalize e c2 m n2 = Emit c' ps"
    using assms(1) by (auto simp: people_write_def wire_Emit_iff)
  have n: "nt_routed n2 = r" using notify_facts_frame(1) [OF s(1)] notify_build_frame(1) [OF s(2)] by simp
  have c: "fper c2 life_key = fper c life_key"
    using notify_facts_frame(3) [OF s(1)] notify_build_frame(3) [OF s(2)] by simp
  note run = finalize_run [of n2 e c2 m, unfolded n s(3) c, OF assms(2), folded l_def]
  show "fper c' life_key = stored_life e (rt_people r) (fper c life_key) l" "fmem c' people_armed_key = by_resident (lf_armed l)"
    "port 1 ps = one_of (rt_arrival r)" "port 2 ps = one_of (rt_lighting r)"
    using run by (simp_all add: port_def)
qed

section \<open>Messages side by side\<close>

definition life_fields :: "string list" where
  "life_fields = [''arrival_armed'', ''external_since'', ''local_excursions'', ''home_arrival_candidates'']"

definition life_field :: "string \<Rightarrow> life \<Rightarrow> string \<Rightarrow> jv" where
  "life_field k l = (if k = ''arrival_armed'' then lf_armed l else if k = ''external_since'' then lf_external l
     else if k = ''local_excursions'' then lf_excursion l else lf_candidate l)"

definition stored_entry :: "ctx \<Rightarrow> string \<Rightarrow> string \<Rightarrow> jv" where
  "stored_entry c k role = jget (jget (fper c life_key) k) role"

definition changes :: "routed \<Rightarrow> string \<Rightarrow> string \<Rightarrow> bool" where
  "changes r k role = (\<not> json_same (life_field k (rt_life r) role) (life_field k (rt_baseline r) role))"

definition store_ready :: "ctx \<Rightarrow> bool" where
  "store_ready c = (jget (fper c life_key) ''version'' = JNum 1 \<and> (\<forall>k\<in>set life_fields. truthy (jget (fper c life_key) k)))"

lemma merge_field: "k \<in> set life_fields \<Longrightarrow>
    life_field k (merge_life latest base mine) = merge_entry latest k (life_field k base) (life_field k mine)"
  by (auto simp: life_fields_def life_field_def merge_life_def)

lemma stored_get:
  assumes "is_obj (lf_recovery l)"
  shows "jget (stored_life e d latest l) ''version'' = jget (lf_recovery l) ''version''"
    "jget (stored_life e d latest l) ''arrival_armed'' = by_resident (lf_armed l)"
    "jget (stored_life e d latest l) ''external_since'' = by_resident (lf_external l)"
    "jget (stored_life e d latest l) ''local_excursions'' = by_resident (lf_excursion l)"
    "jget (stored_life e d latest l) ''home_arrival_candidates'' = by_resident (lf_candidate l)"
  by (simp_all add: stored_life_def jget_jsets assms)

lemma stored_field:
  assumes "is_obj (lf_recovery l)" "k \<in> set life_fields" "role \<in> set residents"
  shows "jget (jget (stored_life e d latest l) k) role = life_field k l role"
proof -
  have "k = ''arrival_armed'' \<or> k = ''external_since'' \<or> k = ''local_excursions'' \<or> k = ''home_arrival_candidates''"
    using assms(2) by (simp add: life_fields_def)
  then show ?thesis
    by (elim disjE) (simp_all only: stored_get(2-5) [OF assms(1)] by_resident_get [OF assms(3)], simp_all add: life_field_def)
qed

text \<open>What a message carries between reading and writing.\<close>

lemma route_life:
  "rt_life (people_route e m d base f l) =
    (if arrival_eligible d f then
       (if seen_before (arrival_event_key e d (people_stage f)) (arrival_life d f l) then arrival_life d f l
        else note_arrival e (arrival_event_key e d (people_stage f)) (arrival_life d f l))
     else if recovery_eligible d f then
       (if seen_before (recovery_event_key e d) (recovery_life d l) then recovery_life d l
        else note_arrival e (recovery_event_key e d) (recovery_life d l))
     else l)"
  by (simp add: people_route_def Let_def)

lemma route_recovery:
  assumes "is_obj (lf_recovery l)"
  shows "is_obj (lf_recovery (rt_life (people_route e m d base f l)))"
    "jget (lf_recovery (rt_life (people_route e m d base f l))) ''version'' = jget (lf_recovery l) ''version''"
proof -
  have same: "lf_recovery (arrival_life d f l) = lf_recovery l" "lf_recovery (recovery_life d l) = lf_recovery l"
    by (simp_all add: arrival_life_def recovery_life_def disarm_source_def drop_candidate_def Let_def)
  show "is_obj (lf_recovery (rt_life (people_route e m d base f l)))"
    "jget (lf_recovery (rt_life (people_route e m d base f l))) ''version'' = jget (lf_recovery l) ''version''"
    unfolding route_life by (simp_all add: note_arrival_def same assms)
qed

lemma facts_recovery: "lf_recovery (snd (people_facts e d l)) = lf_recovery l"
  by (simp add: people_facts_def note_snapshot_def note_source_def note_excursion_def arm_source_def note_outside_def Let_def)

lemma loaded_record: "is_obj (lf_recovery (loaded_life e c d))" "jget (lf_recovery (loaded_life e c d)) ''version'' = JNum 1"
  by (simp_all add: loaded_life_def life_record_def Let_def)

lemma read_record:
  assumes "people_read e c m = Emit c0 (m', r)" "\<not> test_msg m"
  shows "is_obj (lf_recovery (rt_life r))" "jget (lf_recovery (rt_life r)) ''version'' = JNum 1" "\<not> pe_test (rt_people r)"
  using read_facts(4) [OF assms(1)] assms(2) by (simp_all add: route_recovery facts_recovery loaded_record read_people_def Let_def)

lemma merge_recovery [simp]: "lf_recovery (merge_life latest base mine) = lf_recovery mine"
  by (simp add: merge_life_def)

lemma write_entry:
  assumes "people_write e c (m, r) = Emit c' ps" "\<not> pe_test (rt_people r)" "is_obj (lf_recovery (rt_life r))"
    and "k \<in> set life_fields" "role \<in> set residents"
  shows "stored_entry c' k role = merge_entry (fper c life_key) k (life_field k (rt_baseline r)) (life_field k (rt_life r)) role"
  using write_facts(1) [OF assms(1,2)] assms(3-5) by (simp add: stored_entry_def stored_field merge_field)

text \<open>A sequence of commits: each message was read at some earlier moment, in whatever state the store was
  then; dry runs and other nodes may come between.\<close>

inductive commits :: "ctx \<Rightarrow> routed list \<Rightarrow> ctx \<Rightarrow> bool" where
  none: "commits c [] c"
| commit: "commits c rs c1 \<Longrightarrow> people_read e c0 m = Emit c0' (m', r) \<Longrightarrow> \<not> test_msg m \<Longrightarrow>
    people_write e' c1 (m', r) = Emit c2 ps \<Longrightarrow> commits c (rs @ [r]) c2"
| other: "commits c rs c1 \<Longrightarrow> fper c2 life_key = fper c1 life_key \<Longrightarrow> commits c rs c2"

lemma commit_ready:
  assumes "people_write e c (m, r) = Emit c' ps" "\<not> pe_test (rt_people r)" "is_obj (lf_recovery (rt_life r))"
    and "jget (lf_recovery (rt_life r)) ''version'' = JNum 1"
  shows "store_ready c'"
  using write_facts(1) [OF assms(1,2)] assms(3,4) by (simp add: store_ready_def stored_get life_fields_def)

text \<open>C28: No update is lost. Two residents move at once and their messages are read before either is stored:
  whatever the order of the commits and whenever each message was read, an entry of the store (armed, outside
  since, excursion, pending arrival, by resident) ends with the value of the last message that changed it
  itself, and with the stored value when none did.\<close>

theorem no_lost_updates:
  assumes "commits c rs c'" "store_ready c" "k \<in> set life_fields" "role \<in> set residents"
  shows "store_ready c' \<and> stored_entry c' k role =
    fold (\<lambda>r v. if changes r k role then life_field k (rt_life r) role else v) rs (stored_entry c k role)"
  using assms
proof induction
  case (commit c rs c1 e c0 m c0' m' r e' c2 ps)
  note rec = read_record [OF commit.hyps(2,3)]
  have "store_ready c1" using commit by blast
  then have "jget (fper c1 life_key) ''version'' = JNum 1" "truthy (jget (fper c1 life_key) k)"
    using commit.prems(2) by (auto simp: store_ready_def)
  then have "stored_entry c2 k role = (if changes r k role then life_field k (rt_life r) role else stored_entry c1 k role)"
    using write_entry [OF commit.hyps(4) rec(3,1) commit.prems(2,3)] commit.prems(3)
    by (auto simp: merge_entry_def changes_def stored_entry_def)
  then show ?case using commit commit_ready [OF commit.hyps(4) rec(3,1,2)] by simp
qed (auto simp: store_ready_def stored_entry_def)

section \<open>Dry runs\<close>

lemma isolated_tset [simp, intro]: "isolated c c' \<Longrightarrow> t \<Longrightarrow> isolated c (sset t c' k v)" "isolated c c' \<Longrightarrow> t \<Longrightarrow> isolated c (mset t c' k v)"
  by simp_all

lemma read_isolated: "isolated c (ctx_of (people_read e c m))"
  by (auto simp: people_read_def people_normalize_def people_load_def Let_def isolated_def split: prod.splits)

lemma finalize_isolated: "pe_test (rt_people (nt_routed n)) \<Longrightarrow> isolated c c1 \<Longrightarrow> isolated c (ctx_of (people_finalize e c1 m n))"
  by (simp add: people_finalize_def Let_def)

interpretation residents_life: dry_run people_flow test_msg
proof
  fix e c m
  assume t: "test_msg m"
  show "isolated c (ctx_of (people_flow e c m))"
  proof (cases "people_read e c m")
    case (Emit c0 x)
    then have i0: "isolated c c0" using read_isolated [of c e m] by simp
    obtain r where x: "x = (m, r)" "pe_test (rt_people r)"
      using read_facts(4) [OF Emit] t by (simp add: read_people_def Let_def)
    show ?thesis
    proof (cases "notify_facts e c0 r")
      case n: (Emit c1 n1)
      have i1: "isolated c c1" using n i0 x(2) by (auto simp: notify_facts_def Let_def split: if_splits)
      have r1: "nt_routed n1 = r" using notify_facts_frame(1) [OF n] .
      obtain c2 n2 where b: "notify_build c1 m n1 = Emit c2 n2" by (cases "nt_roles n1 = []") (simp_all add: notify_build_def Let_def)
      have "isolated c c2" using b i1 x(2) r1 by (auto simp: notify_build_def Let_def split: if_splits)
      then show ?thesis
        using finalize_isolated [of n2] notify_build_frame(1) [OF b] r1 x by (simp add: people_flow_def people_write_def Emit n b)
    qed (use i0 x(2) in \<open>auto simp: people_flow_def people_write_def Emit x notify_facts_def Let_def split: if_splits\<close>)
  qed (use read_isolated [of c e m] in \<open>simp_all add: people_flow_def\<close>)
qed

lemma dry_life:
  assumes "test_msg m"
  shows "fper (ctx_of (people_flow e c m)) = fper c" "fmem (ctx_of (people_flow e c m)) people_armed_key = fmem c people_armed_key"
  using residents_life.test_isolated [OF assms, of c e] by (simp_all add: isolated_def test_key_def)

section \<open>One arrival per excursion\<close>

abbreviation life_of :: "ctx \<Rightarrow> jv" where
  "life_of c \<equiv> life_record (fper c life_key)"

text \<open>A resident whom nothing in the store arms: neither memory, nor what a restart recovers, nor an arrival
  kept by a snapshot.\<close>

definition disarmed :: "ctx \<Rightarrow> string \<Rightarrow> bool" where
  "disarmed c role = (jget (fmem c people_armed_key) role \<noteq> JTrue \<and> jget (jget (life_of c) ''arrival_armed'') role \<noteq> JTrue \<and>
     jget (jget (life_of c) ''home_arrival_candidates'') role = JUndef)"

text \<open>The message shows that the resident has been outside for the configured time.\<close>

definition shows_outside :: "env \<Rightarrow> ctx \<Rightarrow> jv \<Rightarrow> string \<Rightarrow> bool" where
  "shows_outside e c m role =
    (let d = read_people e c m; l = loaded_life e c d; p = pe_person d role in
     seen_outside p \<and> outside_long e d p (outside_since e d p (lf_external l role)) \<or>
     source_key d = role \<and> stay_ended e d (note_outside e d l))"

lemma loaded_disarmed:
  assumes "disarmed c role" "\<not> pe_test d"
  shows "lf_armed (loaded_life e c d) role = JFalse" "lf_candidate (loaded_life e c d) role = JUndef"
  using assms
  by (simp_all add: disarmed_def loaded_life_def load_armed_def load_candidate_def Let_def mget_def sget_def tkey_def)

lemma facts_disarmed:
  fixes e d l
  assumes "lf_armed l role = JFalse" "lf_candidate l role = JUndef" "role \<in> set residents"
    and "\<not> (seen_outside (pe_person d role) \<and> outside_long e d (pe_person d role) (outside_since e d (pe_person d role) (lf_external l role)))"
    and "\<not> (source_key d = role \<and> stay_ended e d (note_outside e d l))"
  shows "lf_armed (snd (people_facts e d l)) role = JFalse" "lf_candidate (snd (people_facts e d l)) role = JUndef"
    "source_key d = role \<Longrightarrow> \<not> pf_confirmed (fst (people_facts e d l))"
proof -
  let ?l1 = "note_outside e d l" let ?l2 = "arm_source e d ?l1" let ?l3 = "note_excursion e d ?l2" let ?l4 = "note_source d ?l3"
  have 1: "lf_armed ?l1 role = JFalse" "lf_candidate ?l1 role = JUndef" using assms(1-4) by (auto simp: note_outside_def Let_def)
  have "\<not> (source_key d = role \<and> candidate_confirmed d ?l1)"
    using 1(2) by (auto simp: candidate_confirmed_def split: option.splits)
  then have 2: "lf_armed ?l2 role = JFalse" "lf_candidate ?l2 role = JUndef"
    using 1 assms(5) by (auto simp: arm_source_def)
  have 3: "lf_armed ?l3 role = JFalse" "lf_candidate ?l3 role = JUndef"
    using 2 by (auto simp: note_excursion_def Let_def)
  then show "source_key d = role \<Longrightarrow> \<not> pf_confirmed (fst (people_facts e d l))"
    by (simp add: people_facts_def person_facts_of_def Let_def)
  have 4: "lf_armed ?l4 role = JFalse" "lf_candidate ?l4 role = JUndef"
    using 3 by (auto simp: note_source_def Let_def)
  show "lf_armed (snd (people_facts e d l)) role = JFalse" "lf_candidate (snd (people_facts e d l)) role = JUndef"
    using 4 by (simp_all add: people_facts_def note_snapshot_def Let_def)
qed

lemma route_disarmed:
  fixes l
  assumes "lf_armed l role = JFalse" "lf_candidate l role = JUndef"
  shows "lf_armed (rt_life (people_route e m d base f l)) role = JFalse" "lf_candidate (rt_life (people_route e m d base f l)) role = JUndef"
  using assms
  by (auto simp: route_life arrival_life_def recovery_life_def note_arrival_def disarm_source_def drop_candidate_def Let_def)

text \<open>Only an armed source announces itself.\<close>

lemma arrival_source [simp]: "plget (arrival_message e m d stage extra) ''source'' = pe_source d"
  "plget (arrival_message e m d stage extra) ''arrival_stage'' = JStr stage"
  by (simp_all add: arrival_message_def people_mark_def plget_def payload_def)

lemma route_arrival:
  "rt_arrival (people_route e m d base f l) = Some a \<Longrightarrow> arrival_eligible d f \<and> a = arrival_message e m d (people_stage f) []"
  "rt_lighting (people_route e m d base f l) = Some a \<Longrightarrow> \<not> arrival_eligible d f \<and> recovery_eligible d f \<and>
     a = arrival_message e m d (recovery_stage d) [(''illumination_only'', JTrue)]"
  by (simp_all add: people_route_def Let_def split: if_splits)

lemma one_of_iff [simp]: "a \<in> set (one_of x) \<longleftrightarrow> x = Some a"
  by (cases x) (auto simp: one_of_def)

lemma route_announces:
  assumes "a \<in> set (one_of (rt_arrival (people_route e m d base f l)) @ one_of (rt_lighting (people_route e m d base f l)))"
  shows "plget a ''source'' = pe_source d" "pf_confirmed f"
proof -
  consider "rt_arrival (people_route e m d base f l) = Some a" | "rt_lighting (people_route e m d base f l) = Some a"
    using assms by auto
  then have "plget a ''source'' = pe_source d \<and> pf_confirmed f"
    by cases (auto dest!: route_arrival simp: arrival_eligible_def recovery_eligible_def)
  then show "plget a ''source'' = pe_source d" "pf_confirmed f" by simp_all
qed

lemma life_of_written:
  assumes "people_write e c (m, r) = Emit c' ps" "\<not> pe_test (rt_people r)" "is_obj (lf_recovery (rt_life r))"
    and "jget (lf_recovery (rt_life r)) ''version'' = JNum 1"
  shows "life_of c' = fper c' life_key"
  using write_facts(1) [OF assms(1,2)] assms(3,4) by (simp add: life_record_def stored_get) (simp add: stored_life_def)

lemma write_disarmed:
  assumes "people_write e c (m, r) = Emit c' ps" "\<not> pe_test (rt_people r)" "is_obj (lf_recovery (rt_life r))"
    and "jget (lf_recovery (rt_life r)) ''version'' = JNum 1" "role \<in> set residents"
    and "merge_entry (fper c life_key) ''arrival_armed'' (lf_armed (rt_baseline r)) (lf_armed (rt_life r)) role \<noteq> JTrue"
    and "merge_entry (fper c life_key) ''home_arrival_candidates'' (lf_candidate (rt_baseline r)) (lf_candidate (rt_life r)) role = JUndef"
  shows "disarmed c' role"
proof -
  have "stored_entry c' ''arrival_armed'' role \<noteq> JTrue" "stored_entry c' ''home_arrival_candidates'' role = JUndef"
    using write_entry [OF assms(1-3), of _ role] assms(5-7) by (simp_all add: life_fields_def life_field_def)
  moreover have "jget (fmem c' people_armed_key) role \<noteq> JTrue"
    using write_facts(2) [OF assms(1,2)] assms(5,6) by (simp add: by_resident_get merge_life_def)
  ultimately show ?thesis
    by (simp add: disarmed_def life_of_written [OF assms(1-4)] stored_entry_def)
qed

lemma flow_parts:
  assumes "people_flow e c m = Emit c' ps" "\<not> test_msg m"
  obtains c0 r where "people_read e c m = Emit c0 (m, r)" "people_write e c0 (m, r) = Emit c' ps" "fper c0 = fper c" "fmem c0 = fmem c"
    "is_obj (lf_recovery (rt_life r))" "jget (lf_recovery (rt_life r)) ''version'' = JNum 1" "\<not> pe_test (rt_people r)"
    "r = people_route e m (read_people e c m) (loaded_life e c (read_people e c m))
      (fst (people_facts e (read_people e c m) (loaded_life e c (read_people e c m))))
      (snd (people_facts e (read_people e c m) (loaded_life e c (read_people e c m))))"
proof -
  obtain c0 x where s: "people_read e c m = Emit c0 x" "people_write e c0 x = Emit c' ps"
    using assms(1) by (auto simp: people_flow_def wire_Emit_iff)
  note x = read_facts(4) [OF s(1)]
  note rec = read_record [OF s(1)[unfolded x] assms(2)]
  show ?thesis by (rule that [OF s(1)[unfolded x] s(2)[unfolded x] read_facts(1,2) [OF s(1)] rec(1-3) refl])
qed

lemma merge_disarmed:
  assumes "disarmed c role"
  shows "mine role \<noteq> JTrue \<Longrightarrow> merge_entry (fper c life_key) ''arrival_armed'' base mine role \<noteq> JTrue"
    "mine role = JUndef \<Longrightarrow> merge_entry (fper c life_key) ''home_arrival_candidates'' base mine role = JUndef"
  using assms by (auto simp: disarmed_def merge_entry_def life_record_def jget_not_obj split: if_splits)

lemma flow_disarmed:
  assumes "disarmed c role" "role \<in> set residents" "people_flow e c m = Emit c' ps" "\<not> test_msg m" "\<not> shows_outside e c m role"
  shows "disarmed c' role" "a \<in> set (port 1 ps @ port 2 ps) \<Longrightarrow> plget a ''source'' \<noteq> JStr role"
proof -
  obtain c0 r where s: "people_read e c m = Emit c0 (m, r)" "people_write e c0 (m, r) = Emit c' ps" "fper c0 = fper c" "fmem c0 = fmem c"
    "is_obj (lf_recovery (rt_life r))" "jget (lf_recovery (rt_life r)) ''version'' = JNum 1" "\<not> pe_test (rt_people r)"
    "r = people_route e m (read_people e c m) (loaded_life e c (read_people e c m))
      (fst (people_facts e (read_people e c m) (loaded_life e c (read_people e c m))))
      (snd (people_facts e (read_people e c m) (loaded_life e c (read_people e c m))))"
    by (rule flow_parts [OF assms(3,4)]) blast
  define d where "d = read_people e c m"
  define l where "l = loaded_life e c d"
  note out = assms(5)[unfolded shows_outside_def Let_def de_Morgan_disj, folded d_def, folded l_def]
  have "\<not> pe_test d" using assms(4) by (simp add: d_def read_people_def Let_def)
  note ld = loaded_disarmed [OF assms(1) this, of e, folded l_def]
  note f = facts_disarmed [OF ld assms(2) conjunct1 [OF out] conjunct2 [OF out]]
  note r = s(8)[folded d_def, folded l_def]
  have rd: "lf_armed (rt_life r) role = JFalse" "lf_candidate (rt_life r) role = JUndef"
    unfolding r by (rule route_disarmed [OF f(1,2)])+
  have c0: "disarmed c0 role" using assms(1) s(3,4) by (simp add: disarmed_def)
  show "disarmed c' role"
    by (rule write_disarmed [OF s(2,7,5,6) assms(2) merge_disarmed [OF c0]]) (simp_all add: rd)
  assume "a \<in> set (port 1 ps @ port 2 ps)"
  then have "a \<in> set (one_of (rt_arrival r) @ one_of (rt_lighting r))" using write_facts(3,4) [OF s(2,7)] by simp
  then have "plget a ''source'' = pe_source d \<and> pf_confirmed (fst (people_facts e d l))"
    unfolding r using route_announces by blast
  then show "plget a ''source'' \<noteq> JStr role" using f(3) by (auto simp: source_key_def)
qed

text \<open>The two places that keep who is armed agree: every commit writes both.\<close>

definition armed_agree :: "ctx \<Rightarrow> string \<Rightarrow> bool" where
  "armed_agree c role = (jget (jget (life_of c) ''arrival_armed'') role = JTrue \<longrightarrow> is_obj (fmem c people_armed_key) \<longrightarrow>
     jget (fmem c people_armed_key) role = JTrue)"

lemma jget_not_objectlike: "\<not> is_objectlike v \<Longrightarrow> jget v k = JUndef"
  by (cases v) simp_all

lemma home_disarms:
  assumes "people_flow e c m = Emit c' ps" "\<not> test_msg m" "role \<in> set residents" "armed_agree c role"
    and "a \<in> set (port 1 ps @ port 2 ps)" "plget a ''source'' = JStr role" "plget a ''arrival_stage'' = JStr ''home''"
    and "jget (jget (life_of c') ''home_arrival_candidates'') role = JUndef"
  shows "disarmed c' role"
proof -
  obtain c0 r where s: "people_read e c m = Emit c0 (m, r)" "people_write e c0 (m, r) = Emit c' ps" "fper c0 = fper c" "fmem c0 = fmem c"
    "is_obj (lf_recovery (rt_life r))" "jget (lf_recovery (rt_life r)) ''version'' = JNum 1" "\<not> pe_test (rt_people r)"
    "r = people_route e m (read_people e c m) (loaded_life e c (read_people e c m))
      (fst (people_facts e (read_people e c m) (loaded_life e c (read_people e c m))))
      (snd (people_facts e (read_people e c m) (loaded_life e c (read_people e c m))))"
    by (rule flow_parts [OF assms(1,2)]) blast
  define d where "d = read_people e c m"
  define l where "l = loaded_life e c d"
  define f where "f = fst (people_facts e d l)"
  define l' where "l' = snd (people_facts e d l)"
  note r = s(8)[folded d_def, folded l_def, folded f_def l'_def]
  have "a \<in> set (one_of (rt_arrival r) @ one_of (rt_lighting r))" using assms(5) write_facts(3,4) [OF s(2,7)] by simp
  then have a: "rt_arrival r = Some a \<or> rt_lighting r = Some a" by auto
  have k: "source_key d = role" using a assms(6) r route_arrival [of e m d l f l' a] by (auto simp: source_key_def)
  have armed: "lf_armed (rt_life r) role = JFalse"
    using a assms(7) route_arrival [of e m d l f l' a]
    by (auto simp: r route_life arrival_life_def recovery_life_def note_arrival_def disarm_source_def drop_candidate_def Let_def k
        people_stage_def recovery_stage_def arrival_eligible_def split: if_splits)
  have "\<not> pe_test d" using assms(2) by (simp add: d_def read_people_def Let_def)
  then have base: "lf_armed (rt_baseline r) role = JFalse \<Longrightarrow> is_obj (fmem c people_armed_key) \<Longrightarrow> jget (fmem c people_armed_key) role \<noteq> JTrue"
    "lf_armed (rt_baseline r) role = JFalse \<Longrightarrow> \<not> is_obj (fmem c people_armed_key) \<Longrightarrow> jget (jget (life_of c) ''arrival_armed'') role \<noteq> JTrue"
    by (auto simp: r l_def loaded_life_def load_armed_def Let_def mget_def sget_def tkey_def jget_not_obj
        jget_not_objectlike split: if_splits)
  have 1: "merge_entry (fper c0 life_key) ''arrival_armed'' (lf_armed (rt_baseline r)) (lf_armed (rt_life r)) role \<noteq> JTrue"
  proof (cases "lf_armed (rt_baseline r) role = JFalse")
    case True
    then show ?thesis using base assms(4) armed s(3)
      by (auto simp: merge_entry_def armed_agree_def life_record_def jget_not_obj split: if_splits)
  next
    case False
    then have "lf_armed (rt_baseline r) role = JTrue" by (simp add: r l_def loaded_life_def load_armed_def Let_def)
    then show ?thesis using armed by (simp add: merge_entry_def json_same_def)
  qed
  have 2: "merge_entry (fper c0 life_key) ''home_arrival_candidates'' (lf_candidate (rt_baseline r)) (lf_candidate (rt_life r)) role = JUndef"
    using write_entry [OF s(2,7,5), of "''home_arrival_candidates''" role] assms(3,8)
    by (simp add: life_fields_def life_field_def life_of_written [OF s(2,7,5,6)] stored_entry_def)
  show ?thesis by (rule write_disarmed [OF s(2,7,5,6) assms(3) 1 2])
qed

text \<open>A resident whose arrival at home was announced and who has not been outside for the configured time since:
  messages, test messages, restarts and other nodes may follow.\<close>

inductive after_home :: "string \<Rightarrow> ctx \<Rightarrow> bool" for role where
  announced: "people_flow e c m = Emit c' ps \<Longrightarrow> \<not> test_msg m \<Longrightarrow> armed_agree c role \<Longrightarrow>
    a \<in> set (port 1 ps @ port 2 ps) \<Longrightarrow> plget a ''source'' = JStr role \<Longrightarrow> plget a ''arrival_stage'' = JStr ''home'' \<Longrightarrow>
    jget (jget (life_of c') ''home_arrival_candidates'') role = JUndef \<Longrightarrow> after_home role c'"
| message: "after_home role c \<Longrightarrow> people_flow e c m = Emit c' ps \<Longrightarrow> test_msg m \<or> \<not> shows_outside e c m role \<Longrightarrow> after_home role c'"
| restart: "after_home role c \<Longrightarrow> fper c' = fper c \<Longrightarrow> fmem c' = (\<lambda>k. JUndef) \<Longrightarrow> after_home role c'"
| other: "after_home role c \<Longrightarrow> fper c' life_key = fper c life_key \<Longrightarrow> fmem c' people_armed_key = fmem c people_armed_key \<Longrightarrow>
    after_home role c'"

lemma after_home_disarmed:
  assumes "after_home role c" "role \<in> set residents"
  shows "disarmed c role"
  using assms
proof induction
  case (announced e c m c' ps a)
  then show ?case using home_disarms by blast
next
  case (message c e m c' ps)
  show ?case
  proof (cases "test_msg m")
    case True
    then show ?thesis using message dry_life [of m e c] by (simp add: disarmed_def)
  qed (use message flow_disarmed(1) in blast)
qed (simp_all add: disarmed_def)


section \<open>The theorems on concrete messages\<close>

lemma flow_emits:
  assumes "policy_ready (glob c ''location_policy_v1'')" "\<not> test_msg m" "\<not> nullish (jget (notice_state (fper c cycles_key)) ''residents'')"
  obtains c' ps where "people_flow e c m = Emit c' ps"
proof -
  obtain c0 x where r: "people_read e c m = Emit c0 x"
    using assms(1) by (simp add: people_read_def people_normalize_def people_load_def Let_def case_prod_beta)
  note x = read_facts(4) [OF r]
  have "pe_test (rt_people (snd x)) = False" unfolding x using assms(2) by (simp add: read_people_def Let_def)
  then obtain c1 n1 where 1: "notify_facts e c0 (snd x) = Emit c1 n1"
    using assms(3) by (simp add: notify_facts_def Let_def sget_def tkey_def read_facts(1) [OF r])
  obtain c2 n2 where 2: "notify_build c1 m n1 = Emit c2 n2" by (cases "nt_roles n1 = []") (simp_all add: notify_build_def Let_def)
  obtain c3 ps where 3: "people_finalize e c2 m n2 = Emit c3 ps" by (simp add: people_finalize_def Let_def)
  have "fst x = m" using x by simp
  then show ?thesis using that by (simp add: people_flow_def people_write_def r 1 2 3)
qed

definition doorstep_env :: "rat \<Rightarrow> env" where
  "doorstep_env t = (host_at (Fin t))\<lparr>date_parse := \<lambda>s. if s = ''now'' then Fin t else NaN\<rparr>"

lemma doorstep_env_reads [simp]:
  "clock (doorstep_env t) = Fin t" "date_parse (doorstep_env t) = (\<lambda>s. if s = ''now'' then Fin t else NaN)"
  by (simp_all add: doorstep_env_def)

text \<open>The phone of a resident reports \<open>home\<close>, ten metres from the house.\<close>

definition doorstep :: "string \<Rightarrow> jv" where
  "doorstep prev = JObj [(''payload'', JObj
    [(''event'', JStr ''location_update''), (''source'', JStr ''resident_primary''),
     (''trigger_state'', JStr ''home''), (''trigger_prev_state'', JStr prev),
     (''resident_primary_selected'', JObj [(''state'', JStr ''home''),
       (''attributes'', JObj [(''canonical_distance_home_m'', JNum 10)]), (''last_changed'', JStr ''now'')])])]"

definition returning :: ctx where
  "returning = default_policies\<lparr>fmem := (fmem default_policies)(people_armed_key := JObj [(''resident_primary'', JTrue)])\<rparr>"

lemma doorstep_reads [simp]:
  "\<not> test_msg (doorstep prev)" "plget (doorstep prev) ''source'' = JStr ''resident_primary''" "is_obj (doorstep prev)"
  "plget (doorstep prev) ''trigger_state'' = JStr ''home''" "plget (doorstep prev) ''trigger_prev_state'' = JStr prev"
  "plget (doorstep prev) ''event'' = JStr ''location_update''"
  by (simp_all add: doorstep_def test_msg_def plget_def payload_def)

lemma std_people_get:
  "jget std_location ''home_radius_m'' = JNum 100" "jget std_location ''source_report_fresh_minutes'' = JNum 75"
  "jget std_location ''primary_home_grace_minutes'' = JNum 10"
  by (simp_all add: std_location_def stored_policy_def location_defaults_def)

lemma doorstep_people:
  fixes c prev t
  assumes "glob c ''location_policy_v1'' = std_location"
  defines "d \<equiv> read_people (doorstep_env t) c (doorstep prev)"
  shows "pe_policy d = std_location" "\<not> pe_test d" "pe_event d" "source_key d = ''resident_primary''"
    "pe_source d = JStr ''resident_primary''" "pe_trigger d = JStr ''home''" "pe_prev d = JStr prev"
    "ps_ready (pe_person d ''resident_primary'')" "ps_home (pe_person d ''resident_primary'')"
    "ps_state (pe_person d ''resident_primary'') = JStr ''home''" "ps_updated (pe_person d ''resident_primary'') = JNum (Fin t)"
    "ps_advanced (pe_person d ''resident_primary'')" "ps_distance (pe_person d ''resident_primary'') = JNum 10"
    "ps_home_for (pe_person d ''resident_primary'') = JNum 0"
proof -
  define x where "x = JObj [(''state'', JStr ''home''),
       (''attributes'', JObj [(''canonical_distance_home_m'', JNum 10)]), (''last_changed'', JStr ''now'')]"
  have x: "plget (doorstep prev) ''resident_primary_selected'' = x"
    by (simp add: doorstep_def plget_def payload_def x_def)
  have at: "tracker_at (doorstep_env t) x ''location_observed_at'' ''last_changed'' = JNum (Fin t)"
    "parse_date (doorstep_env t) (jget x ''last_changed'') = Fin t"
    by (simp_all add: x_def tracker_at_def parse_date_def dflt_def fin_or_null_def)
  have attrs: "dflt (jget x ''attributes'') (JObj []) = JObj [(''canonical_distance_home_m'', JNum 10)]" "jget x ''state'' = JStr ''home''"
    by (simp_all add: x_def dflt_def)
  have dist: "num_observation (JNum (Fin 10)) = JNum (Fin 10)" by (simp add: num_observation_def fin_or_null_def)
  have zone: "valid_zone (JStr ''home'')" by (simp add: valid_zone_def)
  have person: "pe_person d ''resident_primary'' = read_person (doorstep_env t) std_location x
      (plget (doorstep prev) ''resident_primary'') (plget (doorstep prev) (''resident_primary'' @ ''_icloud''))"
    using assms(1) x by (simp add: d_def read_people_def Let_def)
  show "pe_policy d = std_location" "\<not> pe_test d" "pe_event d" "source_key d = ''resident_primary''"
    "pe_source d = JStr ''resident_primary''" "pe_trigger d = JStr ''home''" "pe_prev d = JStr prev"
    using assms(1) by (simp_all add: d_def read_people_def source_key_def Let_def)
  show "ps_ready (pe_person d ''resident_primary'')" "ps_home (pe_person d ''resident_primary'')"
    "ps_state (pe_person d ''resident_primary'') = JStr ''home''" "ps_updated (pe_person d ''resident_primary'') = JNum (Fin t)"
    "ps_advanced (pe_person d ''resident_primary'')" "ps_distance (pe_person d ''resident_primary'') = JNum 10"
    "ps_home_for (pe_person d ''resident_primary'') = JNum 0"
    unfolding person by (simp_all add: read_person_def Let_def at attrs dist zone fresh_at_def std_people_get fin_or_null_def)
qed

lemma doorstep_source:
  fixes c prev t
  assumes "glob c ''location_policy_v1'' = std_location"
  shows "source_person (read_people (doorstep_env t) c (doorstep prev)) = Some (pe_person (read_people (doorstep_env t) c (doorstep prev)) ''resident_primary'')"
    "\<not> seen_outside (pe_person (read_people (doorstep_env t) c (doorstep prev)) ''resident_primary'')"
  using doorstep_people [OF assms, of t prev]
  by (simp_all add: source_person_def residents_def seen_outside_def external_zone_def str_among_def)

lemma doorstep_facts:
  fixes c prev t l
  assumes "glob c ''location_policy_v1'' = std_location" "valid_zone (JStr prev)" "lf_armed l ''resident_primary'' = JTrue"
  defines "d \<equiv> read_people (doorstep_env t) c (doorstep prev)"
  defines "f \<equiv> fst (people_facts (doorstep_env t) d l)"
  shows "arrival_eligible d f" "people_stage f = ''home''" "pf_near f" "\<not> pf_approach f"
proof -
  note d = doorstep_people [OF assms(1), of t prev, folded d_def]
  note s = doorstep_source [OF assms(1), of t prev, folded d_def]
  have near: "person_near d (pe_person d ''resident_primary'')" by (simp add: person_near_def d inside_def Let_def)
  have long: "\<not> home_long d (pe_person d ''resident_primary'')" by (simp add: home_long_def home_grace_def d std_people_get)
  have "lf_armed (note_excursion (doorstep_env t) d (arm_source (doorstep_env t) d (note_outside (doorstep_env t) d l))) ''resident_primary'' = JTrue"
    using assms(3) s(2) by (simp add: note_excursion_def arm_source_def note_outside_def Let_def)
  then have f: "pf_confirmed f" "pf_near f" "\<not> pf_approach f" "\<not> pf_departure f" "\<not> pf_stale f" "pf_ready f" "pf_prev_valid f"
    using near long assms(2)
    by (simp_all add: f_def people_facts_def person_facts_of_def Let_def d s of_source_def person_approach_def person_departure_def)
  then show "arrival_eligible d f" "people_stage f = ''home''" "pf_near f" "\<not> pf_approach f"
    by (simp_all add: arrival_eligible_def people_stage_def d)
qed

lemma returning_reads [simp]:
  "glob returning ''location_policy_v1'' = std_location" "fper returning = (\<lambda>_. JUndef)"
  "fmem returning people_armed_key = JObj [(''resident_primary'', JTrue)]"
  by (simp_all add: returning_def)

lemma doorstep_home:
  obtains c where "after_home ''resident_primary'' c" "glob c ''location_policy_v1'' = std_location" "fper c cycles_key = JUndef" "store_ready c"
proof -
  let ?e = "doorstep_env 1000000" let ?m = "doorstep ''office''"
  obtain c' ps where s: "people_flow ?e returning ?m = Emit c' ps"
    by (rule flow_emits [of returning ?m ?e]) (simp_all add: notice_state_def)
  obtain c0 r where w: "people_read ?e returning ?m = Emit c0 (?m, r)" "people_write ?e c0 (?m, r) = Emit c' ps"
    "fper c0 = fper returning" "is_obj (lf_recovery (rt_life r))" "jget (lf_recovery (rt_life r)) ''version'' = JNum 1"
    "\<not> pe_test (rt_people r)"
    "r = people_route ?e ?m (read_people ?e returning ?m) (loaded_life ?e returning (read_people ?e returning ?m))
      (fst (people_facts ?e (read_people ?e returning ?m) (loaded_life ?e returning (read_people ?e returning ?m))))
      (snd (people_facts ?e (read_people ?e returning ?m) (loaded_life ?e returning (read_people ?e returning ?m))))"
    by (rule flow_parts [OF s]) (simp, blast)
  define d where "d = read_people ?e returning ?m"
  define l where "l = loaded_life ?e returning d"
  define f where "f = fst (people_facts ?e d l)"
  note r = w(7)[folded d_def, folded l_def, folded f_def]
  note d = doorstep_people [of returning 1000000 "''office''", folded d_def, simplified]
  have armed: "lf_armed l ''resident_primary'' = JTrue"
    using d(2) by (simp add: l_def loaded_life_def load_armed_def Let_def mget_def tkey_def)
  have zone: "valid_zone (JStr ''office'')" by (simp add: valid_zone_def)
  note f = doorstep_facts [of returning "''office''" l 1000000, folded d_def, folded f_def, OF _ zone armed, simplified]
  have fresh: "\<not> seen_before k (arrival_life d f (snd (people_facts ?e d l)))" for k
    using d(2) by (simp add: seen_before_def arrival_life_def disarm_source_def drop_candidate_def Let_def facts_recovery
        l_def loaded_life_def life_record_def sget_def tkey_def arrivals_kept_def)
  have out: "rt_arrival r = Some (arrival_message ?e ?m d ''home'' [])" "lf_candidate (rt_life r) ''resident_primary'' = JUndef"
    using f fresh d by (simp_all add: r people_route_def Let_def note_arrival_def arrival_life_def drop_candidate_def)
  have "stored_entry c' ''home_arrival_candidates'' ''resident_primary'' = JUndef"
    using write_entry [OF w(2,6,4), of "''home_arrival_candidates''" "''resident_primary''"] out(2)
    by (simp add: life_fields_def life_field_def residents_def merge_entry_def w(3))
  then have "after_home ''resident_primary'' c'"
    using after_home.announced [OF s, of "''resident_primary''" "arrival_message ?e ?m d ''home'' []"] out(1) write_facts(3) [OF w(2,6)] d(5)
    by (simp add: armed_agree_def life_record_def life_of_written [OF w(2,6,4,5)] stored_entry_def)
  then have "after_home ''resident_primary'' (returning\<lparr>fper := (fper returning)(life_key := fper c' life_key),
      fmem := (fmem returning)(people_armed_key := fmem c' people_armed_key)\<rparr>)"
    by (rule after_home.other) simp_all
  then show ?thesis by (rule that) (use commit_ready [OF w(2,6,4,5)] in \<open>simp_all add: store_ready_def\<close>)
qed


theorem no_lost_updates_witness:
  "\<exists>c r c'. commits c [r] c' \<and> store_ready c' \<and> stored_entry c' ''arrival_armed'' ''resident_primary'' =
     (if changes r ''arrival_armed'' ''resident_primary'' then lf_armed (rt_life r) ''resident_primary''
      else stored_entry c ''arrival_armed'' ''resident_primary'')"
proof -
  let ?e = "doorstep_env 2000000" let ?m = "doorstep ''near_home''"
  obtain c where c: "glob c ''location_policy_v1'' = std_location" "fper c cycles_key = JUndef" "store_ready c"
    by (rule doorstep_home) blast
  obtain c' ps where s: "people_flow ?e c ?m = Emit c' ps"
    using c(1,2) by (auto intro: flow_emits [of c ?m ?e] simp: notice_state_def)
  obtain c0 r where w: "people_read ?e c ?m = Emit c0 (?m, r)" "people_write ?e c0 (?m, r) = Emit c' ps" "fper c0 = fper c"
    by (rule flow_parts [OF s]) (simp, blast)
  have "commits c [] c0" using commits.other [OF commits.none [of c]] w(3) by simp
  then have run: "commits c [r] c'" using commits.commit [OF _ w(1) _ w(2), of c "[]"] by simp
  have "store_ready c' \<and> stored_entry c' ''arrival_armed'' ''resident_primary'' =
     (if changes r ''arrival_armed'' ''resident_primary'' then lf_armed (rt_life r) ''resident_primary''
      else stored_entry c ''arrival_armed'' ''resident_primary'')"
    using no_lost_updates [OF run c(3), of "''arrival_armed''" "''resident_primary''"]
    by (simp add: life_fields_def residents_def life_field_def)
  then show ?thesis using run by blast
qed

end
