(* ===== verification/PeopleRefresh.thy ===== *)
theory PeopleRefresh
  imports PeopleLife JsRegex
begin

text \<open>
  Asking the phones of the residents for a position (\<open>people-refresh-*.js\<close>, \<open>people-location-refresh-*.js\<close>,
  \<open>people-wake-ring-refresh-build.js\<close>). A command, periodic or of an approach, makes \<open>refresh_decide\<close> look at
  each resident: one whose position is missing, old or, while returning nearby, older than the short interval,
  is asked, unless the last request is too recent. A request is a best effort: the position it brings, or not,
  shows in a later command. After as many requests without a new position as the policy allows, the
  distance between requests doubles up to a maximum.

  The entry of a resident is the abstract \<open>retry\<close>: the requests since the last new position and the time of
  the last request; \<open>retry_moves\<close> is the machine that \<open>refresh_decide\<close> implements. A request leaves through
  the notification hub (port 0 or 1 of \<open>refresh_decide\<close>) and through \<open>effect_gate\<close>, which keeps dry runs off the
  provider; errors of both come to \<open>connection_handler\<close>.
\<close>

section \<open>Commands\<close>

abbreviation asks_key :: string where
  "asks_key \<equiv> ''security_people_location_refresh_v2''"

definition refresh_parameters :: "string list" where
  "refresh_parameters = [''near_home_refresh_minutes'', ''people_refresh_minutes'', ''people_refresh_retry_seconds'',
     ''people_refresh_attempts'', ''people_refresh_backoff_minutes'', ''people_refresh_backoff_max_minutes'',
     ''location_fresh_minutes'', ''future_tolerance_seconds'']"

text \<open>What one run of the decision works with.\<close>

record asking =
  ak_input :: jv
  ak_explicit :: bool
  ak_test :: bool
  ak_policy :: jv
  ak_people :: jv
  ak_now :: jnum
  ak_retry :: jnum
  ak_limit :: jnum

definition arrival_ask :: "jv \<Rightarrow> bool" where
  "arrival_ask m = (plget m ''kind'' = JStr ''arrival_location_refresh'')"

text \<open>The first lines of the node: commands it leaves alone, and a policy that is not usable.\<close>

definition refresh_wanted :: "jv \<Rightarrow> bool" where
  "refresh_wanted m = ((arrival_ask m \<or> plget m ''kind'' = JStr ''refresh_command'') \<and>
     \<not> (plget m ''reason'' = JStr ''resident_departure'' \<and> plget m ''resident_departure_force'' = JTrue))"

definition refresh_usable :: "jv \<Rightarrow> bool" where
  "refresh_usable p = list_all (\<lambda>k. fin (jnum_of p k)) refresh_parameters"

definition read_asking :: "env \<Rightarrow> ctx \<Rightarrow> jv \<Rightarrow> asking" where
  "read_asking e c m =
    (let t = test_msg m; p = dflt (glob c ''location_policy_v1'') (JObj []) in
     \<lparr>ak_input = dflt (payload m) (JObj []), ak_explicit = arrival_ask m, ak_test = t, ak_policy = p,
      ak_people = dflt (mget t c ''people_context_v1'') (JObj []), ak_now = clock e,
      ak_retry = jnum_of p ''people_refresh_retry_seconds'' * 1000, ak_limit = jnum_of p ''people_refresh_attempts''\<rparr>)"

definition load_requests :: "jv \<Rightarrow> jv" where
  "load_requests raw = (if jget raw ''version'' = JNum 2 \<and> truthy (jget raw ''residents'') then raw
     else JObj [(''version'', JNum 2), (''residents'', JObj [])])"

section \<open>One resident\<close>

definition past_valid :: "asking \<Rightarrow> jnum \<Rightarrow> bool" where
  "past_valid a x = (fin x \<and> 0 < x \<and> x \<le> ak_now a + jnum_of (ak_policy a) ''future_tolerance_seconds'' * 1000)"

definition position_at :: "jv \<Rightarrow> jnum" where
  "position_at resident = jnum_of resident ''updated_at''"

definition position_fresh :: "asking \<Rightarrow> jv \<Rightarrow> bool" where
  "position_fresh a resident = (jget resident ''ready'' = JTrue \<and> jget resident ''stale'' \<noteq> JTrue \<and>
     past_valid a (position_at resident) \<and>
     ak_now a - position_at resident \<le> jnum_of (ak_policy a) ''location_fresh_minutes'' * 60000)"

text \<open>Notices of an earlier version are withdrawn.\<close>

definition notice_alert :: "env \<Rightarrow> asking \<Rightarrow> string \<Rightarrow> jv" where
  "notice_alert e a role = JObj
    [(''_location_test'', JBool (ak_test a)),
     (''payload'', JObj [(''test_mode'', JBool (ak_test a)), (''observer_kind'', JStr ''node_recovery''),
        (''persistent_incident_kind'', JStr ''domain_alert''), (''persistent_notification_operation'', JStr ''dismiss''),
        (''mobile_notification'', JFalse), (''incident_key'', JStr (''people_location_refresh_'' @ role)),
        (''resolution'', JStr ''routine_location_notice_retired'')]),
     (''alert'', JObj [(''title'', JStr (wording e ''location_notice_removed'' [])),
        (''message'', JStr (wording e ''location_notice_diagnostic'' []))])]"

definition prior_observation :: "jv \<Rightarrow> jnum" where
  "prior_observation en = to_num (dflt (jget en ''observed_at_before_request'') (dflt (jget en ''last_success_at'') (JNum 0)))"

definition new_evidence :: "asking \<Rightarrow> jv \<Rightarrow> jv \<Rightarrow> bool" where
  "new_evidence a resident en = (position_fresh a resident \<and> prior_observation en < position_at resident)"

definition note_evidence :: "asking \<Rightarrow> jv \<Rightarrow> jv \<Rightarrow> jv" where
  "note_evidence a resident en = (let en1 = jset en ''failure_notified'' JFalse; at' = JNum (position_at resident) in
     if new_evidence a resident en1
     then jsets en1 [(''awaiting_evidence'', JFalse), (''attempts'', JNum 0), (''last_success_at'', at'),
       (''observed_at_before_request'', at')] else en1)"

definition attempts_of :: "jv \<Rightarrow> jnum" where
  "attempts_of en = jmax 0 (jmin 20 (to_num (jor (JNum (jnum_of en ''attempts'')) (JNum 0))))"

definition latest_ask :: "asking \<Rightarrow> jv \<Rightarrow> jnum" where
  "latest_ask a en = (let x = jnum_of en ''last_request_at'' in if past_valid a x then x else 0)"

text \<open>\<open>2 ** k\<close> for the whole exponents that occur; for others the value is the host's \<open>Math.pow\<close>, which is a
  parameter \<open>pow\<close> of the model.\<close>

definition two_to :: "(jnum \<Rightarrow> jnum) \<Rightarrow> jnum \<Rightarrow> jnum" where
  "two_to pow k = (case k of Fin r \<Rightarrow> if integral k \<and> 0 \<le> r then Fin (2 ^ nat \<lfloor>r\<rfloor>) else pow k | _ \<Rightarrow> pow k)"

definition ask_interval :: "(jnum \<Rightarrow> jnum) \<Rightarrow> asking \<Rightarrow> jnum \<Rightarrow> jnum" where
  "ask_interval pow a n = (if ak_limit a \<le> n
     then jmin (jnum_of (ak_policy a) ''people_refresh_backoff_max_minutes'')
       (jnum_of (ak_policy a) ''people_refresh_backoff_minutes'' * two_to pow (jmin 10 (n - ak_limit a))) * 60000
     else ak_retry a)"

definition ask_diagnosis :: "asking \<Rightarrow> jv \<Rightarrow> string" where
  "ask_diagnosis a en =
    (if jget en ''awaiting_evidence'' = JTrue
     then (if ak_limit a \<le> attempts_of en \<and> ak_retry a \<le> ak_now a - latest_ask a en
       then ''location_refresh_without_new_evidence'' else ''awaiting_location_evidence'')
     else ''current_location_evidence'')"

definition returning_nearby :: "asking \<Rightarrow> string \<Rightarrow> jv \<Rightarrow> bool" where
  "returning_nearby a role resident =
    (let far = to_num (jget resident ''distance_m''); gap = jnum_of (ak_policy a) ''people_approach_refresh_seconds'' * 1000 in
     jget (jget (ak_people a) ''arrival_armed'') role = JTrue \<and> position_fresh a resident \<and>
     jget resident ''state'' \<noteq> JStr ''home'' \<and> num_fin (jget resident ''distance_m'') \<and> 0 \<le> far \<and>
     far \<le> jnum_of (ak_policy a) ''people_approach_radius_m'' \<and> fin gap \<and> 0 < gap)"

definition age_limit :: "asking \<Rightarrow> string \<Rightarrow> jv \<Rightarrow> jnum" where
  "age_limit a role resident =
    (if returning_nearby a role resident then jnum_of (ak_policy a) ''people_approach_refresh_seconds'' * 1000
     else jnum_of (ak_policy a) (if jget resident ''state'' = JStr ''near_home'' then ''near_home_refresh_minutes''
       else ''people_refresh_minutes'') * 60000)"

definition ask_due :: "asking \<Rightarrow> string \<Rightarrow> jv \<Rightarrow> bool" where
  "ask_due a role resident = (ak_explicit a \<or> \<not> position_fresh a resident \<or>
     age_limit a role resident \<le> ak_now a - position_at resident)"

text \<open>The entry after the evidence and the diagnosis, with the time of the next request.\<close>

definition judged_entry :: "(jnum \<Rightarrow> jnum) \<Rightarrow> asking \<Rightarrow> jv \<Rightarrow> jv" where
  "judged_entry pow a en =
    (let last = latest_ask a en in
     jsets en [(''diagnostic_reason'', JStr (ask_diagnosis a en)),
       (''next_allowed_at'', JNum (if truthy (JNum last) then last + ask_interval pow a (attempts_of en) else ak_now a))])"

definition asked_entry :: "asking \<Rightarrow> jv \<Rightarrow> jnum \<Rightarrow> jv \<Rightarrow> jv" where
  "asked_entry a resident n en = jsets en
    [(''attempts'', JNum (n + 1)), (''awaiting_evidence'', JTrue), (''diagnostic_reason'', JStr ''awaiting_location_evidence''),
     (''last_request_at'', JNum (ak_now a)),
     (''observed_at_before_request'', if past_valid a (position_at resident) then JNum (position_at resident) else JNull)]"

definition ask_message :: "(jnum \<Rightarrow> jnum) \<Rightarrow> asking \<Rightarrow> jv \<Rightarrow> string \<Rightarrow> jv \<Rightarrow> jnum \<Rightarrow> jv \<Rightarrow> jv" where
  "ask_message pow a m role resident n en = jspread m (JObj
    [(''_location_test'', JBool (ak_test a)),
     (''payload'', jspread (ak_input a) (JObj
       [(''test_mode'', JBool (ak_test a)), (''origin'', dflt (jget (ak_input a) ''origin'') (JStr ''localizacao_pessoas'')),
        (''people_refresh_recovery'', JBool (\<not> position_fresh a resident)), (''refresh_source'', JStr role),
        (''refresh_attempt'', jget en ''attempts''), (''refresh_requested_at'', JNum (ak_now a)),
        (''refresh_transport_retry_pending'', JBool (jnum_of en ''attempts'' < ak_limit a)),
        (''refresh_cooldown_minutes'', JNum (jdivc (ask_interval pow a n) 60000)),
        (''refresh_routes'', JArr [JStr ''companion'', JStr ''icloud''])]))])"

text \<open>One turn of the loop: the entry as it is stored, the notice withdrawn and the request.\<close>

definition ask_resident :: "(jnum \<Rightarrow> jnum) \<Rightarrow> env \<Rightarrow> asking \<Rightarrow> jv \<Rightarrow> string \<Rightarrow> jv \<Rightarrow> jv \<Rightarrow> jv \<times> jv list \<times> jv list" where
  "ask_resident pow e a m role resident en0 =
    (let en = note_evidence a resident en0; judged = judged_entry pow a en; n = attempts_of en;
         alerts = (if jget en0 ''failure_notified'' = JTrue then [notice_alert e a role] else []) in
     if ask_due a role resident \<and> jnum_of judged ''next_allowed_at'' - 500 \<le> ak_now a
     then (let asked = asked_entry a resident n judged in (asked, alerts, [ask_message pow a m role resident n asked]))
     else (judged, alerts, []))"

definition ask_turn :: "(jnum \<Rightarrow> jnum) \<Rightarrow> env \<Rightarrow> asking \<Rightarrow> jv \<Rightarrow> string \<Rightarrow> jv \<Rightarrow> jv \<times> jv list \<times> jv list" where
  "ask_turn pow e a m role s =
    (let resident = jget (ak_people a) role in
     if ak_explicit a \<and> jget (ak_input a) ''source'' \<noteq> JStr role \<or> \<not> truthy resident then (s, [], [])
     else
       (let (en, alerts, out) = ask_resident pow e a m role resident (dflt (jget (jget s ''residents'') role) (JObj [])) in
        (jset s ''residents'' (jset (jget s ''residents'') role en), alerts, out)))"

text \<open>\<open>Object.values(state.residents).some(e => e.diagnostic_reason \<dots>)\<close> raises on an entry that is \<open>null\<close>, unless an
  earlier entry already answers.\<close>

fun badge_raises :: "jv list \<Rightarrow> bool" where
  "badge_raises [] = False"
| "badge_raises (v # vs) = (nullish v \<or>
     jget v ''diagnostic_reason'' \<noteq> JStr ''location_refresh_without_new_evidence'' \<and> badge_raises vs)"

definition elements :: "jv \<Rightarrow> jv list" where
  "elements v = (case v of JArr xs \<Rightarrow> xs | _ \<Rightarrow> jvalues v)"

definition refresh_decide :: "(jnum \<Rightarrow> jnum) \<Rightarrow> env \<Rightarrow> ctx \<Rightarrow> jv \<Rightarrow> ports run" where
  "refresh_decide pow e c m =
    (let a = read_asking e c m in
     if \<not> refresh_wanted m \<or> \<not> refresh_usable (ak_policy a) then Stop c
     else
       (let s0 = load_requests (sget (ak_test a) c asks_key);
            (s1, alerts1, out1) = ask_turn pow e a m ''resident_primary'' s0;
            (s2, alerts2, out2) = ask_turn pow e a m ''resident_secondary'' s1;
            s = jset s2 ''updated_at'' (JNum (ak_now a)); c1 = sset (ak_test a) c asks_key s;
            ps = [out1, out2, alerts1 @ alerts2] in
        if badge_raises (elements (jget s ''residents'')) then Raise c1
        else if list_all (\<lambda>p. p = []) ps then Stop c1 else Emit c1 ps))"

section \<open>The nodes around the decision\<close>

definition object_payload :: "jv \<Rightarrow> jv" where
  "object_payload m = (if is_objectlike (payload m) then payload m else JObj [])"

definition effect_gate :: "env \<Rightarrow> ctx \<Rightarrow> jv \<Rightarrow> ports run" where
  "effect_gate e c m =
    (let p = jspread (object_payload m) (JObj [(''location_refresh_provider'', JStr ''icloud'')]) in
     if test_msg m then Emit c [[], [jset m ''payload'' (jsets p [(''simulated'', JTrue), (''dispatched'', JFalse)])]]
     else Emit c [[jset m ''payload'' p], []])"

definition refresh_recheck :: "ctx \<Rightarrow> jv \<Rightarrow> ports run" where
  "refresh_recheck c m = Emit c [[jset m ''payload'' (jspread (object_payload m) (JObj
     [(''kind'', JStr ''refresh_command''), (''origin'', JStr ''contexto_vehicle_primary''),
      (''reason'', JStr ''vehicle_primary_refresh_completed'')]))]]"

text \<open>Two probes after a resident enters the ring around the house.\<close>

definition ring_probe :: "people \<Rightarrow> jv \<Rightarrow> nat \<Rightarrow> jnum \<Rightarrow> jv" where
  "ring_probe d m k wait = jspread m (JObj
    [(''delay'', JNum (if pe_test d then 1 else wait)),
     (''payload'', JObj
       [(''contract'', JStr ''security.location-refresh.v1''), (''kind'', JStr ''arrival_location_refresh''),
        (''reason'', JStr ''wake_ring_approach_probe''), (''source'', pe_source d), (''test_mode'', JBool (pe_test d)),
        (''simulated'', JBool (pe_test d)), (''dispatched'', JFalse),
        (''trigger_observed_at'', dflt (case source_person d of None \<Rightarrow> JUndef | Some p \<Rightarrow> ps_updated p) JNull),
        (''refresh_probe'', JNum (Fin (of_nat k)))])])"

definition wake_ring_probes :: "ctx \<Rightarrow> jv \<Rightarrow> people \<Rightarrow> person_facts \<Rightarrow> ports run" where
  "wake_ring_probes c m d f =
    (let first = num_or (jget (pe_policy d) ''wake_ring_refresh_delay_seconds'') 45 * 1000;
         again = num_or (jget (pe_policy d) ''wake_ring_refresh_repeat_seconds'') 60 * 1000 in
     if \<not> pf_wake_ring f \<or> \<not> pf_confirmed f then Emit c [[], []]
     else Emit c [[ring_probe d m 1 first], [ring_probe d m 2 (first + again)]])"

text \<open>Errors of the hub and of the provider: a short interruption is left to the next command, anything else is
  reported as a warning.\<close>

definition interrupted_message :: "string \<Rightarrow> bool" where
  "interrupted_message s = (s \<in> {''ICLOUD_TRANSPORT_INTERRUPTED'', ''HomeAssistantError: ICLOUD_TRANSPORT_INTERRUPTED''})"

definition transient_message :: "string \<Rightarrow> bool" where
  "transient_message s = (contains s ''connection lost'' \<or> contains s ''noconnectionerror'' \<or>
     list_ex (\<lambda>w. rx_test [WordB, Lit w, WordB] s) [''etimedout'', ''timedout'', ''timeout'', ''timed out''])"

definition connection_handler :: "ctx \<Rightarrow> jv \<Rightarrow> ports run" where
  "connection_handler c m =
    (let s = to_str (dflt (jget (jget m ''error'') ''message'') (JStr [])) in
     if interrupted_message s \<and> plget m ''refresh_transport_retry_pending'' = JTrue then Stop c
     else if transient_message (js_lower s) then Stop c
     else Stop (logged NodeWarn c))"

section \<open>The machine of the requests\<close>

text \<open>The abstract state of a resident: requests since the last new position, and the time of the last one.\<close>

type_synonym retry = "nat \<times> rat option"

record schedule =
  sc_limit :: nat
  sc_retry :: rat
  sc_backoff :: rat
  sc_max :: rat

definition wait_after :: "schedule \<Rightarrow> nat \<Rightarrow> rat" where
  "wait_after sc n = (if sc_limit sc \<le> n then min (sc_max sc) (sc_backoff sc * 2 ^ min 10 (n - sc_limit sc)) * 60000
     else sc_retry sc * 1000)"

fun retry_step :: "schedule \<Rightarrow> rat \<Rightarrow> bool \<Rightarrow> bool \<Rightarrow> retry \<Rightarrow> retry \<times> bool" where
  "retry_step sc now evidence due (n, latest) =
    (let n1 = (if evidence then 0 else n);
         asks = (due \<and> (case latest of None \<Rightarrow> True | Some l \<Rightarrow> l + wait_after sc (min 20 n1) - 500 \<le> now)) in
     (if asks then (min 20 n1 + 1, Some now) else (n1, latest), asks))"

fun rat_of :: "jv \<Rightarrow> rat" where
  "rat_of (JNum (Fin r)) = r"
| "rat_of _ = 0"

definition schedule_of :: "jv \<Rightarrow> schedule" where
  "schedule_of p = \<lparr>sc_limit = nat \<lfloor>rat_of (jget p ''people_refresh_attempts'')\<rfloor>,
     sc_retry = rat_of (jget p ''people_refresh_retry_seconds''),
     sc_backoff = rat_of (jget p ''people_refresh_backoff_minutes''),
     sc_max = rat_of (jget p ''people_refresh_backoff_max_minutes'')\<rparr>"

fun time_of :: "jv \<Rightarrow> rat option" where
  "time_of (JNum (Fin r)) = Some r"
| "time_of _ = None"

definition retry_of :: "jv \<Rightarrow> retry" where
  "retry_of en = (nat \<lfloor>rat_of (jget en ''attempts'')\<rfloor>, time_of (jget en ''last_request_at''))"

definition entry_ok :: "jv \<Rightarrow> bool" where
  "entry_ok en = (is_obj en \<and>
     (jget en ''attempts'' = JUndef \<or> (\<exists>n \<le> 21. jget en ''attempts'' = JNum (Fin (of_nat n)))) \<and>
     (jget en ''last_request_at'' = JUndef \<or> (\<exists>l > 0. jget en ''last_request_at'' = JNum (Fin l))))"

definition location_good :: "jv \<Rightarrow> bool" where
  "location_good p = (policy_good location_limits p \<and> \<not> location_conflict p)"

lemma location_parameter:
  assumes "location_good p" "(k, lo, hi) \<in> set location_limits"
  obtains r where "jget p k = JNum (Fin r)" "lo \<le> r" "r \<le> hi"
  using assms in_limitsD [of location_limits p k lo hi]
  by (auto simp: location_good_def policy_good_def num_between_iff)

lemma good_numbers:
  assumes "location_good p"
  obtains limit retry backoff top tolerance where
    "jget p ''people_refresh_attempts'' = JNum (Fin (of_nat limit))" "1 \<le> limit" "limit \<le> 5"
    "jget p ''people_refresh_retry_seconds'' = JNum (Fin retry)" "60 \<le> retry" "retry \<le> 300"
    "jget p ''people_refresh_backoff_minutes'' = JNum (Fin backoff)" "15 \<le> backoff" "backoff \<le> 60"
    "jget p ''people_refresh_backoff_max_minutes'' = JNum (Fin top)" "60 \<le> top" "top \<le> 240"
    "jget p ''future_tolerance_seconds'' = JNum (Fin tolerance)" "0 \<le> tolerance"
proof -
  note par = location_parameter [OF assms]
  have in_limits: "(''people_refresh_attempts'', 1, 5) \<in> set location_limits"
    "(''people_refresh_retry_seconds'', 60, 300) \<in> set location_limits"
    "(''people_refresh_backoff_minutes'', 15, 60) \<in> set location_limits"
    "(''people_refresh_backoff_max_minutes'', 60, 240) \<in> set location_limits"
    "(''future_tolerance_seconds'', 0, 300) \<in> set location_limits"
    by (simp_all add: location_limits_def)
  obtain x where x: "jget p ''people_refresh_attempts'' = JNum (Fin x)" "1 \<le> x" "x \<le> 5" by (rule par [OF in_limits(1)])
  have "integral (Fin x)" using assms x by (auto simp: location_good_def location_conflict_def)
  then have "x \<in> \<int>" by (simp add: Ints_def)
  then obtain i where i: "x = of_int i" by (rule Ints_cases)
  define n where "n = nat i"
  have n: "x = of_nat n" using x(2) by (simp add: i n_def)
  obtain retry where r: "jget p ''people_refresh_retry_seconds'' = JNum (Fin retry)" "60 \<le> retry" "retry \<le> 300"
    by (rule par [OF in_limits(2)])
  obtain backoff where b: "jget p ''people_refresh_backoff_minutes'' = JNum (Fin backoff)" "15 \<le> backoff" "backoff \<le> 60"
    by (rule par [OF in_limits(3)])
  obtain top where t: "jget p ''people_refresh_backoff_max_minutes'' = JNum (Fin top)" "60 \<le> top" "top \<le> 240"
    by (rule par [OF in_limits(4)])
  obtain tolerance where o: "jget p ''future_tolerance_seconds'' = JNum (Fin tolerance)" "0 \<le> tolerance"
    by (rule par [OF in_limits(5)])
  from x(2,3) have l: "1 \<le> n" "n \<le> 5" by (simp_all add: n)
  show thesis by (rule that [OF x(1) [unfolded n] l r b t o])
qed

lemma good_usable:
  assumes "location_good p"
  shows "refresh_usable p"
proof -
  have t: "list_all (\<lambda>k. k \<in> set (map fst location_limits)) refresh_parameters" by code_simp
  have "fin (jnum_of p k)" if "k \<in> set refresh_parameters" for k
  proof -
    obtain lo hi where "(k, lo, hi) \<in> set location_limits" using t \<open>k \<in> set refresh_parameters\<close> by (auto simp: list_all_iff)
    then obtain r where "jget p k = JNum (Fin r)" by (rule location_parameter [OF assms])
    then show ?thesis by simp
  qed
  then show ?thesis by (simp add: refresh_usable_def list_all_iff)
qed

lemma schedule_waits:
  assumes "location_good p"
  shows "60000 \<le> wait_after (schedule_of p) n" "wait_after (schedule_of p) n \<le> 14400000"
proof -
  obtain limit retry backoff top tolerance where p:
    "jget p ''people_refresh_attempts'' = JNum (Fin (of_nat limit))"
    "jget p ''people_refresh_retry_seconds'' = JNum (Fin retry)" "60 \<le> retry" "retry \<le> 300"
    "jget p ''people_refresh_backoff_minutes'' = JNum (Fin backoff)" "15 \<le> backoff"
    "jget p ''people_refresh_backoff_max_minutes'' = JNum (Fin top)" "60 \<le> top" "top \<le> 240"
    using good_numbers [OF assms] by metis
  have "(1::rat) \<le> 2 ^ k" for k by simp
  then have "15 * 1 \<le> backoff * 2 ^ k" for k using p(6) by (intro mult_mono) simp_all
  then have "1 \<le> min top (backoff * 2 ^ k)" for k using p(8) by (metis min.bounded_iff mult.right_neutral one_le_numeral order_trans)
  then have w: "60000 \<le> min top (backoff * 2 ^ k) * 60000" for k by simp
  have "min top (backoff * 2 ^ k) * 60000 \<le> 240 * 60000" for k
    using p(9) by (intro mult_right_mono) (simp_all add: min.coboundedI1)
  then show "60000 \<le> wait_after (schedule_of p) n" "wait_after (schedule_of p) n \<le> 14400000"
    using p(3,4) w by (simp_all add: wait_after_def schedule_of_def p(1,2,5,7))
qed

text \<open>The waiting time of the code is the one of the machine.\<close>

definition asks_with :: "asking \<Rightarrow> jv \<Rightarrow> rat \<Rightarrow> bool" where
  "asks_with a p now = (location_good p \<and> ak_policy a = p \<and> ak_now a = Fin now \<and>
     ak_retry a = jnum_of p ''people_refresh_retry_seconds'' * 1000 \<and> ak_limit a = jnum_of p ''people_refresh_attempts'')"

lemma read_asks_with: "location_good (glob c ''location_policy_v1'') \<Longrightarrow> clock e = Fin now \<Longrightarrow>
  asks_with (read_asking e c m) (glob c ''location_policy_v1'') now"
  by (auto simp: asks_with_def read_asking_def Let_def dflt_def nullish_iff location_good_def policy_good_def policy_ready_def)

lemma two_to_nat [simp]: "two_to pow (Fin (of_nat k)) = Fin (2 ^ k)"
  by (simp add: two_to_def)

lemma interval_is_wait:
  assumes "asks_with a p now"
  shows "ask_interval pow a (Fin (of_nat n)) = Fin (wait_after (schedule_of p) n)"
proof -
  obtain limit retry backoff top where p:
    "jget p ''people_refresh_attempts'' = JNum (Fin (of_nat limit))" "jget p ''people_refresh_retry_seconds'' = JNum (Fin retry)"
    "jget p ''people_refresh_backoff_minutes'' = JNum (Fin backoff)" "jget p ''people_refresh_backoff_max_minutes'' = JNum (Fin top)"
    using assms good_numbers [of p thesis] by (auto simp: asks_with_def)
  have m: "min 10 (of_nat n - of_nat limit) = (of_nat (min 10 (n - limit)) :: rat)" if "limit \<le> n"
    using that by (simp add: of_nat_diff [symmetric] min_def del: of_nat_diff)
  have k: "two_to pow (Fin (min 10 (of_nat n - of_nat limit))) = Fin (2 ^ min 10 (n - limit))" if "limit \<le> n"
    by (simp add: m [OF that])
  show ?thesis
    using assms by (simp add: asks_with_def ask_interval_def wait_after_def schedule_of_def p k)
qed

lemma entry_okE:
  assumes "entry_ok en"
  obtains n where "n \<le> 21" "attempts_of en = Fin (of_nat (min 20 n))" "fst (retry_of en) = n" "is_obj en"
    "snd (retry_of en) = None \<and> jget en ''last_request_at'' = JUndef \<or>
     (\<exists>l > 0. snd (retry_of en) = Some l \<and> jget en ''last_request_at'' = JNum (Fin l))"
proof -
  have m: "min (20::rat) (of_nat n) = of_nat (min 20 n)" for n by (simp add: min_def)
  consider "jget en ''attempts'' = JUndef" | n where "n \<le> 21" "jget en ''attempts'' = JNum (Fin (of_nat n))"
    using assms by (auto simp: entry_ok_def)
  then show thesis
  proof cases
    case 1
    then show ?thesis
      using assms that [of 0] by (auto simp: entry_ok_def attempts_of_def retry_of_def jor_def)
  next
    case 2
    have "attempts_of en = Fin (of_nat (min 20 n))"
      by (cases "n = 0") (simp_all add: attempts_of_def 2 jor_def m)
    then show ?thesis
      using assms that [of n] 2 by (auto simp: entry_ok_def retry_of_def)
  qed
qed

lemma entry_ok_frame:
  assumes "entry_ok en" "is_obj en'" "\<And>k. k \<in> {''attempts'', ''last_request_at''} \<Longrightarrow> jget en' k = jget en k"
  shows "entry_ok en'" "retry_of en' = retry_of en" "attempts_of en' = attempts_of en" "latest_ask a en' = latest_ask a en"
  using assms by (simp_all add: entry_ok_def retry_of_def attempts_of_def latest_ask_def)

lemma note_evidence_retry:
  fixes a resident
  assumes "entry_ok en"
  defines "en' \<equiv> note_evidence a resident en"
  shows "entry_ok en'" "retry_of en' = (if new_evidence a resident en then 0 else fst (retry_of en), snd (retry_of en))"
proof -
  have o: "is_obj en" using assms by (simp add: entry_ok_def)
  have ne: "new_evidence a resident (jset en ''failure_notified'' JFalse) = new_evidence a resident en"
    by (simp add: new_evidence_def prior_observation_def)
  have z: "JNum (Fin 0) = JNum (Fin (of_nat 0))" by simp
  show "entry_ok en'" "retry_of en' = (if new_evidence a resident en then 0 else fst (retry_of en), snd (retry_of en))"
    using assms(1) o unfolding en'_def
    by (auto simp: note_evidence_def Let_def ne entry_ok_def retry_of_def z simp del: of_nat_0 intro: exI [of _ "0::nat"])
qed

lemma ask_resident_retry:
  fixes resident
  assumes "asks_with a p now" "entry_ok en0" "0 < now" "\<And>l. snd (retry_of en0) = Some l \<Longrightarrow> l \<le> now"
    and "ask_resident pow e a m role resident en0 = (en', alerts, out)"
  shows "entry_ok en'"
    "retry_step (schedule_of p) now (new_evidence a resident en0) (ask_due a role resident) (retry_of en0) = (retry_of en', out \<noteq> [])"
proof -
  define en where "en = note_evidence a resident en0"
  note ev = note_evidence_retry [OF assms(2), of a resident, folded en_def]
  obtain n where n: "n \<le> 21" "attempts_of en = Fin (of_nat (min 20 n))" "fst (retry_of en) = n" "is_obj en"
    "snd (retry_of en) = None \<and> jget en ''last_request_at'' = JUndef \<or>
     (\<exists>l > 0. snd (retry_of en) = Some l \<and> jget en ''last_request_at'' = JNum (Fin l))"
    using entry_okE [OF ev(1)] by metis
  let ?judged = "judged_entry pow a en"
  have a: "ak_now a = Fin now" using assms(1) by (simp add: asks_with_def)
  obtain tol where tol: "jget (ak_policy a) ''future_tolerance_seconds'' = JNum (Fin tol)" "0 \<le> tol"
    using assms(1) good_numbers [of p thesis] by (auto simp: asks_with_def)
  have obj: "is_obj ?judged" using n(4) by (simp add: judged_entry_def Let_def)
  have keep: "k \<in> {''attempts'', ''last_request_at''} \<Longrightarrow> jget ?judged k = jget en k" for k
    by (auto simp: judged_entry_def Let_def)
  have judged: "entry_ok ?judged" "retry_of ?judged = retry_of en" "is_obj ?judged"
    using entry_ok_frame(1,2) [OF ev(1) obj keep] obj by blast+
  let ?w = "wait_after (schedule_of p) (min 20 n)"
  have next': "jnum_of ?judged ''next_allowed_at'' = (case snd (retry_of en) of None \<Rightarrow> Fin now | Some l \<Rightarrow> Fin (l + ?w))"
  proof (cases "snd (retry_of en)")
    case None
    then have "latest_ask a en = 0" using n(5) by (simp add: latest_ask_def past_valid_def)
    then show ?thesis using None n(4) by (simp add: judged_entry_def Let_def a)
  next
    case (Some l)
    then have l: "jget en ''last_request_at'' = JNum (Fin l)" "0 < l" "l \<le> now" using n(5) assms(4) ev(2) by auto
    then have "latest_ask a en = Fin l" using tol by (simp add: latest_ask_def past_valid_def a)
    then show ?thesis using Some l n(4) by (simp add: judged_entry_def Let_def n(2) interval_is_wait [OF assms(1)])
  qed
  obtain m where retry: "retry_of en0 = (m, snd (retry_of en))" "n = (if new_evidence a resident en0 then 0 else m)"
    using ev(2) n(3) by (cases "retry_of en0") auto
  have retry_en: "retry_of en = (n, snd (retry_of en))" using n(3) by (simp add: prod_eq_iff)
  have "entry_ok en' \<and>
    retry_step (schedule_of p) now (new_evidence a resident en0) (ask_due a role resident) (retry_of en0) = (retry_of en', out \<noteq> [])"
  proof (cases "ask_due a role resident \<and> jnum_of ?judged ''next_allowed_at'' - 500 \<le> ak_now a")
    case True
    then have en': "en' = asked_entry a resident (Fin (of_nat (min 20 n))) ?judged" "out \<noteq> []"
      using assms(5) by (auto simp: ask_resident_def Let_def en_def[symmetric] n(2))
    have att: "Fin (of_nat (min 20 n)) + 1 = Fin (of_nat (min 20 n + 1))" by simp
    have "min 20 n + 1 \<le> 21" by simp
    then have ok: "entry_ok en'" using judged(3) assms(3)
      by (auto simp: en'(1) asked_entry_def entry_ok_def a att simp del: of_nat_add intro!: exI [of _ "min 20 n + 1"])
    have "retry_of en' = (min 20 n + 1, Some now)" using judged(3)
      by (simp add: en'(1) asked_entry_def retry_of_def a att del: of_nat_add)
    with ok show ?thesis
      using True en'(2) by (simp add: retry(1) Let_def retry(2)[symmetric] next' a split: option.splits)
  next
    case False
    then have en': "en' = ?judged" "out = []"
      using assms(5) by (auto simp: ask_resident_def Let_def en_def[symmetric])
    then show ?thesis
      using judged(1) False assms(3) retry_en
      by (auto simp: retry(1) en' Let_def retry(2)[symmetric] next' a judged(2) split: option.splits)
  qed
  then show "entry_ok en'" "retry_step (schedule_of p) now (new_evidence a resident en0) (ask_due a role resident) (retry_of en0) = (retry_of en', out \<noteq> [])"
    by blast+
qed

section \<open>The stored requests\<close>

definition requests_ok :: "jv \<Rightarrow> bool" where
  "requests_ok s = (is_obj s \<and> jget s ''version'' = JNum 2 \<and> is_obj (jget s ''residents'') \<and>
     list_all (\<lambda>x. entry_ok (snd x)) (jentries (jget s ''residents'')))"

definition entry_of :: "jv \<Rightarrow> string \<Rightarrow> jv" where
  "entry_of s role = dflt (jget (jget s ''residents'') role) (JObj [])"

text \<open>The requests of a resident as a context holds them.\<close>

definition stored_retry :: "ctx \<Rightarrow> string \<Rightarrow> retry" where
  "stored_retry c role = retry_of (entry_of (load_requests (fper c asks_key)) role)"

lemma entry_ok_empty [simp]: "entry_ok (JObj [])" "retry_of (JObj []) = (0, None)"
  by (simp_all add: entry_ok_def retry_of_def)

lemma entry_of_ok: "requests_ok s \<Longrightarrow> entry_ok (entry_of s role)"
  by (cases "jget s ''residents''")
    (auto simp: requests_ok_def entry_of_def dflt_def list_all_iff dest!: map_of_SomeD split: option.splits)

lemma put_entry_ok:
  fixes role
  assumes "requests_ok s" "entry_ok en"
  defines "s' \<equiv> jset s ''residents'' (jset (jget s ''residents'') role en)"
  shows "requests_ok s'" "entry_of s' role = en" "role' \<noteq> role \<Longrightarrow> entry_of s' role' = entry_of s role'"
proof -
  have o: "is_obj s" "is_obj (jget s ''residents'')" using assms by (simp_all add: requests_ok_def)
  have "\<not> nullish en" using assms(2) by (auto simp: entry_ok_def)
  then show "entry_of s' role = en" "role' \<noteq> role \<Longrightarrow> entry_of s' role' = entry_of s role'"
    using o by (simp_all add: s'_def entry_of_def dflt_def)
  show "requests_ok s'"
    using assms o by (cases "jget s ''residents''") (auto simp: requests_ok_def list_all_iff dest!: update_entries)
qed

lemma stamp_ok: "requests_ok s \<Longrightarrow> requests_ok (jset s ''updated_at'' v)"
  "is_obj s \<Longrightarrow> entry_of (jset s ''updated_at'' v) role = entry_of s role"
  by (simp_all add: requests_ok_def entry_of_def)

lemma badge_fine: "requests_ok s \<Longrightarrow> \<not> badge_raises (elements (jget s ''residents''))"
proof -
  have "list_all (\<lambda>v. \<not> nullish v) vs \<Longrightarrow> \<not> badge_raises vs" for vs by (induction vs) auto
  moreover assume "requests_ok s"
  ultimately show ?thesis
    by (cases "jget s ''residents''")
      (auto simp: requests_ok_def elements_def jvalues_def list_all_iff entry_ok_def dest!: bspec)
qed

lemma load_ok: "raw = JUndef \<or> requests_ok raw \<Longrightarrow> requests_ok (load_requests raw)"
  by (cases "jget raw ''residents''") (auto simp: load_requests_def requests_ok_def)

lemma load_stored: "requests_ok s \<Longrightarrow> load_requests s = s"
  by (cases "jget s ''residents''") (auto simp: load_requests_def requests_ok_def)

lemma ask_turn_retry:
  fixes role
  assumes "asks_with a p now" "0 < now" "requests_ok s" "\<forall>l. snd (retry_of (entry_of s role)) = Some l \<longrightarrow> l \<le> now"
    and "ask_turn pow e a m role s = (s', alerts, out)"
  defines "resident \<equiv> jget (ak_people a) role"
  defines "addressed \<equiv> truthy resident \<and> (ak_explicit a \<longrightarrow> jget (ak_input a) ''source'' = JStr role)"
  shows "requests_ok s'" "role' \<noteq> role \<Longrightarrow> entry_of s' role' = entry_of s role'"
    "retry_step (schedule_of p) now (addressed \<and> new_evidence a resident (entry_of s role))
      (addressed \<and> ask_due a role resident) (retry_of (entry_of s role)) = (retry_of (entry_of s' role), out \<noteq> [])"
proof -
  have "requests_ok s' \<and> (role' \<noteq> role \<longrightarrow> entry_of s' role' = entry_of s role') \<and>
    retry_step (schedule_of p) now (addressed \<and> new_evidence a resident (entry_of s role))
      (addressed \<and> ask_due a role resident) (retry_of (entry_of s role)) = (retry_of (entry_of s' role), out \<noteq> [])"
  proof (cases addressed)
    case False
    then have "s' = s" "out = []"
      using assms(5) by (auto simp: ask_turn_def resident_def addressed_def Let_def split: if_splits)
    then show ?thesis using False assms(3) by (cases "retry_of (entry_of s role)") simp
  next
    case True
    obtain en' al o' where r: "ask_resident pow e a m role resident (entry_of s role) = (en', al, o')"
      by (cases "ask_resident pow e a m role resident (entry_of s role)") simp
    note one = ask_resident_retry [OF assms(1) entry_of_ok [OF assms(3)] assms(2) assms(4) [rule_format] r]
    have "s' = jset s ''residents'' (jset (jget s ''residents'') role en')" "out = o'"
      using assms(5) True r by (auto simp: ask_turn_def resident_def addressed_def Let_def entry_of_def)
    then show ?thesis using True one put_entry_ok(1,2) [OF assms(3) one(1), of role] put_entry_ok(3) [OF assms(3) one(1), of role' role] by simp
  qed
  then show "requests_ok s'" "role' \<noteq> role \<Longrightarrow> entry_of s' role' = entry_of s role'"
    "retry_step (schedule_of p) now (addressed \<and> new_evidence a resident (entry_of s role))
      (addressed \<and> ask_due a role resident) (retry_of (entry_of s role)) = (retry_of (entry_of s' role), out \<noteq> [])"
    by blast+
qed

text \<open>What the machine sees of a message: does it carry a new position of the resident, and is a request due?\<close>

definition addressed :: "env \<Rightarrow> ctx \<Rightarrow> jv \<Rightarrow> string \<Rightarrow> bool" where
  "addressed e c m role = (truthy (jget (ak_people (read_asking e c m)) role) \<and>
     (arrival_ask m \<longrightarrow> plget m ''source'' = JStr role))"

definition brings_position :: "env \<Rightarrow> ctx \<Rightarrow> jv \<Rightarrow> string \<Rightarrow> bool" where
  "brings_position e c m role = (addressed e c m role \<and>
     new_evidence (read_asking e c m) (jget (ak_people (read_asking e c m)) role)
       (entry_of (load_requests (fper c asks_key)) role))"

definition request_due :: "env \<Rightarrow> ctx \<Rightarrow> jv \<Rightarrow> string \<Rightarrow> bool" where
  "request_due e c m role = (addressed e c m role \<and>
     ask_due (read_asking e c m) role (jget (ak_people (read_asking e c m)) role))"

definition role_port :: "string \<Rightarrow> nat" where
  "role_port role = (if role = ''resident_primary'' then 0 else 1)"

definition asked :: "ports run \<Rightarrow> string \<Rightarrow> bool" where
  "asked r role = (case sent r of None \<Rightarrow> False | Some ps \<Rightarrow> port (role_port role) ps \<noteq> [])"

definition requests_stored_ok :: "ctx \<Rightarrow> bool" where
  "requests_stored_ok c = (fper c asks_key = JUndef \<or> requests_ok (fper c asks_key))"

lemma read_asking_production:
  assumes "\<not> test_msg m"
  shows "ak_test (read_asking e c m) = False" "ak_explicit (read_asking e c m) = arrival_ask m"
    "jget (ak_input (read_asking e c m)) k = plget m k"
  using assms by (simp_all add: read_asking_def Let_def plget_def)

lemma decide_retries:
  fixes pow
  assumes "\<not> test_msg m" "refresh_wanted m" "location_good (glob c ''location_policy_v1'')" "clock e = Fin now" "0 < now"
    and "requests_stored_ok c" "\<And>role l. role \<in> set residents \<Longrightarrow> snd (stored_retry c role) = Some l \<Longrightarrow> l \<le> now"
  defines "c' \<equiv> ctx_of (refresh_decide pow e c m)"
  shows "requests_stored_ok c'" "glob c' = glob c"
    "role \<in> set residents \<Longrightarrow>
      retry_step (schedule_of (glob c ''location_policy_v1'')) now (brings_position e c m role) (request_due e c m role)
        (stored_retry c role) = (stored_retry c' role, asked (refresh_decide pow e c m) role)"
proof -
  let ?a = "read_asking e c m"
  let ?p = "glob c ''location_policy_v1''"
  define s0 where "s0 = load_requests (fper c asks_key)"
  note prod = read_asking_production [OF assms(1)]
  have a: "asks_with ?a ?p now" by (rule read_asks_with [OF assms(3,4)])
  have s0: "requests_ok s0" unfolding s0_def using assms(6) by (intro load_ok) (simp add: requests_stored_ok_def)
  obtain s1 al1 out1 where t1: "ask_turn pow e ?a m ''resident_primary'' s0 = (s1, al1, out1)"
    by (cases "ask_turn pow e ?a m ''resident_primary'' s0") simp
  obtain s2 al2 out2 where t2: "ask_turn pow e ?a m ''resident_secondary'' s1 = (s2, al2, out2)"
    by (cases "ask_turn pow e ?a m ''resident_secondary'' s1") simp
  have early: "\<forall>l. snd (retry_of (entry_of s0 role)) = Some l \<longrightarrow> l \<le> now" if "role \<in> set residents" for role
    using assms(7) that by (simp add: stored_retry_def s0_def)
  have two: "''resident_primary'' \<in> set residents" "''resident_secondary'' \<in> set residents" by (simp_all add: residents_def)
  note r1 = ask_turn_retry [OF a assms(5) s0 early [OF two(1)] t1]
  have e1: "entry_of s1 ''resident_secondary'' = entry_of s0 ''resident_secondary''" by (rule r1(2)) simp
  note r2 = ask_turn_retry [OF a assms(5) r1(1) _ t2, unfolded e1, OF early [OF two(2)]]
  have e2: "entry_of s2 ''resident_primary'' = entry_of s1 ''resident_primary''" using r2(2) [of "''resident_primary''"] by simp
  define s where "s = jset s2 ''updated_at'' (JNum (ak_now ?a))"
  have s: "requests_ok s" "entry_of s role' = entry_of s2 role'" for role'
    using r2(1) stamp_ok by (simp_all add: s_def requests_ok_def)
  let ?ps = "[out1, out2, al1 @ al2]"
  have run: "refresh_decide pow e c m = (if list_all (\<lambda>p. p = []) ?ps then Stop (pset c asks_key s) else Emit (pset c asks_key s) ?ps)"
    using assms(2) good_usable [OF assms(3)] a badge_fine [OF r2(1)]
    by (simp add: refresh_decide_def Let_def prod asks_with_def sget_def s0_def[symmetric] t1 t2 sset_def s_def)
  then have c': "c' = pset c asks_key s" by (simp add: c'_def)
  show "requests_stored_ok c'" "glob c' = glob c" using s(1) by (simp_all add: c' requests_stored_ok_def)
  have stored0: "stored_retry c role' = retry_of (entry_of s0 role')" for role' by (simp add: stored_retry_def s0_def)
  have stored: "stored_retry c' role' = retry_of (entry_of s2 role')" for role'
    by (simp add: stored_retry_def c' load_stored [OF s(1)] s(2))
  have asked: "asked (refresh_decide pow e c m) ''resident_primary'' = (out1 \<noteq> [])"
    "asked (refresh_decide pow e c m) ''resident_secondary'' = (out2 \<noteq> [])"
    by (auto simp: run asked_def role_port_def port_def)
  show "retry_step (schedule_of ?p) now (brings_position e c m role) (request_due e c m role)
        (stored_retry c role) = (stored_retry c' role, asked (refresh_decide pow e c m) role)" if "role \<in> set residents"
    using that r1(3) r2(3) e2
    by (auto simp: residents_def stored asked brings_position_def request_due_def addressed_def prod s0_def[symmetric] stored0)
qed

section \<open>Any interleaving\<close>

interpretation refresh: dry_run "refresh_decide pow" test_msg for pow
proof
  fix e c m assume "test_msg m"
  then have "ak_test (read_asking e c m)" by (simp add: read_asking_def Let_def)
  then show "isolated c (ctx_of (refresh_decide pow e c m))"
    by (auto simp: refresh_decide_def Let_def split: prod.splits)
qed

interpretation gate: dry_run_gate effect_gate test_msg
  by unfold_locales (auto simp: effect_gate_def Let_def split: if_splits)

definition location_configured :: "ctx \<Rightarrow> bool" where
  "location_configured c = (glob c ''location_policy_v1'' = JUndef \<or> location_good (glob c ''location_policy_v1''))"

text \<open>Commands of every kind, dry runs included, changes of the parameters and whatever the other flows do, with a
  clock that does not run backwards.\<close>

inductive refresh_runs :: "(jnum \<Rightarrow> jnum) \<Rightarrow> rat \<Rightarrow> ctx \<Rightarrow> rat \<Rightarrow> ctx \<Rightarrow> bool" for pow t0 c0 where
  begins: "refresh_runs pow t0 c0 t0 c0"
| commanded: "refresh_runs pow t0 c0 t c \<Longrightarrow> clock e = Fin t' \<Longrightarrow> t \<le> t' \<Longrightarrow>
    refresh_runs pow t0 c0 t' (ctx_of (refresh_decide pow e c m))"
| configured: "refresh_runs pow t0 c0 t c \<Longrightarrow> is_obj m \<Longrightarrow> refresh_runs pow t0 c0 t (ctx_of (location_policy_flow e c m))"
| elsewhere: "refresh_runs pow t0 c0 t c \<Longrightarrow> fper c' asks_key = fper c asks_key \<Longrightarrow>
    glob c' ''location_policy_v1'' = glob c ''location_policy_v1'' \<Longrightarrow> refresh_runs pow t0 c0 t c'"

definition refresh_fresh :: "rat \<Rightarrow> ctx \<Rightarrow> bool" where
  "refresh_fresh t c = (0 < t \<and> fper c asks_key = JUndef \<and> location_configured c)"

definition requests_past :: "rat \<Rightarrow> ctx \<Rightarrow> bool" where
  "requests_past t c = (0 < t \<and> requests_stored_ok c \<and> location_configured c \<and>
     (\<forall>role \<in> set residents. \<forall>l. snd (stored_retry c role) = Some l \<longrightarrow> l \<le> t))"

text \<open>The last requests of one context are not later than those of the next one.\<close>

definition requests_onward :: "ctx \<Rightarrow> ctx \<Rightarrow> bool" where
  "requests_onward c c' = (\<forall>role \<in> set residents. \<forall>l. snd (stored_retry c role) = Some l \<longrightarrow>
     (\<exists>l'. snd (stored_retry c' role) = Some l' \<and> l \<le> l'))"

lemma requests_onward_refl: "snd \<circ> stored_retry c' = snd \<circ> stored_retry c \<Longrightarrow> requests_onward c c'"
  by (auto simp: requests_onward_def fun_eq_iff)

lemma requests_onward_trans: "requests_onward a b \<Longrightarrow> requests_onward b c \<Longrightarrow> requests_onward a c"
  unfolding requests_onward_def by (meson order_trans)

lemma past_frame:
  assumes "requests_past t c" "fper c' asks_key = fper c asks_key" "location_configured c'" "t \<le> t'"
  shows "requests_past t' c'" "requests_onward c c'"
  using assms by (auto simp: requests_past_def requests_stored_ok_def stored_retry_def requests_onward_def intro: order_trans)

lemma policy_keeps_requests: "fper (ctx_of (location_policy_flow e c m)) = fper c"
  by (simp add: location_policy_flow_def location_policy_validate_def location_policy_store_def location_policy_reject_def Let_def)

lemma policy_configured:
  assumes "location_configured c" "is_obj m"
  shows "location_configured (ctx_of (location_policy_flow e c m))"
proof -
  let ?p = "glob c ''location_policy_v1''"
  have "policy_ready ?p \<longrightarrow> obj_wf ?p \<and> in_limits location_limits ?p"
    using assms(1) by (auto simp: location_configured_def location_good_def policy_good_def policy_ready_def)
  note good = location_jdel_good [OF location.merge_good [OF this]]
  then show ?thesis
    using assms good by (auto simp: location_configured_def location_policy_step location_good_def)
qed

lemma decide_last:
  assumes "retry_step sc now ev due (stored_retry c role) = (stored_retry c' role, asks)"
  shows "if asks then due \<and> snd (stored_retry c' role) = Some now \<and>
      (\<forall>l. snd (stored_retry c role) = Some l \<longrightarrow> (\<exists>n. l + wait_after sc n - 500 \<le> now))
    else snd (stored_retry c' role) = snd (stored_retry c role)"
proof -
  obtain n latest where r: "stored_retry c role = (n, latest)" by (cases "stored_retry c role")
  show ?thesis using assms unfolding r by (cases "stored_retry c' role") (auto simp: Let_def split: option.splits if_splits)
qed

lemma commanded_keeps:
  fixes pow m
  assumes "requests_past t c" "clock e = Fin t'" "t \<le> t'"
  defines "c' \<equiv> ctx_of (refresh_decide pow e c m)"
  shows "requests_past t' c'" "requests_onward c c'"
proof -
  have past: "requests_past t' c" by (rule past_frame(1) [OF assms(1) _ _ assms(3)]) (use assms(1) in \<open>simp_all add: requests_past_def\<close>)
  have "requests_past t' c' \<and> requests_onward c c'"
  proof (cases "test_msg m")
    case True
    then have "isolated c c'" unfolding c'_def by (rule refresh.test_isolated)
    then show ?thesis using past_frame [OF past, of c' t'] past by (auto simp: isolated_def requests_past_def location_configured_def)
  next
    case False
    show ?thesis
    proof (cases "refresh_wanted m \<and> refresh_usable (ak_policy (read_asking e c m))")
      case off: False
      then have "c' = c" by (auto simp: c'_def refresh_decide_def Let_def)
      then show ?thesis using past requests_onward_refl by simp
    next
      case on: True
      have "location_good (glob c ''location_policy_v1'')"
        using on past by (auto simp: requests_past_def location_configured_def read_asking_def Let_def dflt_def refresh_usable_def refresh_parameters_def)
      note run = decide_retries [where pow = pow, OF False _ this assms(2), folded c'_def]
      have now: "0 < t'" using past by (simp add: requests_past_def)
      have run: "requests_stored_ok c'" "glob c' = glob c"
        "\<And>role. role \<in> set residents \<Longrightarrow> retry_step (schedule_of (glob c ''location_policy_v1'')) t' (brings_position e c m role) (request_due e c m role)
           (stored_retry c role) = (stored_retry c' role, asked (refresh_decide pow e c m) role)"
        using run on past now by (auto simp: requests_past_def)
      have "requests_onward c c'"
        unfolding requests_onward_def
        using decide_last [OF run(3)] past by (metis order_refl requests_past_def)
      moreover have "l \<le> t'" if "role \<in> set residents" "snd (stored_retry c' role) = Some l" for role l
        using decide_last [OF run(3) [OF that(1)]] that past by (metis option.inject order_refl requests_past_def)
      ultimately show ?thesis using run(1,2) past by (auto simp: requests_past_def location_configured_def)
    qed
  qed
  then show "requests_past t' c'" "requests_onward c c'" by simp_all
qed

lemma runs_past:
  assumes "refresh_runs pow t0 c0 t c" "requests_past t0 c0"
  shows "requests_past t c \<and> requests_onward c0 c \<and> t0 \<le> t"
  using assms
proof induction
  case begins
  then show ?case using requests_onward_refl by simp
next
  case (commanded t c e t' m)
  then show ?case using commanded_keeps [of t c e t' pow m] requests_onward_trans by fastforce
next
  case (configured t c m e)
  then show ?case
    using past_frame [of t c "ctx_of (location_policy_flow e c m)" t] policy_configured [of c m e] requests_onward_trans
    by (auto simp: policy_keeps_requests requests_past_def) 
next
  case (elsewhere t c c')
  then have "location_configured c'" by (simp add: location_configured_def requests_past_def)
  then show ?case using elsewhere past_frame [of t c c' t] requests_onward_trans by blast
qed

lemma asked_wanted: "asked (refresh_decide pow e c m) role \<Longrightarrow> refresh_wanted m \<and> refresh_usable (ak_policy (read_asking e c m))"
  by (cases "refresh_wanted m \<and> refresh_usable (ak_policy (read_asking e c m))")
    (auto simp: asked_def refresh_decide_def Let_def)

lemma usable_good:
  assumes "refresh_usable (ak_policy (read_asking e c m))" "location_configured c"
  shows "location_good (glob c ''location_policy_v1'')"
  using assms by (auto simp: location_configured_def read_asking_def Let_def dflt_def refresh_usable_def refresh_parameters_def)

lemma past_steps:
  assumes "requests_past t c" "\<not> test_msg m" "refresh_wanted m" "location_good (glob c ''location_policy_v1'')" "clock e = Fin now" "t \<le> now"
    and "role \<in> set residents"
  shows "retry_step (schedule_of (glob c ''location_policy_v1'')) now (brings_position e c m role) (request_due e c m role)
     (stored_retry c role) = (stored_retry (ctx_of (refresh_decide pow e c m)) role, asked (refresh_decide pow e c m) role)"
  using assms by (intro decide_retries(3)) (force simp: requests_past_def)+

lemma asked_past:
  assumes "requests_past t c" "\<not> test_msg m" "clock e = Fin now" "t \<le> now" "role \<in> set residents" "asked (refresh_decide pow e c m) role"
  shows "snd (stored_retry (ctx_of (refresh_decide pow e c m)) role) = Some now"
    "snd (stored_retry c role) = Some l \<Longrightarrow> l + 59500 \<le> now"
proof -
  have good: "location_good (glob c ''location_policy_v1'')"
    using asked_wanted [OF assms(6)] usable_good assms(1) by (auto simp: requests_past_def)
  note d = decide_last [OF past_steps [OF assms(1,2) _ good assms(3-5), of pow]]
  show "snd (stored_retry (ctx_of (refresh_decide pow e c m)) role) = Some now"
    using d asked_wanted [OF assms(6)] assms(6) by simp
  assume "snd (stored_retry c role) = Some l"
  then obtain n where "l + wait_after (schedule_of (glob c ''location_policy_v1'')) n - 500 \<le> now"
    using d asked_wanted [OF assms(6)] assms(6) by auto
  then show "l + 59500 \<le> now" using schedule_waits(1) [OF good, of n] by simp
qed

lemma ask_when_silent:
  assumes "requests_past t c" "\<not> test_msg m" "refresh_wanted m" "location_good (glob c ''location_policy_v1'')" "clock e = Fin now" "t \<le> now"
    and "role \<in> set residents" "addressed e c m role"
    and "\<not> position_fresh (read_asking e c m) (jget (ak_people (read_asking e c m)) role)"
    and "\<And>l. snd (stored_retry c role) = Some l \<Longrightarrow> l + 14400000 \<le> now"
  shows "asked (refresh_decide pow e c m) role"
proof -
  note step = past_steps [OF assms(1-7), of pow]
  have due: "request_due e c m role" using assms(8,9) by (simp add: request_due_def ask_due_def)
  obtain n latest where r: "stored_retry c role = (n, latest)" by (cases "stored_retry c role")
  have "l + wait_after (schedule_of (glob c ''location_policy_v1'')) k - 500 \<le> now" if "latest = Some l" for l k
    using assms(10) [of l] schedule_waits(2) [OF assms(4), of k] that by (simp add: r)
  then show ?thesis using step due by (auto simp: r Let_def split: option.splits if_splits)
qed

lemma fresh_past: "refresh_fresh t c \<Longrightarrow> requests_past t c"
  by (auto simp: refresh_fresh_def requests_past_def requests_stored_ok_def stored_retry_def load_requests_def entry_of_def dflt_def)

text \<open>C29: The decision implements its retry machine. After any interleaving of commands, dry runs and changes of the
  parameters, a production command moves the stored requests of each resident exactly as the machine does: a new
  position resets them, a request that is due is made when the waiting time of the machine is over, which is the retry
  time up to the configured number of requests and then doubles up to the configured maximum, and nothing else changes.\<close>

theorem requests_follow_schedule:
  assumes "refresh_fresh t0 c0" "refresh_runs pow t0 c0 t c" "\<not> test_msg m" "refresh_wanted m"
    and "glob c ''location_policy_v1'' \<noteq> JUndef" "clock e = Fin now" "t \<le> now" "role \<in> set residents"
  shows "retry_step (schedule_of (glob c ''location_policy_v1'')) now (brings_position e c m role) (request_due e c m role)
     (stored_retry c role) = (stored_retry (ctx_of (refresh_decide pow e c m)) role, asked (refresh_decide pow e c m) role)"
proof -
  have past: "requests_past t c" using runs_past [OF assms(2) fresh_past [OF assms(1)]] by simp
  then have "location_good (glob c ''location_policy_v1'')" using assms(5) by (simp add: requests_past_def location_configured_def)
  then show ?thesis by (rule past_steps [OF past assms(3,4) _ assms(6-8)])
qed

text \<open>C30: The phone of a resident is not asked twice within a minute. Whatever happens between two production commands that
  ask the same resident, approaches, new positions, dry runs and changes of the parameters included, they are 59.5
  seconds apart, the shortest retry time less the tolerance of half a second.\<close>

theorem requests_spaced:
  assumes "refresh_fresh t0 c0" "refresh_runs pow t0 c0 t c" "role \<in> set residents"
    and "\<not> test_msg m1" "clock e1 = Fin n1" "t \<le> n1" "asked (refresh_decide pow e1 c m1) role"
    and "refresh_runs pow n1 (ctx_of (refresh_decide pow e1 c m1)) t' c'"
    and "\<not> test_msg m2" "clock e2 = Fin n2" "t' \<le> n2" "asked (refresh_decide pow e2 c' m2) role"
  shows "n1 + 59500 \<le> n2"
proof -
  have past: "requests_past t c" using runs_past [OF assms(2) fresh_past [OF assms(1)]] by simp
  define c1 where "c1 = ctx_of (refresh_decide pow e1 c m1)"
  have past1: "requests_past n1 c1" unfolding c1_def by (rule commanded_keeps(1) [OF past assms(5,6)])
  have one: "snd (stored_retry c1 role) = Some n1" unfolding c1_def by (rule asked_past(1) [OF past assms(4-6,3,7)])
  have next': "requests_past t' c'" "requests_onward c1 c'" using runs_past [OF assms(8) [folded c1_def] past1] by simp_all
  then obtain l where l: "snd (stored_retry c' role) = Some l" "n1 \<le> l" using one assms(3) by (auto simp: requests_onward_def)
  show ?thesis using asked_past(2) [OF next'(1) assms(9-11,3,12) l(1)] l(2) by simp
qed

text \<open>C31: A resident without a current position is asked again and again. In every reachable state with stored parameters, any
  production command that addresses a resident whose position is not current asks that resident, if the last request
  is four hours old or none was made, however many requests have gone unanswered.\<close>

theorem asked_until_answered:
  assumes "refresh_fresh t0 c0" "refresh_runs pow t0 c0 t c" "\<not> test_msg m" "refresh_wanted m"
    and "glob c ''location_policy_v1'' \<noteq> JUndef" "clock e = Fin now" "t \<le> now" "role \<in> set residents" "addressed e c m role"
    and "\<not> position_fresh (read_asking e c m) (jget (ak_people (read_asking e c m)) role)"
    and "\<forall>l. snd (stored_retry c role) = Some l \<longrightarrow> l + 14400000 \<le> now"
  shows "asked (refresh_decide pow e c m) role"
proof -
  have past: "requests_past t c" using runs_past [OF assms(2) fresh_past [OF assms(1)]] by simp
  then have good: "location_good (glob c ''location_policy_v1'')" using assms(5) by (simp add: requests_past_def location_configured_def)
  show ?thesis using ask_when_silent [OF past assms(3,4) good assms(6-10)] assms(11) by simp
qed

section \<open>The theorems on concrete messages\<close>

definition silent_people :: jv where
  "silent_people = JObj [(''resident_primary'', JObj [(''ready'', JFalse), (''state'', JStr ''not_home'')])]"

definition silent_context :: ctx where
  "silent_context = fset default_policies ''people_context_v1'' silent_people"

definition people_command :: jv where
  "people_command = JObj [(''payload'', JObj [(''kind'', JStr ''refresh_command'')])]"

lemma silent_reads:
  "refresh_fresh 1000000 silent_context" "\<not> test_msg people_command" "refresh_wanted people_command"
  "glob silent_context ''location_policy_v1'' \<noteq> JUndef" "''resident_primary'' \<in> set residents"
  "location_good (glob silent_context ''location_policy_v1'')"
proof -
  show good: "location_good (glob silent_context ''location_policy_v1'')"
    by (simp add: silent_context_def location_good_def) code_simp
  show "refresh_fresh 1000000 silent_context"
    using good by (simp add: refresh_fresh_def location_configured_def) (simp add: silent_context_def)
  show "glob silent_context ''location_policy_v1'' \<noteq> JUndef"
    by (simp add: silent_context_def std_location_def stored_policy_def)
  show "\<not> test_msg people_command" "refresh_wanted people_command" "''resident_primary'' \<in> set residents"
    by (simp_all add: people_command_def test_msg_def refresh_wanted_def arrival_ask_def plget_def payload_def residents_def)
qed

lemma silent_resident:
  assumes "fmem c ''people_context_v1'' = silent_people"
  shows "addressed e c people_command ''resident_primary''"
    "\<not> position_fresh (read_asking e c people_command) (jget (ak_people (read_asking e c people_command)) ''resident_primary'')"
  using assms silent_reads(2)
  by (simp_all add: addressed_def read_asking_def Let_def mget_def tkey_def silent_people_def dflt_def position_fresh_def
      arrival_ask_def people_command_def plget_def payload_def)

theorem asked_until_answered_witness:
  "asked (refresh_decide id (host_at 1000000) silent_context people_command) ''resident_primary''"
proof -
  have none: "\<forall>l. snd (stored_retry silent_context ''resident_primary'') = Some l \<longrightarrow> l + 14400000 \<le> 1000000"
    by (simp add: stored_retry_def silent_context_def load_requests_def entry_of_def dflt_def)
  show ?thesis
    by (rule asked_until_answered [OF silent_reads(1) refresh_runs.begins silent_reads(2-4) _ _ silent_reads(5) silent_resident none])
      (simp_all add: silent_context_def)
qed

lemma silent_asked:
  "asked (refresh_decide id (host_at 1000000) silent_context people_command) ''resident_primary''"
  "\<not> asked (refresh_decide id (host_at 1000000) silent_context people_command) ''resident_secondary''"
proof -
  show "asked (refresh_decide id (host_at 1000000) silent_context people_command) ''resident_primary''"
    by (rule ask_when_silent [where now = 1000000, OF fresh_past [OF silent_reads(1)] silent_reads(2,3,6) _ _ silent_reads(5) silent_resident])
      (simp_all add: silent_context_def stored_retry_def load_requests_def entry_of_def dflt_def)
  have "\<not> request_due (host_at 1000000) silent_context people_command ''resident_secondary''"
    using silent_reads(2) by (simp add: request_due_def addressed_def read_asking_def Let_def mget_def tkey_def silent_context_def silent_people_def dflt_def)
  moreover have two: "''resident_secondary'' \<in> set residents" by (simp add: residents_def)
  ultimately show "\<not> asked (refresh_decide id (host_at 1000000) silent_context people_command) ''resident_secondary''"
    using decide_last [OF past_steps [OF fresh_past [OF silent_reads(1)] silent_reads(2,3,6) _ _ two, of "host_at 1000000" 1000000 id]] by auto
qed

theorem requests_follow_schedule_witness:
  "stored_retry (ctx_of (refresh_decide id (host_at 1000000) silent_context people_command)) ''resident_primary'' = (1, Some 1000000)"
proof -
  have z: "stored_retry silent_context ''resident_primary'' = (0, None)"
    by (simp add: stored_retry_def silent_context_def load_requests_def entry_of_def dflt_def)
  show ?thesis
    using requests_follow_schedule [OF silent_reads(1) refresh_runs.begins silent_reads(2-4) _ _ silent_reads(5), of "host_at 1000000" 1000000 id]
      silent_asked(1) z by (auto simp: Let_def split: if_splits)
qed

theorem requests_spaced_witness:
  "\<exists>c'. asked (refresh_decide id (host_at 20000000) c' people_command) ''resident_primary'' \<and> (1000000::rat) + 59500 \<le> 20000000 \<and>
     snd (stored_retry c' ''resident_primary'') = Some 1000000"
proof -
  let ?c1 = "ctx_of (refresh_decide id (host_at 1000000) silent_context people_command)"
  let ?c = "fset ?c1 ''people_context_v1'' silent_people"
  have past1: "requests_past 1000000 ?c1" by (rule commanded_keeps(1) [OF fresh_past [OF silent_reads(1)]]) simp_all
  have runs: "refresh_runs id 1000000 ?c1 1000000 ?c" by (rule refresh_runs.elsewhere [OF refresh_runs.begins]) simp_all
  have past: "requests_past 1000000 ?c" using runs_past [OF runs past1] by simp
  have one: "snd (stored_retry ?c ''resident_primary'') = Some 1000000"
    using asked_past(1) [OF fresh_past [OF silent_reads(1)] silent_reads(2) _ _ silent_reads(5) silent_asked(1)]
    by (simp add: stored_retry_def)
  have "glob ?c1 = glob silent_context"
    by (rule decide_retries(2) [OF silent_reads(2,3,6)]) (use fresh_past [OF silent_reads(1)] in \<open>auto simp: requests_past_def\<close>)
  then have good: "location_good (glob ?c ''location_policy_v1'')" using silent_reads(6) by simp
  have again: "asked (refresh_decide id (host_at 20000000) ?c people_command) ''resident_primary''"
    by (rule ask_when_silent [where now = 20000000, OF past silent_reads(2,3) good _ _ silent_reads(5) silent_resident]) (use one in simp_all)
  show ?thesis
    using requests_spaced [OF silent_reads(1) refresh_runs.begins silent_reads(5) silent_reads(2) _ _ silent_asked(1) runs silent_reads(2) _ _ again]
      again one by (intro exI [of _ ?c]) simp
qed

end
