(* ===== verification/ArrivalContext.thy ===== *)
theory ArrivalContext
  imports Places Policies
begin

text \<open>
  The coordinator of the contexts (tab \<open>contexto_chegadas\<close>, \<open>arrival-context-*.js\<close>). A request starts a cycle:
  it asks both domains, people and car, for a snapshot, and when both have answered it publishes one joint
  refresh command. Snapshots are cached in time order. A resident who leaves home gives a command of its own,
  which takes the place of the joint one. A resident who comes home starts a confirmation: from its deadline
  on, the car's telemetry is asked for again and again until the request shows in the car's context, the
  engine is off, the resident has left, or the confirmation expires.

  \<open>cycle_flow\<close> handles requests, \<open>snapshot_flow\<close> snapshots, \<open>home_tick\<close> the clock of the confirmations, and
  \<open>context_policy_flow\<close> the parameters. The fields the nodes keep in the message are the records \<open>request\<close>,
  \<open>snapshot\<close> and \<open>home_due\<close>.
\<close>

section \<open>Parameters\<close>

abbreviation context_policy_key :: string where
  "context_policy_key \<equiv> ''arrival_context_policy_v1''"

definition context_limits :: "(string \<times> rat \<times> rat) list" where
  "context_limits = [(''inflight_timeout_s'', 1, 60), (''future_tolerance_s'', 0, 300),
     (''home_confirmation_delay_s'', 30, 300), (''home_confirmation_retry_s'', 10, 120),
     (''home_confirmation_expiry_min'', 5, 60)]"

definition context_accepts :: "jv \<Rightarrow> string \<times> rat \<times> rat \<Rightarrow> bool" where
  "context_accepts p = (\<lambda>(k, lo, hi). integral (jnum_of p k) \<and> Fin lo \<le> jnum_of p k \<and> jnum_of p k \<le> Fin hi)"

definition context_candidate :: "jv \<Rightarrow> jv" where
  "context_candidate p = JObj ((''version'', JNum 1) # map (\<lambda>(k, lo, hi). (k, JNum (jnum_of p k))) context_limits)"

definition context_policy_flow :: "ctx \<Rightarrow> jv \<Rightarrow> ports run" where
  "context_policy_flow c m =
    (if list_all (context_accepts (payload m)) context_limits then Stop (pset c context_policy_key (context_candidate (payload m)))
     else Stop (logged NodeWarn c))"

definition context_policy :: "ctx \<Rightarrow> jv option" where
  "context_policy c = (let p = fper c context_policy_key in if truthy p \<and> jget p ''version'' = JNum 1 then Some p else None)"

section \<open>Cycles\<close>

abbreviation pending_key :: string where
  "pending_key \<equiv> ''refresh_pending''"

abbreviation cycle_clock_key :: string where
  "cycle_clock_key \<equiv> ''refresh_cycle_clock''"

definition message_now :: "env \<Rightarrow> jv \<Rightarrow> jnum" where
  "message_now e m = to_num (dflt (jget m ''monitor_now'') (JNum (clock e)))"

record request =
  rq_test :: bool
  rq_case :: jv
  rq_pending :: jv
  rq_now :: jnum
  rq_inflight :: bool
  rq_force :: bool
  rq_lighting :: bool
  rq_reason :: jv
  rq_resident :: bool
  rq_source :: jv
  rq_stage :: jv

definition cycle_read :: "env \<Rightarrow> jv \<Rightarrow> ctx \<Rightarrow> jv \<Rightarrow> request" where
  "cycle_read e p c m =
    (let t = test_msg m; pending = mget t c pending_key; now = message_now e m; started = jnum_of pending ''started_at'' in
     \<lparr>rq_test = t, rq_case = test_case m, rq_pending = pending, rq_now = now,
      rq_inflight = (truthy pending \<and> jget pending ''emitted'' \<noteq> JTrue \<and> fin started \<and>
        now - started < jnum_of p ''inflight_timeout_s'' * 1000),
      rq_force = (plget m ''force_recovery'' = JTrue), rq_lighting = (plget m ''require_lighting_ready'' = JTrue),
      rq_reason = jor (plget m ''reason'') (JStr ''startup_or_periodic_reconciliation''),
      rq_resident = (plget m ''resident_arrival_force'' = JTrue),
      rq_source = dflt (plget m ''arrival_source'') JNull, rq_stage = dflt (plget m ''arrival_stage'') JNull\<rparr>)"

definition cycle_promote :: "ctx \<Rightarrow> request \<Rightarrow> ctx" where
  "cycle_promote c q =
    (let p = rq_pending q in
     mset (rq_test q) c pending_key (jsets p
       [(''force_recovery'', JTrue),
        (''require_lighting_ready'', JBool (jget p ''require_lighting_ready'' = JTrue \<or> rq_lighting q)),
        (''request_reason'', rq_reason q),
        (''resident_arrival_force'', JBool (jget p ''resident_arrival_force'' = JTrue \<or> rq_resident q)),
        (''arrival_source'', dflt (rq_source q) (dflt (jget p ''arrival_source'') JNull)),
        (''arrival_stage'', dflt (rq_stage q) (dflt (jget p ''arrival_stage'') JNull))]))"

definition next_cycle :: "ctx \<Rightarrow> request \<Rightarrow> jnum" where
  "next_cycle c q =
    (let previous = to_num (jor (mget (rq_test q) c cycle_clock_key) (JNum 0)) in
     jmax (rq_now q) (if fin previous then previous + 1 else 0))"

definition new_pending :: "request \<Rightarrow> jnum \<Rightarrow> jv" where
  "new_pending q cycle = JObj
    [(''cycle'', JNum cycle), (''people_received'', JFalse), (''vehicle_primary_received'', JFalse),
     (''people_ready'', JFalse), (''vehicle_primary_ready'', JFalse), (''emitted'', JFalse),
     (''started_at'', JNum (rq_now q)), (''force_recovery'', JBool (rq_force q)),
     (''require_lighting_ready'', JBool (rq_lighting q)), (''request_reason'', rq_reason q),
     (''resident_arrival_force'', JBool (rq_resident q)), (''arrival_source'', rq_source q),
     (''arrival_stage'', rq_stage q)]"

definition test_fields :: "bool \<Rightarrow> jv \<Rightarrow> (string \<times> jv) list" where
  "test_fields t tc = (if t then [(''test_mode'', JTrue), (''test_case'', tc)] else [])"

definition snapshot_request :: "jv \<Rightarrow> request \<Rightarrow> jnum \<Rightarrow> jv" where
  "snapshot_request m q cycle = JObj
    ([(''contract'', JStr ''security.snapshot-request.v1''), (''kind'', JStr ''snapshot_request''),
      (''refresh_cycle_id'', JNum cycle), (''origin'', JStr ''contexto_chegadas''),
      (''reason'', if rq_test q then JStr (if truthy (jget m ''_location_test_reset'') then ''manual_location_test_reset''
         else ''manual_location_test'') else rq_reason q),
      (''force_recovery'', JBool (rq_force q)), (''require_lighting_ready'', JBool (rq_lighting q)),
      (''requested_at'', JNum cycle)] @ test_fields (rq_test q) (rq_case q))"

definition cycle_start :: "ctx \<Rightarrow> jv \<Rightarrow> request \<Rightarrow> ports run" where
  "cycle_start c m q =
    (let cycle = next_cycle c q; c1 = mset (rq_test q) c cycle_clock_key (JNum cycle) in
     Emit (mset (rq_test q) c1 pending_key (new_pending q cycle))
       [[jsets m [(''_location_test'', JBool (rq_test q)), (''_location_test_case'', rq_case q),
          (''payload'', snapshot_request m q cycle)]]])"

definition cycle_step :: "env \<Rightarrow> jv \<Rightarrow> ctx \<Rightarrow> jv \<Rightarrow> ports run" where
  "cycle_step e p c m =
    (let q = cycle_read e p c m in
     if \<not> rq_inflight q then cycle_start c m q
     else if rq_force q then Stop (cycle_promote c q)
     else Stop c)"

definition context_test_keys :: "string list" where
  "context_test_keys = [''refresh_pending__test'', ''people_context_v1__test'', ''vehicle_primary_context_v1__test'',
     ''resident_departure_refresh_v1__test'', ''resident_home_refresh_v1__test'',
     ''resident_home_refresh_last_v1__test'', ''resident_home_refresh_v2__test'',
     ''resident_home_refresh_last_v2__test'', ''refresh_cycle_clock__test'',
     ''people_rejected_snapshot_episode_v1__test'', ''vehicle_primary_rejected_snapshot_episode_v1__test'']"

definition context_test_reset :: "jv \<Rightarrow> jv" where
  "context_test_reset m =
    (let tc = dflt (jget m ''_location_test_case'') (dflt (plget m ''test_case'') (JStr ''context_coordinator'')) in
     jsets m [(''_location_test'', JTrue), (''_location_test_case'', tc), (''_location_test_reset'', JTrue), (''payload'', JObj
       [(''kind'', JStr ''refresh_tick''), (''reason'', JStr ''manual_location_test_reset''), (''force_recovery'', JFalse),
        (''require_lighting_ready'', JFalse), (''test_mode'', JTrue), (''test_case'', tc)])])"

definition cycle_flow :: "env \<Rightarrow> ctx \<Rightarrow> jv \<Rightarrow> ports run" where
  "cycle_flow e c m =
    (case context_policy c of
       None \<Rightarrow> Stop c
     | Some p \<Rightarrow>
       if plget m ''kind'' = JStr ''test_reset'' then
         (if test_msg m then cycle_step e p (fold (\<lambda>k c. fset c k JUndef) context_test_keys c) (context_test_reset m) else Stop c)
       else if plget m ''kind'' = JStr ''refresh_tick'' then cycle_step e p c m
       else Stop c)"

section \<open>Snapshots\<close>

definition snapshot_domain :: "jv \<Rightarrow> string option" where
  "snapshot_domain m =
    (if plget m ''kind'' = JStr ''people_context'' then Some ''people''
     else if plget m ''kind'' = JStr ''vehicle_primary_context'' then Some ''vehicle_primary'' else None)"

record snapshot =
  sn_test :: bool
  sn_case :: jv
  sn_domain :: string
  sn_context :: jv
  sn_previous :: jv
  sn_incoming :: jnum
  sn_previous_at :: jnum
  sn_now :: jnum

definition snapshot_read :: "env \<Rightarrow> ctx \<Rightarrow> jv \<Rightarrow> string \<Rightarrow> snapshot" where
  "snapshot_read e c m domain =
    (let t = test_msg m; x = plget m ''context''; previous = mget t c (domain @ ''_context_v1'') in
     \<lparr>sn_test = t, sn_case = test_case m, sn_domain = domain, sn_context = x, sn_previous = previous,
      sn_incoming = to_num (dflt (plget m ''updated_at'') (dflt (jget x ''updated_at'') (JNum 0))),
      sn_previous_at = to_num (dflt (jget previous ''updated_at'') (JNum 0)), sn_now = message_now e m\<rparr>)"

text \<open>\<open>None\<close> accepts the snapshot, \<open>Some reason\<close> rejects it. A time stamp is missing when it is falsy.\<close>

definition has_time :: "jnum \<Rightarrow> bool" where
  "has_time x = truthy (JNum x)"

definition snapshot_verdict :: "jv \<Rightarrow> snapshot \<Rightarrow> string option" where
  "snapshot_verdict p s =
    (let known = truthy (sn_previous s) in
     if sn_now s + jnum_of p ''future_tolerance_s'' * 1000 < sn_incoming s then Some ''future_timestamp''
     else if known \<and> has_time (sn_incoming s) \<and> has_time (sn_previous_at s) \<and> sn_incoming s < sn_previous_at s
       then Some ''out_of_order''
     else if \<not> known \<or> has_time (sn_incoming s) \<and> (\<not> has_time (sn_previous_at s) \<or> sn_previous_at s < sn_incoming s) then None
     else if \<not> has_time (sn_incoming s) then Some ''missing_timestamp''
     else if jseq (JNum (sn_incoming s)) (JNum (sn_previous_at s)) \<and> \<not> json_same (sn_previous s) (sn_context s) then None
     else Some ''duplicate'')"

text \<open>Rejections of the same snapshot are one episode, logged once and counted.\<close>

definition episode_key :: "string \<Rightarrow> string" where
  "episode_key domain = domain @ ''_rejected_snapshot_episode_v1''"

definition episode_over :: "snapshot \<Rightarrow> jv \<Rightarrow> bool" where
  "episode_over s ep = (truthy ep \<and> (sn_now s < jnum_of ep ''started_at'' \<or> 21600000 \<le> sn_now s - jnum_of ep ''started_at''))"

definition episode_signature :: "snapshot \<Rightarrow> string \<Rightarrow> jv" where
  "episode_signature s reason = JStr (join_with '':'' [reason, num_str (sn_incoming s), num_str (sn_previous_at s)])"

definition note_rejection :: "ctx \<Rightarrow> snapshot \<Rightarrow> string \<Rightarrow> ctx" where
  "note_rejection c s reason =
    (let t = sn_test s; k = episode_key (sn_domain s); ep = mget t c k; sig = episode_signature s reason in
     if jseq (jget ep ''signature'') sig \<and> \<not> episode_over s ep
     then mset t c k (jset ep ''repeats'' (JNum (jmin (jnum_of ep ''repeats'' + 1) 9007199254740991)))
     else logged NodeWarn (mset t (if truthy ep then logged NodeLog c else c) k (JObj
       [(''signature'', sig), (''reason'', JStr reason), (''repeats'', JNum 0), (''started_at'', JNum (sn_now s))])))"

definition close_episode :: "ctx \<Rightarrow> snapshot \<Rightarrow> ctx" where
  "close_episode c s =
    (let t = sn_test s; k = episode_key (sn_domain s) in
     if truthy (mget t c k) then logged NodeLog (mset t c k JNull) else c)"

definition cache_mutate :: "ctx \<Rightarrow> snapshot \<Rightarrow> string option \<Rightarrow> ctx" where
  "cache_mutate c s v =
    (case v of
       None \<Rightarrow> close_episode (mset (sn_test s) c (sn_domain s @ ''_context_v1'') (sn_context s)) s
     | Some reason \<Rightarrow> if reason = ''duplicate'' then close_episode c s else note_rejection c s reason)"

section \<open>Departures\<close>

abbreviation departure_key :: string where
  "departure_key \<equiv> ''resident_departure_refresh_v1''"

definition departure_position :: "jv \<Rightarrow> snapshot \<Rightarrow> jv" where
  "departure_position m s = jget (sn_context s) (to_str (plget m ''source''))"

definition departure_at :: "jv \<Rightarrow> snapshot \<Rightarrow> jnum" where
  "departure_at m s = to_num (dflt (jget (departure_position m s) ''updated_at'') (JNum (sn_incoming s)))"

definition departure_signature :: "jv \<Rightarrow> snapshot \<Rightarrow> jv" where
  "departure_signature m s = JStr (join_with '':'' [key_text (plget m ''source''), key_text (plget m ''trigger_prev_state''),
     key_text (plget m ''trigger_state''), num_str (departure_at m s)])"

text \<open>The switches from the domain of the snapshot to its signature.\<close>

definition departure_selected :: "ctx \<Rightarrow> jv \<Rightarrow> snapshot \<Rightarrow> bool \<Rightarrow> bool" where
  "departure_selected c m s accepted =
    (sn_domain s = ''people'' \<and> accepted \<and> str_among (plget m ''source'') residents \<and>
     plget m ''trigger_prev_state'' = JStr ''home'' \<and> str_among (plget m ''trigger_state'') [''near_home'', ''not_home''] \<and>
     jget (departure_position m s) ''ready'' = JTrue \<and> jget (sn_context s) ''best_location_away'' = JTrue \<and>
     dflt (jget (sget (sn_test s) c departure_key) ''key'') JNull \<noteq> departure_signature m s)"

definition departure_store :: "ctx \<Rightarrow> jv \<Rightarrow> snapshot \<Rightarrow> ctx" where
  "departure_store c m s = sset (sn_test s) c departure_key
     (JObj [(''key'', departure_signature m s), (''at'', JNum (sn_now s))])"

definition departure_command :: "ctx \<Rightarrow> jv \<Rightarrow> snapshot \<Rightarrow> jv" where
  "departure_command c m s =
    (let people = sn_context s; vehicle = jor (mget (sn_test s) c ''vehicle_primary_context_v1'') (JObj []);
         state = (\<lambda>role. dflt (jget (jget people role) ''state'') JNull);
         ready = (\<lambda>role. JBool (jget (jget people role) ''ready'' = JTrue)) in JObj
     ([(''contract'', JStr ''security.refresh-command.v1''), (''kind'', JStr ''refresh_command''),
       (''reason'', JStr ''resident_departure''), (''recovery_reason'', JStr ''resident_departure''),
       (''resident_departure_force'', JTrue), (''departure_source'', plget m ''source''),
       (''departure_state'', plget m ''trigger_state''), (''departure_event_at'', JNum (departure_at m s)),
       (''resident_primary_state'', state ''resident_primary''), (''resident_secondary_state'', state ''resident_secondary''),
       (''resident_primary_ready'', ready ''resident_primary''), (''resident_secondary_ready'', ready ''resident_secondary''),
       (''any_resident_away'', JBool (jget people ''anyone_away'' = JTrue)),
       (''people_ready'', JBool (plget m ''ready'' = JTrue)), (''vehicle_primary_ready'', JBool (jget vehicle ''ready'' = JTrue)),
       (''force_recovery'', JTrue), (''origin'', JStr ''resident_departure_transition''),
       (''issued_at'', JNum (sn_now s))] @ test_fields (sn_test s) (sn_case s)))"

section \<open>Joining both domains\<close>

definition pending_update :: "jv \<Rightarrow> jv \<Rightarrow> snapshot \<Rightarrow> bool \<Rightarrow> jv" where
  "pending_update pending m s accepted = jsets pending
     [(sn_domain s @ ''_received'', JTrue),
      (sn_domain s @ ''_ready'', JBool (if accepted then plget m ''ready'' = JTrue else jget (sn_previous s) ''ready'' = JTrue))]"

definition both_received :: "jv \<Rightarrow> bool" where
  "both_received p = (jget p ''people_received'' = JTrue \<and> jget p ''vehicle_primary_received'' = JTrue)"

text \<open>The facts of the change node. The operator \<open>!=\<close> of JSONata is false on a missing value.\<close>

definition people_recovery_needed :: "jv \<Rightarrow> bool" where
  "people_recovery_needed p = (jget p ''people_ready'' \<noteq> JUndef \<and> jget p ''people_ready'' \<noteq> JTrue)"

definition recovery_needed :: "jv \<Rightarrow> bool" where
  "recovery_needed p = (jget p ''vehicle_primary_ready'' \<noteq> JUndef \<and> jget p ''vehicle_primary_ready'' \<noteq> JTrue \<or>
     jget p ''force_recovery'' = JTrue)"

definition contexts_ready :: "jv \<Rightarrow> bool" where
  "contexts_ready p = (jget p ''people_ready'' = JTrue \<and> jget p ''vehicle_primary_ready'' = JTrue)"

text \<open>Why the cars and phones are asked: the reason of the request, else what is not ready. A reason that is no
  text is an error of the switch.\<close>

definition recovery_reason :: "jv \<Rightarrow> string option" where
  "recovery_reason p = (case jget p ''request_reason'' of
     JStr r \<Rightarrow> Some (if r \<noteq> [] then r else if recovery_needed p then ''vehicle_readiness_recovery_needed''
       else if people_recovery_needed p then ''people_location_recovery_only'' else ''paired_ready_snapshots'')
   | JUndef \<Rightarrow> Some (if recovery_needed p then ''vehicle_readiness_recovery_needed''
       else if people_recovery_needed p then ''people_location_recovery_only'' else ''paired_ready_snapshots'')
   | _ \<Rightarrow> None)"

definition resident_fields :: "jv \<Rightarrow> string \<Rightarrow> (string \<times> jv) list" where
  "resident_fields people role =
    (let item = dflt (jget people role) (JObj []) in
     [(role @ ''_state'', dflt (jget item ''state'') JNull), (role @ ''_ready'', JBool (jget item ''ready'' = JTrue)),
      (role @ ''_updated_at'', dflt (jget item ''updated_at'') JNull),
      (role @ ''_distance_m'', dflt (jget item ''distance_m'') JNull)])"

definition joint_command :: "ctx \<Rightarrow> snapshot \<Rightarrow> string option \<Rightarrow> jv \<Rightarrow> string \<Rightarrow> jv" where
  "joint_command c s v p reason =
    (let people = jor (mget (sn_test s) c ''people_context_v1'') (JObj []);
         vehicle = jor (mget (sn_test s) c ''vehicle_primary_context_v1'') (JObj []);
         spread = (\<lambda>k. jspread (dflt (jget people k) (JObj [])) (JObj [])) in jsets (JObj
     ([(''contract'', JStr ''security.refresh-command.v1''), (''kind'', JStr ''refresh_command''),
       (''refresh_cycle_id'', jget p ''cycle''),
       (''anyone_away'', JBool (jget people ''anyone_away'' = JTrue \<or> jget vehicle ''away'' = JTrue)),
       (''any_resident_away'', JBool (jget people ''anyone_away'' = JTrue)),
       (''people_arrival_armed'', spread ''arrival_armed''), (''people_local_excursions'', spread ''local_excursions''),
       (''people_ready'', JBool (jget p ''people_ready'' = JTrue)),
       (''people_recovery_needed'', JBool (people_recovery_needed p)),
       (''vehicle_primary_ready'', JBool (jget p ''vehicle_primary_ready'' = JTrue)),
       (''contexts_ready'', JBool (contexts_ready p)), (''recovery_needed'', JBool (recovery_needed p)),
       (''force_recovery'', JBool (jget p ''force_recovery'' = JTrue)),
       (''require_lighting_ready'', JBool (jget p ''require_lighting_ready'' = JTrue)),
       (''resident_arrival_force'', JBool (jget p ''resident_arrival_force'' = JTrue)),
       (''arrival_source'', dflt (jget p ''arrival_source'') JNull), (''arrival_stage'', dflt (jget p ''arrival_stage'') JNull),
       (''recovery_reason'', JStr reason), (''origin'', JStr ''contexto_chegadas''),
       (''reason'', jor (jget p ''request_reason'') (if sn_test s
          then JStr (if recovery_needed p then ''test_readiness_recovery_needed'' else ''paired_ready_test_snapshots'')
          else if recovery_needed p then JStr reason else JStr ''paired_ready_snapshots'')),
       (''issued_at'', JNum (sn_now s)), (''ready'', JBool (contexts_ready p)),
       (''rejected_snapshot_reason'', case v of None \<Rightarrow> JNull | Some r \<Rightarrow> JStr r)] @ test_fields (sn_test s) (sn_case s)))
     (resident_fields people ''resident_primary'' @ resident_fields people ''resident_secondary''))"

text \<open>The cycle takes the answer of one domain. With both answers it is done, and the joint command goes out
  unless the same snapshot gave a departure.\<close>

definition join_step :: "ctx \<Rightarrow> jv \<Rightarrow> snapshot \<Rightarrow> string option \<Rightarrow> bool \<Rightarrow> ports run" where
  "join_step c m s v departed =
    (let t = sn_test s; pending = mget t c pending_key; p1 = pending_update pending m s (v = None); c1 = mset t c pending_key p1;
         p2 = jset p1 ''emitted'' JTrue; c2 = mset t c1 pending_key p2 in
     if \<not> (truthy pending \<and> jseq (plget m ''refresh_cycle_id'') (jget pending ''cycle'')) then Emit c [[]]
     else if \<not> both_received p1 \<or> jget p1 ''emitted'' = JTrue then Emit c1 [[]]
     else if departed then Emit c2 [[]]
     else (case recovery_reason p2 of
       None \<Rightarrow> Emit (logged NodeError c2) [[]]
     | Some reason \<Rightarrow> Emit c2 [[jset m ''payload'' (joint_command c2 s v p2 reason)]]))"

section \<open>Coming home\<close>

abbreviation home_key :: string where
  "home_key \<equiv> ''resident_home_refresh_v2''"

abbreviation home_last_key :: string where
  "home_last_key \<equiv> ''resident_home_refresh_last_v2''"

definition home_text :: "jv \<Rightarrow> string" where
  "home_text v = to_str (dflt v (JStr []))"

definition home_at :: "snapshot \<Rightarrow> jnum" where
  "home_at s = (if fin (sn_incoming s) \<and> 0 < sn_incoming s then sn_incoming s else sn_now s)"

definition home_signature :: "jv \<Rightarrow> snapshot \<Rightarrow> jv" where
  "home_signature m s = JStr (join_with '':'' [home_text (plget m ''source''), home_text (plget m ''trigger_prev_state''),
     home_text (plget m ''trigger_state''), num_str (home_at s)])"

text \<open>The switches: an accepted snapshot of the people, in which a resident came home and is there now.\<close>

definition home_arrived :: "jv \<Rightarrow> snapshot \<Rightarrow> bool \<Rightarrow> bool" where
  "home_arrived m s accepted =
    (let source = home_text (plget m ''source''); prev = home_text (plget m ''trigger_prev_state'');
         resident = dflt (jget (sn_context s) source) (JObj []) in
     sn_domain s = ''people'' \<and> accepted \<and> source \<in> set residents \<and>
     home_text (plget m ''trigger_state'') = ''home'' \<and> prev \<noteq> [] \<and> prev \<noteq> ''home'' \<and>
     jget resident ''ready'' = JTrue \<and> jget resident ''stale'' \<noteq> JTrue \<and> jget resident ''current_home'' = JTrue)"

definition versioned :: "jv \<Rightarrow> jv" where
  "versioned v = (if jget v ''version'' = JNum 2 then v else JObj [(''version'', JNum 2), (''residents'', JObj [])])"

definition put_resident :: "jv \<Rightarrow> string \<Rightarrow> jv \<Rightarrow> jv" where
  "put_resident state source item = jset state ''residents''
     (jset (jspread (dflt (jget state ''residents'') (JObj [])) (JObj [])) source item)"

definition home_record :: "ctx \<Rightarrow> jv \<Rightarrow> jv \<Rightarrow> snapshot \<Rightarrow> jv" where
  "home_record c p m s =
    (let due = home_at s + jnum_of p ''home_confirmation_delay_s'' * 1000;
         vehicle = dflt (mget (sn_test s) c ''vehicle_primary_context_v1'') (JObj []) in JObj
     [(''version'', JNum 1), (''signature'', home_signature m s), (''source'', JStr (home_text (plget m ''source''))),
      (''previous_state'', JStr (home_text (plget m ''trigger_prev_state''))), (''arrival_observed_at'', JNum (home_at s)),
      (''due_at'', JNum due), (''expires_at'', JNum (due + jnum_of p ''home_confirmation_expiry_min'' * 60000)),
      (''engine_on_at_arrival'', JBool (jget vehicle ''engine_state_valid'' = JTrue \<and> jget vehicle ''engine_on'' = JTrue)),
      (''issued_at'', JNull), (''next_emit_at'', JNum due), (''attempts'', JNum 0), (''updated_at'', JNum (sn_now s))])"

definition home_duplicate :: "ctx \<Rightarrow> jv \<Rightarrow> snapshot \<Rightarrow> bool" where
  "home_duplicate c m s =
    (let last = sget (sn_test s) c home_last_key in jget last ''version'' = JNum 2 \<and>
     jget (jget (jget last ''residents'') (home_text (plget m ''source''))) ''signature'' = home_signature m s)"

definition home_store :: "ctx \<Rightarrow> jv \<Rightarrow> jv \<Rightarrow> snapshot \<Rightarrow> ctx" where
  "home_store c p m s =
    (let t = sn_test s; source = home_text (plget m ''source'');
         last = JObj [(''signature'', home_signature m s), (''observed_at'', JNum (home_at s))] in
     sset t (sset t c home_key (jset (put_resident (versioned (sget t c home_key)) source (home_record c p m s))
         ''updated_at'' (JNum (sn_now s))))
       home_last_key (jset (put_resident (versioned (sget t c home_last_key)) source last) ''updated_at'' (JNum (sn_now s))))"

definition home_step :: "ctx \<Rightarrow> jv \<Rightarrow> jv \<Rightarrow> snapshot \<Rightarrow> bool \<Rightarrow> ctx" where
  "home_step c p m s accepted =
    (if home_arrived m s accepted \<and> \<not> home_duplicate c m s then home_store c p m s else c)"

text \<open>A snapshot: the cache, then the departure and the cycle, then the arrival at home.\<close>

definition snapshot_flow :: "env \<Rightarrow> ctx \<Rightarrow> jv \<Rightarrow> ports run" where
  "snapshot_flow e c m =
    (case (context_policy c, snapshot_domain m) of
       (Some p, Some domain) \<Rightarrow>
         if is_objectlike (plget m ''context'') then
           (let s = snapshot_read e c m domain; v = snapshot_verdict p s; c1 = cache_mutate c s v;
                departed = departure_selected c1 m s (v = None);
                c2 = (if departed then departure_store c1 m s else c1);
                commands = (if departed then [jset m ''payload'' (departure_command c2 m s)] else []) in
            wire (join_step c2 m s v departed) (\<lambda>c3 ps. Emit (home_step c3 p m s (v = None)) [commands @ port 0 ps]))
         else Stop c
     | _ \<Rightarrow> Stop c)"

section \<open>The clock of the confirmations\<close>

abbreviation home_legacy_key :: string where
  "home_legacy_key \<equiv> ''resident_home_refresh_v1''"

record home_base =
  hb_test :: bool
  hb_state :: jv
  hb_now :: jnum
  hb_people :: jv
  hb_vehicle :: jv
  hb_engine_at :: jnum
  hb_engine_fresh :: bool

definition home_migrate :: "bool \<Rightarrow> ctx \<Rightarrow> ctx \<times> jv" where
  "home_migrate t c =
    (let stored = sget t c home_key; legacy = sget t c home_legacy_key in
     if jget stored ''version'' = JNum 2 \<and> truthy (jget stored ''residents'') then (c, stored)
     else
       (let some = jget legacy ''version'' = JNum 1 \<and> str_among (jget legacy ''source'') residents;
            state = JObj [(''version'', JNum 2), (''residents'', JObj (if some then [(to_str (jget legacy ''source''), legacy)] else []))];
            c1 = (if some then sset t c home_key state else c) in
        (sset t c1 home_legacy_key JUndef, state)))"

definition home_now :: "env \<Rightarrow> jv \<Rightarrow> jnum" where
  "home_now e m = (if test_msg m \<and> fin (to_num (plget m ''test_now'')) then to_num (plget m ''test_now'')
     else if fin (to_num (jget m ''monitor_now'')) then to_num (jget m ''monitor_now'') else clock e)"

definition home_read :: "env \<Rightarrow> ctx \<Rightarrow> jv \<Rightarrow> ctx \<times> home_base" where
  "home_read e c m =
    (let t = test_msg m; (c1, state) = home_migrate t c; vehicle = dflt (mget t c ''vehicle_primary_context_v1'') (JObj []);
         policy = dflt (glob c ''location_policy_v1'') (JObj []); now = home_now e m;
         seen = to_num (dflt (jget vehicle ''telemetry_updated_at'') (jget vehicle ''engine_updated_at'')) in
     (c1, \<lparr>hb_test = t, hb_state = state, hb_now = now, hb_people = dflt (mget t c ''people_context_v1'') (JObj []),
       hb_vehicle = vehicle, hb_engine_at = seen,
       hb_engine_fresh = (0 < seen \<and> seen \<le> now + jnum_of policy ''future_tolerance_seconds'' * 1000 \<and>
         now - seen \<le> jnum_of policy ''vehicle_signal_fresh_minutes'' * 60000 \<and>
         jget vehicle ''engine_communication_failed'' \<noteq> JTrue)\<rparr>))"

record home_item =
  hi_pending :: jv
  hi_away :: bool
  hi_off :: bool
  hi_ack :: bool
  hi_expired :: bool
  hi_due :: bool
  hi_retry :: bool

definition home_item_of :: "home_base \<Rightarrow> string \<Rightarrow> jv \<Rightarrow> home_item" where
  "home_item_of b source p =
    (let resident = dflt (jget (hb_people b) source) (JObj []); v = hb_vehicle b;
         request_at = to_num (dflt (jget (jget v ''refresh'') ''last_request_at'') (JNum 0));
         issued = to_num (dflt (jget p ''issued_at'') (JNum 0)) in
     \<lparr>hi_pending = p,
      hi_away = (jget resident ''ready'' = JTrue \<and> jget resident ''stale'' \<noteq> JTrue \<and> jget resident ''current_home'' = JFalse),
      hi_off = (jget v ''engine_state_valid'' = JTrue \<and> jget v ''engine_on'' = JFalse \<and> hb_engine_fresh b \<and>
        to_num (dflt (jget p ''arrival_observed_at'') (JNum 0)) \<le> hb_engine_at b),
      hi_ack = (0 < issued \<and> issued \<le> request_at), hi_expired = (jnum_of p ''expires_at'' < hb_now b),
      hi_due = (jnum_of p ''due_at'' \<le> hb_now b),
      hi_retry = (to_num (dflt (jget p ''next_emit_at'') (jget p ''due_at'')) \<le> hb_now b)\<rparr>)"

definition home_priority :: "home_item \<Rightarrow> nat" where
  "home_priority i = (if hi_ack i then 0 else if hi_expired i \<or> hi_away i \<or> hi_off i then 1
     else if hi_due i \<and> \<not> hi_off i \<and> hi_retry i then 2 else 3)"

text \<open>The order of the sort: by priority, then by deadline; a comparison that gives \<open>NaN\<close> leaves the order. The
  residents are two, so the first of the sorted list is the first item that the second does not precede.\<close>

definition home_precedes :: "home_item \<Rightarrow> home_item \<Rightarrow> bool" where
  "home_precedes i j =
    (let deadline = (\<lambda>x. to_num (dflt (jget (hi_pending x) ''due_at'') (JNum PInf))) in
     home_priority i < home_priority j \<or> home_priority i = home_priority j \<and> deadline i - deadline j < 0)"

definition home_items :: "home_base \<Rightarrow> home_item list" where
  "home_items b = map (\<lambda>(source, p). home_item_of b source p)
     (filter (\<lambda>(source, p). source \<in> set residents \<and> truthy p) (jentries (jget (hb_state b) ''residents'')))"

fun home_first :: "home_item list \<Rightarrow> home_item option" where
  "home_first [] = None"
| "home_first (i # is) = Some (fold (\<lambda>j best. if home_precedes j best then j else best) is i)"

definition home_source :: "jv \<Rightarrow> string" where
  "home_source p = to_str (jget p ''source'')"

definition home_clear :: "ctx \<Rightarrow> home_base \<Rightarrow> jv \<Rightarrow> ctx" where
  "home_clear c b p =
    (let rest = jdel (jget (hb_state b) ''residents'') (home_source p);
         state = jsets (hb_state b) [(''residents'', rest), (''updated_at'', JNum (hb_now b))] in
     sset (hb_test b) c home_key (if jkeys rest \<noteq> [] then state else JUndef))"

definition home_issued :: "jv \<Rightarrow> home_base \<Rightarrow> jv \<Rightarrow> jv" where
  "home_issued policy b p = jsets p
     [(''issued_at'', JNum (hb_now b)), (''next_emit_at'', JNum (hb_now b + jnum_of policy ''home_confirmation_retry_s'' * 1000)),
      (''attempts'', JNum (to_num (dflt (jget p ''attempts'') (JNum 0)) + 1)), (''updated_at'', JNum (hb_now b))]"

definition home_request :: "jv \<Rightarrow> home_base \<Rightarrow> jv \<Rightarrow> jv" where
  "home_request m b p = JObj
    ([(''kind'', JStr ''refresh_tick''), (''origin'', JStr ''contexto_chegadas_home_confirmation''),
      (''reason'', JStr ''resident_arrival_confirmation''), (''force_recovery'', JTrue),
      (''require_lighting_ready'', JFalse), (''resident_arrival_force'', JTrue), (''requested_at'', JNum (hb_now b)),
      (''arrival_source'', jget p ''source''), (''arrival_stage'', JStr ''home''),
      (''arrival_observed_at'', jget p ''arrival_observed_at'')] @
     test_fields (hb_test b) (dflt (jget m ''_location_test_case'') (dflt (plget m ''test_case'') (JStr ''home_confirmation''))))"

definition home_build :: "ctx \<Rightarrow> jv \<Rightarrow> jv \<Rightarrow> home_base \<Rightarrow> jv \<Rightarrow> ports run" where
  "home_build c policy m b p =
    Emit (sset (hb_test b) c home_key
        (jset (put_resident (hb_state b) (home_source p) (home_issued policy b p)) ''updated_at'' (JNum (hb_now b))))
      [[jsets m [(''_location_test'', JBool (hb_test b)), (''payload'', home_request m b p)]]]"

definition home_tick :: "env \<Rightarrow> ctx \<Rightarrow> jv \<Rightarrow> ports run" where
  "home_tick e c m =
    (case context_policy c of
       None \<Rightarrow> Stop c
     | Some policy \<Rightarrow>
       (let (c1, b) = home_read e c m in
        case home_first (home_items b) of
          None \<Rightarrow> Stop c1
        | Some i \<Rightarrow>
          if hi_ack i \<or> hi_expired i \<or> hi_away i \<or> hi_off i then Stop (home_clear c1 b (hi_pending i))
          else if hi_due i \<and> \<not> hi_off i \<and> hi_retry i then home_build c1 policy m b (hi_pending i)
          else Stop c1))"

section \<open>The cycle as a machine\<close>

text \<open>What the stores say about cycles: the number of the last one, and the pending one with the mark that its
  command is out. A machine with these states starts cycles with growing numbers and emits once for each.\<close>

type_synonym cycles = "jnum \<times> (jv \<times> bool) option"

inductive cycle_moves :: "cycles \<Rightarrow> jv list \<Rightarrow> cycles \<Rightarrow> bool" where
  idle: "cycle_moves s [] s"
| start: "fin x \<Longrightarrow> k < x \<Longrightarrow> cycle_moves (k, a) [] (x, Some (JNum x, False))"
| emit: "cycle_moves (k, Some (i, False)) [i] (k, Some (i, True))"
| departed: "cycle_moves (k, Some (i, False)) [] (k, Some (i, True))"

inductive_cases cycle_movesE: "cycle_moves s is s'"

definition cycles_of :: "ctx \<Rightarrow> cycles" where
  "cycles_of c = (to_num (jor (fmem c cycle_clock_key) (JNum 0)),
     if truthy (fmem c pending_key)
     then Some (jget (fmem c pending_key) ''cycle'', jget (fmem c pending_key) ''emitted'' = JTrue) else None)"

definition joint_ids :: "ports run \<Rightarrow> jv list" where
  "joint_ids r = (case sent r of None \<Rightarrow> []
   | Some ps \<Rightarrow> filter (\<lambda>i. i \<noteq> JUndef) (map (\<lambda>a. plget a ''refresh_cycle_id'') (port 0 ps)))"

lemma cycles_frame: "fmem c' cycle_clock_key = fmem c cycle_clock_key \<Longrightarrow> fmem c' pending_key = fmem c pending_key \<Longrightarrow>
    cycles_of c' = cycles_of c"
  by (simp add: cycles_of_def)

lemma cycle_start_moves:
  assumes "\<not> rq_test q" "fin (rq_now q)" "fin (fst (cycles_of c))"
  shows "cycle_moves (cycles_of c) [] (cycles_of (ctx_of (cycle_start c m q)))"
proof -
  define x where "x = next_cycle c q"
  have x: "fin x" "fst (cycles_of c) < x"
    using assms by (auto simp: x_def next_cycle_def cycles_of_def Let_def mget_def tkey_def fin_iff jmax_def)
  have "cycles_of (ctx_of (cycle_start c m q)) = (x, Some (JNum x, False))"
    using x assms(1) by (auto simp: cycle_start_def Let_def x_def[symmetric] cycles_of_def mset_def tkey_def new_pending_def jor_def fin_iff)
  then show ?thesis using cycle_moves.start [OF x] by (cases "cycles_of c") simp
qed

lemma truthy_jset [simp]: "truthy (jset p k v) = truthy p"
  by (cases p) simp_all

lemma truthy_jsets [simp]: "truthy (jsets p kvs) = truthy p"
  by (induction p kvs rule: jsets.induct) auto

lemma pending_same:
  assumes "''cycle'' \<notin> fst ` set kvs" "''emitted'' \<notin> fst ` set kvs"
  shows "cycles_of (mset False c pending_key (jsets (fmem c pending_key) kvs)) = cycles_of c"
  using assms by (simp add: cycles_of_def mset_def tkey_def del: jsets.simps)

lemma cycle_promote_same:
  assumes "\<not> rq_test q" "rq_pending q = fmem c pending_key"
  shows "cycles_of (cycle_promote c q) = cycles_of c"
  unfolding cycle_promote_def Let_def assms(2) using assms(1) by (simp only: simp_thms) (rule pending_same; simp)

lemma cycle_flow_moves:
  assumes "\<not> test_msg m" "fin (message_now e m)" "fin (fst (cycles_of c))"
  shows "cycle_moves (cycles_of c) [] (cycles_of (ctx_of (cycle_flow e c m)))"
proof -
  have step: "cycle_moves (cycles_of c) [] (cycles_of (ctx_of (cycle_step e p c m)))" for p
  proof -
    define q where "q = cycle_read e p c m"
    have q: "\<not> rq_test q" "fin (rq_now q)" "rq_pending q = fmem c pending_key"
      using assms(1,2) by (simp_all add: q_def cycle_read_def Let_def mget_def tkey_def)
    show ?thesis
      using cycle_start_moves [OF q(1,2) assms(3)] cycle_promote_same [OF q(1,3)]
      by (auto simp: cycle_step_def q_def[symmetric] Let_def intro: cycle_moves.idle)
  qed
  then show ?thesis using assms(1) by (auto simp: cycle_flow_def intro: cycle_moves.idle split: option.splits)
qed

lemma cache_frame:
  assumes "\<not> sn_test s" "sn_domain s \<in> {''people'', ''vehicle_primary''}"
  shows "fmem (cache_mutate c s v) cycle_clock_key = fmem c cycle_clock_key" "fmem (cache_mutate c s v) pending_key = fmem c pending_key"
    "fper (cache_mutate c s v) = fper c"
  using assms
  by (auto simp: cache_mutate_def close_episode_def note_rejection_def episode_key_def mset_def mget_def tkey_def Let_def split: option.splits)

lemma joint_id [simp]:
  "is_obj m \<Longrightarrow> plget (jset m ''payload'' (joint_command c s v p r)) ''refresh_cycle_id'' = jget p ''cycle''"
  "is_obj m \<Longrightarrow> plget (jset m ''payload'' (departure_command c m' s)) ''refresh_cycle_id'' = JUndef"
  by (auto simp: plget_def joint_command_def departure_command_def test_fields_def resident_fields_def Let_def)

lemma update_pending:
  assumes "sn_domain s \<in> {''people'', ''vehicle_primary''}"
  shows "truthy (pending_update p m s b) = truthy p" "jget (pending_update p m s b) ''cycle'' = jget p ''cycle''"
    "jget (pending_update p m s b) ''emitted'' = jget p ''emitted''"
  using assms by (auto simp: pending_update_def)

lemma join_moves:
  assumes "\<not> sn_test s" "is_obj m" "sn_domain s \<in> {''people'', ''vehicle_primary''}"
  shows "cycle_moves (cycles_of c) (joint_ids (join_step c m s v departed)) (cycles_of (ctx_of (join_step c m s v departed)))"
proof -
  define p where "p = fmem c pending_key"
  define p1 where "p1 = pending_update p m s (v = None)"
  note u = update_pending [OF assms(3), of p m "v = None", folded p1_def]
  have out: "cycles_of (c\<lparr>fmem := (fmem c)(pending_key := p2)\<rparr>) = (fst (cycles_of c), if truthy p2 then Some (jget p2 ''cycle'', jget p2 ''emitted'' = JTrue) else None)"
    for p2 by (simp add: cycles_of_def)
  show ?thesis
  proof (cases "truthy p \<and> jseq (plget m ''refresh_cycle_id'') (jget p ''cycle'') \<and> both_received p1 \<and> jget p1 ''emitted'' \<noteq> JTrue")
    case True
    have p1: "is_obj p1" using True by (cases p1) (simp_all add: both_received_def)
    let ?i = "jget p ''cycle''" and ?r = "join_step c m s v departed"
    have before: "cycles_of c = (fst (cycles_of c), Some (?i, False))"
      using True u by (simp add: cycles_of_def p_def)
    have after: "cycles_of (ctx_of ?r) = (fst (cycles_of c), Some (?i, True))"
      using True u p1 by (auto simp: join_step_def Let_def assms(1) mget_def mset_def tkey_def p_def[symmetric] p1_def[symmetric]
          fset_def out cycles_of_def split: option.splits)
    have "joint_ids ?r = [] \<or> joint_ids ?r = [?i]"
      using True u p1 assms(2) by (auto simp: join_step_def Let_def assms(1) mget_def mset_def tkey_def p_def[symmetric]
          p1_def[symmetric] joint_ids_def split: option.splits)
    then show ?thesis
      unfolding after by (subst before) (use cycle_moves.emit cycle_moves.departed in auto)
  next
    case False
    then show ?thesis
      using u by (auto simp: join_step_def Let_def assms(1) mget_def mset_def tkey_def p_def[symmetric] p1_def[symmetric] joint_ids_def fset_def out
        cycles_of_def intro: cycle_moves.idle)
  qed
qed

lemma tick_frame:
  assumes "\<not> test_msg m"
  shows "fmem (ctx_of (home_tick e c m)) = fmem c"
  using assms
  by (auto simp: home_tick_def home_read_def home_migrate_def home_clear_def home_build_def sset_def Let_def split: option.splits prod.splits)

lemma snapshot_run:
  assumes "context_policy c = Some p" "snapshot_domain m = Some domain" "is_objectlike (plget m ''context'')"
  obtains s v departed c1 c2 where "s = snapshot_read e c m domain" "v = snapshot_verdict p s" "c1 = cache_mutate c s v"
    "departed = departure_selected c1 m s (v = None)" "c2 = (if departed then departure_store c1 m s else c1)"
    "snapshot_flow e c m = wire (join_step c2 m s v departed) (\<lambda>c3 ps. Emit (home_step c3 p m s (v = None))
       [(if departed then [jset m ''payload'' (departure_command c2 m s)] else []) @ port 0 ps])"
    "sn_test s = test_msg m" "sn_domain s \<in> {''people'', ''vehicle_primary''}" "is_obj m"
proof -
  have "domain \<in> {''people'', ''vehicle_primary''}" "is_obj m"
    using assms(2) plget_objs [of m "''kind''"] by (auto simp: snapshot_domain_def split: if_splits)
  then show ?thesis
    by (intro that [OF refl refl refl refl refl]) (simp_all add: snapshot_flow_def assms Let_def snapshot_read_def)
qed

text \<open>A message that is no snapshot, or that finds no parameters, changes nothing.\<close>

lemma snapshot_cases:
  obtains "snapshot_flow e c m = Stop c"
  | p domain where "context_policy c = Some p" "snapshot_domain m = Some domain" "is_objectlike (plget m ''context'')"
  by (cases "context_policy c"; cases "snapshot_domain m"; cases "is_objectlike (plget m ''context'')")
    (auto simp: snapshot_flow_def)

lemma snapshot_flow_moves:
  assumes "\<not> test_msg m"
  shows "cycle_moves (cycles_of c) (joint_ids (snapshot_flow e c m)) (cycles_of (ctx_of (snapshot_flow e c m)))"
proof (rule snapshot_cases [of e c m])
  fix p domain
  assume *: "context_policy c = Some p" "snapshot_domain m = Some domain" "is_objectlike (plget m ''context'')"
  obtain s v departed c1 c2 where r: "s = snapshot_read e c m domain" "v = snapshot_verdict p s" "c1 = cache_mutate c s v"
    "departed = departure_selected c1 m s (v = None)" "c2 = (if departed then departure_store c1 m s else c1)"
    "snapshot_flow e c m = wire (join_step c2 m s v departed) (\<lambda>c3 ps. Emit (home_step c3 p m s (v = None))
       [(if departed then [jset m ''payload'' (departure_command c2 m s)] else []) @ port 0 ps])"
    "sn_test s = test_msg m" "sn_domain s \<in> {''people'', ''vehicle_primary''}" "is_obj m"
    by (rule snapshot_run [OF *])
  have t: "\<not> sn_test s" using r(7) assms by simp
  have same: "cycles_of c2 = cycles_of c"
    using cache_frame [OF t r(8), of c v] t by (auto simp: r(3,5) departure_store_def sset_def intro!: cycles_frame)
  have home: "cycles_of (home_step c3 p m s a) = cycles_of c3" for c3 a
    using t by (auto simp: home_step_def home_store_def sset_def Let_def intro: cycles_frame)
  have "joint_ids (snapshot_flow e c m) = joint_ids (join_step c2 m s v departed)"
    "cycles_of (ctx_of (snapshot_flow e c m)) = cycles_of (ctx_of (join_step c2 m s v departed))"
    unfolding r(6) using r(9) by (cases "join_step c2 m s v departed"; simp add: joint_ids_def home)+
  then show ?thesis using join_moves [OF t r(9,8), of c2 v departed] same by simp
qed (auto simp: joint_ids_def intro: cycle_moves.idle)

section \<open>Dry runs\<close>

lemma isolated_fold: "list_all test_key ks \<Longrightarrow> isolated c (fold (\<lambda>k c. fset c k JUndef) ks c)"
proof -
  have "list_all test_key ks \<Longrightarrow> isolated c c' \<Longrightarrow> isolated c (fold (\<lambda>k c. fset c k JUndef) ks c')" for c'
    by (induction ks arbitrary: c') (auto simp: isolated_def)
  then show "list_all test_key ks \<Longrightarrow> ?thesis" by blast
qed

lemma test_keys: "list_all test_key context_test_keys"
  by (simp add: context_test_keys_def test_key_def)

lemma cycle_step_isolated: "test_msg m \<Longrightarrow> isolated c (ctx_of (cycle_step e p c m))"
  by (simp add: cycle_step_def cycle_read_def cycle_start_def cycle_promote_def Let_def del: jsets.simps)

interpretation requests: dry_run cycle_flow test_msg
proof
  fix e c m
  assume t: "test_msg m"
  then have o: "is_obj m" by (cases m) (simp_all add: test_msg_def plget_def payload_def)
  have r: "test_msg (context_test_reset m)" using o by (simp add: context_test_reset_def test_msg_def Let_def)
  show "isolated c (ctx_of (cycle_flow e c m))"
    using t isolated_trans [OF isolated_fold [OF test_keys] cycle_step_isolated [OF r]] cycle_step_isolated [OF t]
    by (auto simp: cycle_flow_def split: option.splits)
qed

interpretation confirmations: dry_run home_tick test_msg
proof
  fix e c m
  assume "test_msg m"
  then show "isolated c (ctx_of (home_tick e c m))"
    by (auto simp: home_tick_def home_read_def home_migrate_def home_clear_def home_build_def Let_def split: option.splits prod.splits)
qed

lemma snapshot_parts_isolated:
  assumes "sn_test s"
  shows "isolated c (cache_mutate c s v)" "isolated c (departure_store c m s)" "isolated c (home_step c p m s a)"
    "isolated c (ctx_of (join_step c m s v b))"
  using assms
  by (auto simp: cache_mutate_def close_episode_def note_rejection_def departure_store_def home_step_def home_store_def join_step_def Let_def
      split: option.splits)

interpretation snapshots: dry_run snapshot_flow test_msg
proof
  fix e c m
  assume t: "test_msg m"
  show "isolated c (ctx_of (snapshot_flow e c m))"
  proof (rule snapshot_cases [of e c m])
    fix p domain
    assume *: "context_policy c = Some p" "snapshot_domain m = Some domain" "is_objectlike (plget m ''context'')"
    obtain s v departed c1 c2 where r: "c1 = cache_mutate c s v" "c2 = (if departed then departure_store c1 m s else c1)"
      "snapshot_flow e c m = wire (join_step c2 m s v departed) (\<lambda>c3 ps. Emit (home_step c3 p m s (v = None))
         [(if departed then [jset m ''payload'' (departure_command c2 m s)] else []) @ port 0 ps])" "sn_test s = test_msg m"
      by (rule snapshot_run [OF *, of e]) blast
    note i = snapshot_parts_isolated [of s, unfolded r(4), OF t]
    have "isolated c c2" using i(1) [of c v] i(2) [of c1 m] by (auto simp: r(1,2) intro: isolated_trans)
    then have 3: "isolated c (ctx_of (join_step c2 m s v departed))" using i(4) by (rule isolated_trans)
    show ?thesis
      unfolding r(3) using 3 by (cases "join_step c2 m s v departed") (auto intro: isolated_trans [OF _ i(3)])
  qed simp
qed

section \<open>One command per cycle\<close>

lemma isolated_cycles: "isolated c c' \<Longrightarrow> cycles_of c' = cycles_of c"
  by (auto simp: isolated_def test_key_def intro!: cycles_frame)

text \<open>What may happen between two messages of the coordinator, with the clocks they read being numbers: requests,
  snapshots, ticks and parameters, tests among them, and what other tabs do to the
  global store.\<close>

inductive context_runs :: "ctx \<Rightarrow> ctx \<Rightarrow> bool" where
  begins: "context_runs c c"
| asked: "context_runs c c1 \<Longrightarrow> test_msg m \<or> fin (message_now e m) \<Longrightarrow> context_runs c (ctx_of (cycle_flow e c1 m))"
| answered: "context_runs c c1 \<Longrightarrow> test_msg m \<or> fin (message_now e m) \<Longrightarrow> context_runs c (ctx_of (snapshot_flow e c1 m))"
| ticked: "context_runs c c1 \<Longrightarrow> test_msg m \<or> fin (clock e) \<Longrightarrow> context_runs c (ctx_of (home_tick e c1 m))"
| configured: "context_runs c c1 \<Longrightarrow> context_runs c (ctx_of (context_policy_flow c1 m))"
| elsewhere: "context_runs c c1 \<Longrightarrow> fmem c2 = fmem c1 \<Longrightarrow> fper c2 = fper c1 \<Longrightarrow> context_runs c c2"

text \<open>The command of cycle \<open>k\<close> is out: the machine stands at it with its mark, or has gone on.\<close>

definition cycle_done :: "jnum \<Rightarrow> cycles \<Rightarrow> bool" where
  "cycle_done k s = (fin (fst s) \<and> k \<le> fst s \<and> (case snd s of None \<Rightarrow> True
     | Some (i, out) \<Rightarrow> \<exists>x. i = JNum x \<and> x \<le> fst s \<and> (k < x \<or> k = x \<and> out)))"

definition cycles_ok :: "cycles \<Rightarrow> bool" where
  "cycles_ok s = (fin (fst s) \<and> (case snd s of None \<Rightarrow> True | Some (i, out) \<Rightarrow> \<exists>x. i = JNum x \<and> x \<le> fst s \<and> fin x))"

lemma moves_ok: "cycle_moves s is s' \<Longrightarrow> cycles_ok s \<Longrightarrow> cycles_ok s'"
  by (erule cycle_movesE) (auto simp: cycles_ok_def fin_iff)

lemma moves_done: "cycle_moves s is s' \<Longrightarrow> cycle_done k s \<Longrightarrow> cycle_done k s' \<and> (\<forall>i\<in>set is. \<exists>x. i = JNum x \<and> k < x)"
  by (erule cycle_movesE) (auto simp: cycle_done_def fin_iff intro: jnum_le_less_trans jnum_less_imp_le)

lemma moves_emit: "cycle_moves s is s' \<Longrightarrow> cycles_ok s \<Longrightarrow> JNum k \<in> set is \<Longrightarrow> cycle_done k s'"
  by (erule cycle_movesE) (auto simp: cycle_done_def cycles_ok_def)

lemma runs_keep:
  assumes "context_runs c c'" "cycles_ok (cycles_of c)"
  shows "cycles_ok (cycles_of c') \<and> (cycle_done k (cycles_of c) \<longrightarrow> cycle_done k (cycles_of c'))"
  using assms
proof induction
  case (asked c c1 m e)
  then have "fin (fst (cycles_of c1))" by (simp add: cycles_ok_def)
  then show ?case
    using asked requests.test_isolated [of m c1 e, THEN isolated_cycles] cycle_flow_moves [of m e c1] moves_ok moves_done
    by (cases "test_msg m") auto
next
  case (answered c c1 m e)
  then show ?case
    using snapshots.test_isolated [of m c1 e, THEN isolated_cycles] snapshot_flow_moves [of m c1 e] moves_ok moves_done
    by (cases "test_msg m") auto
next
  case (ticked c c1 m e)
  then show ?case
    using confirmations.test_isolated [of m c1 e, THEN isolated_cycles] tick_frame [of m e c1] cycles_frame [of "ctx_of (home_tick e c1 m)" c1]
    by (cases "test_msg m") auto
next
  case (configured c c1 m)
  have "cycles_of (ctx_of (context_policy_flow c1 m)) = cycles_of c1" by (rule cycles_frame) (simp_all add: context_policy_flow_def)
  then show ?case using configured by simp
next
  case (elsewhere c c1 c2)
  then show ?case using cycles_frame [of c2 c1] by simp
qed simp


section \<open>Confirmations are bounded\<close>

lemma entry_jset: "is_obj r \<Longrightarrow> map_of (jentries (jset r k v)) = (map_of (jentries r))(k \<mapsto> v)"
  by (cases r) (simp_all add: update_conv')

lemma entry_jdel: "map_of (jentries (jdel r k)) = (map_of (jentries r))(k := None)"
  by (cases r) (auto simp: delete_conv')

lemma entry_jsets: "is_obj r \<Longrightarrow> map_of (jentries (jsets r kvs)) = map_of (jentries r) ++ map_of (rev kvs)"
  by (induction r kvs rule: jsets.induct) (simp_all add: entry_jset map_add_def fun_eq_iff split: option.splits)

lemma entry_copy: "obj_wf r \<Longrightarrow> map_of (jentries (jspread r (JObj []))) = map_of (jentries r)"
  by (simp add: jspread_def entry_jsets obj_wf_entries)

text \<open>A stored confirmation: it belongs to its resident, and its requests so far fit between the deadline and the
  time of the next one.\<close>

definition confirmation_ok :: "string \<Rightarrow> jv \<Rightarrow> bool" where
  "confirmation_ok k p = (k \<in> set residents \<and> is_obj p \<and> jget p ''source'' = JStr k \<and> (\<exists>due after attempts expiry.
     jget p ''due_at'' = JNum (Fin due) \<and> jget p ''next_emit_at'' = JNum (Fin after) \<and>
     jget p ''attempts'' = JNum (Fin attempts) \<and> jget p ''expires_at'' = JNum (Fin expiry) \<and>
     due + attempts * 10000 \<le> after \<and> expiry - due \<le> 3600000))"

definition homes_wf :: "jv \<Rightarrow> bool" where
  "homes_wf r = (is_obj r \<and> obj_wf r \<and> (\<forall>k p. map_of (jentries r) k = Some p \<longrightarrow> confirmation_ok k p))"

definition homes_ok :: "ctx \<Rightarrow> bool" where
  "homes_ok c = (fper c home_legacy_key = JUndef \<and> (fper c home_key = JUndef \<or>
     jget (fper c home_key) ''version'' = JNum 2 \<and> homes_wf (jget (fper c home_key) ''residents'')) \<and>
     (\<forall>p. context_policy c = Some p \<longrightarrow> list_all (context_accepts p) context_limits))"

lemma put_resident_ok:
  assumes "homes_wf (jget state ''residents'')" "is_obj state" "confirmation_ok k item"
  shows "homes_wf (jget (put_resident state k item) ''residents'')"
proof -
  have "dflt (jget state ''residents'') (JObj []) = jget state ''residents''" using assms(1) by (simp add: homes_wf_def dflt_def)
  then show ?thesis
    using assms by (auto simp: homes_wf_def put_resident_def entry_jset entry_copy split: if_splits)
qed

lemma homes_frame: "fper c' = fper c \<Longrightarrow> homes_ok c' = homes_ok c"
  by (simp add: homes_ok_def context_policy_def)

lemma home_record_ok:
  assumes "list_all (context_accepts p) context_limits" "fin (home_at s)" "home_text (plget m ''source'') \<in> set residents"
  shows "confirmation_ok (home_text (plget m ''source'')) (home_record c p m s)"
proof -
  obtain a where a: "home_at s = Fin a" using assms(2) by (auto simp: fin_iff)
  obtain d x where d: "jnum_of p ''home_confirmation_delay_s'' = Fin d" "jnum_of p ''home_confirmation_expiry_min'' = Fin x" "x \<le> 60"
    using assms(1) by (cases "jnum_of p ''home_confirmation_delay_s''"; cases "jnum_of p ''home_confirmation_expiry_min''")
      (auto simp: context_limits_def context_accepts_def)
  show ?thesis using assms(3) d by (simp add: confirmation_ok_def home_record_def a Let_def)
qed

lemma home_step_ok:
  assumes "homes_ok c" "context_policy c = Some p" "\<not> sn_test s" "fin (home_at s)"
  shows "homes_ok (home_step c p m s accepted)"
proof (cases "home_arrived m s accepted \<and> \<not> home_duplicate c m s")
  case True
  let ?k = "home_text (plget m ''source'')"
  let ?v = "versioned (fper c home_key)"
  have k: "?k \<in> set residents" using True by (simp add: home_arrived_def Let_def)
  have pol: "list_all (context_accepts p) context_limits" using assms(1,2) by (simp add: homes_ok_def)
  have "is_obj (jget (fper c home_key) ''residents'') \<Longrightarrow> is_obj (fper c home_key)"
    by (cases "fper c home_key") simp_all
  then have v: "homes_wf (jget ?v ''residents'')" "is_obj ?v"
    using assms(1) by (auto simp: homes_ok_def versioned_def homes_wf_def)
  have "homes_wf (jget (put_resident ?v ?k (home_record c p m s)) ''residents'')"
    by (rule put_resident_ok [OF v home_record_ok [OF pol assms(4) k]])
  moreover have "jget (put_resident ?v ?k (home_record c p m s)) ''version'' = JNum 2"
    by (simp add: put_resident_def versioned_def)
  ultimately show ?thesis
    using assms(1,3) True by (auto simp: homes_ok_def home_step_def home_store_def sget_def sset_def context_policy_def Let_def)
qed (use assms(1) in \<open>auto simp: home_step_def\<close>)

lemma snapshot_homes:
  assumes "homes_ok c" "\<not> test_msg m" "fin (message_now e m)"
  shows "homes_ok (ctx_of (snapshot_flow e c m))"
proof (rule snapshot_cases [of e c m])
  fix p domain
  assume *: "context_policy c = Some p" "snapshot_domain m = Some domain" "is_objectlike (plget m ''context'')"
  obtain s v departed c1 c2 where r: "s = snapshot_read e c m domain" "c1 = cache_mutate c s v"
    "c2 = (if departed then departure_store c1 m s else c1)"
    "snapshot_flow e c m = wire (join_step c2 m s v departed) (\<lambda>c3 ps. Emit (home_step c3 p m s (v = None))
       [(if departed then [jset m ''payload'' (departure_command c2 m s)] else []) @ port 0 ps])"
    "sn_test s = test_msg m" "sn_domain s \<in> {''people'', ''vehicle_primary''}"
    by (rule snapshot_run [OF *, of e]) blast
  have t: "\<not> sn_test s" using r(5) assms(2) by simp
  have at: "fin (home_at s)" using assms(3) by (simp add: home_at_def r(1) snapshot_read_def Let_def)
  have 2: "homes_ok c2 \<and> context_policy c2 = Some p"
    using assms(1) cache_frame(3) [OF t r(6), of c v] t *(1)
    by (simp add: r(2,3) departure_store_def sset_def homes_ok_def context_policy_def)
  have "fper (ctx_of (join_step c2 m s v departed)) = fper c2"
    using t by (auto simp: join_step_def mset_def Let_def split: option.splits)
  then have 3: "homes_ok (ctx_of (join_step c2 m s v departed)) \<and> context_policy (ctx_of (join_step c2 m s v departed)) = Some p"
    using 2 by (simp add: homes_ok_def context_policy_def)
  show ?thesis
    unfolding r(4) using 3 home_step_ok [OF _ _ t at] by (cases "join_step c2 m s v departed") auto
qed (use assms(1) in simp)

lemma policy_homes:
  assumes "homes_ok c"
  shows "homes_ok (ctx_of (context_policy_flow c m))"
proof -
  have "list_all (context_accepts (context_candidate p)) context_limits" if "list_all (context_accepts p) context_limits" for p
    using that by (simp add: context_limits_def context_accepts_def context_candidate_def)
  then show ?thesis using assms by (auto simp: homes_ok_def context_policy_flow_def context_policy_def Let_def)
qed

text \<open>What a tick reads.\<close>

lemma home_migrate_ok:
  assumes "homes_ok c"
  shows "home_migrate False c = (if fper c home_key = JUndef
    then (c\<lparr>fper := fper c\<rparr>, JObj [(''version'', JNum 2), (''residents'', JObj [])]) else (c, fper c home_key))"
proof (cases "fper c home_key = JUndef")
  case True
  have "(fper c)(home_legacy_key := JUndef) = fper c" using assms by (simp add: homes_ok_def fun_upd_idem)
  then show ?thesis
    using True assms by (simp add: home_migrate_def sget_def sset_def pset_def homes_ok_def Let_def)
next
  case False
  have "is_obj r \<Longrightarrow> truthy r" for r by (cases r) simp_all
  then show ?thesis using False assms by (auto simp: home_migrate_def sget_def homes_ok_def homes_wf_def Let_def)
qed

lemma home_read_sel:
  "fst (home_read e c m) = fst (home_migrate (test_msg m) c)"
  "hb_state (snd (home_read e c m)) = snd (home_migrate (test_msg m) c)"
  "hb_now (snd (home_read e c m)) = home_now e m" "hb_test (snd (home_read e c m)) = test_msg m"
  by (simp_all add: home_read_def Let_def case_prod_beta)

lemma home_read_ok:
  assumes "homes_ok c" "\<not> test_msg m" "home_read e c m = (c1, b)"
  shows "fper c1 = fper c" "fmem c1 = fmem c" "hb_now b = home_now e m" "\<not> hb_test b"
    "hb_state b = (if fper c home_key = JUndef then JObj [(''version'', JNum 2), (''residents'', JObj [])] else fper c home_key)"
    "homes_wf (jget (hb_state b) ''residents'')" "is_obj (hb_state b)"
proof -
  note sel = home_read_sel [of e c m, unfolded assms(3) fst_conv snd_conv]
  have t: "test_msg m = False" using assms(2) by simp
  have c1: "c1 = fst (home_migrate False c)" using sel(1) unfolding t .
  have r: "hb_state b = snd (home_migrate False c)" "hb_now b = home_now e m" "\<not> hb_test b"
    using sel(2-4) unfolding t by simp_all
  show "fper c1 = fper c" "fmem c1 = fmem c" unfolding c1 by (simp_all add: home_migrate_ok [OF assms(1)])
  show "hb_now b = home_now e m" "\<not> hb_test b" using r(2,3) .
  show st: "hb_state b = (if fper c home_key = JUndef then JObj [(''version'', JNum 2), (''residents'', JObj [])] else fper c home_key)"
    by (simp add: r(1) home_migrate_ok [OF assms(1)])
  have "is_obj (jget (fper c home_key) ''residents'') \<Longrightarrow> is_obj (fper c home_key)" by (cases "fper c home_key") simp_all
  then show "homes_wf (jget (hb_state b) ''residents'')" "is_obj (hb_state b)"
    using assms(1) by (auto simp: st homes_ok_def homes_wf_def)
qed

lemma home_first_in: "home_first is = Some i \<Longrightarrow> i \<in> set is"
proof -
  have "fold (\<lambda>j best. if home_precedes j best then j else best) js i \<in> insert i (set js)" for js i
    by (induction js arbitrary: i) auto
  then show "home_first is = Some i \<Longrightarrow> i \<in> set is" by (cases "is") auto
qed

lemma home_item_stored:
  assumes "homes_wf (jget (hb_state b) ''residents'')" "home_first (home_items b) = Some i"
  obtains k p where "map_of (jentries (jget (hb_state b) ''residents'')) k = Some p" "confirmation_ok k p" "i = home_item_of b k p"
    "home_source p = k" "hi_pending i = p"
proof -
  obtain k p where "(k, p) \<in> set (jentries (jget (hb_state b) ''residents''))" "i = home_item_of b k p"
    using home_first_in [OF assms(2)] by (auto simp: home_items_def)
  moreover have "distinct (map fst (jentries (jget (hb_state b) ''residents'')))"
    using assms(1) by (cases "jget (hb_state b) ''residents''") (simp_all add: homes_wf_def)
  ultimately have kp: "map_of (jentries (jget (hb_state b) ''residents'')) k = Some p" "i = home_item_of b k p" by simp_all
  then have "confirmation_ok k p" using assms(1) by (simp add: homes_wf_def)
  then show ?thesis using that kp by (simp add: confirmation_ok_def home_source_def home_item_of_def Let_def)
qed

definition confirmation :: "ctx \<Rightarrow> string \<Rightarrow> jv option" where
  "confirmation c = map_of (jentries (jget (fper c home_key) ''residents''))"

lemma confirmation_read:
  assumes "homes_ok c" "\<not> test_msg m" "home_read e c m = (c1, b)"
  shows "map_of (jentries (jget (hb_state b) ''residents'')) = confirmation c"
  using home_read_ok(5) [OF assms] by (simp add: confirmation_def)

lemma issued_ok:
  assumes "confirmation_ok k p" "list_all (context_accepts policy) context_limits" "hi_retry (home_item_of b k p)" "fin (hb_now b)"
  shows "confirmation_ok k (home_issued policy b p)" "jnum_of (home_issued policy b p) ''attempts'' = jnum_of p ''attempts'' + 1"
    "hb_now b + 10000 \<le> jnum_of (home_issued policy b p) ''next_emit_at''"
proof -
  obtain due after attempts expiry where p: "jget p ''due_at'' = JNum (Fin due)" "jget p ''next_emit_at'' = JNum (Fin after)"
    "jget p ''attempts'' = JNum (Fin attempts)" "jget p ''expires_at'' = JNum (Fin expiry)"
    "due + attempts * 10000 \<le> after" "expiry - due \<le> 3600000" "is_obj p"
    using assms(1) by (auto simp: confirmation_ok_def)
  obtain now where now: "hb_now b = Fin now" using assms(4) by (auto simp: fin_iff)
  obtain r where r: "jnum_of policy ''home_confirmation_retry_s'' = Fin r" "10 \<le> r"
    using assms(2) by (cases "jnum_of policy ''home_confirmation_retry_s''") (auto simp: context_limits_def context_accepts_def)
  have late: "after \<le> now" using assms(3) p now by (simp add: home_item_of_def Let_def dflt_def)
  have get: "jget (home_issued policy b p) k' = (if k' = ''issued_at'' then JNum (Fin now)
      else if k' = ''next_emit_at'' then JNum (Fin (now + r * 1000)) else if k' = ''attempts'' then JNum (Fin (attempts + 1))
      else if k' = ''updated_at'' then JNum (Fin now) else jget p k')" for k'
    using p by (simp add: home_issued_def jget_jset now r dflt_def)
  have "due + (attempts + 1) * 10000 \<le> now + r * 1000" using p(5) late r(2) by (simp add: algebra_simps)
  then show "confirmation_ok k (home_issued policy b p)"
    using assms(1) p by (simp add: confirmation_ok_def get) (simp add: home_issued_def)
  show "jnum_of (home_issued policy b p) ''attempts'' = jnum_of p ''attempts'' + 1"
    "hb_now b + 10000 \<le> jnum_of (home_issued policy b p) ''next_emit_at''"
    using r(2) by (simp_all add: get p(3) now)
qed

lemma build_confirmation:
  assumes "homes_wf (jget (hb_state b) ''residents'')" "is_obj (hb_state b)" "\<not> hb_test b" "confirmation_ok k p"
    and "list_all (context_accepts policy) context_limits" "hi_retry (home_item_of b k p)" "fin (hb_now b)"
    and "home_build c policy m b p = Emit c' ps"
  defines "state \<equiv> jset (put_resident (hb_state b) k (home_issued policy b p)) ''updated_at'' (JNum (hb_now b))"
  shows "fper c' = (fper c)(home_key := state)" "homes_wf (jget state ''residents'')"
    "jget state ''version'' = jget (hb_state b) ''version''"
    "map_of (jentries (jget state ''residents'')) k = Some (home_issued policy b p)"
proof -
  have k: "home_source p = k" using assms(4) by (simp add: confirmation_ok_def home_source_def)
  have copy: "dflt (jget (hb_state b) ''residents'') (JObj []) = jget (hb_state b) ''residents''"
    using assms(1) by (simp add: homes_wf_def dflt_def)
  show "fper c' = (fper c)(home_key := state)"
    using assms(3,8) by (auto simp: home_build_def sset_def k state_def)
  show "homes_wf (jget state ''residents'')"
    using put_resident_ok [OF assms(1,2) issued_ok(1) [OF assms(4-7)]] assms(2) by (simp add: state_def)
  show "jget state ''version'' = jget (hb_state b) ''version''" by (simp add: state_def put_resident_def)
  show "map_of (jentries (jget state ''residents'')) k = Some (home_issued policy b p)"
    using assms(1,2) by (simp add: state_def put_resident_def entry_jset)
qed

lemma clear_confirmation:
  assumes "homes_wf (jget (hb_state b) ''residents'')" "is_obj (hb_state b)" "\<not> hb_test b" "home_source p = k"
  shows "confirmation (home_clear c b p) = (map_of (jentries (jget (hb_state b) ''residents'')))(k := None)"
    "fper (home_clear c b p) = (fper c)(home_key := fper (home_clear c b p) home_key)"
    "fper (home_clear c b p) home_key = JUndef \<or> jget (fper (home_clear c b p) home_key) ''version'' = jget (hb_state b) ''version'' \<and>
       homes_wf (jget (fper (home_clear c b p) home_key) ''residents'')"
    "fper (home_clear c b p) home_key = JUndef \<longleftrightarrow> confirmation (home_clear c b p) = Map.empty"
proof -
  let ?rest = "jdel (jget (hb_state b) ''residents'') k"
  have e: "map_of (jentries ?rest) = (map_of (jentries (jget (hb_state b) ''residents'')))(k := None)" by (rule entry_jdel)
  have none: "jkeys ?rest = [] \<longleftrightarrow> map_of (jentries ?rest) = Map.empty" by (simp add: jkeys_def)
  have wf: "homes_wf ?rest" using assms(1) by (auto simp: homes_wf_def e split: if_splits)
  have f: "fper (home_clear c b p) home_key = (if jkeys ?rest \<noteq> []
      then jset (jset (hb_state b) ''residents'' ?rest) ''updated_at'' (JNum (hb_now b)) else JUndef)"
    using assms(3,4) by (simp add: home_clear_def Let_def sset_def)
  show "confirmation (home_clear c b p) = (map_of (jentries (jget (hb_state b) ''residents'')))(k := None)"
    using none assms(2) by (auto simp: confirmation_def f e)
  show "fper (home_clear c b p) = (fper c)(home_key := fper (home_clear c b p) home_key)"
    using assms(3) by (simp add: home_clear_def Let_def sset_def)
  show "fper (home_clear c b p) home_key = JUndef \<or> jget (fper (home_clear c b p) home_key) ''version'' = jget (hb_state b) ''version'' \<and>
       homes_wf (jget (fper (home_clear c b p) home_key) ''residents'')"
    using wf assms(2) by (simp add: f)
  show "fper (home_clear c b p) home_key = JUndef \<longleftrightarrow> confirmation (home_clear c b p) = Map.empty"
    using none assms(2) by (cases "jset (jset (hb_state b) ''residents'' ?rest) ''updated_at'' (JNum (hb_now b)) = JUndef")
      (auto simp: confirmation_def f dest: arg_cong [where f = is_obj])
qed

lemma items_stored:
  assumes "homes_wf (jget (hb_state b) ''residents'')" "home_items b = []"
  shows "map_of (jentries (jget (hb_state b) ''residents'')) = Map.empty"
proof
  fix k
  have "\<not> (\<exists>p. map_of (jentries (jget (hb_state b) ''residents'')) k = Some p)"
  proof
    assume "\<exists>p. map_of (jentries (jget (hb_state b) ''residents'')) k = Some p"
    then obtain p where p: "map_of (jentries (jget (hb_state b) ''residents'')) k = Some p" by blast
    then have "confirmation_ok k p" using assms(1) by (simp add: homes_wf_def)
    then have "k \<in> set residents" "truthy p" by (auto simp: confirmation_ok_def) (cases p; simp)
    then show False using assms(2) map_of_SomeD [OF p] by (auto simp: home_items_def filter_empty_conv)
  qed
  then show "map_of (jentries (jget (hb_state b) ''residents'')) k = None" by simp
qed

lemma clear_ok:
  assumes "homes_ok c" "fper c1 = fper c" "fper c' = (fper c1)(home_key := v)" "v = JUndef \<or> jget v ''version'' = w \<and> homes_wf (jget v ''residents'')"
    and "w = JNum 2"
  shows "homes_ok c'" "context_policy c' = context_policy c"
proof -
  show p: "context_policy c' = context_policy c" by (simp add: context_policy_def assms(2,3))
  have "fper c' home_key = v" "fper c' home_legacy_key = fper c home_legacy_key" by (simp_all add: assms(2,3))
  then show "homes_ok c'" unfolding homes_ok_def p using assms(1,4,5) by (simp add: homes_ok_def)
qed

text \<open>A tick waits, clears one confirmation, or asks once for one.\<close>

lemma tick_cases:
  assumes "homes_ok c" "\<not> test_msg m" "fin (home_now e m)"
  obtains (wait) c' where "home_tick e c m = Stop c'" "fper c' = fper c"
    "context_policy c = None \<or> confirmation c = Map.empty \<or> (\<exists>k p. confirmation c k = Some p \<and> \<not> jnum_of p ''expires_at'' < home_now e m)"
  | (clear) c' k p where "home_tick e c m = Stop c'" "confirmation c k = Some p" "confirmation c' = (confirmation c)(k := None)" "homes_ok c'"
    "fper c' home_key = JUndef \<longleftrightarrow> confirmation c' = Map.empty" "context_policy c' = context_policy c"
  | (ask) policy c1 b c' ps k p where "context_policy c = Some policy" "home_read e c m = (c1, b)" "home_build c1 policy m b p = Emit c' ps"
    "home_tick e c m = Emit c' ps" "confirmation c k = Some p" "confirmation_ok k p"
    "\<not> hi_expired (home_item_of b k p)" "hi_due (home_item_of b k p)" "hi_retry (home_item_of b k p)"
    "\<not> hi_away (home_item_of b k p)" "\<not> hi_off (home_item_of b k p)" "\<not> hi_ack (home_item_of b k p)"
proof -
  obtain c1 b where r: "home_read e c m = (c1, b)" by (cases "home_read e c m")
  note h = home_read_ok [OF assms(1,2) r]
  note conf = confirmation_read [OF assms(1,2) r]
  show ?thesis
  proof (cases "context_policy c")
    case None
    then show ?thesis using wait [of c] by (simp add: home_tick_def)
  next
    case (Some policy)
    show ?thesis
    proof (cases "home_first (home_items b)")
      case None
      then have "home_items b = []" by (cases "home_items b") simp_all
      then have "confirmation c = Map.empty" using items_stored [OF h(6)] conf by simp
      then show ?thesis using wait [of c1] by (simp add: home_tick_def Some r None h(1))
    next
      case i: (Some i)
      obtain k p where kp: "map_of (jentries (jget (hb_state b) ''residents'')) k = Some p" "confirmation_ok k p" "i = home_item_of b k p"
        "home_source p = k" "hi_pending i = p"
        by (rule home_item_stored [OF h(6) i])
      have cp: "confirmation c k = Some p" using kp(1) conf by simp
      consider "hi_ack i \<or> hi_expired i \<or> hi_away i \<or> hi_off i"
        | "\<not> (hi_ack i \<or> hi_expired i \<or> hi_away i \<or> hi_off i)" "hi_due i" "hi_retry i"
        | "\<not> (hi_ack i \<or> hi_expired i \<or> hi_away i \<or> hi_off i)" "\<not> (hi_due i \<and> hi_retry i)" by blast
      then show ?thesis
      proof cases
        case 1
        note k = clear_confirmation [OF h(6,7,4) kp(4), of c1]
        have stored: "jget (hb_state b) ''version'' = JNum 2" using h(5) assms(1) by (auto simp: homes_ok_def)
        have "homes_ok (home_clear c1 b p)" "context_policy (home_clear c1 b p) = context_policy c"
          using clear_ok [OF assms(1) h(1) k(2) k(3) stored] by simp_all
        then show ?thesis using clear [of "home_clear c1 b p", OF _ cp] 1 k(1,4) conf by (simp add: home_tick_def Some r i kp(5))
      next
        case 2
        obtain c' ps where e: "home_build c1 policy m b p = Emit c' ps" by (simp add: home_build_def)
        then have "home_tick e c m = Emit c' ps" using 2 by (simp add: home_tick_def Some r i kp(5))
        then show ?thesis using ask [OF Some r e _ cp kp(2)] 2 kp(3) by simp
      next
        case 3
        have "hi_expired i = (jnum_of p ''expires_at'' < home_now e m)" by (simp add: kp(3) home_item_of_def Let_def h(3))
        then have "\<exists>k p. confirmation c k = Some p \<and> \<not> jnum_of p ''expires_at'' < home_now e m" using 3(1) cp by blast
        then show ?thesis using wait [of c1] 3 by (auto simp: home_tick_def Some r i h(1))
      qed
    qed
  qed
qed

lemma ask_keeps:
  assumes "homes_ok c" "\<not> test_msg m" "fin (home_now e m)" "context_policy c = Some policy" "home_read e c m = (c1, b)"
    and "home_build c1 policy m b p = Emit c' ps" "confirmation c k = Some p" "confirmation_ok k p" "hi_retry (home_item_of b k p)"
  shows "homes_ok c'" "confirmation c' k = Some (home_issued policy b p)"
    "jnum_of (home_issued policy b p) ''attempts'' = jnum_of p ''attempts'' + 1"
    "home_now e m + 10000 \<le> jnum_of (home_issued policy b p) ''next_emit_at''"
proof -
  note h = home_read_ok [OF assms(1,2,5)]
  have pol: "list_all (context_accepts policy) context_limits" using assms(1,4) by (simp add: homes_ok_def)
  have now: "fin (hb_now b)" using assms(3) h(3) by simp
  note b = build_confirmation [OF h(6,7,4) assms(8) pol assms(9) now assms(6)]
  have "map_of (jentries (jget (hb_state b) ''residents'')) \<noteq> Map.empty" using assms(7) confirmation_read [OF assms(1,2,5)] by auto
  then have "fper c home_key \<noteq> JUndef" using h(5) by (auto split: if_splits)
  then have "jget (hb_state b) ''version'' = JNum 2" using h(5) assms(1) by (simp add: homes_ok_def)
  then show "homes_ok c'" using b(1,2,3) assms(1) h(1) by (simp add: homes_ok_def context_policy_def)
  show "confirmation c' k = Some (home_issued policy b p)" using b(1,4) by (simp add: confirmation_def)
  show "jnum_of (home_issued policy b p) ''attempts'' = jnum_of p ''attempts'' + 1"
    "home_now e m + 10000 \<le> jnum_of (home_issued policy b p) ''next_emit_at''"
    using issued_ok(2,3) [OF assms(8) pol assms(9) now] h(3) by simp_all
qed

lemma tick_homes:
  assumes "homes_ok c" "\<not> test_msg m" "fin (clock e)"
  shows "homes_ok (ctx_of (home_tick e c m))"
proof -
  have now: "fin (home_now e m)" using assms(3) by (simp add: home_now_def)
  show ?thesis
  proof (rule tick_cases [OF assms(1,2) now])
    fix c' assume "home_tick e c m = Stop c'" "fper c' = fper c"
    then show ?thesis using homes_frame [of c' c] assms(1) by simp
  next
    fix policy c1 b c' ps k p
    assume "context_policy c = Some policy" "home_read e c m = (c1, b)" "home_build c1 policy m b p = Emit c' ps"
      "home_tick e c m = Emit c' ps" "confirmation c k = Some p" "confirmation_ok k p" "hi_retry (home_item_of b k p)"
    then show ?thesis using ask_keeps(1) [OF assms(1,2) now] by simp
  qed simp
qed

lemma cycle_fper: "fper (ctx_of (cycle_flow e c m)) = fper c"
proof -
  have "fper (fold (\<lambda>k c. fset c k JUndef) ks c) = fper c" for ks c by (induction ks arbitrary: c) simp_all
  then show ?thesis
    by (simp add: cycle_flow_def cycle_step_def cycle_start_def cycle_promote_def mset_def Let_def split: option.split)
qed

lemma runs_homes:
  assumes "context_runs c c'" "homes_ok c"
  shows "homes_ok c'"
  using assms
proof induction
  case (asked c c1 m e)
  then show ?case using homes_frame [OF cycle_fper [of e c1 m]] by simp
next
  case (answered c c1 m e)
  then show ?case
    using snapshot_homes [of c1 m e] homes_frame [of "ctx_of (snapshot_flow e c1 m)" c1] snapshots.persistent_unchanged [of m e c1]
    by (cases "test_msg m") auto
next
  case (ticked c c1 m e)
  then show ?case
    using tick_homes [of c1 m e] homes_frame [of "ctx_of (home_tick e c1 m)" c1] confirmations.persistent_unchanged [of m e c1]
    by (cases "test_msg m") auto
next
  case (configured c c1 m)
  then show ?case using policy_homes by blast
next
  case (elsewhere c c1 c2)
  then show ?case using homes_frame [of c2 c1] by blast
qed

text \<open>At the start nothing is stored.\<close>

definition context_fresh :: "ctx \<Rightarrow> bool" where
  "context_fresh c = (fmem c pending_key = JUndef \<and> fmem c cycle_clock_key = JUndef \<and> fper c home_key = JUndef \<and>
     fper c home_legacy_key = JUndef \<and> fper c context_policy_key = JUndef)"

lemma fresh_homes: "context_fresh c \<Longrightarrow> homes_ok c"
  by (simp add: context_fresh_def homes_ok_def context_policy_def)

text \<open>C39: A confirmation asks at most 361 times. After any interleaving of messages, a tick asks at most for one
  confirmation, between its deadline and its expiry, not before the retry time left by the last request, ten
  seconds at least ahead of the next one, and never for a resident known to be away, after the engine is known
  off, or once the request shows in the context of the car; the number of requests of one confirmation is
  bounded.\<close>

theorem confirmation_bounded:
  assumes "context_fresh c0" "context_runs c0 c" "\<not> test_msg m" "fin (clock e)" "home_tick e c m = Emit c' ps"
  shows "\<exists>k p p'. confirmation c k = Some p \<and> confirmation c' k = Some p' \<and>
    jnum_of p ''due_at'' \<le> home_now e m \<and> home_now e m \<le> jnum_of p ''expires_at'' \<and>
    jnum_of p ''next_emit_at'' \<le> home_now e m \<and> home_now e m + 10000 \<le> jnum_of p' ''next_emit_at'' \<and>
    jnum_of p' ''attempts'' = jnum_of p ''attempts'' + 1 \<and> jnum_of p' ''attempts'' \<le> 361"
proof -
  have ok: "homes_ok c" by (rule runs_homes [OF assms(2) fresh_homes [OF assms(1)]])
  have now: "fin (home_now e m)" using assms(4) by (simp add: home_now_def)
  show ?thesis
  proof (rule tick_cases [OF ok assms(3) now])
    fix policy c1 b c'' ps' k p
    assume a: "context_policy c = Some policy" "home_read e c m = (c1, b)" "home_build c1 policy m b p = Emit c'' ps'"
      "home_tick e c m = Emit c'' ps'" "confirmation c k = Some p" "confirmation_ok k p"
      "\<not> hi_expired (home_item_of b k p)" "hi_due (home_item_of b k p)" "hi_retry (home_item_of b k p)"
    note k = ask_keeps [OF ok assms(3) now a(1-3,5,6,9)]
    obtain n where n: "home_now e m = Fin n" using now by (auto simp: fin_iff)
    have b: "hb_now b = Fin n" using home_read_ok(3) [OF ok assms(3) a(2)] n by simp
    obtain due after attempts expiry where p: "jget p ''due_at'' = JNum (Fin due)" "jget p ''next_emit_at'' = JNum (Fin after)"
      "jget p ''attempts'' = JNum (Fin attempts)" "jget p ''expires_at'' = JNum (Fin expiry)"
      "due + attempts * 10000 \<le> after" "expiry - due \<le> 3600000"
      using a(6) by (auto simp: confirmation_ok_def)
    have times: "due \<le> n" "n \<le> expiry" "after \<le> n"
      using a(7-9) by (simp_all add: home_item_of_def Let_def b p dflt_def)
    then have "attempts * 10000 \<le> 3600000" using p(5,6) by linarith
    then have "attempts \<le> 360" by simp
    moreover have "c'' = c'" using a(4) assms(5) by simp
    ultimately show ?thesis
      by (intro exI [of _ k] exI [of _ p] exI [of _ "home_issued policy b p"] conjI) (use a(5) k(2-4) times in \<open>simp_all add: n p(1-4)\<close>)
  qed (use assms(5) in simp_all)
qed

lemma expired_tick:
  assumes "homes_ok c" "\<not> test_msg m" "fin (clock e)" "context_policy c \<noteq> None"
    and "\<And>k p. confirmation c k = Some p \<Longrightarrow> jnum_of p ''expires_at'' < home_now e m"
  defines "c' \<equiv> ctx_of (home_tick e c m)"
  shows "homes_ok c'" "context_policy c' = context_policy c"
    "confirmation c = Map.empty \<and> confirmation c' = Map.empty \<or>
     (\<exists>k. confirmation c k \<noteq> None \<and> confirmation c' = (confirmation c)(k := None))"
proof -
  have now: "fin (home_now e m)" using assms(3) by (simp add: home_now_def)
  show "homes_ok c'" unfolding c'_def by (rule tick_homes [OF assms(1-3)])
  have "context_policy c' = context_policy c \<and> (confirmation c = Map.empty \<and> confirmation c' = Map.empty \<or>
     (\<exists>k. confirmation c k \<noteq> None \<and> confirmation c' = (confirmation c)(k := None)))"
  proof (rule tick_cases [OF assms(1,2) now])
    fix c'' assume *: "home_tick e c m = Stop c''" "fper c'' = fper c"
      "context_policy c = None \<or> confirmation c = Map.empty \<or> (\<exists>k p. confirmation c k = Some p \<and> \<not> jnum_of p ''expires_at'' < home_now e m)"
    then have "confirmation c = Map.empty" using assms(4,5) by blast
    then show ?thesis using * by (simp add: c'_def confirmation_def context_policy_def)
  next
    fix policy c1 b c'' ps k p
    assume *: "home_read e c m = (c1, b)" "confirmation c k = Some p" "\<not> hi_expired (home_item_of b k p)"
    have "\<not> jnum_of p ''expires_at'' < home_now e m"
      using *(3) home_read_ok(3) [OF assms(1,2) *(1)] by (simp add: home_item_of_def Let_def)
    then show ?thesis using assms(5) [OF *(2)] by simp
  qed (auto simp: c'_def)
  then show "context_policy c' = context_policy c" "confirmation c = Map.empty \<and> confirmation c' = Map.empty \<or>
     (\<exists>k. confirmation c k \<noteq> None \<and> confirmation c' = (confirmation c)(k := None))" by blast+
qed

lemma confirmation_residents: "homes_ok c \<Longrightarrow> confirmation c k \<noteq> None \<Longrightarrow> k \<in> set residents"
  by (auto simp: homes_ok_def homes_wf_def confirmation_ok_def confirmation_def)

text \<open>The measure of the countdown: each tick after the expiry takes one of the entries that are left.\<close>

lemma one_less:
  assumes "f = Map.empty \<and> g = Map.empty \<or> (\<exists>k. f k \<noteq> None \<and> g = f(k := None))" "finite (dom f)"
  shows "finite (dom g)" "card (dom g) = card (dom f) - 1"
  using assms by (auto simp: dom_fun_upd card_Diff_singleton domI)


section \<open>The theorems on concrete messages\<close>

definition context_parameters :: jv where
  "context_parameters = JObj [(''payload'', JObj
    [(''inflight_timeout_s'', JNum 30), (''future_tolerance_s'', JNum 60), (''home_confirmation_delay_s'', JNum 90),
     (''home_confirmation_retry_s'', JNum 30), (''home_confirmation_expiry_min'', JNum 15)])]"

abbreviation standard_policy :: jv where
  "standard_policy \<equiv> JObj
    [(''version'', JNum (Fin 1)), (''inflight_timeout_s'', JNum (Fin 30)), (''future_tolerance_s'', JNum (Fin 60)),
     (''home_confirmation_delay_s'', JNum (Fin 90)), (''home_confirmation_retry_s'', JNum (Fin 30)),
     (''home_confirmation_expiry_min'', JNum (Fin 15))]"

definition configured_context :: ctx where
  "configured_context = ctx_of (context_policy_flow default_policies context_parameters)"

lemma configured_reads [simp]:
  "fper configured_context = (\<lambda>k. if k = context_policy_key then standard_policy else JUndef)"
  "fmem configured_context = (\<lambda>_. JUndef)" "context_policy configured_context = Some standard_policy"
proof -
  have ok: "list_all (context_accepts (payload context_parameters)) context_limits"
    by (simp add: context_parameters_def payload_def context_limits_def context_accepts_def)
  then show r: "fper configured_context = (\<lambda>k. if k = context_policy_key then standard_policy else JUndef)"
    "fmem configured_context = (\<lambda>_. JUndef)"
    by (auto simp: configured_context_def context_policy_flow_def context_candidate_def context_limits_def context_parameters_def payload_def)
  show "context_policy configured_context = Some standard_policy" by (simp add: context_policy_def r)
qed

lemma configured_runs: "context_fresh default_policies" "context_runs default_policies configured_context"
  using context_runs.configured [OF context_runs.begins, of default_policies context_parameters]
  by (simp_all add: context_fresh_def configured_context_def)

text \<open>The resident comes home at 1,000 seconds.\<close>

definition homecoming :: jv where
  "homecoming = JObj [(''payload'', JObj
    [(''kind'', JStr ''people_context''), (''updated_at'', JNum (Fin 1000000)), (''source'', JStr ''resident_primary''),
     (''trigger_prev_state'', JStr ''not_home''), (''trigger_state'', JStr ''home''),
     (''context'', JObj [(''updated_at'', JNum (Fin 1000000)),
        (''resident_primary'', JObj [(''ready'', JTrue), (''stale'', JFalse), (''current_home'', JTrue)])])])]"

definition at_home :: ctx where
  "at_home = ctx_of (snapshot_flow (host_at (Fin 1000000)) configured_context homecoming)"

lemma homecoming_reads [simp]:
  "\<not> test_msg homecoming" "snapshot_domain homecoming = Some ''people''" "is_objectlike (plget homecoming ''context'')"
  "plget homecoming ''source'' = JStr ''resident_primary''" "plget homecoming ''trigger_prev_state'' = JStr ''not_home''"
  "plget homecoming ''trigger_state'' = JStr ''home''" "message_now (host_at t) homecoming = t"
  by (simp_all add: homecoming_def test_msg_def plget_def payload_def snapshot_domain_def message_now_def dflt_def)

lemma at_home_stored:
  defines "s \<equiv> snapshot_read (host_at (Fin 1000000)) configured_context homecoming ''people''"
    and "c2 \<equiv> fset configured_context ''people_context_v1'' (plget homecoming ''context'')"
  shows "at_home = home_store c2 standard_policy homecoming s" "\<not> sn_test s" "home_at s = Fin 1000000"
proof -
  have s: "\<not> sn_test s" "sn_domain s = ''people''" "sn_previous s = JUndef" "sn_incoming s = Fin 1000000" "sn_now s = Fin 1000000"
    "sn_context s = plget homecoming ''context''"
    by (simp_all add: s_def snapshot_read_def Let_def mget_def tkey_def) (simp_all add: homecoming_def plget_def payload_def dflt_def)
  then show "\<not> sn_test s" "home_at s = Fin 1000000" by (simp_all add: home_at_def)
  have v: "snapshot_verdict standard_policy s = None" using s by (simp add: snapshot_verdict_def Let_def has_time_def)
  have c: "cache_mutate configured_context s None = c2"
    using s by (simp add: cache_mutate_def close_episode_def c2_def mset_def mget_def tkey_def Let_def episode_key_def)
  have d: "\<not> departure_selected c2 homecoming s True" by (simp add: departure_selected_def)
  have j: "join_step c2 homecoming s None False = Emit c2 [[]]" using s by (simp add: join_step_def Let_def mget_def tkey_def c2_def)
  have x: "jget (plget homecoming ''context'') ''resident_primary'' = JObj [(''ready'', JTrue), (''stale'', JFalse), (''current_home'', JTrue)]"
    by (simp add: homecoming_def plget_def payload_def)
  have h: "home_arrived homecoming s True" "\<not> home_duplicate c2 homecoming s"
    using s x by (simp_all add: home_arrived_def home_duplicate_def Let_def home_text_def dflt_def residents_def sget_def c2_def)
  show "at_home = home_store c2 standard_policy homecoming s"
    unfolding at_home_def using s(2) h
    by (simp add: snapshot_flow_def Let_def s_def[symmetric] v c d j home_step_def)
qed

lemma at_home_confirmation:
  "\<exists>p. confirmation at_home = [''resident_primary'' \<mapsto> p] \<and> jget p ''expires_at'' = JNum (Fin 1990000) \<and>
     jget p ''due_at'' = JNum (Fin 1090000) \<and> jget p ''next_emit_at'' = JNum (Fin 1090000) \<and> jget p ''issued_at'' = JNull"
  "fmem at_home ''vehicle_primary_context_v1'' = JUndef" "context_policy at_home = Some standard_policy"
proof -
  let ?s = "snapshot_read (host_at (Fin 1000000)) configured_context homecoming ''people''"
  let ?c = "fset configured_context ''people_context_v1'' (plget homecoming ''context'')"
  have string: "home_text (JStr x) = x" for x by (simp add: home_text_def dflt_def)
  have "confirmation at_home = [''resident_primary'' \<mapsto> home_record ?c standard_policy homecoming ?s]"
    using at_home_stored(2)
    by (simp add: at_home_stored(1) home_store_def Let_def sset_def sget_def confirmation_def put_resident_def versioned_def dflt_def
        string entry_jset entry_copy jspread_def)
  then show "\<exists>p. confirmation at_home = [''resident_primary'' \<mapsto> p] \<and> jget p ''expires_at'' = JNum (Fin 1990000) \<and>
     jget p ''due_at'' = JNum (Fin 1090000) \<and> jget p ''next_emit_at'' = JNum (Fin 1090000) \<and> jget p ''issued_at'' = JNull"
    by (intro exI [of _ "home_record ?c standard_policy homecoming ?s"]) (simp add: home_record_def Let_def at_home_stored(3))
  show "fmem at_home ''vehicle_primary_context_v1'' = JUndef" "context_policy at_home = Some standard_policy"
    using at_home_stored(2) by (simp_all add: at_home_stored(1) home_store_def Let_def sset_def context_policy_def)
qed

lemma at_home_runs: "context_runs default_policies at_home"
  unfolding at_home_def by (rule context_runs.answered [OF configured_runs(2)]) simp

text \<open>A tick of the production clock.\<close>

definition home_clock :: jv where
  "home_clock = JObj [(''payload'', JObj [(''kind'', JStr ''home_confirmation_tick'')])]"

lemma home_clock_reads [simp]: "\<not> test_msg home_clock" "home_now (host_at (Fin t)) home_clock = Fin t"
  by (simp_all add: home_clock_def test_msg_def plget_def payload_def home_now_def)


theorem confirmation_bounded_witness:
  "\<exists>c' ps k p p'. home_tick (host_at 1100000) at_home home_clock = Emit c' ps \<and> confirmation at_home k = Some p \<and>
     confirmation c' k = Some p' \<and> jnum_of p' ''attempts'' = jnum_of p ''attempts'' + 1 \<and> jnum_of p' ''attempts'' \<le> 361"
proof -
  let ?e = "host_at (Fin 1100000)"
  have ok: "homes_ok at_home" by (rule runs_homes [OF at_home_runs fresh_homes [OF configured_runs(1)]])
  obtain p where p: "confirmation at_home = [''resident_primary'' \<mapsto> p]" "jget p ''expires_at'' = JNum (Fin 1990000)"
    "jget p ''due_at'' = JNum (Fin 1090000)" "jget p ''next_emit_at'' = JNum (Fin 1090000)" "jget p ''issued_at'' = JNull"
    using at_home_confirmation(1) by blast
  obtain c1 b where r: "home_read ?e at_home home_clock = (c1, b)" by (cases "home_read ?e at_home home_clock")
  note h = home_read_ok [OF ok home_clock_reads(1) r]
  note conf = confirmation_read [OF ok home_clock_reads(1) r]
  have "home_items b \<noteq> []" using items_stored [OF h(6)] conf p(1) by auto
  then obtain i where i: "home_first (home_items b) = Some i" by (cases "home_items b") simp_all
  obtain k q where kq: "map_of (jentries (jget (hb_state b) ''residents'')) k = Some q" "i = home_item_of b k q" "hi_pending i = q"
    by (rule home_item_stored [OF h(6) i]) blast
  then have k: "k = ''resident_primary''" "q = p" using conf p(1) by (auto split: if_splits)
  have "hb_people b = dflt (mget False at_home ''people_context_v1'') (JObj [])" "hb_vehicle b = dflt (mget False at_home ''vehicle_primary_context_v1'') (JObj [])"
    using arg_cong [OF r, of "\<lambda>x. hb_people (snd x)"] arg_cong [OF r, of "\<lambda>x. hb_vehicle (snd x)"]
    by (simp_all add: home_read_def Let_def case_prod_beta)
  then have v: "hb_vehicle b = JObj []" "jget (jget (hb_people b) ''resident_primary'') ''current_home'' = JTrue"
    using at_home_stored(2) at_home_confirmation(2)
    by (simp_all add: at_home_stored(1) home_store_def Let_def sset_def mget_def tkey_def dflt_def homecoming_def plget_def payload_def)
  have "\<not> hi_ack i" "\<not> hi_expired i" "\<not> hi_away i" "\<not> hi_off i" "hi_due i" "hi_retry i"
    using p(2-5) v h(3) by (simp_all add: kq(2) k home_item_of_def Let_def dflt_def)
  then obtain c' ps where "home_tick ?e at_home home_clock = Emit c' ps"
    by (simp add: home_tick_def at_home_confirmation(3) r i home_build_def)
  then show ?thesis
    using confirmation_bounded [OF configured_runs(1) at_home_runs home_clock_reads(1), of ?e c' ps] by auto
qed

text \<open>A cycle that both domains answer.\<close>

definition answer :: "string \<Rightarrow> jv" where
  "answer domain = JObj [(''payload'', JObj
    [(''kind'', JStr (domain @ ''_context'')), (''refresh_cycle_id'', JNum (Fin 1000)), (''updated_at'', JNum (Fin 900)),
     (''ready'', JTrue), (''context'', JObj [(''updated_at'', JNum (Fin 900))])])]"

definition periodic_request :: jv where
  "periodic_request = JObj [(''payload'', JObj [(''kind'', JStr ''refresh_tick'')])]"

definition asked_context :: ctx where
  "asked_context = ctx_of (cycle_flow (host_at (Fin 1000)) configured_context periodic_request)"

definition half_answered :: ctx where
  "half_answered = ctx_of (snapshot_flow (host_at (Fin 1000)) asked_context (answer ''people''))"

lemma periodic_reads [simp]:
  "\<not> test_msg periodic_request" "plget periodic_request ''kind'' = JStr ''refresh_tick''"
  "plget periodic_request k = (if k = ''kind'' then JStr ''refresh_tick'' else JUndef)" "message_now (host_at t) periodic_request = t"
  by (simp_all add: periodic_request_def test_msg_def plget_def payload_def message_now_def dflt_def)

lemma answer_reads [simp]:
  "\<not> test_msg (answer d)" "is_objectlike (plget (answer d) ''context'')" "message_now (host_at t) (answer d) = t" "is_obj (answer d)"
  "plget (answer d) ''source'' = JUndef" "plget (answer d) ''refresh_cycle_id'' = JNum (Fin 1000)" "plget (answer d) ''ready'' = JTrue"
  "snapshot_domain (answer ''people'') = Some ''people''" "snapshot_domain (answer ''vehicle_primary'') = Some ''vehicle_primary''"
  by (simp_all add: answer_def test_msg_def plget_def payload_def snapshot_domain_def message_now_def dflt_def)

lemma asked_reads:
  "context_runs default_policies asked_context" "context_policy asked_context = Some standard_policy"
  "fmem asked_context k = (if k = pending_key then new_pending (cycle_read (host_at (Fin 1000)) standard_policy configured_context periodic_request) (Fin 1000)
     else if k = cycle_clock_key then JNum (Fin 1000) else JUndef)"
proof -
  let ?q = "cycle_read (host_at (Fin 1000)) standard_policy configured_context periodic_request"
  have q: "\<not> rq_test ?q" "\<not> rq_inflight ?q" "rq_now ?q = Fin 1000" by (simp_all add: cycle_read_def Let_def mget_def tkey_def)
  have n: "next_cycle configured_context ?q = Fin 1000"
    using q by (simp add: next_cycle_def mget_def tkey_def jor_def jmax_def Let_def)
  have a: "asked_context = fset (fset configured_context cycle_clock_key (JNum (Fin 1000))) pending_key (new_pending ?q (Fin 1000))"
    unfolding asked_context_def using q n by (simp add: cycle_flow_def cycle_step_def cycle_start_def Let_def mset_def tkey_def)
  show "context_runs default_policies asked_context"
    unfolding asked_context_def by (rule context_runs.asked [OF configured_runs(2)]) simp
  show "context_policy asked_context = Some standard_policy" by (simp add: a context_policy_def)
  show "fmem asked_context k = (if k = pending_key then new_pending ?q (Fin 1000) else if k = cycle_clock_key then JNum (Fin 1000) else JUndef)"
    by (simp add: a)
qed

lemma answer_flow:
  assumes "context_policy c = Some standard_policy" "d \<in> {''people'', ''vehicle_primary''}"
    and "fmem c (d @ ''_context_v1'') = JUndef" "fmem c (episode_key d) = JUndef"
  defines "c2 \<equiv> fset c (d @ ''_context_v1'') (plget (answer d) ''context'')"
    and "s \<equiv> snapshot_read (host_at (Fin 1000)) c (answer d) d"
  shows "snapshot_flow (host_at (Fin 1000)) c (answer d) = wire (join_step c2 (answer d) s None False) (\<lambda>c3 ps. Emit c3 [port 0 ps])"
    "\<not> sn_test s" "sn_domain s = d"
proof -
  have s: "\<not> sn_test s" "sn_domain s = d" "sn_previous s = JUndef" "sn_incoming s = Fin 900" "sn_now s = Fin 1000"
    "sn_context s = plget (answer d) ''context''"
    using assms(3) by (simp_all add: s_def snapshot_read_def Let_def mget_def tkey_def) (simp_all add: answer_def plget_def payload_def dflt_def)
  then show "\<not> sn_test s" "sn_domain s = d" by simp_all
  have v: "snapshot_verdict standard_policy s = None" using s by (simp add: snapshot_verdict_def Let_def has_time_def)
  have "d @ ''_context_v1'' \<noteq> episode_key d" by (simp add: episode_key_def)
  then have c: "cache_mutate c s None = c2"
    using s assms(4) by (simp add: cache_mutate_def close_episode_def c2_def mset_def mget_def tkey_def Let_def)
  have dom: "snapshot_domain (answer d) = Some d" using assms(2) by auto
  have "\<not> departure_selected c2 (answer d) s True" "home_step c3 standard_policy (answer d) s True = c3" for c3
    by (simp_all add: departure_selected_def str_among_def home_step_def home_arrived_def home_text_def dflt_def residents_def Let_def)
  then show "snapshot_flow (host_at (Fin 1000)) c (answer d) = wire (join_step c2 (answer d) s None False) (\<lambda>c3 ps. Emit c3 [port 0 ps])"
    by (simp add: snapshot_flow_def assms(1) dom Let_def s_def[symmetric] v c)
qed

lemma half_reads:
  "context_runs default_policies half_answered" "context_policy half_answered = Some standard_policy"
  "fmem half_answered ''vehicle_primary_context_v1'' = JUndef" "fmem half_answered (episode_key ''vehicle_primary'') = JUndef"
  "truthy (fmem half_answered pending_key)" "jget (fmem half_answered pending_key) ''cycle'' = JNum (Fin 1000)"
  "jget (fmem half_answered pending_key) ''people_received'' = JTrue" "jget (fmem half_answered pending_key) ''emitted'' = JFalse"
  "is_obj (fmem half_answered pending_key)"
  "jget (fmem half_answered pending_key) ''request_reason'' = JStr ''startup_or_periodic_reconciliation''"
proof -
  let ?q = "cycle_read (host_at (Fin 1000)) standard_policy configured_context periodic_request"
  let ?s = "snapshot_read (host_at (Fin 1000)) asked_context (answer ''people'') ''people''"
  let ?c = "fset asked_context (''people'' @ ''_context_v1'') (plget (answer ''people'') ''context'')"
  let ?p = "pending_update (new_pending ?q (Fin 1000)) (answer ''people'') ?s True"
  note run = answer_flow [of asked_context "''people''", OF asked_reads(2)]
  have r: "snapshot_flow (host_at (Fin 1000)) asked_context (answer ''people'') =
      wire (join_step ?c (answer ''people'') ?s None False) (\<lambda>c3 ps. Emit c3 [port 0 ps])" "\<not> sn_test ?s" "sn_domain ?s = ''people''"
    using run by (simp_all add: asked_reads(3) episode_key_def)
  have j: "join_step ?c (answer ''people'') ?s None False = Emit (fset ?c pending_key ?p) [[]]"
    using r(2,3) by (simp add: join_step_def Let_def mget_def mset_def tkey_def asked_reads(3) new_pending_def pending_update_def both_received_def)
  have h: "half_answered = fset ?c pending_key ?p" unfolding half_answered_def r(1) j by simp
  show "context_runs default_policies half_answered"
    unfolding half_answered_def by (rule context_runs.answered [OF asked_reads(1)]) simp
  show "context_policy half_answered = Some standard_policy" using asked_reads(2) by (simp add: h context_policy_def)
  show "fmem half_answered ''vehicle_primary_context_v1'' = JUndef" "fmem half_answered (episode_key ''vehicle_primary'') = JUndef"
    by (simp_all add: h asked_reads(3) episode_key_def)
  show "truthy (fmem half_answered pending_key)" "jget (fmem half_answered pending_key) ''cycle'' = JNum (Fin 1000)"
    "jget (fmem half_answered pending_key) ''people_received'' = JTrue" "jget (fmem half_answered pending_key) ''emitted'' = JFalse"
    "is_obj (fmem half_answered pending_key)"
    "jget (fmem half_answered pending_key) ''request_reason'' = JStr ''startup_or_periodic_reconciliation''"
    using r(3) by (simp_all add: h pending_update_def new_pending_def cycle_read_def Let_def jor_def)
qed

lemma answered_ids:
  "joint_ids (snapshot_flow (host_at (Fin 1000)) half_answered (answer ''vehicle_primary'')) = [JNum (Fin 1000)]"
proof -
  let ?m = "answer ''vehicle_primary''"
  let ?s = "snapshot_read (host_at (Fin 1000)) half_answered ?m ''vehicle_primary''"
  let ?c = "fset half_answered (''vehicle_primary'' @ ''_context_v1'') (plget ?m ''context'')"
  let ?p = "pending_update (fmem half_answered pending_key) ?m ?s True"
  have run: "snapshot_flow (host_at (Fin 1000)) half_answered ?m = wire (join_step ?c ?m ?s None False) (\<lambda>c3 ps. Emit c3 [port 0 ps])"
    "\<not> sn_test ?s" "sn_domain ?s = ''vehicle_primary''"
    using answer_flow [of half_answered "''vehicle_primary''", OF half_reads(2)] half_reads(3,4) by simp_all
  have p: "both_received ?p" "jget ?p ''emitted'' = JFalse" "jget ?p ''cycle'' = JNum (Fin 1000)" "is_obj ?p"
    "jget ?p ''request_reason'' = JStr ''startup_or_periodic_reconciliation''"
    using half_reads(6-10) run(3) by (simp_all add: pending_update_def both_received_def)
  obtain reason where reason: "recovery_reason (jset ?p ''emitted'' JTrue) = Some reason"
    using p(5) by (simp add: recovery_reason_def)
  show ?thesis
    unfolding run(1) using run(2) p half_reads(5,6)
    by (simp add: join_step_def Let_def mget_def mset_def tkey_def reason joint_ids_def)
qed


end
