(* ===== verification/ResidentNotices.thy ===== *)
theory ResidentNotices
  imports Places Policies JsRegex
begin

text \<open>
  Notices of an arrival to the other resident (tab \<open>notificacoes_chegadas_residentes\<close>,
  \<open>resident-notifications-*.js\<close>). \<open>notice_entry\<close> checks the contract of an arrival event; an approach goes
  straight on, an arrival at home first has to be confirmed (\<open>home_prepare\<close>, and after each delay
  \<open>home_evaluate\<close> on the state of the tracker). \<open>notice_reserve\<close> checks the age of the event, drops repetitions
  and reserves the delivery in the store; \<open>notice_dispatch\<close> uses a reservation up and sends the message.
  The answer of the notification service comes back to \<open>delivery_ack\<close> or to \<open>delivery_failure\<close>, which frees
  the reservation and lets the message try again through \<open>reserve_delivery\<close>.

  The nodes hand the event along in the message itself. Messages wait in delays and at the service, so any
  message may reach any node at any time: the theorems quantify over all messages. Reservations carry a token
  made of the time and of a sequence number that only grows.
\<close>

section \<open>Parameters\<close>

abbreviation notice_policy_key :: string where
  "notice_policy_key \<equiv> ''resident_notifications_policy_v3''"

definition notice_bounds :: "(string \<times> rat \<times> rat) list" where
  "notice_bounds = [(''dedupe_ttl_ms'', 60000, 3600000), (''max_event_age_ms'', 60000, 3600000),
     (''future_tolerance_ms'', 0, 300000), (''service_retry_seconds'', 10, 600), (''home_confirmation_seconds'', 30, 300),
     (''home_confirmation_window_seconds'', 90, 900), (''home_confirmation_recheck_seconds'', 10, 60)]"

definition notice_value_ok :: "jv \<Rightarrow> string \<times> rat \<times> rat \<Rightarrow> bool" where
  "notice_value_ok p = (\<lambda>(k, lo, hi). integral (jnum_of p k) \<and> \<not> jnum_of p k < Fin lo \<and> \<not> Fin hi < jnum_of p k)"

definition notice_values :: "jv \<Rightarrow> jv" where
  "notice_values p = JObj (map (\<lambda>(k, lo, hi). (k, JNum (jnum_of p k))) notice_bounds)"

definition notice_errors :: "jv \<Rightarrow> string list" where
  "notice_errors p =
    (let v = jnum_of (notice_values p) in
     map fst (filter (\<lambda>b. \<not> notice_value_ok p b) notice_bounds) @
     (if v ''max_event_age_ms'' \<le> v ''future_tolerance_ms'' then [''future_tolerance_lt_max_age''] else []) @
     (if v ''home_confirmation_window_seconds'' < v ''home_confirmation_seconds'' then [''home_window_gte_confirmation''] else []) @
     (if v ''home_confirmation_seconds'' \<le> v ''home_confirmation_recheck_seconds'' then [''home_recheck_lt_confirmation''] else []))"

definition object_input :: "jv \<Rightarrow> jv" where
  "object_input m = (if is_objectlike (payload m) then payload m else JObj [])"

definition notice_policy_validate :: "jv \<Rightarrow> jv" where
  "notice_policy_validate m =
    (let es = notice_errors (object_input m) in
     jsets m [(''policy_valid'', JBool (es = [])), (''policy_error'', JStr (join_with '','' es)),
       (''policy_candidate'', if es = [] then jspread (JObj [(''version'', JNum 3)]) (notice_values (object_input m)) else JNull)])"

definition notice_policy_store :: "env \<Rightarrow> ctx \<Rightarrow> jv \<Rightarrow> ports run" where
  "notice_policy_store e c m = Stop (pset c notice_policy_key
     (JObj [(''version'', JNum 3), (''policy'', jget m ''policy_candidate''), (''updated_at'', JNum (clock e))]))"

definition notice_policy_flow :: "env \<Rightarrow> ctx \<Rightarrow> jv \<Rightarrow> ports run" where
  "notice_policy_flow e c m =
    (let m1 = notice_policy_validate m in
     if jget m1 ''policy_valid'' = JTrue then notice_policy_store e c m1 else Stop (logged NodeError c))"

definition notice_policy :: "ctx \<Rightarrow> jv option" where
  "notice_policy c = (let r = fper c notice_policy_key in
     if jget r ''version'' = JNum 3 \<and> jget (jget r ''policy'') ''version'' = JNum 3 then Some (jget r ''policy'') else None)"

section \<open>The event\<close>

definition local_return :: "jv \<Rightarrow> bool" where
  "local_return p = (jget p ''arrival_stage'' = JStr ''local_return'' \<and>
     jget p ''arrival_direction'' = JStr ''returning_local_excursion'' \<and> jget p ''local_excursion_return'' = JTrue)"

definition arrival_time :: "env \<Rightarrow> jv \<Rightarrow> jnum" where
  "arrival_time e p = (let n = jnum_of p ''event_at'' in
     if fin n \<and> 0 < n then n else parse_date e (jget p ''event_at''))"

definition canonical_cycle :: "jv \<Rightarrow> bool" where
  "canonical_cycle p = (case jget p ''notification_cycle_id'' of
     JStr s \<Rightarrow> starts_with s (to_str (jget p ''source'') @ '':'') | _ \<Rightarrow> False)"

definition notice_key :: "env \<Rightarrow> jv \<Rightarrow> string" where
  "notice_key e p = (if canonical_cycle p then ''cycle:'' @ to_str (jget p ''notification_cycle_id'')
     else join_with '':'' [key_text (jget p ''source''), key_text (jget p ''arrival_stage''), num_str (arrival_time e p)])"

definition event_normalize :: "env \<Rightarrow> jv \<Rightarrow> jv" where
  "event_normalize e m =
    (let p = object_input m; local = local_return p; confirmed = (jget p ''external_cycle_confirmed'' = JTrue \<or> local) in
     jsets m
      [(''_location_test'', JBool (jget m ''_location_test'' = JTrue \<or> jget p ''test_mode'' = JTrue)),
       (''resident_source'', jget p ''source''), (''arrival_stage'', jget p ''arrival_stage''),
       (''event_at'', JNum (arrival_time e p)),
       (''arrival_contract_valid'', JBool (jget p ''contract'' = JStr ''security.arrival.v1'')),
       (''arrival_kind_valid'', JBool (jget p ''kind'' = JStr ''arrival'' \<and> jget p ''arrival_source_type'' = JStr ''person'')),
       (''arrival_returning'', JBool (jget p ''arrival_direction'' = JStr ''returning'' \<or> local)),
       (''arrival_external_cycle_confirmed'', JBool confirmed), (''arrival_cycle_confirmed'', JBool confirmed),
       (''arrival_local_return_valid'', JBool local),
       (''arrival_event_time_valid'', JBool (fin (arrival_time e p) \<and> 0 < arrival_time e p)),
       (''notification_canonical_cycle'', JBool (canonical_cycle p)), (''notification_key'', JStr (notice_key e p))])"

text \<open>Port 0: approaches and local returns. Port 1: candidates for an arrival at home.\<close>

definition notice_entry :: "env \<Rightarrow> ctx \<Rightarrow> jv \<Rightarrow> ports run" where
  "notice_entry e c m =
    (let m1 = event_normalize e m in
     if jget m1 ''arrival_contract_valid'' \<noteq> JTrue \<or> jget m1 ''arrival_kind_valid'' \<noteq> JTrue then Stop c
     else (case notice_policy c of
         None \<Rightarrow> Stop c
       | Some p \<Rightarrow>
         (let m2 = jsets m1 [(''policy_available'', JTrue), (''policy'', p)] in
          if jget m2 ''arrival_returning'' \<noteq> JTrue \<or> jget m2 ''arrival_cycle_confirmed'' \<noteq> JTrue then Stop c
          else if str_among (jget m2 ''arrival_stage'') [''approach'', ''local_return''] then Emit c [[m2], []]
          else if jget m2 ''arrival_stage'' = JStr ''home'' then Emit c [[], [m2]]
          else Stop c)))"

section \<open>Confirming an arrival at home\<close>

definition policy_num :: "jv \<Rightarrow> string \<Rightarrow> jnum" where
  "policy_num m k = jnum_of (jget m ''policy'') k"

definition home_prepare :: "env \<Rightarrow> jv \<Rightarrow> jv" where
  "home_prepare e m =
    (let stable = policy_num m ''home_confirmation_seconds'' * 1000 in
     jsets m
      [(''home_confirmation_started_at'', JNum (clock e)),
       (''home_confirmation_deadline_at'', JNum (clock e + policy_num m ''home_confirmation_window_seconds'' * 1000)),
       (''home_confirmation_required_ms'', JNum stable),
       (''home_confirmation_recheck_ms'', JNum (policy_num m ''home_confirmation_recheck_seconds'' * 1000)),
       (''delay'', JNum (if jget m ''_location_test'' = JTrue then 1 else stable))])"

text \<open>In a test the tracker is a fixture; otherwise \<open>entity\<close> is what Home Assistant answers, a parameter.\<close>

definition home_test_state :: "env \<Rightarrow> jv \<Rightarrow> jv" where
  "home_test_state e m = jsets m
    [(''home_confirmation_state'', JStr ''home''),
     (''home_confirmation_entity'', JObj [(''state'', JStr ''home''),
        (''last_changed'', JStr (iso e (clock e - jnum_of m ''home_confirmation_required_ms''))),
        (''attributes'', JObj [(''location_fresh'', JTrue), (''location_observed_at'', JStr (iso e (clock e)))])])]"

record home_view =
  hv_state :: string
  hv_fresh :: bool
  hv_stable :: bool
  hv_current :: bool
  hv_event :: bool
  hv_within :: bool

definition home_seen :: "env \<Rightarrow> jv \<Rightarrow> home_view" where
  "home_seen e m =
    (let entity = dflt (jget m ''home_confirmation_entity'') (JObj []); changed = parse_date e (jget entity ''last_changed'');
         attrs = jget entity ''attributes''; observed = parse_date e (jget attrs ''location_observed_at''); at' = jnum_of m ''event_at'' in
     \<lparr>hv_state = to_str (dflt (jget m ''home_confirmation_state'') (dflt (jget entity ''state'') (JStr []))),
      hv_fresh = (jget attrs ''location_fresh'' = JTrue),
      hv_stable = (fin changed \<and> jnum_of m ''home_confirmation_required_ms'' \<le> clock e - changed),
      hv_current = (fin observed \<and> at' \<le> observed),
      hv_event = (fin at' \<and> at' \<le> clock e + policy_num m ''future_tolerance_ms'' \<and> clock e - at' \<le> policy_num m ''max_event_age_ms''),
      hv_within = (clock e \<le> jnum_of m ''home_confirmation_deadline_at'')\<rparr>)"

definition home_confirmed :: "home_view \<Rightarrow> bool" where
  "home_confirmed v = (hv_state v = ''home'' \<and> hv_fresh v \<and> hv_stable v \<and> hv_current v \<and> hv_event v \<and> hv_within v)"

definition home_retryable :: "env \<Rightarrow> jv \<Rightarrow> home_view \<Rightarrow> bool" where
  "home_retryable e m v = (hv_event v \<and> clock e < jnum_of m ''home_confirmation_deadline_at'' \<and>
     hv_state v \<in> {'''', ''home'', ''near_home'', ''unknown'', ''unavailable''})"

definition home_result :: "env \<Rightarrow> jv \<Rightarrow> jv" where
  "home_result e m =
    (let v = home_seen e m in
     if home_confirmed v then jsets m [(''home_confirmation_result'', JStr ''confirmed''), (''home_confirmation_confirmed_at'', JNum (clock e))]
     else if home_retryable e m v then jsets m [(''home_confirmation_result'', JStr ''retry''),
       (''delay'', if jget m ''_location_test'' = JTrue then JNum 1 else jget m ''home_confirmation_recheck_ms'')]
     else jset m ''home_confirmation_result'' (JStr ''rejected''))"

text \<open>Port 0: confirmed. Port 1: look again after the delay.\<close>

definition home_evaluate :: "env \<Rightarrow> ctx \<Rightarrow> jv \<Rightarrow> jv \<Rightarrow> ports run" where
  "home_evaluate e c entity m =
    (if jget m ''_location_test'' \<noteq> JTrue \<and> \<not> str_among (jget m ''resident_source'') residents then Stop c
     else
       (let m1 = (if jget m ''_location_test'' = JTrue then home_test_state e m
            else jsets m [(''home_confirmation_state'', jget entity ''state''), (''home_confirmation_entity'', entity)]);
            m2 = home_result e m1 in
        if jget m2 ''home_confirmation_result'' = JStr ''confirmed'' then Emit c [[m2], []]
        else if jget m2 ''home_confirmation_result'' = JStr ''retry'' then Emit c [[], [m2]]
        else Stop c))"

section \<open>Reservations\<close>

abbreviation delivery_key :: string where
  "delivery_key \<equiv> ''resident_notification_delivery_v4''"

definition notice_test :: "jv \<Rightarrow> bool" where
  "notice_test m = (jget m ''_location_test'' = JTrue)"

definition object_or_null :: "jv \<Rightarrow> bool" where
  "object_or_null v = (is_objectlike v \<or> v = JNull)"

definition other_resident :: "string \<Rightarrow> string" where
  "other_resident role = (if role = ''resident_primary'' then ''resident_secondary'' else ''resident_primary'')"

definition migrated_receipt :: "jv \<Rightarrow> jv" where
  "migrated_receipt item = JObj
    [(''accepted_key'', dflt (jget item ''accepted_key'') (dflt (jget item ''delivered_key'') JNull)),
     (''accepted_at'', JNum (to_num (dflt (jget item ''accepted_at'') (dflt (jget item ''delivered_at'') (JNum 0))))),
     (''accepted_stage'', JNull), (''pending_key'', dflt (jget item ''pending_key'') JNull),
     (''pending_at'', JNum (to_num (dflt (jget item ''pending_at'') (JNum 0))))]"

definition previous_receipts :: "bool \<Rightarrow> ctx \<Rightarrow> jv" where
  "previous_receipts t c =
    (let v3 = (if t then JNull else fper c ''resident_notification_delivery_v3'');
         v2 = (if t then JNull else fper c ''resident_notification_delivery_v2'') in
     if jget v3 ''version'' = JNum 3 then v3 else if jget v2 ''version'' = JNum 2 then v2 else JNull)"

definition state_migrate :: "env \<Rightarrow> ctx \<Rightarrow> jv \<Rightarrow> ctx" where
  "state_migrate e c m =
    (let t = notice_test m; current = sget t c delivery_key in
     if jget current ''version'' = JNum 4 \<and> object_or_null (jget current ''deliveries'') then c
     else sset t c delivery_key (JObj [(''version'', JNum 4),
       (''deliveries'', jsets (JObj []) (map (\<lambda>(s, item). (s @ '':'' @ other_resident s, migrated_receipt item))
          (jentries (jget (previous_receipts t c) ''residents'')))),
       (''updated_at'', JNum (clock e))]))"

definition load_deliveries :: "bool \<Rightarrow> ctx \<Rightarrow> jv" where
  "load_deliveries t c =
    (let s = sget t c delivery_key in
     if truthy s \<and> jget s ''version'' = JNum 4 \<and> object_or_null (jget s ''deliveries'') then s
     else JObj [(''version'', JNum 4), (''deliveries'', JObj [])])"

definition delivery_id :: "jv \<Rightarrow> string" where
  "delivery_id m = to_str (jget m ''resident_source'') @ '':'' @ to_str (jget m ''resident_recipient'')"

definition accepted_recent :: "env \<Rightarrow> jv \<Rightarrow> jv \<Rightarrow> bool" where
  "accepted_recent e m r = (num_fin (jget r ''accepted_at'') \<and> clock e - jnum_of r ''accepted_at'' < policy_num m ''dedupe_ttl_ms'')"

definition pending_recent :: "env \<Rightarrow> jv \<Rightarrow> jv \<Rightarrow> bool" where
  "pending_recent e m r = (num_fin (jget r ''pending_at'') \<and>
     clock e - jnum_of r ''pending_at'' < policy_num m ''service_retry_seconds'' * 1000)"

text \<open>\<open>recipient.accepted_key?.startsWith("cycle:")\<close> raises when the stored key is neither missing nor a text.\<close>

definition cycle_read_raises :: "jv \<Rightarrow> jv \<Rightarrow> bool" where
  "cycle_read_raises m r = (jget m ''notification_canonical_cycle'' = JTrue \<and>
     \<not> nullish (jget r ''accepted_key'') \<and> \<not> is_str (jget r ''accepted_key''))"

definition different_cycle :: "jv \<Rightarrow> jv \<Rightarrow> bool" where
  "different_cycle m r = (jget m ''notification_canonical_cycle'' = JTrue \<and>
     (case jget r ''accepted_key'' of JStr s \<Rightarrow> starts_with s ''cycle:'' | _ \<Rightarrow> False) \<and>
     \<not> jseq (jget r ''accepted_key'') (jget m ''notification_key''))"

definition home_followup :: "env \<Rightarrow> jv \<Rightarrow> jv \<Rightarrow> bool" where
  "home_followup e m r = (jget m ''arrival_stage'' = JStr ''home'' \<and> accepted_recent e m r \<and> \<not> different_cycle m r \<and>
     str_among (jget r ''accepted_stage'') [''approach'', ''local_return'', ''home''])"

definition notice_duplicate :: "env \<Rightarrow> jv \<Rightarrow> jv \<Rightarrow> bool" where
  "notice_duplicate e m r =
    (jnum_of m ''event_at'' < jnum_of r ''accepted_event_at'' \<or>
     pending_recent e m r \<and> jnum_of m ''event_at'' < jnum_of r ''pending_event_at'' \<or>
     jseq (jget r ''accepted_key'') (jget m ''notification_key'') \<and>
       (accepted_recent e m r \<or> jget m ''notification_canonical_cycle'' = JTrue) \<or>
     home_followup e m r \<or>
     jseq (jget r ''pending_key'') (jget m ''notification_key'') \<and> pending_recent e m r)"

definition next_sequence :: "jv \<Rightarrow> jnum" where
  "next_sequence s = to_num (dflt (jget s ''sequence'') (JNum 0)) + 1"

definition reservation_token :: "jnum \<Rightarrow> jnum \<Rightarrow> string" where
  "reservation_token now n = num_str now @ '':'' @ num_str n"

definition reserved_receipt :: "env \<Rightarrow> jv \<Rightarrow> jv \<Rightarrow> jv \<Rightarrow> jv" where
  "reserved_receipt e m s r = jsets r
    [(''pending_key'', jget m ''notification_key''), (''pending_at'', JNum (clock e)),
     (''pending_token'', JStr (reservation_token (clock e) (next_sequence s))),
     (''pending_event_at'', jget m ''event_at''), (''pending_dispatched'', JFalse)]"

text \<open>The store with the receipt \<open>r\<close> under the delivery \<open>k\<close>.\<close>

definition put_receipt :: "env \<Rightarrow> string \<Rightarrow> jv \<Rightarrow> jv \<Rightarrow> jv" where
  "put_receipt e k r s = jsets s [(''deliveries'', jset (jget s ''deliveries'') k r), (''updated_at'', JNum (clock e))]"

definition reserve_delivery :: "env \<Rightarrow> ctx \<Rightarrow> jv \<Rightarrow> ports run" where
  "reserve_delivery e c m =
    (let t = notice_test m; s = load_deliveries t c; k = delivery_id m; r = dflt (jget (jget s ''deliveries'') k) (JObj []);
         marks = (\<lambda>s r d. [(''notification_state_key'', JStr (tkey t delivery_key)), (''notification_delivery_state'', s),
           (''notification_delivery_id'', JStr k), (''notification_recipient_state'', r), (''notification_duplicate'', JBool d)]) in
     if jget s ''deliveries'' = JNull \<or> cycle_read_raises m r then Raise c
     else if notice_duplicate e m r then Emit c [[jsets m (marks s r True)]]
     else
       (let r' = reserved_receipt e m s r; s' = put_receipt e k r' (jset s ''sequence'' (JNum (next_sequence s))) in
        Emit (sset t c delivery_key s')
          [[jsets m (marks s' r' False @ [(''notification_reservation'', JStr (reservation_token (clock e) (next_sequence s)))])]]))"

text \<open>The switches before and after: who is arriving, and when; a repetition ends here.\<close>

definition event_in_time :: "env \<Rightarrow> jv \<Rightarrow> bool" where
  "event_in_time e m = (jget m ''arrival_event_time_valid'' = JTrue \<and>
     \<not> clock e + policy_num m ''future_tolerance_ms'' < jnum_of m ''event_at'' \<and>
     \<not> policy_num m ''max_event_age_ms'' < clock e - jnum_of m ''event_at'')"

definition reserve_step :: "env \<Rightarrow> ctx \<Rightarrow> jv \<Rightarrow> ports run" where
  "reserve_step e c m = wire (reserve_delivery e c m) (\<lambda>c1 ps. case port 0 ps of
     m1 # _ \<Rightarrow> if jget m1 ''notification_duplicate'' = JTrue then Stop c1 else Emit c1 [[m1]]
   | [] \<Rightarrow> Stop c1)"

definition notice_reserve :: "env \<Rightarrow> ctx \<Rightarrow> jv \<Rightarrow> ports run" where
  "notice_reserve e c m =
    (case jget m ''resident_source'' of
       JStr s \<Rightarrow> if s \<notin> set residents then Stop c
         else (let m1 = jset m ''resident_recipient'' (JStr (other_resident s)) in
           if event_in_time e m1 then reserve_step e (state_migrate e c m1) m1 else Stop c)
     | _ \<Rightarrow> Stop c)"

section \<open>Dispatch\<close>

text \<open>The store a message names: its key, in the store of its mode.\<close>

definition named_get :: "bool \<Rightarrow> ctx \<Rightarrow> string \<Rightarrow> jv" where
  "named_get t c k = (if t then fmem c k else fper c k)"

definition named_set :: "bool \<Rightarrow> ctx \<Rightarrow> string \<Rightarrow> jv \<Rightarrow> ctx" where
  "named_set t c k v = (if t then fset c k v else pset c k v)"

definition receipt_name :: "jv \<Rightarrow> string" where
  "receipt_name m = to_str (jget m ''notification_delivery_id'')"

definition consume_reservation :: "ctx \<Rightarrow> jv \<Rightarrow> ports run" where
  "consume_reservation c m =
    (case jget m ''notification_state_key'' of
       JStr key \<Rightarrow>
         (let t = notice_test m; s = named_get t c key; r = jget (jget s ''deliveries'') (receipt_name m) in
          if \<not> truthy r \<or> \<not> jseq (jget r ''pending_token'') (jget m ''notification_reservation'') \<or>
             \<not> jseq (jget r ''pending_key'') (jget m ''notification_key'') \<or> jget r ''pending_dispatched'' = JTrue then Stop c
          else
            (let r' = jset r ''pending_dispatched'' JTrue; s' = jset s ''deliveries'' (jset (jget s ''deliveries'') (receipt_name m) r') in
             Emit (named_set t c key s') [[jsets m [(''notification_delivery_state'', s'), (''notification_recipient_state'', r')]]]))
     | _ \<Rightarrow> Raise c)"

definition alias_words :: "string \<Rightarrow> string list" where
  "alias_words s = filter (\<lambda>w. w \<noteq> [])
     (foldr (\<lambda>ch ws. if is_space ch \<or> ch \<in> {CHR ''_'', CHR ''-''} then [] # ws else (ch # hd ws) # tl ws) (js_trim s) [[]])"

definition letter_word :: "string \<Rightarrow> bool" where
  "letter_word w = list_all (\<lambda>ch. is_letter ch \<or> ch \<in> {CHR ''.'', CHR 0x27}) w"


definition capital :: "string \<Rightarrow> string" where
  "capital w = (case w of [] \<Rightarrow> [] | ch # r \<Rightarrow> upper_char ch # r)"

definition display_name :: "ctx \<Rightarrow> jv \<Rightarrow> string" where
  "display_name c role =
    (let bindings = jget (glob c ''publicBindings'') ''roles'';
         ws = (case jget (jget bindings (to_str role)) ''source_alias'' of JStr s \<Rightarrow> alias_words s | _ \<Rightarrow> []) in
     if ws \<noteq> [] \<and> list_all letter_word ws then join_with '' '' (map capital ws) else to_str role)"

definition notice_text :: "bool \<Rightarrow> string \<Rightarrow> jv \<Rightarrow> string" where
  "notice_text t name stage = (if t then ''[TESTE] '' else []) @ name @
     (if stage = JStr ''home'' then '' chegou em casa.'' else '' est'' @ [CHR 0xE1] @ '' chegando em casa.'')"

definition approach_message :: "ctx \<Rightarrow> jv \<Rightarrow> jv" where
  "approach_message c m =
    (let t = notice_test m in jset m ''payload'' (JObj
      [(''contract'', JStr ''security.resident-approach-notification.v1''), (''kind'', JStr ''resident_approach_notification''),
       (''source'', jget m ''resident_source''), (''recipient'', jget m ''resident_recipient''),
       (''notification_key'', jget m ''notification_key''), (''event_at'', jget m ''event_at''),
       (''arrival_stage'', jget m ''arrival_stage''),
       (''message'', JStr (notice_text t (display_name c (jget m ''resident_source'')) (jget m ''arrival_stage''))),
       (''test_mode'', JBool t), (''simulated'', JBool t), (''dispatched'', JFalse)]))"

text \<open>Port 0: the phone of the first resident. Port 1: the phone of the second. Port 2: the end of a dry run.\<close>

definition notice_dispatch :: "ctx \<Rightarrow> jv \<Rightarrow> ports run" where
  "notice_dispatch c m = wire (consume_reservation c m) (\<lambda>c1 ps.
     (let m1 = approach_message c1 (hd (port 0 ps)) in
      if jget m1 ''_location_test'' = JTrue then Emit c1 [[], [], [m1]]
      else if jget m1 ''resident_recipient'' = JStr ''resident_primary'' then Emit c1 [[m1], [], []]
      else if jget m1 ''resident_recipient'' = JStr ''resident_secondary'' then Emit c1 [[], [m1], []]
      else Stop c1))"

section \<open>The answer of the service\<close>

definition stored_or_sent :: "jv \<Rightarrow> jv \<Rightarrow> jv" where
  "stored_or_sent stored m = (if jget stored ''version'' = JNum 4 then stored else jget m ''notification_delivery_state'')"

definition receipt_of :: "jv \<Rightarrow> jv \<Rightarrow> jv" where
  "receipt_of s m = jor (jget (jget s ''deliveries'') (receipt_name m)) (jget m ''notification_recipient_state'')"

definition accepted_receipt :: "env \<Rightarrow> jv \<Rightarrow> jv \<Rightarrow> jv" where
  "accepted_receipt e m r = jsets r
    [(''accepted_key'', jget m ''notification_key''), (''accepted_at'', JNum (clock e)),
     (''accepted_event_at'', jget m ''event_at''), (''accepted_stage'', jget m ''arrival_stage''),
     (''pending_key'', JNull), (''pending_at'', JNum 0)]"

text \<open>The common part of an accepted delivery: \<open>None\<close> when the answer belongs to an older reservation.\<close>

definition accept_receipt :: "env \<Rightarrow> ctx \<Rightarrow> bool \<Rightarrow> jv \<Rightarrow> ctx run" where
  "accept_receipt e c t m =
    (case jget m ''notification_state_key'' of
       JStr key \<Rightarrow>
         (let s = stored_or_sent (named_get t c key) m; r = receipt_of s m in
          if nullish s \<or> nullish (jget s ''deliveries'') then Raise c
          else if \<not> jseq (jget r ''pending_token'') (jget m ''notification_reservation'') then Stop c
          else if nullish r then Raise c
          else (let c1 = named_set t c key (put_receipt e (receipt_name m) (accepted_receipt e m r) s) in Emit c1 c1))
     | _ \<Rightarrow> Raise c)"

definition delivery_ack :: "env \<Rightarrow> ctx \<Rightarrow> jv \<Rightarrow> ports run" where
  "delivery_ack e c m = wire (accept_receipt e c False m) (\<lambda>c1 _. Stop c1)"

abbreviation dry_run_key :: string where
  "dry_run_key \<equiv> ''resident_notifications_last_dry_run_v2__test''"

definition dry_run_result :: "env \<Rightarrow> jv \<Rightarrow> jv" where
  "dry_run_result e m = (let p = object_input m in JObj
    [(''version'', JNum 1), (''simulated'', JTrue), (''dispatched'', JFalse), (''source'', jget p ''source''),
     (''recipient'', jget p ''recipient''), (''message'', jget p ''message''), (''completed_at'', JNum (clock e))])"

definition delivery_dry_run :: "env \<Rightarrow> ctx \<Rightarrow> jv \<Rightarrow> ports run" where
  "delivery_dry_run e c m = wire (accept_receipt e c True m) (\<lambda>c1 _.
     Stop (logged NodeWarn (fset c1 dry_run_key
       (jset (jor (fmem c1 dry_run_key) (JObj [])) (receipt_name m) (dry_run_result e m)))))"

definition owns_reservation :: "jv \<Rightarrow> jv \<Rightarrow> jv \<Rightarrow> bool" where
  "owns_reservation s r m = (jget s ''version'' = JNum 4 \<and> jseq (jget r ''pending_key'') (jget m ''notification_key'') \<and>
     jseq (jget r ''pending_token'') (jget m ''notification_reservation''))"

definition retry_count :: "jv \<Rightarrow> jnum" where
  "retry_count m = to_num (dflt (jget m ''notification_retry_count'') (JNum 0)) + 1"

definition retry_message :: "jv \<Rightarrow> bool \<Rightarrow> jv" where
  "retry_message m owns = jsets m
    [(''notification_retry_count'', JNum (retry_count m)), (''delay'', JNum (policy_num m ''service_retry_seconds'' * 1000)),
     (''notification_retry_allowed'', JBool (owns \<and> retry_count m \<le> 2))]"

definition delivery_failure :: "env \<Rightarrow> ctx \<Rightarrow> jv \<Rightarrow> ports run" where
  "delivery_failure e c m =
    (case jget m ''notification_state_key'' of
       JStr key \<Rightarrow>
         (let t = notice_test m; s = stored_or_sent (named_get t c key) m; r = receipt_of s m; owns = owns_reservation s r m in
          if owns \<and> (nullish r \<or> nullish (jget s ''deliveries'')) then Raise c
          else
            (let r' = jsets r [(''pending_key'', JNull), (''pending_at'', JNum 0)];
                 c1 = (if owns then named_set t c key (put_receipt e (receipt_name m) r' s) else c) in
             Emit c1 [[retry_message m owns]]))
     | _ \<Rightarrow> Raise c)"

text \<open>The switch after it: the message waits for its delay and comes back to \<open>reserve_step\<close>.\<close>

definition failure_step :: "env \<Rightarrow> ctx \<Rightarrow> jv \<Rightarrow> ports run" where
  "failure_step e c m = wire (delivery_failure e c m) (\<lambda>c1 ps.
     (let m1 = hd (port 0 ps) in if jget m1 ''notification_retry_allowed'' = JTrue then Emit c1 [[m1]] else Stop c1))"

section \<open>Test messages\<close>

abbreviation test_event_key :: string where
  "test_event_key \<equiv> ''resident_notifications_last_test_event_at_v2''"

definition notice_test_reset :: "ctx \<Rightarrow> ctx" where
  "notice_test_reset c = fold (\<lambda>k c. fset c k JNull) [''resident_notification_delivery_v4__test'', dry_run_key, test_event_key] c"

definition test_cases :: "jnum \<Rightarrow> (string \<times> jv list) list" where
  "test_cases now =
    [(''direct_home'', [JStr ''resident_secondary'', JStr ''home'', JStr ''returning'', JTrue, JNum now]),
     (''invalid_direction'', [JStr ''resident_primary'', JStr ''approach'', JStr ''leaving'', JTrue, JNum now]),
     (''unavailable'', [JStr ''resident_secondary'', JStr ''approach'', JStr ''returning'', JFalse, JNum now]),
     (''stale'', [JStr ''resident_secondary'', JStr ''approach'', JStr ''returning'', JTrue, JNum (now - 960000)]),
     (''future'', [JStr ''resident_secondary'', JStr ''approach'', JStr ''returning'', JTrue, JNum (now + 120000)])]"

definition notice_test_adapter :: "env \<Rightarrow> ctx \<Rightarrow> jv \<Rightarrow> jv run" where
  "notice_test_adapter e c m =
    (let tr = jget (jget (dflt (glob c shared_test_key) (JObj [])) ''transitions'') ''people''; tc = jget m ''test_case'';
         sel = (case map_of (test_cases (clock e)) (to_str tc) of Some xs \<Rightarrow> xs | None \<Rightarrow> replicate 5 JUndef);
         source = dflt (jget m ''test_source'') (dflt (sel ! 0) (jget tr ''source''));
         at0 = dflt (sel ! 4) (dflt (jget tr ''at'') (JNum (clock e)));
         event_at = (if tc = JStr ''duplicate'' then dflt (fmem c test_event_key) (JNum (clock e)) else at0);
         c1 = (if tc \<noteq> JStr ''duplicate'' \<and> (\<not> truthy tc \<or> tc = JStr ''direct_home'') then fset c test_event_key event_at else c) in
     if \<not> str_among source residents then Stop c
     else Emit c1 (jsets m [(''_location_test'', JTrue), (''payload'', JObj
       [(''contract'', JStr ''security.arrival.v1''), (''kind'', JStr ''arrival''), (''test_mode'', JTrue), (''source'', source),
        (''arrival_source_type'', JStr ''person''),
        (''arrival_stage'', dflt (sel ! 1) (JStr (if jget tr ''state'' = JStr ''home'' then ''home'' else ''approach''))),
        (''arrival_direction'', dflt (sel ! 2) (JStr ''returning'')), (''external_cycle_confirmed'', dflt (sel ! 3) JTrue),
        (''event_at'', event_at)])]))"

section \<open>Tokens\<close>

lemma nat_str_digits: "list_all (\<lambda>ch. 48 \<le> code ch \<and> code ch \<le> 57) (nat_str n)"
proof (induction n rule: nat_str.induct)
  case (1 n)
  then show ?case by (subst nat_str.simps) (auto simp: code_def)
qed

lemma digits_nat_str: "digits_val (nat_str n) = n"
proof (induction n rule: nat_str.induct)
  case (1 n)
  have d: "digit_val (char_of (48 + k)) = k" if "k < 10" for k :: nat using that by (simp add: digit_val_def code_def)
  show ?case
  proof (cases "n < 10")
    case True
    then show ?thesis by (subst nat_str.simps) (simp add: digits_val_def d)
  next
    case False
    then show ?thesis using 1 by (subst nat_str.simps) (simp add: digits_val_def d)
  qed
qed

lemma num_str_nat: "num_str (Fin (of_nat n)) = nat_str n"
  by (simp add: pos_str_def Let_def)

lemma token_inj:
  assumes "reservation_token a (Fin (of_nat n)) = reservation_token b (Fin (of_nat k))"
  shows "n = k"
proof -
  have colon: "takeWhile (\<lambda>ch. ch \<noteq> CHR '':'') (rev (x @ CHR '':'' # nat_str i)) = rev (nat_str i)" for x i
  proof -
    have "code (CHR '':'') = 58" by code_simp
    then have "\<And>ch. ch \<in> set (rev (nat_str i)) \<Longrightarrow> ch \<noteq> CHR '':''" using nat_str_digits [of i] by (auto simp: list_all_iff)
    then show ?thesis using takeWhile_append2 [of "rev (nat_str i)" "\<lambda>ch. ch \<noteq> CHR '':''" "CHR '':'' # rev x"] by simp
  qed
  have "num_str a @ CHR '':'' # nat_str n = num_str b @ CHR '':'' # nat_str k"
    using assms unfolding reservation_token_def num_str_nat by simp
  then have "rev (nat_str n) = rev (nat_str k)" using colon [of "num_str a" n] colon [of "num_str b" k] by metis
  then have "nat_str n = nat_str k" by simp
  then show ?thesis by (metis digits_nat_str)
qed

text \<open>The token of a reservation with number at most \<open>n\<close>, or none.\<close>

definition token_upto :: "nat \<Rightarrow> jv \<Rightarrow> bool" where
  "token_upto n v = (v = JUndef \<or> (\<exists>now k. v = JStr (reservation_token now (Fin (of_nat k))) \<and> k \<le> n))"

definition token_after :: "jv \<Rightarrow> jv \<Rightarrow> bool" where
  "token_after u v = (\<exists>now k. v = JStr (reservation_token now (Fin (of_nat k))) \<and> token_upto (k - 1) u \<and> 0 < k)"

lemma token_after_neq: "token_after u v \<Longrightarrow> v \<noteq> u"
  by (auto simp: token_after_def token_upto_def dest!: token_inj)

lemma token_upto_mono: "token_upto n v \<Longrightarrow> n \<le> k \<Longrightarrow> token_upto k v"
  unfolding token_upto_def using le_trans by blast

lemma token_after_upto:
  assumes "token_after u v" "token_upto n v"
  shows "token_upto n u"
proof -
  obtain now k where v: "v = JStr (reservation_token now (Fin (of_nat k)))" "token_upto (k - 1) u"
    using assms(1) by (auto simp: token_after_def)
  then have "k \<le> n" using assms(2) by (auto simp: token_upto_def dest: token_inj)
  then show ?thesis using token_upto_mono [OF v(2)] by simp
qed

lemma fresh_token: "token_upto n u \<Longrightarrow> token_after u (JStr (reservation_token now (Fin (of_nat (n + 1)))))"
  unfolding token_after_def by (intro exI [of _ now] exI [of _ "n + 1"]) simp

section \<open>The store of deliveries\<close>

definition receipt_ok :: "nat \<Rightarrow> jv \<Rightarrow> bool" where
  "receipt_ok n r = (is_obj r \<and> token_upto n (jget r ''pending_token''))"

definition sequence_of :: "jv \<Rightarrow> nat" where
  "sequence_of s = (case jget s ''sequence'' of JNum (Fin r) \<Rightarrow> nat \<lfloor>r\<rfloor> | _ \<Rightarrow> 0)"

definition deliveries_ok :: "jv \<Rightarrow> bool" where
  "deliveries_ok s = (is_obj s \<and> jget s ''version'' = JNum 4 \<and> is_obj (jget s ''deliveries'') \<and>
     (jget s ''sequence'' = JUndef \<or> (\<exists>n. jget s ''sequence'' = JNum (Fin (of_nat n)))) \<and>
     list_all (\<lambda>x. receipt_ok (sequence_of s) (snd x)) (jentries (jget s ''deliveries'')))"

definition receipt_in :: "jv \<Rightarrow> string \<Rightarrow> jv" where
  "receipt_in s k = jget (jget s ''deliveries'') k"

lemma receipt_in_ok: "deliveries_ok s \<Longrightarrow> receipt_in s k = JUndef \<or> receipt_ok (sequence_of s) (receipt_in s k)"
  by (cases "jget s ''deliveries''")
    (auto simp: deliveries_ok_def receipt_in_def list_all_iff dest!: map_of_SomeD split: option.splits)

lemma put_receipt_ok:
  fixes e k r
  assumes "deliveries_ok s" "receipt_ok (sequence_of s) r"
  defines "s' \<equiv> put_receipt e k r s"
  shows "deliveries_ok s'" "receipt_in s' k = r" "k' \<noteq> k \<Longrightarrow> receipt_in s' k' = receipt_in s k'" "sequence_of s' = sequence_of s"
proof -
  have o: "is_obj s" "is_obj (jget s ''deliveries'')" using assms(1) by (simp_all add: deliveries_ok_def)
  then show seq: "receipt_in s' k = r" "k' \<noteq> k \<Longrightarrow> receipt_in s' k' = receipt_in s k'" "sequence_of s' = sequence_of s"
    by (simp_all add: s'_def put_receipt_def receipt_in_def sequence_of_def)
  have d: "jget s' ''deliveries'' = jset (jget s ''deliveries'') k r" using o by (simp add: s'_def put_receipt_def)
  have "list_all (\<lambda>x. receipt_ok (sequence_of s) (snd x)) (jentries (jset (jget s ''deliveries'') k r))"
    using assms(1,2) o(2) by (cases "jget s ''deliveries''") (auto simp: deliveries_ok_def list_all_iff dest!: update_entries)
  then show "deliveries_ok s'"
    using assms(1) o by (simp add: deliveries_ok_def d seq(3)) (simp add: s'_def put_receipt_def)
qed

lemma numbered_ok:
  assumes "deliveries_ok s"
  defines "s' \<equiv> jset s ''sequence'' (JNum (next_sequence s))"
  shows "deliveries_ok s'" "receipt_in s' = receipt_in s" "sequence_of s' = sequence_of s + 1"
    "next_sequence s = Fin (of_nat (sequence_of s + 1))"
proof -
  have o: "is_obj s" using assms(1) by (simp add: deliveries_ok_def)
  have n: "next_sequence s = Fin (of_nat (sequence_of s + 1))"
    using assms(1) by (auto simp: deliveries_ok_def next_sequence_def sequence_of_def dflt_def)
  then show "next_sequence s = Fin (of_nat (sequence_of s + 1))" .
  have s': "s' = jset s ''sequence'' (JNum (Fin (of_nat (sequence_of s + 1))))" by (simp add: s'_def n)
  show q: "sequence_of s' = sequence_of s + 1" unfolding s' using o by (simp add: sequence_of_def [of "jset _ _ _"] del: of_nat_add of_nat_Suc)
  show "receipt_in s' = receipt_in s" by (rule ext) (simp add: receipt_in_def s')
  have "receipt_ok (sequence_of s + 1) r" if "receipt_ok (sequence_of s) r" for r
    using that token_upto_mono [of "sequence_of s" _ "sequence_of s + 1"] by (simp add: receipt_ok_def)
  then show "deliveries_ok s'"
    using assms(1) o unfolding deliveries_ok_def q by (auto simp: s' list_all_iff simp del: of_nat_add of_nat_Suc)
qed

lemma empty_deliveries_ok: "deliveries_ok (JObj [(''version'', JNum 4), (''deliveries'', JObj [])])"
  by (simp add: deliveries_ok_def)

definition deliveries_stored :: "ctx \<Rightarrow> bool" where
  "deliveries_stored c = (fper c delivery_key = JUndef \<or> deliveries_ok (fper c delivery_key))"

lemma load_deliveries_ok: "deliveries_stored c \<Longrightarrow> deliveries_ok (load_deliveries False c)"
  "deliveries_ok (fper c delivery_key) \<Longrightarrow> load_deliveries False c = fper c delivery_key"
proof -
  have s: "deliveries_ok s \<Longrightarrow> truthy s \<and> jget s ''version'' = JNum 4 \<and> object_or_null (jget s ''deliveries'')" for s
    by (cases s; cases "jget s ''deliveries''") (auto simp: deliveries_ok_def object_or_null_def)
  show "deliveries_ok (fper c delivery_key) \<Longrightarrow> load_deliveries False c = fper c delivery_key"
    using s by (simp add: load_deliveries_def Let_def sget_def)
  then show "deliveries_stored c \<Longrightarrow> deliveries_ok (load_deliveries False c)"
    using empty_deliveries_ok by (auto simp: deliveries_stored_def load_deliveries_def Let_def sget_def)
qed

section \<open>Used reservations stay used\<close>

definition spent :: "string \<Rightarrow> jv \<Rightarrow> ctx \<Rightarrow> bool" where
  "spent d token c = (let r = receipt_in (fper c delivery_key) d in truthy r \<and>
     (jget r ''pending_token'' = token \<and> jget r ''pending_dispatched'' = JTrue \<or> token_after token (jget r ''pending_token'')))"

definition notices_keep :: "ctx \<Rightarrow> ctx \<Rightarrow> bool" where
  "notices_keep c c' = (deliveries_stored c \<longrightarrow> deliveries_stored c' \<and> (\<forall>d token. spent d token c \<longrightarrow> spent d token c'))"

lemma notices_keep_refl [simp, intro]: "fper c' delivery_key = fper c delivery_key \<Longrightarrow> notices_keep c c'"
  by (simp add: notices_keep_def deliveries_stored_def spent_def)

lemma notices_keep_frame:
  assumes "deliveries_stored c \<Longrightarrow> fper c' delivery_key = fper c delivery_key"
  shows "notices_keep c c'"
  using assms by (cases "deliveries_stored c") (simp_all add: notices_keep_def deliveries_stored_def spent_def)

lemma notices_keep_trans: "notices_keep a b \<Longrightarrow> notices_keep b c \<Longrightarrow> notices_keep a c"
  by (simp add: notices_keep_def)

lemma truthy_receipt: "receipt_ok n r \<Longrightarrow> truthy r"
  by (cases r) (auto simp: receipt_ok_def)

text \<open>Replacing the receipt of one delivery: its token stays with its mark, or a later one takes its place.\<close>

lemma put_keeps:
  assumes "deliveries_ok s" "receipt_ok (sequence_of s) r'"
    and "deliveries_stored c \<Longrightarrow> fper c delivery_key \<noteq> JUndef \<Longrightarrow> receipt_in s = receipt_in (fper c delivery_key)"
    and "\<And>r token. receipt_in s k = r \<Longrightarrow> truthy r \<Longrightarrow>
      jget r ''pending_token'' = token \<and> jget r ''pending_dispatched'' = JTrue \<or> token_after token (jget r ''pending_token'') \<Longrightarrow>
      jget r' ''pending_token'' = token \<and> jget r' ''pending_dispatched'' = JTrue \<or> token_after token (jget r' ''pending_token'')"
  shows "notices_keep c (pset c delivery_key (put_receipt e k r' s))"
proof -
  note put = put_receipt_ok [OF assms(1,2), where e = e and k = k]
  have "spent d token (pset c delivery_key (put_receipt e k r' s))" if stored: "deliveries_stored c" and sp: "spent d token c" for d token
  proof -
    have "fper c delivery_key \<noteq> JUndef" using sp by (auto simp: spent_def Let_def receipt_in_def)
    then have same: "receipt_in s = receipt_in (fper c delivery_key)" using assms(3) stored by simp
    show ?thesis
    proof (cases "d = k")
      case True
      then show ?thesis
        using sp assms(4) [of "receipt_in s k" token] truthy_receipt [OF assms(2)] put(2) by (simp add: spent_def same Let_def)
    next
      case False
      then show ?thesis using sp put(3) by (simp add: spent_def same Let_def)
    qed
  qed
  then show ?thesis using put(1) by (simp add: notices_keep_def deliveries_stored_def)
qed

lemma reserve_keeps: "notices_keep c (ctx_of (reserve_delivery e c m))"
proof (cases "notice_test m")
  case True
  then show ?thesis by (intro notices_keep_refl) (simp add: reserve_delivery_def Let_def sset_def)
next
  case False
  define s where "s = load_deliveries False c"
  let ?k = "delivery_id m"
  let ?r = "dflt (jget (jget s ''deliveries'') ?k) (JObj [])"
  show ?thesis
  proof (cases "deliveries_stored c \<and> \<not> (jget s ''deliveries'' = JNull \<or> cycle_read_raises m ?r) \<and> \<not> notice_duplicate e m ?r")
    case no: False
    then show ?thesis
      using False by (cases "deliveries_stored c") (auto simp: reserve_delivery_def Let_def s_def notices_keep_def)
  next
    case yes: True
    let ?s = "jset s ''sequence'' (JNum (next_sequence s))"
    let ?r' = "reserved_receipt e m s ?r"
    have ok: "deliveries_ok s" unfolding s_def using yes by (simp add: load_deliveries_ok(1))
    note num = numbered_ok [OF ok]
    have r: "?r = (if receipt_in s ?k = JUndef then JObj [] else receipt_in s ?k)"
      using receipt_in_ok [OF ok, of ?k] by (cases "receipt_in s ?k") (auto simp: receipt_in_def dflt_def receipt_ok_def)
    then have obj: "is_obj ?r" using receipt_in_ok [OF ok, of ?k] by (auto simp: receipt_ok_def)
    have token: "jget ?r' ''pending_token'' = JStr (reservation_token (clock e) (Fin (of_nat (sequence_of s + 1))))"
      using obj by (simp add: reserved_receipt_def num(4))
    have rec: "receipt_ok (sequence_of ?s) ?r'"
    proof -
      have "token_upto (sequence_of s + 1) (jget ?r' ''pending_token'')" unfolding token token_upto_def by blast
      then show ?thesis unfolding receipt_ok_def num(3) using obj by (simp add: reserved_receipt_def)
    qed
    have later: "token_after t (jget ?r' ''pending_token'')"
      if "receipt_in ?s ?k = r0" "truthy r0" "jget r0 ''pending_token'' = t \<and> X \<or> token_after t (jget r0 ''pending_token'')" for r0 t X
    proof -
      have "receipt_ok (sequence_of s) r0" using receipt_in_ok [OF ok, of ?k] that(1,2) num(2) by (auto simp: fun_eq_iff)
      then have "token_upto (sequence_of s) (jget r0 ''pending_token'')" by (simp add: receipt_ok_def)
      then have "token_upto (sequence_of s) t"
        using that(3) token_after_upto by blast
      then show ?thesis unfolding token by (rule fresh_token)
    qed
    have "notices_keep c (pset c delivery_key (put_receipt e ?k ?r' ?s))"
    proof (rule put_keeps [OF num(1) rec])
      show "receipt_in ?s = receipt_in (fper c delivery_key)" if "deliveries_stored c" "fper c delivery_key \<noteq> JUndef"
        using that num(2) load_deliveries_ok(2) by (auto simp: s_def deliveries_stored_def)
    qed (use later in blast)
    then show ?thesis
      using False yes by (simp add: reserve_delivery_def Let_def s_def[symmetric] sset_def)
  qed
qed

lemma migrated_receipt_ok: "receipt_ok n (migrated_receipt item)"
  by (simp add: receipt_ok_def migrated_receipt_def token_upto_def)

lemma migrated_deliveries:
  "list_all (\<lambda>x. receipt_ok 0 (snd x)) (jentries (jsets (JObj kvs) (map (\<lambda>(s, item). (f s, migrated_receipt item)) xs)))"
  if "list_all (\<lambda>x. receipt_ok 0 (snd x)) kvs"
  using that
proof (induction xs arbitrary: kvs)
  case (Cons x xs)
  have "list_all (\<lambda>x. receipt_ok 0 (snd x)) (AList.update (f (fst x)) (migrated_receipt (snd x)) kvs)"
    using Cons.prems migrated_receipt_ok by (auto simp: list_all_iff dest!: update_entries)
  then show ?case using Cons.IH by (simp add: case_prod_beta)
qed simp

lemma migrate_keeps: "notices_keep c (state_migrate e c m)" "deliveries_stored c \<Longrightarrow> deliveries_stored (state_migrate e c m)"
proof -
  show k: "notices_keep c (state_migrate e c m)"
  proof (cases "notice_test m")
    case True
    then show ?thesis by (intro notices_keep_refl) (simp add: state_migrate_def Let_def sset_def)
  next
    case False
    let ?ds = "jsets (JObj []) (map (\<lambda>(s, item). (s @ '':'' @ other_resident s, migrated_receipt item)) (jentries (jget (previous_receipts False c) ''residents'')))"
    have "deliveries_ok (JObj [(''version'', JNum 4), (''deliveries'', ?ds), (''updated_at'', JNum (clock e))])"
      using migrated_deliveries [of "[]" "\<lambda>s. s @ '':'' @ other_resident s"] by (simp add: deliveries_ok_def sequence_of_def)
    moreover have "deliveries_ok s \<Longrightarrow> jget s ''version'' = JNum 4 \<and> object_or_null (jget s ''deliveries'')" for s
      by (cases "jget s ''deliveries''") (auto simp: deliveries_ok_def object_or_null_def)
    ultimately show ?thesis
      using False by (auto simp: notices_keep_def state_migrate_def Let_def sget_def sset_def deliveries_stored_def spent_def receipt_in_def)
  qed
  then show "deliveries_stored c \<Longrightarrow> deliveries_stored (state_migrate e c m)" by (simp add: notices_keep_def)
qed

text \<open>The receipt a message names is the stored one.\<close>

lemma named_other: "fper (named_set t c k v) delivery_key = (if t \<or> k \<noteq> delivery_key then fper c delivery_key else v)"
  by (simp add: named_set_def)

lemma stamp_keeps:
  assumes "is_obj s"
  shows "notices_keep c (pset c delivery_key (jset s ''updated_at'' v)) = notices_keep c (pset c delivery_key s)"
proof -
  have "deliveries_ok (jset s ''updated_at'' v) = deliveries_ok s" "receipt_in (jset s ''updated_at'' v) k = receipt_in s k" for k
    by (simp_all add: deliveries_ok_def sequence_of_def receipt_in_def)
  moreover have "jset s ''updated_at'' v \<noteq> JUndef" "s \<noteq> JUndef" using assms by (cases s; simp)+
  ultimately show ?thesis by (simp add: notices_keep_def deliveries_stored_def spent_def)
qed

lemma consume_keeps: "notices_keep c (ctx_of (consume_reservation c m))"
proof (cases "jget m ''notification_state_key'' = JStr delivery_key \<and> \<not> notice_test m \<and> deliveries_stored c \<and> emits (consume_reservation c m)")
  case False
  have "fper (ctx_of (consume_reservation c m)) delivery_key = fper c delivery_key" if "deliveries_stored c"
    using False that by (auto simp: consume_reservation_def Let_def named_other split: jv.splits)
  then show ?thesis by (rule notices_keep_frame)
next
  case True
  let ?s = "fper c delivery_key"
  let ?r = "receipt_in ?s (receipt_name m)"
  have t: "truthy ?r" using True by (auto simp: consume_reservation_def Let_def named_get_def receipt_in_def split: if_splits)
  then have ok: "deliveries_ok ?s" using True by (auto simp: deliveries_stored_def receipt_in_def)
  then have r: "receipt_ok (sequence_of ?s) ?r" using receipt_in_ok [OF ok, of "receipt_name m"] t by auto
  let ?r' = "jset ?r ''pending_dispatched'' JTrue"
  have c': "ctx_of (consume_reservation c m) = pset c delivery_key (jset ?s ''deliveries'' (jset (jget ?s ''deliveries'') (receipt_name m) ?r'))"
    using True by (auto simp: consume_reservation_def Let_def named_get_def named_set_def receipt_in_def split: if_splits)
  have r': "receipt_ok (sequence_of ?s) ?r'" using r by (simp add: receipt_ok_def)
  have "notices_keep c (pset c delivery_key (put_receipt undefined (receipt_name m) ?r' ?s))"
    by (rule put_keeps [OF ok r']) (use r in \<open>auto simp: receipt_ok_def\<close>)
  then show ?thesis
    unfolding c' put_receipt_def using ok by (simp add: stamp_keeps deliveries_ok_def)
qed

text \<open>An answer comes back for a delivery that has a receipt.\<close>

definition answered :: "ctx \<Rightarrow> jv \<Rightarrow> bool" where
  "answered c m = (jget m ''notification_state_key'' = JStr delivery_key \<longrightarrow>
     receipt_in (fper c delivery_key) (receipt_name m) \<noteq> JUndef)"

lemma answered_receipt:
  assumes "answered c m" "deliveries_stored c" "jget m ''notification_state_key'' = JStr delivery_key"
  defines "s \<equiv> fper c delivery_key"
  shows "deliveries_ok s" "stored_or_sent s m = s" "receipt_of s m = receipt_in s (receipt_name m)"
    "receipt_ok (sequence_of s) (receipt_in s (receipt_name m))"
proof -
  have u: "receipt_in s (receipt_name m) \<noteq> JUndef" using assms(1,3) by (simp add: answered_def s_def)
  then show ok: "deliveries_ok s" using assms(2) by (auto simp: deliveries_stored_def s_def receipt_in_def)
  show r: "receipt_ok (sequence_of s) (receipt_in s (receipt_name m))" using receipt_in_ok [OF ok] u by blast
  show "stored_or_sent s m = s" using ok by (simp add: stored_or_sent_def deliveries_ok_def)
  show "receipt_of s m = receipt_in s (receipt_name m)"
    using truthy_receipt [OF r] by (simp add: receipt_of_def jor_def receipt_in_def)
qed

lemma accept_keeps:
  assumes "answered c m"
  shows "notices_keep c (ctx_of (accept_receipt e c t m))"
proof (cases "jget m ''notification_state_key'' = JStr delivery_key \<and> \<not> t \<and> deliveries_stored c")
  case False
  have "fper (ctx_of (accept_receipt e c t m)) delivery_key = fper c delivery_key" if "deliveries_stored c"
    using False that by (auto simp: accept_receipt_def Let_def named_other split: jv.splits)
  then show ?thesis by (rule notices_keep_frame)
next
  case True
  let ?s = "fper c delivery_key"
  let ?k = "receipt_name m"
  note a = answered_receipt [OF assms, OF conjunct2 [OF conjunct2 [OF True]] conjunct1 [OF True]]
  let ?r' = "accepted_receipt e m (receipt_in ?s ?k)"
  have r': "receipt_ok (sequence_of ?s) ?r'" using a(4) by (simp add: receipt_ok_def accepted_receipt_def)
  have "notices_keep c (pset c delivery_key (put_receipt e ?k ?r' ?s))"
    by (rule put_keeps [OF a(1) r']) (use a(4) in \<open>auto simp: receipt_ok_def accepted_receipt_def\<close>)
  then show ?thesis
    using True a(2,3) by (auto simp: accept_receipt_def Let_def named_get_def named_set_def)
qed

lemma failure_keeps:
  assumes "answered c m"
  shows "notices_keep c (ctx_of (delivery_failure e c m))"
proof (cases "jget m ''notification_state_key'' = JStr delivery_key \<and> \<not> notice_test m \<and> deliveries_stored c")
  case False
  have "fper (ctx_of (delivery_failure e c m)) delivery_key = fper c delivery_key" if "deliveries_stored c"
    using False that by (auto simp: delivery_failure_def Let_def named_other split: jv.splits)
  then show ?thesis by (rule notices_keep_frame)
next
  case True
  let ?s = "fper c delivery_key"
  let ?k = "receipt_name m"
  note a = answered_receipt [OF assms, OF conjunct2 [OF conjunct2 [OF True]] conjunct1 [OF True]]
  let ?r' = "jsets (receipt_in ?s ?k) [(''pending_key'', JNull), (''pending_at'', JNum 0)]"
  have r': "receipt_ok (sequence_of ?s) ?r'" using a(4) by (simp add: receipt_ok_def)
  have "notices_keep c (pset c delivery_key (put_receipt e ?k ?r' ?s))"
    by (rule put_keeps [OF a(1) r']) (use a(4) in \<open>auto simp: receipt_ok_def\<close>)
  then show ?thesis
    using True a(2,3) by (auto simp: delivery_failure_def Let_def named_get_def named_set_def)
qed

section \<open>Any interleaving\<close>

text \<open>Events, confirmed or not, retries, answers of the service, dry runs, changes of the parameters and whatever the
  other flows do, in any order and with any messages.\<close>

inductive notice_runs :: "ctx \<Rightarrow> ctx \<Rightarrow> bool" for c0 where
  begins: "notice_runs c0 c0"
| reserved: "notice_runs c0 c \<Longrightarrow> notice_runs c0 (ctx_of (notice_reserve e c m))"
| retried: "notice_runs c0 c \<Longrightarrow> notice_runs c0 (ctx_of (reserve_step e c m))"
| dispatched: "notice_runs c0 c \<Longrightarrow> notice_runs c0 (ctx_of (notice_dispatch c m))"
| accepted: "notice_runs c0 c \<Longrightarrow> answered c m \<Longrightarrow> notice_runs c0 (ctx_of (delivery_ack e c m))"
| failed: "notice_runs c0 c \<Longrightarrow> answered c m \<Longrightarrow> notice_runs c0 (ctx_of (failure_step e c m))"
| tested: "notice_runs c0 c \<Longrightarrow> answered c m \<Longrightarrow> notice_runs c0 (ctx_of (delivery_dry_run e c m))"
| configured: "notice_runs c0 c \<Longrightarrow> notice_runs c0 (ctx_of (notice_policy_flow e c m))"
| elsewhere: "notice_runs c0 c \<Longrightarrow> fper c' delivery_key = fper c delivery_key \<Longrightarrow> notice_runs c0 c'"

lemma wire_ctx: "(\<And>c x. r = Emit c x \<Longrightarrow> ctx_of (f c x) = c) \<Longrightarrow> ctx_of (wire r f) = ctx_of r"
  by (cases r) simp_all

lemma reserve_step_ctx: "ctx_of (reserve_step e c m) = ctx_of (reserve_delivery e c m)"
  unfolding reserve_step_def by (rule wire_ctx) (simp split: list.split)

lemma dispatch_ctx: "ctx_of (notice_dispatch c m) = ctx_of (consume_reservation c m)"
  unfolding notice_dispatch_def by (rule wire_ctx) (simp add: Let_def)

lemma notice_reserve_keeps: "notices_keep c (ctx_of (notice_reserve e c m))"
proof -
  have "notices_keep c (ctx_of (reserve_step e (state_migrate e c m1) m1))" if "notice_test m1 = notice_test m" for m1
    unfolding reserve_step_ctx
  proof -
    have "state_migrate e c m1 = state_migrate e c m" using that by (simp add: state_migrate_def)
    then show "notices_keep c (ctx_of (reserve_delivery e (state_migrate e c m1) m1))"
      using migrate_keeps(1) reserve_keeps notices_keep_trans by metis
  qed
  moreover have "notice_test (jset m ''resident_recipient'' v) = notice_test m" for v by (simp add: notice_test_def)
  ultimately show ?thesis by (auto simp: notice_reserve_def Let_def split: jv.split)
qed

lemma notices_through: "notice_runs c0 c \<Longrightarrow> notices_keep c0 c"
proof (induction rule: notice_runs.induct)
  case (reserved c e m)
  then show ?case using notice_reserve_keeps notices_keep_trans by blast
next
  case (retried c e m)
  then show ?case using reserve_keeps notices_keep_trans unfolding reserve_step_ctx by blast
next
  case (dispatched c m)
  then show ?case using consume_keeps notices_keep_trans unfolding dispatch_ctx by blast
next
  case (accepted c m e)
  have "ctx_of (delivery_ack e c m) = ctx_of (accept_receipt e c False m)"
    unfolding delivery_ack_def by (rule wire_ctx) simp
  then show ?case using accepted accept_keeps notices_keep_trans by metis
next
  case (failed c m e)
  have "ctx_of (failure_step e c m) = ctx_of (delivery_failure e c m)"
    unfolding failure_step_def by (rule wire_ctx) (simp add: Let_def)
  then show ?case using failed failure_keeps notices_keep_trans by metis
next
  case (tested c m e)
  have "fper (ctx_of (delivery_dry_run e c m)) = fper (ctx_of (accept_receipt e c True m))"
  proof (cases "accept_receipt e c True m")
    case (Emit c1 c2)
    then have "c2 = c1" by (auto simp: accept_receipt_def Let_def split: jv.splits if_splits)
    then show ?thesis by (simp add: delivery_dry_run_def Emit)
  qed (simp_all add: delivery_dry_run_def)
  then have "notices_keep (ctx_of (accept_receipt e c True m)) (ctx_of (delivery_dry_run e c m))" by simp
  with accept_keeps [OF tested(2)] tested(3) show ?case by (blast intro: notices_keep_trans)
next
  case (configured c e m)
  have "notice_policy_key \<noteq> delivery_key" by simp
  then have "fper (ctx_of (notice_policy_flow e c m)) delivery_key = fper c delivery_key"
    by (simp add: notice_policy_flow_def notice_policy_store_def Let_def)
  then show ?case using configured notices_keep_trans notices_keep_refl by blast
next
  case (elsewhere c c')
  then show ?case using notices_keep_trans notices_keep_refl by blast
qed simp

text \<open>What a dispatch leaves behind, and what it needs.\<close>

lemma dispatch_uses:
  assumes "deliveries_stored c" "jget m ''notification_state_key'' = JStr delivery_key" "\<not> notice_test m"
    and "emits (notice_dispatch c m)"
  shows "spent (receipt_name m) (jget m ''notification_reservation'') (ctx_of (notice_dispatch c m))"
    "\<not> spent (receipt_name m) (jget m ''notification_reservation'') c"
proof -
  let ?s = "fper c delivery_key"
  let ?r = "receipt_in ?s (receipt_name m)"
  have e: "emits (consume_reservation c m)" using assms(4) by (auto simp: notice_dispatch_def emits_iff wire_Emit_iff)
  have r: "truthy ?r" "jseq (jget ?r ''pending_token'') (jget m ''notification_reservation'')" "jget ?r ''pending_dispatched'' \<noteq> JTrue"
    using e assms(2,3) by (auto simp: consume_reservation_def Let_def named_get_def receipt_in_def split: if_splits)
  then have ok: "deliveries_ok ?s" using assms(1) by (auto simp: deliveries_stored_def receipt_in_def)
  then have rok: "receipt_ok (sequence_of ?s) ?r" using receipt_in_ok [OF ok, of "receipt_name m"] r(1) by auto
  then have "jget ?r ''pending_token'' = JUndef \<or> is_str (jget ?r ''pending_token'')" by (auto simp: receipt_ok_def token_upto_def)
  then have same: "jget ?r ''pending_token'' = jget m ''notification_reservation''"
    using r(2) by (cases "jget ?r ''pending_token''"; cases "jget m ''notification_reservation''") auto
  show "\<not> spent (receipt_name m) (jget m ''notification_reservation'') c"
    using r(3) same token_after_neq by (auto simp: spent_def Let_def)
  have o: "is_obj ?s" "is_obj (jget ?s ''deliveries'')" "is_obj ?r" using ok rok by (simp_all add: deliveries_ok_def receipt_ok_def)
  have "ctx_of (consume_reservation c m) = pset c delivery_key (jset ?s ''deliveries''
      (jset (jget ?s ''deliveries'') (receipt_name m) (jset ?r ''pending_dispatched'' JTrue)))"
    using e assms(2,3) by (auto simp: consume_reservation_def Let_def named_get_def named_set_def receipt_in_def split: if_splits)
  moreover have "truthy (jset ?r ''pending_dispatched'' JTrue)" using o(3) by (cases ?r) simp_all
  ultimately show "spent (receipt_name m) (jget m ''notification_reservation'') (ctx_of (notice_dispatch c m))"
    unfolding dispatch_ctx using same o by (simp add: spent_def Let_def) (simp add: receipt_in_def)
qed

text \<open>C32: One reservation, one push. After any interleaving of events, confirmations, retries, answers of the service and
  dry runs, with any messages, a message that is sent for a delivery is never sent again on the same reservation, neither
  by the same message arriving twice nor by any other.\<close>

theorem one_push_per_reservation:
  assumes "fper c0 delivery_key = JUndef" "notice_runs c0 c"
    and "jget m1 ''notification_state_key'' = JStr delivery_key" "\<not> notice_test m1" "emits (notice_dispatch c m1)"
    and "notice_runs (ctx_of (notice_dispatch c m1)) c'"
    and "jget m2 ''notification_state_key'' = JStr delivery_key" "\<not> notice_test m2" "emits (notice_dispatch c' m2)"
    and "receipt_name m2 = receipt_name m1"
  shows "jget m2 ''notification_reservation'' \<noteq> jget m1 ''notification_reservation''"
proof -
  have stored: "deliveries_stored c" using notices_through [OF assms(2)] assms(1) by (simp add: notices_keep_def deliveries_stored_def)
  have k: "notices_keep c (ctx_of (notice_dispatch c m1))" unfolding dispatch_ctx by (rule consume_keeps)
  then have stored1: "deliveries_stored (ctx_of (notice_dispatch c m1))" using stored by (simp add: notices_keep_def)
  note runs = notices_through [OF assms(6)]
  have "spent (receipt_name m1) (jget m1 ''notification_reservation'') c'"
    using runs stored1 dispatch_uses(1) [OF stored assms(3-5)] by (simp add: notices_keep_def)
  moreover have "\<not> spent (receipt_name m2) (jget m2 ''notification_reservation'') c'"
    using dispatch_uses(2) [OF _ assms(7-9)] runs stored1 by (simp add: notices_keep_def)
  ultimately show ?thesis using assms(10) by metis
qed

section \<open>A push that fails is tried again\<close>

definition loaded_receipt :: "ctx \<Rightarrow> jv \<Rightarrow> jv" where
  "loaded_receipt c m = dflt (receipt_in (load_deliveries False c) (delivery_id m)) (JObj [])"

lemma loaded_receipt_ok: "deliveries_stored c \<Longrightarrow> receipt_ok (sequence_of (load_deliveries False c)) (loaded_receipt c m)"
  using receipt_in_ok [OF load_deliveries_ok(1), of c "delivery_id m"]
  by (auto simp: loaded_receipt_def dflt_def receipt_ok_def token_upto_def nullish_iff)

text \<open>A reservation of a production message, and the message that carries it.\<close>

definition token_of :: "env \<Rightarrow> ctx \<Rightarrow> jv" where
  "token_of e c = JStr (reservation_token (clock e) (next_sequence (load_deliveries False c)))"

lemma reserve_step_run:
  assumes "deliveries_stored c" "\<not> notice_test m" "is_obj m"
  defines "r \<equiv> loaded_receipt c m"
  shows "cycle_read_raises m r \<or> notice_duplicate e m r \<or>
    (\<exists>c1 m1. reserve_step e c m = Emit c1 [[m1]] \<and> deliveries_ok (fper c1 delivery_key) \<and>
       receipt_in (fper c1 delivery_key) (delivery_id m) = reserved_receipt e m (load_deliveries False c) r \<and>
       jget m1 ''notification_reservation'' = token_of e c \<and> jget m1 ''notification_state_key'' = JStr delivery_key \<and>
       jget m1 ''notification_delivery_id'' = JStr (delivery_id m) \<and>
       (\<forall>k. k \<notin> {''notification_state_key'', ''notification_delivery_state'', ''notification_delivery_id'',
          ''notification_recipient_state'', ''notification_duplicate'', ''notification_reservation''} \<longrightarrow> jget m1 k = jget m k))"
    "cycle_read_raises m r \<or> notice_duplicate e m r \<Longrightarrow> \<not> emits (reserve_step e c m)"
proof -
  define s where "s = load_deliveries False c"
  let ?k = "delivery_id m"
  have ok: "deliveries_ok s" unfolding s_def using assms(1) by (rule load_deliveries_ok(1))
  have r: "dflt (jget (jget s ''deliveries'') ?k) (JObj []) = r" by (simp add: r_def loaded_receipt_def s_def receipt_in_def)
  have n: "jget s ''deliveries'' \<noteq> JNull" using ok by (auto simp: deliveries_ok_def)
  have d: "jget m ''_location_test'' \<noteq> JTrue" using assms(2) by (simp add: notice_test_def)
  show "\<not> emits (reserve_step e c m)" if "cycle_read_raises m r \<or> notice_duplicate e m r"
    using that assms(2,3) n by (auto simp: reserve_step_def reserve_delivery_def Let_def s_def[symmetric] r)
  let ?r' = "reserved_receipt e m s r"
  let ?s' = "put_receipt e ?k ?r' (jset s ''sequence'' (JNum (next_sequence s)))"
  note num = numbered_ok [OF ok]
  have rok: "receipt_ok (sequence_of s) r" using loaded_receipt_ok [OF assms(1), of m] by (simp add: r_def s_def)
  have "receipt_ok (sequence_of (jset s ''sequence'' (JNum (next_sequence s)))) ?r'"
  proof -
    have "jget ?r' ''pending_token'' = JStr (reservation_token (clock e) (Fin (of_nat (sequence_of s + 1))))"
      using rok by (simp add: reserved_receipt_def receipt_ok_def num(4))
    moreover have "token_upto (sequence_of s + 1) (JStr (reservation_token (clock e) (Fin (of_nat (sequence_of s + 1)))))"
      unfolding token_upto_def by blast
    ultimately show ?thesis unfolding receipt_ok_def num(3) using rok by (simp add: reserved_receipt_def receipt_ok_def)
  qed
  note put = put_receipt_ok(1,2) [OF num(1) this, where e = e and k = ?k]
  show "cycle_read_raises m r \<or> notice_duplicate e m r \<or>
    (\<exists>c1 m1. reserve_step e c m = Emit c1 [[m1]] \<and> deliveries_ok (fper c1 delivery_key) \<and>
       receipt_in (fper c1 delivery_key) (delivery_id m) = reserved_receipt e m (load_deliveries False c) r \<and>
       jget m1 ''notification_reservation'' = token_of e c \<and> jget m1 ''notification_state_key'' = JStr delivery_key \<and>
       jget m1 ''notification_delivery_id'' = JStr (delivery_id m) \<and>
       (\<forall>k. k \<notin> {''notification_state_key'', ''notification_delivery_state'', ''notification_delivery_id'',
          ''notification_recipient_state'', ''notification_duplicate'', ''notification_reservation''} \<longrightarrow> jget m1 k = jget m k))"
  proof (cases "cycle_read_raises m r \<or> notice_duplicate e m r")
    case False
    then have "reserve_step e c m = Emit (pset c delivery_key ?s')
       [[jsets m [(''notification_state_key'', JStr delivery_key), (''notification_delivery_state'', ?s'), (''notification_delivery_id'', JStr ?k),
          (''notification_recipient_state'', ?r'), (''notification_duplicate'', JFalse),
          (''notification_reservation'', JStr (reservation_token (clock e) (next_sequence s)))]]]"
      using assms(2,3) n by (simp add: reserve_step_def reserve_delivery_def Let_def s_def[symmetric] r sset_def tkey_def)
    then show ?thesis using put assms(3) by (auto simp: token_of_def s_def[symmetric])
  qed blast
qed

text \<open>The fields of the event that travel with a message to the service and back.\<close>

definition carried :: "jv \<Rightarrow> jv \<Rightarrow> bool" where
  "carried m m' = list_all (\<lambda>k. jget m' k = jget m k)
    [''_location_test'', ''resident_source'', ''resident_recipient'', ''arrival_stage'', ''event_at'', ''policy'',
     ''notification_canonical_cycle'', ''notification_key'', ''notification_state_key'', ''notification_delivery_id'',
     ''notification_reservation'']"

definition phone_port :: "string \<Rightarrow> nat" where
  "phone_port role = (if role = ''resident_primary'' then 0 else 1)"

lemma dispatch_reserved:
  assumes "deliveries_ok (fper c delivery_key)" "receipt_in (fper c delivery_key) (receipt_name m) = r"
    and "is_obj r" "jget r ''pending_token'' = JStr x" "jget m ''notification_reservation'' = JStr x"
    and "jget r ''pending_key'' = JStr k" "jget m ''notification_key'' = JStr k" "jget r ''pending_dispatched'' = JFalse"
    and "jget m ''notification_state_key'' = JStr delivery_key" "\<not> notice_test m" "is_obj m"
    and "jget m ''resident_recipient'' = JStr role" "role \<in> set residents"
  obtains c' ps m' where "notice_dispatch c m = Emit c' ps" "port (phone_port role) ps = [m']" "carried m m'" "is_obj m'"
    "deliveries_ok (fper c' delivery_key)" "receipt_in (fper c' delivery_key) (receipt_name m) = jset r ''pending_dispatched'' JTrue"
proof -
  let ?s = "fper c delivery_key"
  let ?s' = "jset ?s ''deliveries'' (jset (jget ?s ''deliveries'') (receipt_name m) (jset r ''pending_dispatched'' JTrue))"
  let ?m = "jsets m [(''notification_delivery_state'', ?s'), (''notification_recipient_state'', jset r ''pending_dispatched'' JTrue)]"
  have t: "truthy r" using assms(3) by (cases r) simp_all
  have run: "consume_reservation c m = Emit (pset c delivery_key ?s') [[?m]]"
    using assms(2,4-10) t by (simp add: consume_reservation_def Let_def named_get_def named_set_def receipt_in_def)
  have o: "is_obj ?s" "is_obj (jget ?s ''deliveries'')" using assms(1) by (simp_all add: deliveries_ok_def)
  have "\<not> deliveries_ok JUndef" by (simp add: deliveries_ok_def)
  then have "deliveries_stored c" "?s \<noteq> JUndef" using assms(1) by (auto simp: deliveries_stored_def)
  moreover have "deliveries_stored (pset c delivery_key ?s')"
    using consume_keeps [of c m] calculation(1) by (simp add: run notices_keep_def)
  moreover have "?s' \<noteq> JUndef" using o(1) by (cases ?s) simp_all
  ultimately have ok: "deliveries_ok ?s'" by (simp add: deliveries_stored_def)
  have test: "jget ?m ''_location_test'' \<noteq> JTrue" using assms(10) by (simp add: notice_test_def)
  define n where "n = approach_message (pset c delivery_key ?s') ?m"
  have n: "jget n k = jget m k" if "k \<notin> {''payload'', ''notification_delivery_state'', ''notification_recipient_state''}" for k
    using that by (simp add: n_def approach_message_def Let_def)
  have "notice_dispatch c m = Emit (pset c delivery_key ?s') (if role = ''resident_primary'' then [[n], [], []] else [[], [n], []])"
    using assms(12,13) n [of "''_location_test''"] n [of "''resident_recipient''"] test
    by (auto simp: notice_dispatch_def run Let_def residents_def n_def[symmetric] simp del: jsets.simps)
  moreover have "port (phone_port role) (if role = ''resident_primary'' then [[n], [], []] else [[], [n], []]) = [n]"
    by (simp add: phone_port_def)
  moreover have "carried m n" unfolding carried_def list_all_iff by (simp add: n)
  moreover have "is_obj n" using assms(11) by (simp add: n_def approach_message_def Let_def)
  moreover have "deliveries_ok (fper (pset c delivery_key ?s') delivery_key)" using ok by simp
  moreover have "receipt_in (fper (pset c delivery_key ?s') delivery_key) (receipt_name m) = jset r ''pending_dispatched'' JTrue"
    using o by (simp add: receipt_in_def)
  ultimately show thesis by (rule that)
qed

lemma failure_frees:
  assumes "deliveries_ok (fper c delivery_key)" "receipt_in (fper c delivery_key) (receipt_name m) = r"
    and "is_obj r" "jget r ''pending_token'' = JStr x" "jget m ''notification_reservation'' = JStr x"
    and "jget r ''pending_key'' = JStr k" "jget m ''notification_key'' = JStr k"
    and "jget m ''notification_state_key'' = JStr delivery_key" "\<not> notice_test m" "is_obj m" "retry_count m \<le> 2"
  obtains c' m' where "failure_step e c m = Emit c' [[m']]" "carried m m'" "is_obj m'" "deliveries_ok (fper c' delivery_key)"
    "receipt_in (fper c' delivery_key) (receipt_name m) = jsets r [(''pending_key'', JNull), (''pending_at'', JNum 0)]"
proof -
  let ?s = "fper c delivery_key"
  let ?r' = "jsets r [(''pending_key'', JNull), (''pending_at'', JNum 0)]"
  have a: "answered c m" using assms(2,3) by (auto simp: answered_def)
  have stored: "deliveries_stored c" using assms(1) by (simp add: deliveries_stored_def)
  note ans = answered_receipt [OF a stored assms(8)]
  have v: "jget ?s ''version'' = JNum 4" "is_obj (jget ?s ''deliveries'')" using assms(1) by (simp_all add: deliveries_ok_def)
  have r: "receipt_of ?s m = r" using ans(3) assms(2) by simp
  have owns: "owns_reservation ?s r m" using v assms(4-7) by (simp add: owns_reservation_def)
  have "receipt_ok (sequence_of ?s) ?r'" using ans(4) assms(2,3) by (simp add: receipt_ok_def)
  note put = put_receipt_ok(1,2) [OF assms(1) this, where e = e and k = "receipt_name m"]
  define m' where "m' = retry_message m True"
  have "delivery_failure e c m = Emit (pset c delivery_key (put_receipt e (receipt_name m) ?r' ?s)) [[m']]"
    using assms(3,8,9) ans(2) r owns v by (simp add: delivery_failure_def Let_def named_get_def named_set_def m'_def)
  moreover have "jget m' ''notification_retry_allowed'' = JTrue" using assms(10,11) by (simp add: m'_def retry_message_def)
  ultimately have run: "failure_step e c m = Emit (pset c delivery_key (put_receipt e (receipt_name m) ?r' ?s)) [[m']]"
    by (simp add: failure_step_def)
  have "carried m m'" unfolding carried_def list_all_iff by (simp add: m'_def retry_message_def)
  moreover have "is_obj m'" using assms(10) by (simp add: m'_def retry_message_def)
  ultimately show thesis using that [OF run] put by simp
qed

text \<open>A receipt that has been freed lets the event pass again: nothing of it was accepted before, and time only makes
  older acceptances less recent.\<close>

lemma freed_not_duplicate:
  fixes s
  assumes "\<not> notice_duplicate e m r" "is_obj r"
    and m: "\<And>k. k \<in> {''policy'', ''event_at'', ''arrival_stage'', ''notification_canonical_cycle'', ''notification_key''} \<Longrightarrow> jget m' k = jget m k"
    and "clock e = Fin t" "clock e' = Fin t'" "t \<le> t'"
    and "policy_num m ''service_retry_seconds'' * 1000 \<le> Fin t'"
  defines "r' \<equiv> jsets (jset (reserved_receipt e m s r) ''pending_dispatched'' JTrue) [(''pending_key'', JNull), (''pending_at'', JNum 0)]"
  shows "\<not> notice_duplicate e' m' r'" "cycle_read_raises m' r' = cycle_read_raises m r"
proof -
  have g: "jget r' k = jget r k" if "k \<in> {''accepted_key'', ''accepted_at'', ''accepted_event_at'', ''accepted_stage''}" for k
    using that by (auto simp: r'_def reserved_receipt_def)
  have p: "jget r' ''pending_key'' = JNull" "jget r' ''pending_at'' = JNum 0" using assms(2) by (simp_all add: r'_def reserved_receipt_def)
  have pol: "policy_num m' k = policy_num m k" for k by (simp add: policy_num_def m)
  have recent: "accepted_recent e m r" if rec: "accepted_recent e' m' r'"
  proof -
    obtain a where a: "jget r ''accepted_at'' = JNum (Fin a)" using rec g by (auto simp: accepted_recent_def num_fin_iff)
    then have "Fin (t' - a) < policy_num m ''dedupe_ttl_ms''" using rec g assms(5) by (simp add: accepted_recent_def pol)
    moreover have "Fin (t - a) \<le> Fin (t' - a)" using assms(6) by simp
    ultimately have "Fin (t - a) < policy_num m ''dedupe_ttl_ms''" by (rule jnum_le_less_trans [rotated])
    then show ?thesis using a assms(4) by (simp add: accepted_recent_def)
  qed
  have cyc: "different_cycle m' r' = different_cycle m r" by (simp add: different_cycle_def m g)
  have home: "home_followup e m r" if "home_followup e' m' r'"
    using that recent by (simp add: home_followup_def cyc m g)
  have np: "\<not> pending_recent e' m' r'"
    using assms(5,7) p(2) by (cases "policy_num m ''service_retry_seconds'' * 1000") (auto simp: pending_recent_def pol)
  show "\<not> notice_duplicate e' m' r'"
    using assms(1) recent home np p(1) by (auto simp: notice_duplicate_def m g)
  show "cycle_read_raises m' r' = cycle_read_raises m r" by (simp add: cycle_read_raises_def m g)
qed

lemma carried_trans: "carried a b \<Longrightarrow> carried b c \<Longrightarrow> carried a c"
  by (simp add: carried_def list_all_iff)

lemma carried_same:
  assumes "carried m m'"
  shows "notice_test m' = notice_test m" "delivery_id m' = delivery_id m" "receipt_name m' = receipt_name m"
    "jget m' ''notification_key'' = jget m ''notification_key''" "jget m' ''resident_recipient'' = jget m ''resident_recipient''"
    "jget m' ''notification_reservation'' = jget m ''notification_reservation''"
    "jget m' ''notification_state_key'' = jget m ''notification_state_key''"
  using assms by (simp_all add: carried_def notice_test_def delivery_id_def receipt_name_def)

text \<open>A reservation and its push.\<close>

lemma reserve_and_push:
  assumes "deliveries_stored c" "\<not> notice_test m" "is_obj m" "jget m ''notification_key'' = JStr k"
    and "jget m ''resident_recipient'' = JStr role" "role \<in> set residents" "emits (reserve_step e c m)"
  defines "r \<equiv> loaded_receipt c m"
  obtains c1 m1 c2 ps m2 where "reserve_step e c m = Emit c1 [[m1]]" "notice_dispatch c1 m1 = Emit c2 ps"
    "port (phone_port role) ps = [m2]" "is_obj m2" "deliveries_ok (fper c2 delivery_key)" "receipt_name m2 = delivery_id m"
    "receipt_in (fper c2 delivery_key) (delivery_id m) = jset (reserved_receipt e m (load_deliveries False c) r) ''pending_dispatched'' JTrue"
    "jget m2 ''notification_reservation'' = token_of e c" "jget m2 ''notification_state_key'' = JStr delivery_key"
    "\<And>k. k \<in> {''_location_test'', ''resident_source'', ''resident_recipient'', ''arrival_stage'', ''event_at'', ''policy'',
       ''notification_canonical_cycle'', ''notification_key''} \<Longrightarrow> jget m2 k = jget m k"
    "\<not> notice_duplicate e m r" "\<not> cycle_read_raises m r"
proof -
  note run = reserve_step_run [OF assms(1-3), where e = e, folded r_def]
  have no: "\<not> notice_duplicate e m r" "\<not> cycle_read_raises m r" using run(2) assms(7) by blast+
  then obtain c1 m1 where 1: "reserve_step e c m = Emit c1 [[m1]]" "deliveries_ok (fper c1 delivery_key)"
    "receipt_in (fper c1 delivery_key) (delivery_id m) = reserved_receipt e m (load_deliveries False c) r"
    "jget m1 ''notification_reservation'' = token_of e c" "jget m1 ''notification_state_key'' = JStr delivery_key"
    "jget m1 ''notification_delivery_id'' = JStr (delivery_id m)"
    "\<And>k. k \<notin> {''notification_state_key'', ''notification_delivery_state'', ''notification_delivery_id'',
          ''notification_recipient_state'', ''notification_duplicate'', ''notification_reservation''} \<Longrightarrow> jget m1 k = jget m k"
    using run(1) by blast
  have rn: "receipt_name m1 = delivery_id m" by (simp add: receipt_name_def 1(6))
  have o: "is_obj r" using loaded_receipt_ok [OF assms(1), of m] by (simp add: r_def receipt_ok_def)
  have o1: "is_obj m1" using 1(7) [of "''notification_key''"] assms(4) jget_not_obj [of m1] by force
  have test: "\<not> notice_test m1" using assms(2) 1(7) by (simp add: notice_test_def)
  let ?r = "reserved_receipt e m (load_deliveries False c) r"
  have r: "is_obj ?r" "jget ?r ''pending_token'' = token_of e c" "jget ?r ''pending_key'' = JStr k" "jget ?r ''pending_dispatched'' = JFalse"
    using o assms(4) by (simp_all add: reserved_receipt_def token_of_def)
  have entry: "receipt_in (fper c1 delivery_key) (receipt_name m1) = ?r" by (simp only: rn 1(3))
  let ?x = "reservation_token (clock e) (next_sequence (load_deliveries False c))"
  have token: "jget ?r ''pending_token'' = JStr ?x" "jget m1 ''notification_reservation'' = JStr ?x"
    using r(2) 1(4) by (simp_all only: token_of_def)
  have key: "jget m1 ''notification_key'' = JStr k" and role: "jget m1 ''resident_recipient'' = JStr role"
    using 1(7) assms(4,5) by simp_all
  obtain c2 ps m2 where 2: "notice_dispatch c1 m1 = Emit c2 ps" "port (phone_port role) ps = [m2]" "carried m1 m2" "is_obj m2"
    "deliveries_ok (fper c2 delivery_key)" "receipt_in (fper c2 delivery_key) (receipt_name m1) = jset ?r ''pending_dispatched'' JTrue"
    by (rule dispatch_reserved [OF 1(2) entry r(1) token r(3) key r(4) 1(5) test o1 role assms(6)])
  note same = carried_same [OF 2(3)]
  have fields: "jget m2 k = jget m k" if "k \<in> {''_location_test'', ''resident_source'', ''resident_recipient'', ''arrival_stage'', ''event_at'', ''policy'',
       ''notification_canonical_cycle'', ''notification_key''}" for k
  proof -
    have "jget m2 k = jget m1 k" using 2(3) that by (auto simp: carried_def)
    also have "\<dots> = jget m k" by (rule 1(7)) (use that in auto)
    finally show ?thesis .
  qed
  have "receipt_name m2 = delivery_id m" "jget m2 ''notification_reservation'' = token_of e c" "jget m2 ''notification_state_key'' = JStr delivery_key"
    "receipt_in (fper c2 delivery_key) (delivery_id m) = jset ?r ''pending_dispatched'' JTrue"
    using same rn 1(4,5) 2(6) by simp_all
  then show thesis using that [OF 1(1) 2(1,2,4,5) _ _ _ _ fields no] by blast
qed

text \<open>The push of an event, and how a failure of it is followed up: the answer \<open>m2\<close> of the service frees the reservation,
  the message waits, and reserves and pushes again.\<close>

definition pushes :: "env \<Rightarrow> ctx \<Rightarrow> jv \<Rightarrow> string \<Rightarrow> ctx \<Rightarrow> jv \<Rightarrow> bool" where
  "pushes e c m role c2 m2 = (\<exists>c1 m1 ps. reserve_step e c m = Emit c1 [[m1]] \<and> notice_dispatch c1 m1 = Emit c2 ps \<and>
     port (phone_port role) ps = [m2])"

lemma failed_then_pushed:
  assumes "deliveries_stored c" "\<not> notice_test m" "is_obj m" "jget m ''notification_key'' = JStr k"
    and "jget m ''resident_recipient'' = JStr role" "role \<in> set residents" "pushes e c m role c2 m2" "clock e = Fin t"
    and "fper c2' delivery_key = fper c2 delivery_key" "carried m2 m2'" "is_obj m2'" "retry_count m2' \<le> 2"
  obtains c3 m3 where "failure_step e' c2' m2' = Emit c3 [[m3]]"
    "\<And>e'' c3' t''. fper c3' delivery_key = fper c3 delivery_key \<Longrightarrow> clock e'' = Fin t'' \<Longrightarrow> t \<le> t'' \<Longrightarrow>
       policy_num m ''service_retry_seconds'' * 1000 \<le> Fin t'' \<Longrightarrow> \<exists>c5 m5. pushes e'' c3' m3 role c5 m5"
proof -
  define r where "r = loaded_receipt c m"
  let ?r1 = "reserved_receipt e m (load_deliveries False c) r"
  have "emits (reserve_step e c m)" using assms(7) by (auto simp: pushes_def)
  then obtain c1 m1 d2 ps n2 where p: "reserve_step e c m = Emit c1 [[m1]]" "notice_dispatch c1 m1 = Emit d2 ps"
    "port (phone_port role) ps = [n2]" "is_obj n2" "deliveries_ok (fper d2 delivery_key)" "receipt_name n2 = delivery_id m"
    "receipt_in (fper d2 delivery_key) (delivery_id m) = jset ?r1 ''pending_dispatched'' JTrue"
    "jget n2 ''notification_reservation'' = token_of e c" "jget n2 ''notification_state_key'' = JStr delivery_key"
    "\<And>k. k \<in> {''_location_test'', ''resident_source'', ''resident_recipient'', ''arrival_stage'', ''event_at'', ''policy'',
       ''notification_canonical_cycle'', ''notification_key''} \<Longrightarrow> jget n2 k = jget m k"
    "\<not> notice_duplicate e m r" "\<not> cycle_read_raises m r"
    unfolding r_def by (rule reserve_and_push [OF assms(1-6)]) blast
  have eq: "d2 = c2" "n2 = m2" using assms(7) p(1-3) by (auto simp: pushes_def)
  have o: "is_obj r" using loaded_receipt_ok [OF assms(1), of m] by (simp add: r_def receipt_ok_def)
  have o1: "is_obj ?r1" using o by (simp add: reserved_receipt_def)
  let ?r2 = "jset ?r1 ''pending_dispatched'' JTrue"
  have r2: "jget ?r2 ''pending_token'' = token_of e c" "jget ?r2 ''pending_key'' = JStr k"
    using o assms(4) by (simp_all add: reserved_receipt_def token_of_def)
  note same = carried_same [OF assms(10)]
  have tm: "notice_test m2 = notice_test m" "delivery_id m2 = delivery_id m"
    using p(10) by (simp_all add: eq notice_test_def delivery_id_def)
  have ok2: "deliveries_ok (fper c2' delivery_key)" using p(5) assms(9) by (simp add: eq)
  have entry: "receipt_in (fper c2' delivery_key) (receipt_name m2') = ?r2"
    using p(6,7) assms(9) same(3) by (simp only: eq)
  have obj: "is_obj ?r2" using o1 by (simp only: is_obj_jset)
  let ?x = "reservation_token (clock e) (next_sequence (load_deliveries False c))"
  have token: "jget ?r2 ''pending_token'' = JStr ?x" "jget m2' ''notification_reservation'' = JStr ?x"
    using r2(1) p(8) same(6) by (simp_all only: token_of_def eq)
  have key: "jget m2' ''notification_key'' = JStr k" and state: "jget m2' ''notification_state_key'' = JStr delivery_key"
    using p(9,10) same(4,7) assms(4) by (simp_all add: eq)
  have test: "\<not> notice_test m2'" using same(1) tm(1) assms(2) by simp
  obtain c3 m3 where f: "failure_step e' c2' m2' = Emit c3 [[m3]]" "carried m2' m3" "is_obj m3" "deliveries_ok (fper c3 delivery_key)"
    "receipt_in (fper c3 delivery_key) (receipt_name m2') = jsets ?r2 [(''pending_key'', JNull), (''pending_at'', JNum 0)]"
    by (rule failure_frees [OF ok2 entry obj token r2(2) key state test assms(11,12)])
  note same3 = carried_same [OF f(2)]
  have again: "\<exists>c5 m5. pushes e'' c3' m3 role c5 m5"
    if later: "fper c3' delivery_key = fper c3 delivery_key" "clock e'' = Fin t''" "t \<le> t''"
      "policy_num m ''service_retry_seconds'' * 1000 \<le> Fin t''" for e'' c3' t''
  proof -
    have ok: "deliveries_ok (fper c3' delivery_key)" using f(4) later(1) by simp
    have stored: "deliveries_stored c3'" using ok by (simp add: deliveries_stored_def)
    have id: "delivery_id m3 = delivery_id m" using same3(2) same(2) tm(2) by simp
    let ?r3 = "jsets ?r2 [(''pending_key'', JNull), (''pending_at'', JNum 0)]"
    have l: "loaded_receipt c3' m3 = ?r3"
      using f(5) later(1) p(6) same(3) o1 load_deliveries_ok(2) [OF ok]
      by (simp add: loaded_receipt_def id eq dflt_def)
    have m3: "jget m3 k = jget m k" if "k \<in> {''policy'', ''event_at'', ''arrival_stage'', ''notification_canonical_cycle'', ''notification_key''}" for k
    proof -
      have "jget m3 k = jget m2' k" using f(2) that by (auto simp: carried_def)
      also have "\<dots> = jget m2 k" using assms(10) that by (auto simp: carried_def)
      also have "\<dots> = jget m k" using p(10) that by (auto simp: eq)
      finally show ?thesis .
    qed
    note free = freed_not_duplicate [OF p(11) o m3 assms(8) later(2,3,4), of "load_deliveries False c"]
    have pass: "\<not> notice_duplicate e'' m3 (loaded_receipt c3' m3)" "\<not> cycle_read_raises m3 (loaded_receipt c3' m3)"
      using free p(12) by (simp_all add: l)
    have t3: "\<not> notice_test m3" using same3(1) same(1) tm(1) assms(2) by simp
    have role3: "jget m3 ''resident_recipient'' = JStr role"
      using same3(5) same(5) p(10) [of "''resident_recipient''"] assms(5) by (simp add: eq)
    have key3: "jget m3 ''notification_key'' = JStr k" using m3 assms(4) by simp
    obtain c4 m4 where "reserve_step e'' c3' m3 = Emit c4 [[m4]]"
      using reserve_step_run(1) [OF stored t3 f(3), where e = e''] pass by blast
    then have "emits (reserve_step e'' c3' m3)" by simp
    then show ?thesis
      unfolding pushes_def by (rule reserve_and_push [OF stored t3 f(3) key3 role3 assms(6)]) blast
  qed
  show thesis by (rule that [OF f(1) again])
qed


section \<open>From the event to the phone\<close>

text \<open>The messages an event becomes: \<open>waiting\<close> for the confirmation of an arrival at home, and \<open>cleared\<close> for delivery.\<close>

inductive waiting :: "jv \<Rightarrow> jv \<Rightarrow> bool" for m where
  first: "notice_entry e c m = Emit c' ps \<Longrightarrow> x \<in> set (port 1 ps) \<Longrightarrow> waiting m (home_prepare e' x)"
| again: "waiting m w \<Longrightarrow> home_evaluate e c entity w = Emit c' ps \<Longrightarrow> x \<in> set (port 1 ps) \<Longrightarrow> waiting m x"

inductive cleared :: "jv \<Rightarrow> jv \<Rightarrow> bool" for m where
  approach: "notice_entry e c m = Emit c' ps \<Longrightarrow> x \<in> set (port 0 ps) \<Longrightarrow> cleared m x"
| home: "waiting m w \<Longrightarrow> home_evaluate e c entity w = Emit c' ps \<Longrightarrow> x \<in> set (port 0 ps) \<Longrightarrow> cleared m x"

text \<open>The facts of an event that its messages keep.\<close>

definition returning_event :: "jv \<Rightarrow> bool" where
  "returning_event p = (jget p ''contract'' = JStr ''security.arrival.v1'' \<and> jget p ''kind'' = JStr ''arrival'' \<and>
     jget p ''arrival_source_type'' = JStr ''person'' \<and> (jget p ''arrival_direction'' = JStr ''returning'' \<or> local_return p) \<and>
     (jget p ''external_cycle_confirmed'' = JTrue \<or> local_return p))"

definition event_kept :: "jv \<Rightarrow> jv \<Rightarrow> bool" where
  "event_kept m x = (returning_event (object_input m) \<and>
     (notice_test x \<longleftrightarrow> jget m ''_location_test'' = JTrue \<or> jget (object_input m) ''test_mode'' = JTrue) \<and>
     jget x ''resident_source'' = jget (object_input m) ''source'' \<and> jget x ''arrival_stage'' = jget (object_input m) ''arrival_stage'' \<and>
     (\<exists>e. jget x ''event_at'' = JNum (arrival_time e (object_input m))))"

lemma port_member: "x \<in> set (port i ps) \<Longrightarrow> \<exists>l \<in> set ps. x \<in> set l"
  by (auto simp: port_def split: if_splits intro: nth_mem)

lemma event_kept_frame:
  assumes "event_kept m x" "\<And>k. k \<in> {''_location_test'', ''resident_source'', ''arrival_stage'', ''event_at''} \<Longrightarrow> jget y k = jget x k"
  shows "event_kept m y"
  using assms by (auto simp: event_kept_def notice_test_def)

lemma entry_kept:
  assumes "is_obj m" "notice_entry e c m = Emit c' ps" "x \<in> set (port i ps)"
  shows "event_kept m x"
proof -
  define n where "n = event_normalize e m"
  have n: "jget n ''arrival_contract_valid'' = JTrue" "jget n ''arrival_kind_valid'' = JTrue"
    "jget n ''arrival_returning'' = JTrue" "jget n ''arrival_cycle_confirmed'' = JTrue"
    and x: "x = jsets n [(''policy_available'', JTrue), (''policy'', the (notice_policy c))]"
    using assms(2) port_member [OF assms(3)]
    by (auto simp: notice_entry_def Let_def n_def[symmetric] split: option.splits if_splits)
  have "event_kept m n"
    using n assms(1) unfolding n_def
    by (auto simp: event_normalize_def Let_def event_kept_def returning_event_def notice_test_def)
  then show ?thesis by (rule event_kept_frame) (auto simp: x)
qed

lemma home_keeps:
  assumes "home_evaluate e c entity w = Emit c' ps" "x \<in> set (port i ps)"
    and "k \<in> {''_location_test'', ''resident_source'', ''arrival_stage'', ''event_at''}"
  shows "jget x k = jget w k"
proof -
  have r: "jget (home_result e y) k = jget y k" "jget (home_test_state e y) k = jget y k" for y
    using assms(3) by (auto simp: home_result_def home_test_state_def Let_def)
  have x: "x = home_result e (home_test_state e w) \<or>
    x = home_result e (jsets w [(''home_confirmation_state'', jget entity ''state''), (''home_confirmation_entity'', entity)])"
    using assms(1) port_member [OF assms(2)] by (auto simp: home_evaluate_def Let_def split: if_splits)
  have "jget (jsets w [(''home_confirmation_state'', jget entity ''state''), (''home_confirmation_entity'', entity)]) k = jget w k"
    using assms(3) by auto
  with x r show ?thesis by metis
qed

lemma waiting_kept: "waiting m x \<Longrightarrow> is_obj m \<Longrightarrow> event_kept m x"
proof (induction rule: waiting.induct)
  case (first e c c' ps x e')
  have "jget (home_prepare e' x) k = jget x k" if "k \<in> {''_location_test'', ''resident_source'', ''arrival_stage'', ''event_at''}" for k
    using that by (auto simp: home_prepare_def Let_def)
  then show ?case by (rule event_kept_frame [OF entry_kept [OF first(3,1,2)]])
next
  case (again w e c entity c' ps x)
  show ?case by (rule event_kept_frame [OF again.IH [OF again.prems] home_keeps [OF again.hyps(2,3)]])
qed

lemma cleared_kept:
  assumes "cleared m x" "is_obj m"
  shows "event_kept m x"
  using assms
proof cases
  case (approach e c c' ps)
  then show ?thesis using entry_kept assms(2) by blast
next
  case (home w e c entity c' ps)
  show ?thesis by (rule event_kept_frame [OF waiting_kept [OF home(1) assms(2)] home_keeps [OF home(2,3)]])
qed

lemma reserve_step_fields:
  assumes "reserve_step e c m = Emit c1 [[b]]" "k \<in> {''_location_test'', ''resident_source'', ''resident_recipient''}"
  shows "jget b k = jget m k"
  using assms
  by (auto simp: reserve_step_def reserve_delivery_def Let_def split: if_splits)

lemma notice_reserve_fields:
  assumes "notice_reserve e c m = Emit c1 [[b]]"
  obtains s where "jget m ''resident_source'' = JStr s" "s \<in> set residents" "event_in_time e m" "notice_test b = notice_test m"
    "jget b ''resident_source'' = JStr s" "jget b ''resident_recipient'' = JStr (other_resident s)"
proof -
  obtain s where s: "jget m ''resident_source'' = JStr s" "s \<in> set residents"
    "event_in_time e (jset m ''resident_recipient'' (JStr (other_resident s)))"
    "\<exists>c0. reserve_step e c0 (jset m ''resident_recipient'' (JStr (other_resident s))) = Emit c1 [[b]]"
    using assms by (auto simp: notice_reserve_def Let_def split: jv.splits if_splits)
  then obtain c0 where r: "reserve_step e c0 (jset m ''resident_recipient'' (JStr (other_resident s))) = Emit c1 [[b]]" by blast
  have "is_obj m" using s(1) jget_not_obj [of m] by force
  then show thesis
    using that [OF s(1,2)] s(1,3) reserve_step_fields [OF r]
    by (simp add: notice_test_def event_in_time_def policy_num_def)
qed

lemma dispatch_phone:
  assumes "notice_dispatch c b = Emit c' ps" "x \<in> set (port (phone_port role) ps)" "role \<in> set residents"
  shows "\<not> notice_test b" "jget b ''resident_recipient'' = JStr role" "plget x ''recipient'' = JStr role"
proof -
  obtain c1 ms where cr: "consume_reservation c b = Emit c1 ms"
    using assms(1) by (cases "consume_reservation c b") (simp_all add: notice_dispatch_def)
  then obtain m1 where m1: "ms = [[m1]]" "jget m1 ''_location_test'' = jget b ''_location_test''"
    "jget m1 ''resident_recipient'' = jget b ''resident_recipient''" "is_obj m1 \<longleftrightarrow> is_obj b"
    by (auto simp: consume_reservation_def Let_def split: jv.splits if_splits)
  have o: "is_obj b"
    using cr jget_not_obj [of b "''notification_state_key''"] by (auto simp: consume_reservation_def split: jv.splits)
  define n where "n = approach_message c1 m1"
  have n: "jget n ''_location_test'' = jget b ''_location_test''" "jget n ''resident_recipient'' = jget b ''resident_recipient''"
    "plget n ''recipient'' = jget b ''resident_recipient''"
    using m1 o by (simp_all add: n_def approach_message_def Let_def plget_def)
  show "\<not> notice_test b" "jget b ''resident_recipient'' = JStr role" "plget x ''recipient'' = JStr role"
    using assms n by (auto simp: notice_dispatch_def cr m1(1) Let_def n_def[symmetric] phone_port_def residents_def notice_test_def split: if_splits)
qed


section \<open>The theorems on concrete messages\<close>

definition notice_parameters :: jv where
  "notice_parameters = JObj [(''version'', JNum 3), (''dedupe_ttl_ms'', JNum 600000), (''max_event_age_ms'', JNum 900000),
     (''future_tolerance_ms'', JNum 60000), (''service_retry_seconds'', JNum 60), (''home_confirmation_seconds'', JNum 90),
     (''home_confirmation_window_seconds'', JNum 600), (''home_confirmation_recheck_seconds'', JNum 30)]"

definition notice_of :: "string \<Rightarrow> rat \<Rightarrow> jv" where
  "notice_of key at' = JObj [(''resident_source'', JStr ''resident_secondary''), (''resident_recipient'', JStr ''resident_primary''),
     (''arrival_stage'', JStr ''approach''), (''event_at'', JNum (Fin at')), (''notification_key'', JStr key),
     (''notification_canonical_cycle'', JFalse), (''policy'', notice_parameters)]"

lemma notice_of_reads [simp]:
  "is_obj (notice_of key at')" "\<not> notice_test (notice_of key at')" "jget (notice_of key at') ''notification_key'' = JStr key"
  "jget (notice_of key at') ''resident_recipient'' = JStr ''resident_primary''" "jget (notice_of key at') ''event_at'' = JNum (Fin at')"
  "jget (notice_of key at') ''notification_canonical_cycle'' = JFalse" "jget (notice_of key at') ''arrival_stage'' = JStr ''approach''"
  "delivery_id (notice_of key at') = ''resident_secondary:resident_primary''"
  "policy_num (notice_of key at') ''service_retry_seconds'' = Fin 60"
  by (simp_all add: notice_of_def notice_test_def delivery_id_def policy_num_def notice_parameters_def)

lemma no_deliveries: "deliveries_stored empty_ctx" "fper empty_ctx delivery_key = JUndef"
  "loaded_receipt empty_ctx m = JObj []"
  by (simp_all add: deliveries_stored_def empty_ctx_def loaded_receipt_def load_deliveries_def sget_def Let_def receipt_in_def dflt_def)

lemma primary_resident: "''resident_primary'' \<in> set residents"
  by (simp add: residents_def)

lemma notice_emits:
  assumes "deliveries_stored c" "\<not> notice_duplicate e m (loaded_receipt c m)" "\<not> cycle_read_raises m (loaded_receipt c m)"
    and "\<not> notice_test m" "is_obj m"
  shows "emits (reserve_step e c m)"
proof -
  obtain c1 m1 where "reserve_step e c m = Emit c1 [[m1]]" using reserve_step_run(1) [OF assms(1,4,5), where e = e] assms(2,3) by blast
  then show ?thesis by simp
qed

lemma first_notice: "emits (reserve_step (host_at (Fin 1000000)) empty_ctx (notice_of ''a'' 990000))"
  by (rule notice_emits [OF no_deliveries(1)])
    (simp_all add: no_deliveries(3) notice_duplicate_def pending_recent_def home_followup_def cycle_read_raises_def)

text \<open>A push of the first event, and of a second one after it.\<close>

lemma two_pushes:
  obtains c1 m1 c2 d1 n1 where "reserve_step (host_at (Fin 1000000)) empty_ctx (notice_of ''a'' 990000) = Emit c1 [[m1]]"
    "emits (notice_dispatch c1 m1)" "c2 = ctx_of (notice_dispatch c1 m1)" "jget m1 ''notification_state_key'' = JStr delivery_key" "\<not> notice_test m1"
    "reserve_step (host_at (Fin 1001000)) c2 (notice_of ''b'' 995000) = Emit d1 [[n1]]" "emits (notice_dispatch d1 n1)"
    "jget n1 ''notification_state_key'' = JStr delivery_key" "\<not> notice_test n1" "receipt_name n1 = receipt_name m1"
proof -
  let ?e = "host_at (Fin 1000000)" and ?f = "host_at (Fin 1001000)"
  let ?m = "notice_of ''a'' 990000" and ?n = "notice_of ''b'' 995000"
  let ?k = "''resident_secondary:resident_primary''"
  obtain c1 m1 c2 ps m2 where 1: "reserve_step ?e empty_ctx ?m = Emit c1 [[m1]]" "notice_dispatch c1 m1 = Emit c2 ps"
    "deliveries_ok (fper c2 delivery_key)"
    "receipt_in (fper c2 delivery_key) ?k = jset (reserved_receipt ?e ?m (load_deliveries False empty_ctx) (JObj [])) ''pending_dispatched'' JTrue"
    by (rule reserve_and_push [OF no_deliveries(1) notice_of_reads(2,1,3,4) primary_resident first_notice])
      (simp_all add: no_deliveries(3))
  have stored: "deliveries_stored c2" using 1(3) by (simp add: deliveries_stored_def)
  have r: "loaded_receipt c2 ?n = jset (reserved_receipt ?e ?m (load_deliveries False empty_ctx) (JObj [])) ''pending_dispatched'' JTrue"
    using 1(4) load_deliveries_ok(2) [OF 1(3)] by (simp add: loaded_receipt_def dflt_def reserved_receipt_def)
  have "emits (reserve_step ?f c2 ?n)"
    by (rule notice_emits [OF stored])
      (simp_all add: r notice_duplicate_def pending_recent_def home_followup_def cycle_read_raises_def reserved_receipt_def)
  then obtain d1 n1 d2 qs n2 where 2: "reserve_step ?f c2 ?n = Emit d1 [[n1]]" "notice_dispatch d1 n1 = Emit d2 qs"
    by (rule reserve_and_push [OF stored notice_of_reads(2,1,3,4) primary_resident]) blast
  have f: "jget b ''notification_state_key'' = JStr delivery_key" "\<not> notice_test b" "receipt_name b = ?k"
    if "reserve_step e c (notice_of x y) = Emit c' [[b]]" for e c x y c' b
  proof -
    show "jget b ''notification_state_key'' = JStr delivery_key" "receipt_name b = ?k"
      using that by (auto simp: reserve_step_def reserve_delivery_def Let_def receipt_name_def tkey_def split: if_splits)
    show "\<not> notice_test b" using reserve_step_fields [OF that, of "''_location_test''"] notice_of_reads(2) by (simp add: notice_test_def)
  qed
  show thesis by (rule that [OF 1(1) _ _ f(1,2) [OF 1(1)] 2(1) _ f(1,2) [OF 2(1)]]) (simp_all add: 1(2) 2(2) f(3) [OF 1(1)] f(3) [OF 2(1)])
qed

theorem one_push_per_reservation_witness:
  "\<exists>c1 m1 c2 m2. emits (notice_dispatch c1 m1) \<and> emits (notice_dispatch c2 m2) \<and> receipt_name m2 = receipt_name m1 \<and>
     jget m2 ''notification_reservation'' \<noteq> jget m1 ''notification_reservation''"
proof -
  obtain c1 m1 c2 d1 n1 where p: "reserve_step (host_at (Fin 1000000)) empty_ctx (notice_of ''a'' 990000) = Emit c1 [[m1]]"
    "emits (notice_dispatch c1 m1)" "c2 = ctx_of (notice_dispatch c1 m1)" "jget m1 ''notification_state_key'' = JStr delivery_key" "\<not> notice_test m1"
    "reserve_step (host_at (Fin 1001000)) c2 (notice_of ''b'' 995000) = Emit d1 [[n1]]" "emits (notice_dispatch d1 n1)"
    "jget n1 ''notification_state_key'' = JStr delivery_key" "\<not> notice_test n1" "receipt_name n1 = receipt_name m1"
    by (rule two_pushes)
  have a: "notice_runs empty_ctx c1"
    using notice_runs.retried [OF notice_runs.begins, of empty_ctx "host_at (Fin 1000000)" "notice_of ''a'' 990000"] p(1) by simp
  have b: "notice_runs (ctx_of (notice_dispatch c1 m1)) d1"
    using notice_runs.retried [OF notice_runs.begins, of c2 "host_at (Fin 1001000)" "notice_of ''b'' 995000"] p(3,6) by simp
  show ?thesis
    using one_push_per_reservation [OF no_deliveries(2) a p(4,5,2) b p(8,9,7,10)] p(2,7,10) by blast
qed


definition arriving_event :: jv where
  "arriving_event = JObj [(''payload'', JObj
    [(''contract'', JStr ''security.arrival.v1''), (''kind'', JStr ''arrival''), (''source'', JStr ''resident_secondary''),
     (''arrival_source_type'', JStr ''person''), (''arrival_stage'', JStr ''approach''), (''arrival_direction'', JStr ''returning''),
     (''external_cycle_confirmed'', JTrue), (''event_at'', JNum 990000)])]"

definition notice_context :: ctx where
  "notice_context = pset empty_ctx notice_policy_key (JObj [(''version'', JNum 3), (''policy'', notice_parameters)])"

definition arriving_notice :: jv where
  "arriving_notice = jsets (event_normalize (host_at (Fin 1000000)) arriving_event) [(''policy_available'', JTrue), (''policy'', notice_parameters)]"

lemma arriving_cleared: "is_obj arriving_event" "cleared arriving_event arriving_notice"
proof -
  show "is_obj arriving_event" by (simp add: arriving_event_def)
  have p: "notice_policy notice_context = Some notice_parameters"
    by (simp add: notice_policy_def notice_context_def notice_parameters_def Let_def)
  have i: "object_input arriving_event = jget arriving_event ''payload''" by (simp add: object_input_def payload_def arriving_event_def)
  let ?n = "event_normalize (host_at (Fin 1000000)) arriving_event"
  have n: "jget ?n ''arrival_contract_valid'' = JTrue" "jget ?n ''arrival_kind_valid'' = JTrue" "jget ?n ''arrival_returning'' = JTrue"
    "jget ?n ''arrival_cycle_confirmed'' = JTrue" "jget ?n ''arrival_stage'' = JStr ''approach''"
    by (simp_all add: event_normalize_def Let_def i) (simp_all add: arriving_event_def)
  have "notice_entry (host_at (Fin 1000000)) notice_context arriving_event = Emit notice_context [[arriving_notice], []]"
    by (simp add: notice_entry_def Let_def n p str_among_def arriving_notice_def)
  then show "cleared arriving_event arriving_notice" by (rule cleared.approach) simp
qed

lemma event_normalize_get:
  assumes "is_obj m"
  shows "is_obj (event_normalize e m)" "jget (event_normalize e m) ''resident_source'' = jget (object_input m) ''source''"
    "jget (event_normalize e m) ''event_at'' = JNum (arrival_time e (object_input m))"
    "jget (event_normalize e m) ''notification_key'' = JStr (notice_key e (object_input m))"
    "jget (event_normalize e m) ''arrival_event_time_valid'' =
       JBool (fin (arrival_time e (object_input m)) \<and> 0 < arrival_time e (object_input m))"
    "jget (event_normalize e m) ''_location_test'' = JBool (jget m ''_location_test'' = JTrue \<or> jget (object_input m) ''test_mode'' = JTrue)"
  using assms by (simp_all add: event_normalize_def Let_def)

lemma arriving_reads:
  "is_obj arriving_notice" "\<not> notice_test arriving_notice" "jget arriving_notice ''resident_source'' = JStr ''resident_secondary''"
  "jget arriving_notice ''event_at'' = JNum (Fin 990000)" "jget arriving_notice ''arrival_event_time_valid'' = JTrue"
  "jget arriving_notice ''policy'' = notice_parameters" "is_str (jget arriving_notice ''notification_key'')"
proof -
  note get = event_normalize_get [OF arriving_cleared(1)]
  have p: "jget (object_input arriving_event) ''source'' = JStr ''resident_secondary''" "jget (object_input arriving_event) ''test_mode'' = JUndef"
    "jget (object_input arriving_event) ''event_at'' = JNum (Fin 990000)" "jget arriving_event ''_location_test'' = JUndef"
    by (simp_all add: object_input_def payload_def arriving_event_def)
  have t: "arrival_time e (object_input arriving_event) = Fin 990000" for e by (simp add: arrival_time_def p)
  show "is_obj arriving_notice" "\<not> notice_test arriving_notice" "jget arriving_notice ''resident_source'' = JStr ''resident_secondary''"
    "jget arriving_notice ''event_at'' = JNum (Fin 990000)" "jget arriving_notice ''arrival_event_time_valid'' = JTrue"
    "jget arriving_notice ''policy'' = notice_parameters" "is_str (jget arriving_notice ''notification_key'')"
    by (simp_all add: arriving_notice_def get p t notice_test_def)
qed


end
