(* ===== verification/AlarmArrival.thy ===== *)
theory AlarmArrival
  imports Places Policies JsRegex
begin

text \<open>
  Disarming the alarm when somebody arrives (tab \<open>alarme_desarme_chegada\<close>, \<open>alarm-arrival-*.js\<close>).
  \<open>alarm_entry\<close> checks the contract of an arrival; a production arrival asks the residents to disarm
  (\<open>alarm_ask\<close>): the question goes to the two phones with a token of its own, and \<open>alarm_ack\<close> makes it
  the pending question once the notification service has accepted it. \<open>alarm_press\<close> handles an answer from
  a phone; \<open>disarm_build\<close> uses the pending question up and sends the command. A test arrival walks the same
  path with a pending question of its own and ends in a log line (\<open>alarm_test\<close>).

  Parameters: the random token of a question, the notification service, and \<open>panel\<close>, the node of
  Home Assistant's package that reads the alarm panel, as a function on the message. The context is the
  memory store but for the policy; \<open>glob\<close> stands for the global context of the two test keys.
\<close>

section \<open>Parameters\<close>

abbreviation alarm_policy_key :: string where
  "alarm_policy_key \<equiv> ''alarm_arrival_policy_v1''"

definition alarm_bounds :: "(string \<times> rat \<times> rat) list" where
  "alarm_bounds = [(''cooldown_s'', 0, 600), (''confirmation_ttl_s'', 30, 900), (''delivery_window_s'', 5, 120), (''test_ttl_s'', 30, 600)]"

definition alarm_value_ok :: "jv \<Rightarrow> string \<times> rat \<times> rat \<Rightarrow> bool" where
  "alarm_value_ok p = (\<lambda>(k, lo, hi). integral (jnum_of p k) \<and> Fin lo \<le> jnum_of p k \<and> jnum_of p k \<le> Fin hi)"

definition alarm_candidate :: "jv \<Rightarrow> jv" where
  "alarm_candidate p = JObj (map (\<lambda>(k, lo, hi). (k, JNum (jnum_of p k))) alarm_bounds)"

definition alarm_policy_validate :: "jv \<Rightarrow> jv" where
  "alarm_policy_validate m =
    (let p = alarm_candidate (dflt (jget m ''payload'') (JObj [])) in
     jsets m [(''policy_candidate'', p), (''policy_valid'', JBool (list_all (alarm_value_ok p) alarm_bounds))])"

definition alarm_policy_store :: "ctx \<Rightarrow> jv \<Rightarrow> ports run" where
  "alarm_policy_store c m = Stop (pset c alarm_policy_key (jspread (JObj [(''version'', JNum 1)]) (jget m ''policy_candidate'')))"

definition alarm_policy_reject :: "ctx \<Rightarrow> ports run" where
  "alarm_policy_reject c = Stop (logged NodeWarn c)"

definition alarm_policy_flow :: "ctx \<Rightarrow> jv \<Rightarrow> ports run" where
  "alarm_policy_flow c m = (let m1 = alarm_policy_validate m in
     if jget m1 ''policy_valid'' = JTrue then alarm_policy_store c m1 else alarm_policy_reject c)"

definition alarm_policy_load :: "ctx \<Rightarrow> jv \<Rightarrow> jv" where
  "alarm_policy_load c m = (let p = fper c alarm_policy_key in
     jsets m [(''policy'', p), (''policy_available'', JBool (jseq (jget p ''version'') (JNum 1)))])"

section \<open>The arrival\<close>

text \<open>\<open>Number(msg.arrival_now ?? Date.now())\<close>\<close>

definition alarm_now :: "env \<Rightarrow> jv \<Rightarrow> jnum" where
  "alarm_now e m = num_or (jget m ''arrival_now'') (clock e)"

text \<open>\<open>Array.isArray(a) && a.includes(v)\<close> for a string \<open>v\<close>.\<close>

definition lists_source :: "jv \<Rightarrow> jv \<Rightarrow> bool" where
  "lists_source a v = (case a of JArr xs \<Rightarrow> v \<in> set xs | _ \<Rightarrow> False)"

definition alarm_normalize :: "env \<Rightarrow> jv \<Rightarrow> jv" where
  "alarm_normalize e m =
    (let p = dflt (jget m ''payload'') (JObj []) in
     jsets m
      [(''arrival_source'', jget p ''source''), (''arrival_stage'', jget p ''arrival_stage''),
       (''arrival_detected_at'', JNum (alarm_now e m)),
       (''arrival_contract_valid'', JBool (jget p ''contract'' = JStr ''security.arrival.v1'')),
       (''arrival_kind_valid'', JBool (jget p ''kind'' = JStr ''arrival'')),
       (''arrival_source_valid'', JBool (str_among (jget p ''source'') [''resident_primary'', ''resident_secondary'', ''vehicle_primary''])),
       (''arrival_stage_valid'', JBool (str_among (jget p ''arrival_stage'') [''approach'', ''home''])),
       (''arrival_direction_valid'', JBool (jget p ''arrival_direction'' = JStr ''returning'')),
       (''arrival_cycle_confirmed'', JBool (jget p ''external_cycle_confirmed'' = JTrue)),
       (''arrival_self_listed'', JBool (lists_source (jget p ''arriving'') (jget p ''source''))),
       (''arrival_test_mode'', JBool (jget m ''_location_test'' = JTrue \<or> jget p ''test_mode'' = JTrue)),
       (''_location_test_case'', dflt (jget m ''_location_test_case'') (dflt (jget p ''test_case'') JNull))])"

definition alarm_gates :: "string list" where
  "alarm_gates = [''arrival_contract_valid'', ''arrival_kind_valid'', ''arrival_source_valid'', ''arrival_stage_valid'',
     ''arrival_direction_valid'', ''arrival_cycle_confirmed'', ''arrival_self_listed'']"

text \<open>Port 0: production. Port 1: tests.\<close>

definition alarm_entry :: "env \<Rightarrow> ctx \<Rightarrow> jv \<Rightarrow> ports run" where
  "alarm_entry e c m =
    (let m1 = alarm_normalize e m in
     if \<not> list_all (\<lambda>k. jget m1 k = JTrue) alarm_gates then Stop c
     else if jget m1 ''arrival_test_mode'' = JTrue then Emit c [[], [m1]] else Emit c [[m1], []])"

section \<open>Asking the residents\<close>

abbreviation pending_question :: string where
  "pending_question \<equiv> ''alarm_arrival_pending_confirmation''"

abbreviation question_inflight :: string where
  "question_inflight \<equiv> ''alarm_arrival_confirmation_inflight''"

abbreviation last_question_at :: string where
  "last_question_at \<equiv> ''alarm_arrival_last_confirmation_at''"

text \<open>\<open>s == v\<close> for a string \<open>s\<close>, as the switch nodes compare.\<close>

fun str_loose :: "string \<Rightarrow> jv \<Rightarrow> bool" where
  "str_loose s JUndef = False"
| "str_loose s JNull = False"
| "str_loose s (JBool b) = (str_num s = (if b then 1 else 0))"
| "str_loose s (JNum x) = (str_num s = x \<and> x \<noteq> NaN)"
| "str_loose s (JStr t) = (s = t)"
| "str_loose s v = (s = to_str v)"

record request_view =
  rq_now :: jnum
  rq_pending :: bool
  rq_inflight :: bool
  rq_cooldown :: bool

definition request_read :: "env \<Rightarrow> ctx \<Rightarrow> jv \<Rightarrow> request_view" where
  "request_read e c m =
    (let now = alarm_now e m; last' = to_num (jor (fmem c last_question_at) (JNum 0)) in
     \<lparr>rq_now = now, rq_pending = (now < jnum_of (fmem c pending_question) ''expiresAt''),
      rq_inflight = (now < jnum_of (fmem c question_inflight) ''expiresAt''),
      rq_cooldown = (fin last' \<and> 0 < last' \<and> last' \<le> now + 60000 \<and> now - last' < jnum_of (jget m ''policy'') ''cooldown_s'' * 1000)\<rparr>)"

definition question_of :: "jnum \<Rightarrow> string \<Rightarrow> jv \<Rightarrow> jv" where
  "question_of now token m = JObj
    [(''version'', JNum 1), (''deliveryId'', JStr token),
     (''confirmAction'', JStr (''ALARME_DESARMAR_'' @ token)), (''cancelAction'', JStr (''ALARME_MANTER_ARMADO_'' @ token)),
     (''createdAt'', JNum now), (''expiresAt'', JNum (now + jnum_of (jget m ''policy'') ''confirmation_ttl_s'' * 1000)),
     (''source'', jget m ''arrival_source''), (''stage'', jget m ''arrival_stage''),
     (''refreshCycleId'', dflt (jget (jget m ''payload'') ''refresh_cycle_id'') JNull)]"

definition request_build :: "env \<Rightarrow> string \<Rightarrow> ctx \<Rightarrow> jnum \<Rightarrow> jv \<Rightarrow> ports run" where
  "request_build e token c now m =
    (let q = question_of now token m;
         c1 = fset (fset c pending_question JNull) question_inflight JNull;
         c2 = fset c1 question_inflight (JObj [(''deliveryId'', JStr token),
           (''expiresAt'', JNum (now + jnum_of (jget m ''policy'') ''delivery_window_s'' * 1000))]) in
     Emit c2 [[jsets m
      [(''alarmConfirmationCandidate'', q), (''confirm_action'', jget q ''confirmAction''), (''cancel_action'', jget q ''cancelAction''),
       (''confirm_action_title'', JStr ''Desarmar''), (''cancel_action_title'', JStr ''Manter armado''),
       (''notification_title'', JStr ''Confirmar desarme do alarme''), (''notification_tag'', JStr ''alarm_arrival_confirmation_real''),
       (''notification_message'', JStr (wording e ''alarm question'' [to_str (jor (jget m ''arrival_source'') (JStr ''residente''))]))]]])"

text \<open>From the production gate to the phones: the armed state, the policy, then the question already pending,
  on its way, or just asked. Port 0: the question.\<close>

definition alarm_ask :: "env \<Rightarrow> (jv \<Rightarrow> jv) \<Rightarrow> string \<Rightarrow> ctx \<Rightarrow> jv \<Rightarrow> ports run" where
  "alarm_ask e panel token c m =
    (let m1 = panel m; m2 = alarm_policy_load c m1; r = request_read e c m2 in
     if \<not> str_loose ''armed_away'' (jget m1 ''payload'') then Stop c
     else if jget m2 ''policy_available'' \<noteq> JTrue then Stop c
     else if rq_pending r \<or> rq_inflight r \<or> rq_cooldown r then Stop c
     else request_build e token c (rq_now r) m2)"

text \<open>The answers of the notification service.\<close>

definition question_complete :: "jv \<Rightarrow> bool" where
  "question_complete q = (truthy q \<and> is_str (jget q ''deliveryId'') \<and> fin (jnum_of q ''createdAt'') \<and> fin (jnum_of q ''expiresAt''))"

definition same_delivery :: "jv \<Rightarrow> jv \<Rightarrow> bool" where
  "same_delivery a q = jseq (jget a ''deliveryId'') (jget q ''deliveryId'')"

definition question_promotes :: "env \<Rightarrow> jv \<Rightarrow> jv \<Rightarrow> jv \<Rightarrow> bool" where
  "question_promotes e m old q = (\<not> truthy old \<or> same_delivery old q \<or> to_num (jor (jget old ''expiresAt'') (JNum 0)) \<le> alarm_now e m)"

definition alarm_ack :: "env \<Rightarrow> ctx \<Rightarrow> jv \<Rightarrow> ports run" where
  "alarm_ack e c m =
    (let q = jget m ''alarmConfirmationCandidate'' in
     if \<not> question_complete q then Stop c
     else
       (let c1 = (if question_promotes e m (fmem c pending_question) q
            then fset (fset c pending_question q) last_question_at (JNum (jnum_of q ''createdAt'')) else c) in
        Stop (if same_delivery (fmem c1 question_inflight) q then fset c1 question_inflight JNull else c1)))"

definition alarm_failure :: "ctx \<Rightarrow> jv \<Rightarrow> ports run" where
  "alarm_failure c m = Emit (logged NodeError c) [[m]]"

section \<open>Test questions\<close>

abbreviation test_question :: string where
  "test_question \<equiv> ''alarm_arrival_test_pending_confirmation''"

abbreviation alarm_run_key :: string where
  "alarm_run_key \<equiv> ''alarm_arrival_last_dry_run_v1''"

text \<open>\<open>Number(v ?? 0) || 0\<close>\<close>

definition num_else0 :: "jv \<Rightarrow> jnum" where
  "num_else0 v = (let n = num_or v 0 in if n = NaN then 0 else n)"

definition test_reset_at :: "ctx \<Rightarrow> jnum" where
  "test_reset_at c = jmax (num_else0 (jget (dflt (glob c ''security_location_test_state_v1'') (JObj [])) ''reset_at''))
     (num_else0 (glob c ''alarm_arrival_test_reset_at''))"

definition test_stale :: "ctx \<Rightarrow> jnum \<Rightarrow> bool" where
  "test_stale c now =
    (let old = fmem c test_question; created = num_or (jget old ''createdAt'') 0; expires = jnum_of old ''expiresAt'' in
     truthy old \<and> (0 < test_reset_at c \<and> (\<not> fin created \<or> created \<le> test_reset_at c) \<or> \<not> fin expires \<or> expires \<le> now))"

text \<open>The node's context, and whether a test question is still pending.\<close>

definition alarm_test_read :: "env \<Rightarrow> ctx \<Rightarrow> jv \<Rightarrow> ctx \<times> bool" where
  "alarm_test_read e c m =
    (let now = alarm_now e m; c1 = (if test_stale c now then fset c test_question JNull else c) in
     (c1, now < jnum_of (fmem c1 test_question) ''expiresAt''))"

definition test_question_of :: "env \<Rightarrow> ctx \<Rightarrow> string \<Rightarrow> jv \<Rightarrow> jv" where
  "test_question_of e c token m =
    (let p = jget m ''payload''; created = jmax (alarm_now e m) (test_reset_at c + 1) in JObj
     [(''version'', JNum 1), (''confirmAction'', JStr (''ALARME_TESTE_CONFIRMAR_'' @ token)), (''cancelAction'', JStr (''ALARME_TESTE_CANCELAR_'' @ token)),
      (''createdAt'', JNum created), (''expiresAt'', JNum (created + jnum_of (jget m ''policy'') ''test_ttl_s'' * 1000)),
      (''source'', dflt (jget m ''arrival_source'') (dflt (jget p ''source'') (JStr ''manual''))),
      (''stage'', dflt (jget m ''arrival_stage'') (dflt (jget p ''arrival_stage'') (JStr ''manual''))),
      (''testCase'', dflt (jget m ''_location_test_case'') (dflt (jget p ''test_case'') (JStr ''manual_notification_test''))),
      (''refreshCycleId'', dflt (jget p ''refresh_cycle_id'') JNull)])"

definition alarm_test_build :: "env \<Rightarrow> string \<Rightarrow> ctx \<Rightarrow> jv \<Rightarrow> ctx \<times> jv" where
  "alarm_test_build e token c m =
    (let q = test_question_of e c token m in
     (fset c test_question q, jsets m
      [(''_location_test'', JTrue), (''_location_test_case'', jget q ''testCase''), (''alarm_arrival_test'', JTrue),
       (''confirm_action'', jget q ''confirmAction''), (''cancel_action'', jget q ''cancelAction''),
       (''confirm_action_title'', JStr ''Confirmar teste''), (''cancel_action_title'', JStr ''Cancelar teste''),
       (''notification_title'', JStr (wording e ''alarm test title'' [])), (''notification_tag'', JStr ''alarm_arrival_confirmation_test''),
       (''notification_message'', JStr (wording e ''alarm test question'' [to_str (jget q ''source''), to_str (jget q ''stage'')]))]))"

definition test_simulate :: "ctx \<Rightarrow> jv \<Rightarrow> jv run" where
  "test_simulate c m =
    (if jget m ''_location_test'' \<noteq> JTrue \<or> jget m ''alarm_arrival_test'' \<noteq> JTrue \<or> \<not> is_str (jget m ''confirm_action'') then Stop c
     else Emit c (jsets m
      [(''payload'', JObj [(''event'', JObj [(''action'', jget m ''confirm_action'')]), (''test_mode'', JTrue), (''simulated'', JTrue), (''dispatched'', JFalse)]),
       (''alarm_arrival_test_notification'', JObj [(''simulated'', JTrue), (''dispatched'', JFalse)])]))"

definition alarm_dry_run :: "env \<Rightarrow> ctx \<Rightarrow> jv \<Rightarrow> ports run" where
  "alarm_dry_run e c m =
    (if jget m ''_location_test'' \<noteq> JTrue \<or> jget m ''alarm_arrival_test'' \<noteq> JTrue then Stop c
     else Stop (logged NodeWarn (fset c alarm_run_key (JObj
      [(''version'', JNum 1), (''simulated'', JTrue), (''dispatched'', JFalse),
       (''result'', dflt (jget m ''alarm_arrival_test_result'') (JStr ''ignorado'')),
       (''actions'', JArr (map JStr [''notify_actionable:resident_primary'', ''notify_actionable:resident_secondary'',
          ''mobile_app_confirmation'', ''alarm_disarm''])),
       (''source'', dflt (jget m ''arrival_source'') (JStr ''manual'')), (''stage'', dflt (jget m ''arrival_stage'') (JStr ''manual'')),
       (''completed_at'', JNum (clock e))]))))"

section \<open>An answer from a phone\<close>

definition pressed :: "jv \<Rightarrow> jv" where
  "pressed m = dflt (jget (jget (jget m ''payload'') ''event'') ''action'')
     (dflt (jget (jget m ''payload'') ''action'') (dflt (jget (jget m ''event'') ''action'') JNull))"

definition press_read :: "env \<Rightarrow> ctx \<Rightarrow> jv \<Rightarrow> ctx \<times> jv" where
  "press_read e c m =
    (let act = pressed m; now = alarm_now e m; old = fmem c test_question; q = fmem c pending_question;
         stale = (truthy old \<and> 0 < test_reset_at c \<and> num_or (jget old ''createdAt'') 0 \<le> test_reset_at c);
         t = (if stale then JNull else old);
         is_act = (\<lambda>v. jseq act v); gone = (\<lambda>v. \<not> fin (jnum_of v ''expiresAt'') \<or> jnum_of v ''expiresAt'' < now) in
     (if stale then fset c test_question JNull else c, jset m ''confirmation'' (JObj
      [(''action'', act), (''now'', JNum now), (''action_valid'', JBool (is_str act \<and> act \<noteq> JStr [])),
       (''is_test'', JBool (case act of JStr s \<Rightarrow> starts_with s ''ALARME_TESTE_'' | _ \<Rightarrow> False)),
       (''test_pending'', t), (''test_pending_exists'', JBool (truthy t)),
       (''test_token_matches'', JBool (is_act (jget t ''confirmAction'') \<or> is_act (jget t ''cancelAction''))),
       (''test_expired'', JBool (gone t)), (''pending'', q), (''pending_exists'', JBool (truthy q)), (''pending_expired'', JBool (gone q)),
       (''is_cancel'', JBool (is_act (jget q ''cancelAction''))), (''is_confirm'', JBool (is_act (jget q ''confirmAction'')))])))"

text \<open>The expiry switches compare with JSONata: an absent bound gives no answer, which the switch takes as
  no; a bound that is no number is an error.\<close>

fun later_than :: "jv \<Rightarrow> jv \<Rightarrow> bool option" where
  "later_than (JNum now) (JNum x) = Some (x < now)"
| "later_than (JNum now) JUndef = Some False"
| "later_than _ _ = None"

definition act_loose :: "jv \<Rightarrow> jv \<Rightarrow> bool" where
  "act_loose act v = (case act of JStr s \<Rightarrow> str_loose s v | _ \<Rightarrow> False)"

definition test_clear :: "ctx \<Rightarrow> ports run" where
  "test_clear c = Stop (fset c test_question JNull)"

definition real_clear :: "ctx \<Rightarrow> ports run" where
  "real_clear c = Stop (fset c pending_question JNull)"

definition test_finish :: "ctx \<Rightarrow> jv \<Rightarrow> ctx \<times> jv" where
  "test_finish c m =
    (let q = jget (jget m ''confirmation'') ''test_pending'' in
     (fset c test_question JNull, jsets m
      [(''_location_test'', JTrue), (''_location_test_case'', dflt (jget q ''testCase'') JNull), (''alarm_arrival_test'', JTrue),
       (''alarm_arrival_test_action'', jget (jget m ''confirmation'') ''action''),
       (''arrival_source'', dflt (jget q ''source'') (JStr ''manual'')), (''arrival_stage'', dflt (jget q ''stage'') (JStr ''manual'')),
       (''refresh_cycle_id'', dflt (jget q ''refreshCycleId'') JNull)]))"

definition disarm_build :: "env \<Rightarrow> ctx \<Rightarrow> jv \<Rightarrow> ports run" where
  "disarm_build e c m =
    (let q = jget (jget m ''confirmation'') ''pending''; p = jget m ''payload'' in
     Emit (fset c pending_question JNull) [[jsets m
      [(''arrival_source'', jget q ''source''), (''arrival_stage'', jget q ''stage''),
       (''refresh_cycle_id'', dflt (jget q ''refreshCycleId'') JNull),
       (''alarm_disarm_automatic'', JTrue), (''alarm_disarm_confirmed'', JTrue),
       (''alarm_disarm_reason'', JStr (''chegada_confirmada_'' @ to_str (jget q ''source'') @ ''_'' @ to_str (jget q ''stage''))),
       (''alarm_disarm_confirmed_by'', dflt (jget (jget p ''context'') ''user_id'')
          (dflt (jget (jget (jget p ''event'') ''context'') ''user_id'') (JStr ''home_assistant'')))]]])"

definition press_test :: "env \<Rightarrow> ctx \<Rightarrow> jv \<Rightarrow> ports run" where
  "press_test e c m =
    (let r = jget m ''confirmation''; q = jget r ''test_pending'' in
     if jget r ''test_pending_exists'' \<noteq> JTrue \<or> jget r ''test_token_matches'' \<noteq> JTrue then Stop c
     else (case later_than (jget r ''now'') (jget q ''expiresAt'') of
       None \<Rightarrow> Raise c
     | Some True \<Rightarrow> test_clear c
     | Some False \<Rightarrow>
       (let result = (if act_loose (jget r ''action'') (jget q ''confirmAction'') then ''confirmado'' else ''cancelado'');
            (c1, m1) = test_finish c (jset m ''alarm_arrival_test_result'' (JStr result)) in
        alarm_dry_run e c1 m1)))"

definition press_real :: "env \<Rightarrow> ctx \<Rightarrow> jv \<Rightarrow> ports run" where
  "press_real e c m =
    (let r = jget m ''confirmation''; q = jget r ''pending'' in
     if nullish q then Stop c
     else (case later_than (jget r ''now'') (jget q ''expiresAt'') of
       None \<Rightarrow> Raise c
     | Some True \<Rightarrow> real_clear c
     | Some False \<Rightarrow>
        if act_loose (jget r ''action'') (jget q ''cancelAction'') then real_clear c
        else if act_loose (jget r ''action'') (jget q ''confirmAction'') then disarm_build e c m
        else Stop c))"

text \<open>Port 0: the command to disarm.\<close>

definition alarm_press :: "env \<Rightarrow> ctx \<Rightarrow> jv \<Rightarrow> ports run" where
  "alarm_press e c m =
    (let (c1, m1) = press_read e c m; r = jget m1 ''confirmation'' in
     if jget r ''action_valid'' \<noteq> JTrue then Stop c1
     else if jget r ''is_test'' = JTrue then press_test e c1 m1 else press_real e c1 m1)"

section \<open>The tab\<close>

definition alarm_test :: "env \<Rightarrow> string \<Rightarrow> ctx \<Rightarrow> jv \<Rightarrow> ports run" where
  "alarm_test e token c m =
    (let m1 = alarm_policy_load c m; (c1, active) = alarm_test_read e c m1 in
     if jget m1 ''policy_available'' \<noteq> JTrue then Stop c
     else if active then Stop c1
     else (let (c2, m2) = alarm_test_build e token c1 m1 in wire (test_simulate c2 m2) (alarm_press e)))"

definition alarm_test_reset :: "env \<Rightarrow> ctx \<Rightarrow> jv \<Rightarrow> ports run" where
  "alarm_test_reset e c m =
    (let kind = jget (jget m ''payload'') ''kind'' in
     if \<not> (jget m ''_location_test_reset'' = JTrue \<or> str_among kind [''test_reset'', ''alarm_test_reset'']) then Stop c
     else
       (let reset = jmax (jmax (alarm_now e m) (num_else0 (jget (dflt (glob c ''security_location_test_state_v1'') (JObj [])) ''reset_at'')))
              (num_else0 (jget (jget m ''payload'') ''reset_at''));
            c1 = gset (fset (fset c test_question JNull) alarm_run_key JNull) ''alarm_arrival_test_reset_at'' (JNum reset) in
        Emit c1 [[jsets m
         [(''_location_test'', JTrue), (''_location_test_case'', JStr ''reset''), (''_location_test_reset'', JTrue),
          (''alarm_arrival_test'', JTrue), (''alarm_arrival_test_reset'', JTrue),
          (''payload'', JObj [(''kind'', JStr ''alarm_test_reset_done''), (''test_mode'', JTrue), (''test_case'', JStr ''reset''),
             (''reset_at'', JNum reset),
             (''source'', JStr (if kind = JStr ''alarm_test_reset'' then ''alarme_desarme_chegada'' else ''location_test_reset''))])]]]))"

text \<open>What an arrival sets off. Port 0: the question for the phones. Port 1: a command to disarm.\<close>

definition alarm_arrival :: "env \<Rightarrow> (jv \<Rightarrow> jv) \<Rightarrow> string \<Rightarrow> ctx \<Rightarrow> jv \<Rightarrow> ports run" where
  "alarm_arrival e panel token c m =
    wire (alarm_entry e c m) (\<lambda>c1 ps.
      case port 0 ps of
        m1 # _ \<Rightarrow> wire (alarm_ask e panel token c1 m1) (\<lambda>c2 qs. Emit c2 [port 0 qs, []])
      | [] \<Rightarrow> wire (alarm_test e token c1 (hd (port 1 ps))) (\<lambda>c2 qs. Emit c2 [[], port 0 qs]))"


section \<open>The gates\<close>

lemma jget_dflt_empty [simp]: "jget (dflt a (JObj [])) k = jget a k"
  by (cases a) (simp_all add: dflt_def)

text \<open>What a production arrival says.\<close>

definition genuine_arrival :: "jv \<Rightarrow> bool" where
  "genuine_arrival m =
    (let p = jget m ''payload'' in
     jget p ''contract'' = JStr ''security.arrival.v1'' \<and> jget p ''kind'' = JStr ''arrival'' \<and>
     str_among (jget p ''source'') [''resident_primary'', ''resident_secondary'', ''vehicle_primary''] \<and>
     str_among (jget p ''arrival_stage'') [''approach'', ''home''] \<and> jget p ''arrival_direction'' = JStr ''returning'' \<and>
     jget p ''external_cycle_confirmed'' = JTrue \<and> lists_source (jget p ''arriving'') (jget p ''source'') \<and>
     jget m ''_location_test'' \<noteq> JTrue \<and> jget p ''test_mode'' \<noteq> JTrue)"

lemma normalize_gates:
  "is_obj m \<Longrightarrow> list_all (\<lambda>k. jget (alarm_normalize e m) k = JTrue) alarm_gates \<Longrightarrow>
     jget (alarm_normalize e m) ''arrival_test_mode'' \<noteq> JTrue \<Longrightarrow> genuine_arrival m"
  by (simp add: alarm_normalize_def alarm_gates_def genuine_arrival_def Let_def)

lemma genuine_entry:
  assumes "is_obj m" "genuine_arrival m"
  shows "alarm_entry e c m = Emit c [[alarm_normalize e m], []]"
proof -
  have "list_all (\<lambda>k. jget (alarm_normalize e m) k = JTrue) alarm_gates" "jget (alarm_normalize e m) ''arrival_test_mode'' \<noteq> JTrue"
    using assms by (simp_all add: alarm_normalize_def alarm_gates_def genuine_arrival_def Let_def)
  then show ?thesis by (simp add: alarm_entry_def Let_def)
qed

lemma normalize_kept [simp]:
  "jget (alarm_normalize e m) ''payload'' = jget m ''payload''" "is_obj (alarm_normalize e m) = is_obj m"
  by (simp_all add: alarm_normalize_def Let_def)

lemma genuine_object: "genuine_arrival m \<Longrightarrow> is_obj (jget m ''payload'')"
  by (rule ccontr) (simp add: genuine_arrival_def Let_def jget_not_obj)

lemma entry_shape:
  "alarm_entry e c m = Stop c \<or> alarm_entry e c m = Emit c [[], [alarm_normalize e m]] \<or>
   alarm_entry e c m = Emit c [[alarm_normalize e m], []]"
  by (simp add: alarm_entry_def Let_def)

lemma entry_production:
  assumes "is_obj m" "alarm_entry e c m = Emit c [[m1], []]"
  shows "m1 = alarm_normalize e m \<and> genuine_arrival m"
  using assms normalize_gates [OF assms(1), of e] by (auto simp: alarm_entry_def Let_def split: if_splits)

lemma ask_emits:
  assumes "alarm_ask e panel token c m = Emit c' ps"
  shows "\<exists>x q m2. ps = [[x]] \<and> m2 = alarm_policy_load c (panel m) \<and> q = question_of (alarm_now e m2) token m2 \<and>
    c' = ctx_of (request_build e token c (alarm_now e m2) m2) \<and> jget m2 ''policy_available'' = JTrue \<and>
    (is_obj (panel m) \<longrightarrow> jget x ''alarmConfirmationCandidate'' = q \<and> jget x ''confirm_action'' = jget q ''confirmAction'') \<and>
    str_loose ''armed_away'' (jget (panel m) ''payload'') \<and> \<not> rq_pending (request_read e c m2)"
proof -
  define m2 where "m2 = alarm_policy_load c (panel m)"
  have o: "is_obj m2 = is_obj (panel m)" by (simp add: m2_def alarm_policy_load_def Let_def)
  have n: "rq_now (request_read e c m2) = alarm_now e m2" by (simp add: request_read_def Let_def)
  show ?thesis
    using assms o n unfolding alarm_ask_def Let_def m2_def[symmetric] request_build_def
    by (auto split: if_splits)
qed

section \<open>Dry runs\<close>

text \<open>Everything but the test question and the record of the last dry run is as before.\<close>

definition real_same :: "ctx \<Rightarrow> ctx \<Rightarrow> bool" where
  "real_same c c' = (fper c' = fper c \<and> glob c' = glob c \<and> (\<forall>k. k \<noteq> test_question \<longrightarrow> k \<noteq> alarm_run_key \<longrightarrow> fmem c' k = fmem c k))"

lemma real_same_writes [simp, intro]:
  "real_same c c" "real_same c c' \<Longrightarrow> real_same c (fset c' test_question v)" "real_same c c' \<Longrightarrow> real_same c (fset c' alarm_run_key v)"
  "real_same c c' \<Longrightarrow> real_same c (logged x c')"
  by (simp_all add: real_same_def)

lemma real_same_reads: "real_same c c' \<Longrightarrow> fmem c' pending_question = fmem c pending_question"
  "real_same c c' \<Longrightarrow> fper c' = fper c"
  by (simp_all add: real_same_def)

lemma real_same_trans: "real_same a b \<Longrightarrow> real_same b c \<Longrightarrow> real_same a c"
  by (simp add: real_same_def)

definition quiet :: "ctx \<Rightarrow> 'a run \<Rightarrow> bool" where
  "quiet c r = (\<not> emits r \<and> real_same c (ctx_of r))"

lemma quiet_simps [simp]: "quiet c (Stop c') = real_same c c'" "quiet c (Raise c') = real_same c c'" "\<not> quiet c (Emit c' x)"
  by (simp_all add: quiet_def)

lemma dry_run_quiet: "real_same c c' \<Longrightarrow> quiet c (alarm_dry_run e c' m)"
  by (simp add: alarm_dry_run_def)

lemma press_test_quiet: "quiet c (press_test e c m)"
  by (auto simp: press_test_def Let_def test_clear_def test_finish_def intro!: dry_run_quiet split: option.split bool.split)

lemma confirmation_fields:
  assumes "is_obj m"
  shows "\<exists>m1. press_read e c m = (fst (press_read e c m), m1) \<and> real_same c (fst (press_read e c m)) \<and>
    jget m1 ''payload'' = jget m ''payload'' \<and> is_obj m1 \<and>
    jget (jget m1 ''confirmation'') ''action'' = pressed m \<and> jget (jget m1 ''confirmation'') ''now'' = JNum (alarm_now e m) \<and>
    jget (jget m1 ''confirmation'') ''pending'' = fmem c pending_question \<and>
    jget (jget m1 ''confirmation'') ''action_valid'' = JBool (is_str (pressed m) \<and> pressed m \<noteq> JStr []) \<and>
    jget (jget m1 ''confirmation'') ''is_test'' = JBool (case pressed m of JStr s \<Rightarrow> starts_with s ''ALARME_TESTE_'' | _ \<Rightarrow> False)"
  using assms by (simp add: press_read_def Let_def)

lemma press_cases:
  assumes "is_obj m"
  obtains c1 m1 where "real_same c c1" "jget m1 ''payload'' = jget m ''payload''" "is_obj m1"
    "jget (jget m1 ''confirmation'') ''action'' = pressed m" "jget (jget m1 ''confirmation'') ''now'' = JNum (alarm_now e m)"
    "jget (jget m1 ''confirmation'') ''pending'' = fmem c pending_question"
    "alarm_press e c m = (case pressed m of
       JStr s \<Rightarrow> if s = [] then Stop c1 else if starts_with s ''ALARME_TESTE_'' then press_test e c1 m1 else press_real e c1 m1
     | _ \<Rightarrow> Stop c1)"
proof -
  obtain m1 where m1: "press_read e c m = (fst (press_read e c m), m1)" "real_same c (fst (press_read e c m))"
    "jget m1 ''payload'' = jget m ''payload''" "is_obj m1"
    "jget (jget m1 ''confirmation'') ''action'' = pressed m" "jget (jget m1 ''confirmation'') ''now'' = JNum (alarm_now e m)"
    "jget (jget m1 ''confirmation'') ''pending'' = fmem c pending_question"
    "jget (jget m1 ''confirmation'') ''action_valid'' = JBool (is_str (pressed m) \<and> pressed m \<noteq> JStr [])"
    "jget (jget m1 ''confirmation'') ''is_test'' = JBool (case pressed m of JStr s \<Rightarrow> starts_with s ''ALARME_TESTE_'' | _ \<Rightarrow> False)"
    using confirmation_fields [OF assms, of e c] by blast
  obtain c1 where c1: "press_read e c m = (c1, m1)" "fst (press_read e c m) = c1" using m1(1) by metis
  have "alarm_press e c m = (case pressed m of
       JStr s \<Rightarrow> if s = [] then Stop c1 else if starts_with s ''ALARME_TESTE_'' then press_test e c1 m1 else press_real e c1 m1
     | _ \<Rightarrow> Stop c1)"
    unfolding alarm_press_def c1(1) by (cases "pressed m") (simp_all add: Let_def m1(8,9))
  then show thesis by (rule that [OF m1(2-7) [unfolded c1(2)]])
qed

lemma press_test_action:
  assumes "is_obj m" "pressed m = JStr s" "starts_with s ''ALARME_TESTE_''"
  shows "quiet c (alarm_press e c m)"
proof -
  obtain c1 m1 where 1: "real_same c c1" "alarm_press e c m = (case pressed m of
       JStr s \<Rightarrow> if s = [] then Stop c1 else if starts_with s ''ALARME_TESTE_'' then press_test e c1 m1 else press_real e c1 m1
     | _ \<Rightarrow> Stop c1)"
    by (rule press_cases [OF assms(1)])
  have "quiet c (press_test e c1 m1)"
    using press_test_quiet [of c1 e m1] 1(1) real_same_trans by (auto simp: quiet_def)
  then show ?thesis unfolding 1(2) assms(2) using assms(3) 1(1) by simp
qed

lemma unsent_wire: "\<not> emits r \<Longrightarrow> \<not> emits (wire r f)"
  by (cases r) simp_all

lemma test_prefix: "starts_with (''ALARME_TESTE_CONFIRMAR_'' @ token) ''ALARME_TESTE_''"
  by simp

lemma alarm_test_quiet:
  assumes "is_obj m"
  shows "quiet c (alarm_test e token c m)"
proof -
  define m1 where "m1 = alarm_policy_load c m"
  define c1 where "c1 = fst (alarm_test_read e c m1)"
  define c2 where "c2 = fst (alarm_test_build e token c1 m1)"
  define m2 where "m2 = snd (alarm_test_build e token c1 m1)"
  have o: "is_obj m1" using assms by (simp add: m1_def alarm_policy_load_def Let_def)
  have c1: "real_same c c1" by (simp add: c1_def alarm_test_read_def Let_def)
  have c2: "real_same c c2" using c1 by (simp add: c2_def alarm_test_build_def Let_def)
  have m2: "is_obj m2" "jget m2 ''confirm_action'' = JStr (''ALARME_TESTE_CONFIRMAR_'' @ token)"
    using o by (simp_all add: m2_def alarm_test_build_def test_question_of_def Let_def)
  have "quiet c (wire (test_simulate c2 m2) (alarm_press e))"
  proof (cases "test_simulate c2 m2")
    case (Emit c3 m3)
    then have m3: "c3 = c2" "is_obj m3" "pressed m3 = jget m2 ''confirm_action''"
      using m2 by (auto simp: test_simulate_def pressed_def dflt_def split: if_splits)
    have "quiet c3 (alarm_press e c3 m3)"
      using press_test_action [OF m3(2)] m3(3) m2(2) test_prefix by simp
    then show ?thesis using c2 m3(1) Emit real_same_trans by (auto simp: quiet_def)
  qed (use c2 in \<open>auto simp: test_simulate_def split: if_splits\<close>)
  then show ?thesis
    using c1 by (simp add: alarm_test_def Let_def case_prod_beta m1_def[symmetric] c1_def[symmetric] c2_def[symmetric] m2_def[symmetric])
qed

text \<open>Dry runs of the alarm question are isolated: a test arrival and the answer to a test question send
  no question and no command, and change nothing but the test question and the record of the last dry run.\<close>

lemma alarm_tests_isolated:
  assumes "is_obj m" "jget m ''_location_test'' = JTrue \<or> jget (jget m ''payload'') ''test_mode'' = JTrue"
    and "is_obj p" "pressed p = JStr s" "starts_with s ''ALARME_TESTE_''"
  shows "quiet c (alarm_arrival e panel token c m)" and "quiet c (alarm_press e c p)"
proof -
  have "alarm_entry e c m = Stop c \<or> alarm_entry e c m = Emit c [[], [alarm_normalize e m]]"
    using assms(1,2) by (auto simp: alarm_entry_def alarm_normalize_def Let_def)
  moreover have "quiet c (wire (alarm_test e token c (alarm_normalize e m)) (\<lambda>c2 qs. Emit c2 [[], port 0 qs]))"
    using alarm_test_quiet [of "alarm_normalize e m" c e token] assms(1)
    by (cases "alarm_test e token c (alarm_normalize e m)") auto
  ultimately show "quiet c (alarm_arrival e panel token c m)" by (auto simp: alarm_arrival_def)
  show "quiet c (alarm_press e c p)" by (rule press_test_action [OF assms(3,4,5)])
qed

section \<open>The armed state is never seen\<close>

text \<open>C14: As wired, production arrivals never ask. The reader of the panel puts its state in the property
  \<open>alarm_current_state\<close>; the switch after it compares \<open>payload\<close>, still the arrival itself, with
  \<open>armed_away\<close>. Whatever the state of the panel and the context, no arrival sends a question.\<close>

theorem question_never_asked:
  "\<not> emits (alarm_arrival e (\<lambda>x. jset x ''alarm_current_state'' s) token c m)"
proof (cases "is_obj m")
  case False
  then have "jget (alarm_normalize e m) ''arrival_contract_valid'' = JUndef" by (simp add: jget_not_obj)
  then show ?thesis by (simp add: alarm_arrival_def alarm_entry_def alarm_gates_def Let_def)
next
  case True
  let ?panel = "\<lambda>x. jset x ''alarm_current_state'' s" and ?n = "alarm_normalize e m"
  have "\<not> emits (alarm_ask e ?panel token c ?n)" if g: "genuine_arrival m"
  proof -
    obtain kvs where "jget m ''payload'' = JObj kvs"
      using genuine_object [OF g] by (cases "jget m ''payload''") simp_all
    then have "\<not> str_loose ''armed_away'' (jget (?panel ?n) ''payload'')" by simp
    then show ?thesis by (simp add: alarm_ask_def Let_def)
  qed
  moreover have "\<not> emits (alarm_test e token c ?n)" using alarm_test_quiet [of ?n c e token] True by (simp add: quiet_def)
  ultimately show ?thesis
    using entry_shape [of e c m] entry_production [OF True, of e c ?n] by (auto simp: alarm_arrival_def unsent_wire)
qed


section \<open>An accepted question\<close>

lemma later_than_bounds: "later_than (JNum now) (JNum x) = Some (x < now)"
  by simp

lemma press_real_cases:
  assumes "press_real e c m = Emit c' ps"
  shows "\<not> nullish (jget (jget m ''confirmation'') ''pending'') \<and>
    later_than (jget (jget m ''confirmation'') ''now'') (jget (jget (jget m ''confirmation'') ''pending'') ''expiresAt'') = Some False \<and>
    act_loose (jget (jget m ''confirmation'') ''action'') (jget (jget (jget m ''confirmation'') ''pending'') ''confirmAction'') \<and>
    disarm_build e c m = Emit c' ps"
  using assms by (auto simp: press_real_def Let_def real_clear_def split: if_splits option.splits bool.splits)

lemma press_emits:
  assumes "is_obj m" "alarm_press e c m = Emit c' ps"
  shows "\<exists>d q. ps = [[d]] \<and> q = fmem c pending_question \<and> \<not> nullish q \<and> later_than (JNum (alarm_now e m)) (jget q ''expiresAt'') = Some False \<and>
    act_loose (pressed m) (jget q ''confirmAction'') \<and> fmem c' pending_question = JNull \<and> fper c' = fper c \<and>
    jget d ''arrival_source'' = jget q ''source'' \<and> jget d ''alarm_disarm_confirmed'' = JTrue"
proof -
  obtain c1 m1 where 1: "real_same c c1" "is_obj m1"
    "jget (jget m1 ''confirmation'') ''action'' = pressed m" "jget (jget m1 ''confirmation'') ''now'' = JNum (alarm_now e m)"
    "jget (jget m1 ''confirmation'') ''pending'' = fmem c pending_question"
    "alarm_press e c m = (case pressed m of
       JStr s \<Rightarrow> if s = [] then Stop c1 else if starts_with s ''ALARME_TESTE_'' then press_test e c1 m1 else press_real e c1 m1
     | _ \<Rightarrow> Stop c1)"
    by (rule press_cases [OF assms(1)])
  have "press_test e c1 m1 \<noteq> Emit c' ps" using press_test_quiet [of c1 e m1] by (auto simp: quiet_def)
  then have "press_real e c1 m1 = Emit c' ps"
    using assms(2) unfolding 1(6) by (auto split: jv.splits if_splits)
  note p = press_real_cases [OF this, unfolded 1(3,4,5)]
  have d: "disarm_build e c1 m1 = Emit c' ps" using p by blast
  have "\<exists>d. ps = [[d]] \<and> jget d ''arrival_source'' = jget (fmem c pending_question) ''source'' \<and> jget d ''alarm_disarm_confirmed'' = JTrue"
    using d 1(2,5) by (auto simp: disarm_build_def Let_def)
  moreover have "fmem c' pending_question = JNull" "fper c' = fper c"
    using d real_same_reads(2) [OF 1(1)] by (auto simp: disarm_build_def Let_def)
  ultimately show ?thesis using p by blast
qed

text \<open>A press that sends nothing keeps the pending question, or clears it.\<close>

lemma press_silent:
  assumes "is_obj m" "\<not> emits (alarm_press e c m)"
  shows "fper (ctx_of (alarm_press e c m)) = fper c \<and>
    (fmem (ctx_of (alarm_press e c m)) pending_question = fmem c pending_question \<or> fmem (ctx_of (alarm_press e c m)) pending_question = JNull)"
proof -
  obtain c1 m1 where 1: "real_same c c1" "alarm_press e c m = (case pressed m of
       JStr s \<Rightarrow> if s = [] then Stop c1 else if starts_with s ''ALARME_TESTE_'' then press_test e c1 m1 else press_real e c1 m1
     | _ \<Rightarrow> Stop c1)"
    by (rule press_cases [OF assms(1)])
  have t: "real_same c (ctx_of (press_test e c1 m1))"
    using press_test_quiet [of c1 e m1] 1(1) real_same_trans by (auto simp: quiet_def)
  have "ctx_of (press_real e c1 m1) = c1 \<or> ctx_of (press_real e c1 m1) = fset c1 pending_question JNull"
    by (auto simp: press_real_def Let_def real_clear_def disarm_build_def split: option.split bool.split)
  moreover have "alarm_press e c m \<in> {Stop c1, press_test e c1 m1, press_real e c1 m1}"
    unfolding 1(2) by (auto split: jv.split)
  ultimately show ?thesis using real_same_reads [OF 1(1)] real_same_reads [OF t] by auto
qed

lemma ack_pending:
  assumes "question_complete (jget a ''alarmConfirmationCandidate'')"
    and "question_promotes e a (fmem c pending_question) (jget a ''alarmConfirmationCandidate'')"
  shows "fmem (ctx_of (alarm_ack e c a)) pending_question = jget a ''alarmConfirmationCandidate''"
  using assms by (simp add: alarm_ack_def Let_def)

lemma question_reads [simp]:
  "jget (question_of now token m) ''confirmAction'' = JStr (''ALARME_DESARMAR_'' @ token)"
  "jget (question_of now token m) ''cancelAction'' = JStr (''ALARME_MANTER_ARMADO_'' @ token)"
  "jget (question_of now token m) ''createdAt'' = JNum now" "jget (question_of now token m) ''deliveryId'' = JStr token"
  "jget (question_of now token m) ''expiresAt'' = JNum (now + jnum_of (jget m ''policy'') ''confirmation_ttl_s'' * 1000)"
  "jget (question_of now token m) ''source'' = jget m ''arrival_source''"
  "\<not> nullish (question_of now token m)" "truthy (question_of now token m)"
  by (simp_all add: question_of_def)

lemma press_disarms:
  assumes "is_obj p" "fmem c pending_question = question_of now token m" "pressed p = JStr (''ALARME_DESARMAR_'' @ token)"
    and "alarm_now e p \<le> now + jnum_of (jget m ''policy'') ''confirmation_ttl_s'' * 1000"
  shows "emits (alarm_press e c p)"
proof -
  obtain c1 m1 where 1: "real_same c c1" "is_obj m1"
    "jget (jget m1 ''confirmation'') ''action'' = pressed p" "jget (jget m1 ''confirmation'') ''now'' = JNum (alarm_now e p)"
    "jget (jget m1 ''confirmation'') ''pending'' = fmem c pending_question"
    "alarm_press e c p = (case pressed p of
       JStr s \<Rightarrow> if s = [] then Stop c1 else if starts_with s ''ALARME_TESTE_'' then press_test e c1 m1 else press_real e c1 m1
     | _ \<Rightarrow> Stop c1)"
    by (rule press_cases [OF assms(1)])
  let ?x = "now + jnum_of (jget m ''policy'') ''confirmation_ttl_s'' * 1000"
  have "\<not> ?x < alarm_now e p" using assms(4) by (auto simp: less_jnum_def)
  then have "press_real e c1 m1 = disarm_build e c1 m1"
    by (simp add: press_real_def Let_def 1(3-5) assms(2,3) act_loose_def)
  moreover have "emits (disarm_build e c1 m1)" by (simp add: disarm_build_def Let_def)
  ultimately show ?thesis unfolding 1(6) assms(3) by simp
qed

lemma no_question_no_command: "is_obj p \<Longrightarrow> nullish (fmem c pending_question) \<Longrightarrow> \<not> emits (alarm_press e c p)"
  using press_emits [of p e c] by (auto simp: emits_iff)

lemma acceptance_disarms_once_facts:
  assumes "jget a ''alarmConfirmationCandidate'' = question_of now token m" "question_complete (question_of now token m)"
    and "question_promotes e a (fmem c pending_question) (question_of now token m)"
    and "is_obj p" "pressed p = JStr (''ALARME_DESARMAR_'' @ token)"
    and "alarm_now e' p \<le> now + jnum_of (jget m ''policy'') ''confirmation_ttl_s'' * 1000"
  shows "\<exists>c' d. alarm_press e' (ctx_of (alarm_ack e c a)) p = Emit c' [[d]] \<and> jget d ''arrival_source'' = jget m ''arrival_source'' \<and>
    fmem c' pending_question = JNull \<and> (\<forall>e'' p'. is_obj p' \<longrightarrow> \<not> emits (alarm_press e'' c' p'))"
proof -
  have q: "fmem (ctx_of (alarm_ack e c a)) pending_question = question_of now token m"
    using ack_pending [of a e c] assms(1-3) by simp
  obtain c' ps where run: "alarm_press e' (ctx_of (alarm_ack e c a)) p = Emit c' ps"
    using press_disarms [OF assms(4) q assms(5,6)] by (auto simp: emits_iff)
  show ?thesis
    using press_emits [OF assms(4) run] run no_question_no_command [of _ c'] by (auto simp: q)
qed

text \<open>C15: Each acceptance of a question lets one confirming press through: once the service has accepted
  the question and no other one is pending, pressing its button in time sends the command for its source,
  and the command uses the question up, so no further press sends anything.\<close>

theorem acceptance_disarms_once:
  assumes "jget a ''alarmConfirmationCandidate'' = question_of now token m" "question_complete (question_of now token m)"
    and "question_promotes e a (fmem c pending_question) (question_of now token m)"
    and "is_obj p" "pressed p = JStr (''ALARME_DESARMAR_'' @ token)"
    and "alarm_now e' p \<le> now + jnum_of (jget m ''policy'') ''confirmation_ttl_s'' * 1000"
  shows "\<exists>c' d. alarm_press e' (ctx_of (alarm_ack e c a)) p = Emit c' [[d]] \<and> jget d ''arrival_source'' = jget m ''arrival_source'' \<and>
    fmem c' pending_question = JNull \<and> (\<forall>e'' p'. is_obj p' \<longrightarrow> \<not> emits (alarm_press e'' c' p'))"
  using assms by (rule acceptance_disarms_once_facts)

text \<open>The second phone's acceptance may come after the command: it opens the question again.\<close>

corollary answered_question_reopens:
  assumes "jget a ''alarmConfirmationCandidate'' = question_of now token m" "question_complete (question_of now token m)"
    and "question_promotes e a (fmem c pending_question) (question_of now token m)"
    and "is_obj p" "pressed p = JStr (''ALARME_DESARMAR_'' @ token)"
    and "alarm_now e' p \<le> now + jnum_of (jget m ''policy'') ''confirmation_ttl_s'' * 1000"
  shows "\<exists>c' d. alarm_press e' (ctx_of (alarm_ack e c a)) p = Emit c' [[d]] \<and> emits (alarm_press e' (ctx_of (alarm_ack e c' a)) p)"
proof -
  obtain c' d where 1: "alarm_press e' (ctx_of (alarm_ack e c a)) p = Emit c' [[d]]" "fmem c' pending_question = JNull"
    using acceptance_disarms_once_facts [OF assms] by blast
  then have "question_promotes e a (fmem c' pending_question) (question_of now token m)" by (simp add: question_promotes_def)
  then show ?thesis using 1(1) acceptance_disarms_once_facts [OF assms(1,2) _ assms(4-6), of e c'] by auto
qed


section \<open>Every command answers a question\<close>

text \<open>The world of the tab: its context, the questions sent (each with the arrival that caused it
  and that message as the panel was read), the number
  of acceptances, and the commands sent (each with the time and the message that caused it). The phones and the
  notification service may deliver in any order and more than once; an acceptance carries a question that was sent.\<close>

record alarm_world =
  aw_ctx :: ctx
  asked :: "(jv \<times> jv \<times> jv) list"
  accepted :: nat
  commands :: "(jnum \<times> jv \<times> jv) list"

fun run_ports :: "ports run \<Rightarrow> ports" where
  "run_ports (Emit c ps) = ps"
| "run_ports _ = []"

definition after_arrival :: "alarm_world \<Rightarrow> env \<Rightarrow> jv \<Rightarrow> jv \<Rightarrow> ports run \<Rightarrow> alarm_world" where
  "after_arrival w e m b r = w\<lparr>aw_ctx := ctx_of r,
     asked := map (\<lambda>x. (m, b, jget x ''alarmConfirmationCandidate'')) (port 0 (run_ports r)) @ asked w,
     commands := map (\<lambda>x. (clock e, m, x)) (port 1 (run_ports r)) @ commands w\<rparr>"

definition after_press :: "alarm_world \<Rightarrow> env \<Rightarrow> jv \<Rightarrow> ports run \<Rightarrow> alarm_world" where
  "after_press w e m r = w\<lparr>aw_ctx := ctx_of r, commands := map (\<lambda>x. (clock e, m, x)) (port 0 (run_ports r)) @ commands w\<rparr>"

definition alarm_start :: "ctx \<Rightarrow> bool" where
  "alarm_start c = (fper c alarm_policy_key = JUndef \<and> fmem c pending_question = JUndef)"

inductive alarm_reached :: "alarm_world \<Rightarrow> bool" where
  begins: "alarm_start c \<Longrightarrow> alarm_reached \<lparr>aw_ctx = c, asked = [], accepted = 0, commands = []\<rparr>"
| arrives: "alarm_reached w \<Longrightarrow> is_obj m \<Longrightarrow> is_obj (panel (alarm_normalize e m)) \<Longrightarrow>
    alarm_reached (after_arrival w e m (panel (alarm_normalize e m)) (alarm_arrival e panel token (aw_ctx w) m))"
| accepts: "alarm_reached w \<Longrightarrow> (a, b, jget m ''alarmConfirmationCandidate'') \<in> set (asked w) \<Longrightarrow>
    alarm_reached (w\<lparr>aw_ctx := ctx_of (alarm_ack e (aw_ctx w) m), accepted := Suc (accepted w)\<rparr>)"
| fails: "alarm_reached w \<Longrightarrow> alarm_reached (w\<lparr>aw_ctx := ctx_of (alarm_failure (aw_ctx w) m)\<rparr>)"
| presses: "alarm_reached w \<Longrightarrow> is_obj m \<Longrightarrow> jget m ''arrival_now'' = JUndef \<Longrightarrow> fin (clock e) \<Longrightarrow>
    alarm_reached (after_press w e m (alarm_press e (aw_ctx w) m))"
| resets: "alarm_reached w \<Longrightarrow> alarm_reached (w\<lparr>aw_ctx := ctx_of (alarm_test_reset e (aw_ctx w) m)\<rparr>)"
| configures: "alarm_reached w \<Longrightarrow> is_obj m \<Longrightarrow> alarm_reached (w\<lparr>aw_ctx := ctx_of (alarm_policy_flow (aw_ctx w) m)\<rparr>)"
| shares: "alarm_reached w \<Longrightarrow> alarm_reached (w\<lparr>aw_ctx := gset (aw_ctx w) k v\<rparr>)"

definition ttl_kept :: "jv \<Rightarrow> bool" where
  "ttl_kept p = (jget p ''version'' = JNum 1 \<longrightarrow> jnum_of p ''confirmation_ttl_s'' \<le> Fin 900)"

text \<open>A question of the code, at most fifteen minutes long.\<close>

definition fair_question :: "jv \<Rightarrow> bool" where
  "fair_question q = (\<exists>now token ttl src.
     jget q ''confirmAction'' = JStr (''ALARME_DESARMAR_'' @ token) \<and> jget q ''createdAt'' = JNum now \<and>
     jget q ''expiresAt'' = JNum (now + ttl * 1000) \<and> ttl \<le> Fin 900 \<and> jget q ''source'' = src)"

definition answers :: "jnum \<Rightarrow> jv \<Rightarrow> jv \<Rightarrow> jv \<Rightarrow> bool" where
  "answers t m d q = (pressed m = jget q ''confirmAction'' \<and> jget d ''arrival_source'' = jget q ''source'' \<and>
     t \<le> jnum_of q ''expiresAt'' \<and> jnum_of q ''expiresAt'' \<le> jnum_of q ''createdAt'' + 900000)"

definition armed_away :: "jv \<Rightarrow> bool" where
  "armed_away m = str_loose ''armed_away'' (jget m ''payload'')"

definition alarm_inv :: "alarm_world \<Rightarrow> bool" where
  "alarm_inv w = (ttl_kept (fper (aw_ctx w) alarm_policy_key) \<and>
     (\<forall>(a, b, q) \<in> set (asked w). genuine_arrival a \<and> armed_away b \<and> fair_question q) \<and>
     (\<not> nullish (fmem (aw_ctx w) pending_question) \<longrightarrow>
        question_complete (fmem (aw_ctx w) pending_question) \<and> fmem (aw_ctx w) pending_question \<in> (snd \<circ> snd) ` set (asked w)) \<and>
     (\<forall>(t, m, d) \<in> set (commands w). \<exists>(a, b, q) \<in> set (asked w). answers t m d q) \<and>
     length (commands w) + (if nullish (fmem (aw_ctx w) pending_question) then 0 else 1) \<le> accepted w)"

text \<open>A step that keeps a valid policy, keeps or clears the pending question, and sends nothing.\<close>

lemma alarm_inv_same:
  assumes "alarm_inv w" "ttl_kept (fper c alarm_policy_key)"
    and "fmem c pending_question = fmem (aw_ctx w) pending_question \<or> fmem c pending_question = JNull"
  shows "alarm_inv (w\<lparr>aw_ctx := c\<rparr>)"
  using assms(3)
proof
  assume "fmem c pending_question = fmem (aw_ctx w) pending_question"
  then show ?thesis using assms(1,2) by (simp add: alarm_inv_def)
next
  assume "fmem c pending_question = JNull"
  then show ?thesis using assms(1,2) by (simp add: alarm_inv_def)
qed

lemma policy_flow_keeps:
  assumes "ttl_kept (fper c alarm_policy_key)" "is_obj m"
  shows "ttl_kept (fper (ctx_of (alarm_policy_flow c m)) alarm_policy_key)"
    and "fmem (ctx_of (alarm_policy_flow c m)) = fmem c"
proof -
  let ?p = "alarm_candidate (dflt (jget m ''payload'') (JObj []))"
  have "jnum_of (jspread (JObj [(''version'', JNum 1)]) ?p) ''confirmation_ttl_s'' \<le> Fin 900"
    if "list_all (alarm_value_ok ?p) alarm_bounds"
    using that by (simp add: alarm_bounds_def alarm_value_ok_def alarm_candidate_def jspread_def)
  then show "ttl_kept (fper (ctx_of (alarm_policy_flow c m)) alarm_policy_key)"
    using assms by (auto simp: alarm_policy_flow_def alarm_policy_validate_def alarm_policy_store_def alarm_policy_reject_def
        ttl_kept_def Let_def)
  show "fmem (ctx_of (alarm_policy_flow c m)) = fmem c"
    by (simp add: alarm_policy_flow_def alarm_policy_store_def alarm_policy_reject_def Let_def)
qed

text \<open>What an arrival does: nothing the real question depends on, or it asks.\<close>

lemma arrival_cases:
  fixes token
  assumes "is_obj m" "is_obj (panel (alarm_normalize e m))" "ttl_kept (fper c alarm_policy_key)"
  defines "r \<equiv> alarm_arrival e panel token c m"
  shows "port 0 (run_ports r) = [] \<and> port 1 (run_ports r) = [] \<and> real_same c (ctx_of r) \<or>
    (\<exists>x. port 0 (run_ports r) = [x] \<and> port 1 (run_ports r) = [] \<and> genuine_arrival m \<and> armed_away (panel (alarm_normalize e m)) \<and>
      fair_question (jget x ''alarmConfirmationCandidate'') \<and> fmem (ctx_of r) pending_question = JNull \<and> fper (ctx_of r) = fper c)"
proof -
  let ?n = "alarm_normalize e m"
  have test: "quiet c (alarm_test e token c ?n)" using alarm_test_quiet assms(1) by simp
  have stop: "alarm_ask e panel token c ?n = Stop c" if "\<not> emits (alarm_ask e panel token c ?n)"
    using that by (auto simp: alarm_ask_def Let_def request_build_def)
  consider "alarm_entry e c m = Stop c" | "alarm_entry e c m = Emit c [[], [?n]]" | "alarm_entry e c m = Emit c [[?n], []]"
    using entry_shape [of e c m] by blast
  then show ?thesis
  proof cases
    case 2
    then show ?thesis using test by (cases "alarm_test e token c ?n") (simp_all add: r_def alarm_arrival_def)
  next
    case 3
    note g = entry_production [OF assms(1) 3]
    show ?thesis
    proof (cases "emits (alarm_ask e panel token c ?n)")
      case True
      then obtain c' ps where ask: "alarm_ask e panel token c ?n = Emit c' ps" by (auto simp: emits_iff)
      obtain x m2 where x: "ps = [[x]]" "m2 = alarm_policy_load c (panel ?n)" "jget m2 ''policy_available'' = JTrue"
        "c' = ctx_of (request_build e token c (alarm_now e m2) m2)" "armed_away (panel ?n)"
        "jget x ''alarmConfirmationCandidate'' = question_of (alarm_now e m2) token m2"
        using ask_emits [OF ask] assms(2) armed_away_def by blast
      have "jget m2 ''policy'' = fper c alarm_policy_key" "jget (fper c alarm_policy_key) ''version'' = JNum 1"
        using x(2,3) assms(2) by (auto simp: alarm_policy_load_def Let_def elim: jseq.elims)
      then have "jnum_of (jget m2 ''policy'') ''confirmation_ttl_s'' \<le> Fin 900" using assms(3) by (simp add: ttl_kept_def)
      then have "fair_question (jget x ''alarmConfirmationCandidate'')" unfolding x(6) fair_question_def question_reads by blast
      moreover have "fmem c' pending_question = JNull \<and> fper c' = fper c" by (simp add: x(4) request_build_def Let_def)
      ultimately show ?thesis using 3 ask g x(5) by (simp add: r_def alarm_arrival_def x(1))
    qed (use 3 stop in \<open>simp add: r_def alarm_arrival_def\<close>)
  qed (simp add: r_def alarm_arrival_def)
qed

lemma arrival_keeps:
  assumes "alarm_inv w" "is_obj m" "is_obj (panel (alarm_normalize e m))"
  shows "alarm_inv (after_arrival w e m (panel (alarm_normalize e m)) (alarm_arrival e panel token (aw_ctx w) m))"
proof -
  have p: "ttl_kept (fper (aw_ctx w) alarm_policy_key)" using assms(1) by (simp add: alarm_inv_def)
  from arrival_cases [where panel = panel and e = e, OF assms(2,3) p, of token] show ?thesis
  proof (elim disjE exE conjE)
    assume "port 0 (run_ports (alarm_arrival e panel token (aw_ctx w) m)) = []" "port 1 (run_ports (alarm_arrival e panel token (aw_ctx w) m)) = []"
      "real_same (aw_ctx w) (ctx_of (alarm_arrival e panel token (aw_ctx w) m))"
    then show ?thesis using assms(1) by (simp add: alarm_inv_def after_arrival_def real_same_def)
  next
    fix x
    assume "port 0 (run_ports (alarm_arrival e panel token (aw_ctx w) m)) = [x]" "port 1 (run_ports (alarm_arrival e panel token (aw_ctx w) m)) = []"
      "genuine_arrival m" "armed_away (panel (alarm_normalize e m))" "fair_question (jget x ''alarmConfirmationCandidate'')"
      "fmem (ctx_of (alarm_arrival e panel token (aw_ctx w) m)) pending_question = JNull"
      "fper (ctx_of (alarm_arrival e panel token (aw_ctx w) m)) = fper (aw_ctx w)"
    then show ?thesis using assms(1) by (fastforce simp: alarm_inv_def after_arrival_def)
  qed
qed

lemma ack_keeps:
  assumes "alarm_inv w" "(a, b, jget m ''alarmConfirmationCandidate'') \<in> set (asked w)"
  shows "alarm_inv (w\<lparr>aw_ctx := ctx_of (alarm_ack e (aw_ctx w) m), accepted := Suc (accepted w)\<rparr>)"
proof -
  define c' where "c' = ctx_of (alarm_ack e (aw_ctx w) m)"
  have "fper c' = fper (aw_ctx w)" by (simp add: c'_def alarm_ack_def Let_def)
  moreover have "fmem c' pending_question = fmem (aw_ctx w) pending_question \<or>
    fmem c' pending_question = jget m ''alarmConfirmationCandidate'' \<and> question_complete (jget m ''alarmConfirmationCandidate'')"
    by (simp add: c'_def alarm_ack_def Let_def)
  moreover have i: "ttl_kept (fper (aw_ctx w) alarm_policy_key)" using assms(1) by (simp add: alarm_inv_def)
  ultimately have "alarm_inv (w\<lparr>aw_ctx := c'\<rparr>) \<or>
    fper c' = fper (aw_ctx w) \<and> fmem c' pending_question = jget m ''alarmConfirmationCandidate'' \<and> question_complete (jget m ''alarmConfirmationCandidate'')"
    using alarm_inv_same [OF assms(1), of c'] by auto
  then show ?thesis unfolding c'_def[symmetric]
  proof
    assume "alarm_inv (w\<lparr>aw_ctx := c'\<rparr>)"
    then show "alarm_inv (w\<lparr>aw_ctx := c', accepted := Suc (accepted w)\<rparr>)" by (simp add: alarm_inv_def)
  next
    assume new: "fper c' = fper (aw_ctx w) \<and> fmem c' pending_question = jget m ''alarmConfirmationCandidate'' \<and>
      question_complete (jget m ''alarmConfirmationCandidate'')"
    have "jget m ''alarmConfirmationCandidate'' \<in> (snd \<circ> snd) ` set (asked w)" using assms(2) by force
    then show "alarm_inv (w\<lparr>aw_ctx := c', accepted := Suc (accepted w)\<rparr>)" using assms(1) new by (auto simp: alarm_inv_def split: if_splits)
  qed
qed

lemma fair_answer:
  assumes "fair_question q" "question_complete q" "act_loose (pressed m) (jget q ''confirmAction'')"
    and "later_than (JNum t) (jget q ''expiresAt'') = Some False" "fin t" "jget d ''arrival_source'' = jget q ''source''"
  shows "answers t m d q"
proof -
  obtain now token ttl where q: "jget q ''confirmAction'' = JStr (''ALARME_DESARMAR_'' @ token)" "jget q ''createdAt'' = JNum now"
    "jget q ''expiresAt'' = JNum (now + ttl * 1000)" "ttl \<le> Fin 900"
    using assms(1) by (auto simp: fair_question_def)
  have f: "fin now" "fin (now + ttl * 1000)" using assms(2) q by (simp_all add: question_complete_def)
  obtain n s where n: "now = Fin n" "now + ttl * 1000 = Fin s" using f by (auto simp: fin_iff)
  obtain l where l: "ttl = Fin l" using n by (cases ttl) auto
  obtain u where u: "t = Fin u" using assms(5) by (auto simp: fin_iff)
  have "pressed m = jget q ''confirmAction''" using assms(3) q(1) by (cases "pressed m") (simp_all add: act_loose_def)
  then show ?thesis using assms(4,6) q n l u by (auto simp: answers_def)
qed

lemma press_keeps:
  assumes "alarm_inv w" "is_obj m" "jget m ''arrival_now'' = JUndef" "fin (clock e)"
  shows "alarm_inv (after_press w e m (alarm_press e (aw_ctx w) m))"
proof -
  let ?q = "fmem (aw_ctx w) pending_question"
  have now: "alarm_now e m = clock e" using assms(3) by (simp add: alarm_now_def)
  have silent: "alarm_inv (after_press w e m (alarm_press e (aw_ctx w) m))" if "\<not> emits (alarm_press e (aw_ctx w) m)"
  proof -
    have "run_ports (alarm_press e (aw_ctx w) m) = []" using that by (cases "alarm_press e (aw_ctx w) m") simp_all
    then have "after_press w e m (alarm_press e (aw_ctx w) m) = w\<lparr>aw_ctx := ctx_of (alarm_press e (aw_ctx w) m)\<rparr>"
      by (simp add: after_press_def)
    moreover have "ttl_kept (fper (aw_ctx w) alarm_policy_key)" using assms(1) by (simp add: alarm_inv_def)
    ultimately show ?thesis using press_silent [OF assms(2) that] alarm_inv_same [OF assms(1)] by simp
  qed
  show ?thesis
  proof (cases "alarm_press e (aw_ctx w) m")
    case (Emit c' ps)
    obtain d where d: "ps = [[d]]" "\<not> nullish ?q" "later_than (JNum (clock e)) (jget ?q ''expiresAt'') = Some False"
      "act_loose (pressed m) (jget ?q ''confirmAction'')" "fmem c' pending_question = JNull" "fper c' = fper (aw_ctx w)"
      "jget d ''arrival_source'' = jget ?q ''source''"
      using press_emits [OF assms(2) Emit] now by auto
    obtain a b where a: "(a, b, ?q) \<in> set (asked w)" "question_complete ?q" using assms(1) d(2) by (auto simp: alarm_inv_def)
    have "fair_question ?q" using assms(1) a(1) by (auto simp: alarm_inv_def)
    then have "answers (clock e) m d ?q" using fair_answer a(2) d(3,4,7) assms(4) by blast
    then have "\<exists>(a, b, q) \<in> set (asked w). answers (clock e) m d q" using a(1) by blast
    then show ?thesis using assms(1) d by (simp add: alarm_inv_def after_press_def Emit)
  next
    case (Stop c')
    then show ?thesis using silent by simp
  next
    case (Raise c')
    then show ?thesis using silent by simp
  qed
qed

lemma reached_inv: "alarm_reached w \<Longrightarrow> alarm_inv w"
proof (induction rule: alarm_reached.induct)
  case (begins c)
  then show ?case by (simp add: alarm_inv_def alarm_start_def ttl_kept_def)
next
  case (configures w m)
  then have "ttl_kept (fper (aw_ctx w) alarm_policy_key)" by (simp add: alarm_inv_def)
  note k = policy_flow_keeps [OF this configures.hyps(2)]
  show ?case by (rule alarm_inv_same [OF configures.IH k(1)]) (simp add: k(2))
next
  case (resets w e m)
  then show ?case by (intro alarm_inv_same) (simp_all add: alarm_test_reset_def Let_def alarm_inv_def)
next
  case (shares w k v)
  then show ?case by (intro alarm_inv_same) (simp_all add: alarm_inv_def)
next
  case (fails w m)
  then show ?case by (intro alarm_inv_same) (simp_all add: alarm_failure_def alarm_inv_def)
qed (use arrival_keeps ack_keeps press_keeps in blast)+


text \<open>C13: In every reachable state, whatever the interleaving and whatever the reader of the panel answers, each
  command to disarm comes from a press of the button of a question sent before: asked for a production arrival
  whose contract is complete, with the panel read as armed, and pressed before the question expired, at most
  fifteen minutes after it was asked. There are never more commands than acceptances.\<close>

theorem disarm_answers_question:
  assumes "alarm_reached w" "(t, m, d) \<in> set (commands w)"
  shows "(\<exists>a b q. (a, b, q) \<in> set (asked w) \<and> genuine_arrival a \<and> armed_away b \<and> answers t m d q) \<and>
    length (commands w) \<le> accepted w"
proof -
  have i: "alarm_inv w" by (rule reached_inv [OF assms(1)])
  then obtain a b q where "(a, b, q) \<in> set (asked w)" "answers t m d q" using assms(2) by (fastforce simp: alarm_inv_def)
  moreover from this(1) i have "genuine_arrival a \<and> armed_away b" by (auto simp: alarm_inv_def)
  moreover have "length (commands w) \<le> accepted w" using i by (simp add: alarm_inv_def)
  ultimately show ?thesis by blast
qed

section \<open>The theorems on concrete messages\<close>

definition alarm_settings :: jv where
  "alarm_settings = JObj [(''payload'', JObj [(''cooldown_s'', JNum 60), (''confirmation_ttl_s'', JNum 300),
     (''delivery_window_s'', JNum 30), (''test_ttl_s'', JNum 120)])]"

definition alarm_home :: ctx where
  "alarm_home = ctx_of (alarm_policy_flow empty_ctx alarm_settings)"

lemma alarm_home_reads:
  "jget (fper alarm_home alarm_policy_key) ''version'' = JNum 1" "jget (fper alarm_home alarm_policy_key) ''confirmation_ttl_s'' = JNum 300"
  "fmem alarm_home = (\<lambda>_. JUndef)"
  by (simp_all add: alarm_home_def alarm_policy_flow_def alarm_policy_validate_def alarm_policy_store_def alarm_settings_def
      alarm_candidate_def alarm_bounds_def alarm_value_ok_def jspread_def dflt_def Let_def empty_ctx_def)

definition alarm_return :: "bool \<Rightarrow> jv" where
  "alarm_return test = JObj [(''payload'', JObj [(''contract'', JStr ''security.arrival.v1''), (''kind'', JStr ''arrival''),
     (''source'', JStr ''resident_primary''), (''arriving'', JArr [JStr ''resident_primary'']), (''arrival_stage'', JStr ''approach''),
     (''arrival_direction'', JStr ''returning''), (''external_cycle_confirmed'', JTrue), (''test_mode'', JBool test)])]"

definition panel_armed :: "jv \<Rightarrow> jv" where
  "panel_armed m = jset m ''payload'' (JStr ''armed_away'')"

definition press_of :: "string \<Rightarrow> jv" where
  "press_of a = JObj [(''payload'', JObj [(''action'', JStr a)])]"

lemma press_of_reads [simp]: "is_obj (press_of a)" "pressed (press_of a) = JStr a" "jget (press_of a) ''arrival_now'' = JUndef"
  by (simp_all add: press_of_def pressed_def dflt_def)

abbreviation alarm_return_asked :: "ports run" where
  "alarm_return_asked \<equiv> alarm_arrival (host_at (Fin 1000)) panel_armed ''T1'' alarm_home (alarm_return False)"

lemma alarm_return_sent:
  obtains c x m2 where "alarm_return_asked = Emit c [[x], []]" "fmem c pending_question = JNull"
    "jget x ''alarmConfirmationCandidate'' = question_of (Fin 1000) ''T1'' m2" "jget (jget m2 ''policy'') ''confirmation_ttl_s'' = JNum 300"
    "jget m2 ''arrival_source'' = JStr ''resident_primary''"
proof -
  let ?e = "host_at (Fin 1000)" and ?m = "alarm_return False"
  let ?n = "alarm_normalize ?e ?m"
  define m2 where "m2 = alarm_policy_load alarm_home (panel_armed ?n)"
  have n: "is_obj ?n" "jget ?n ''arrival_source'' = JStr ''resident_primary''" "jget ?n ''arrival_now'' = JUndef"
    by (simp_all add: alarm_normalize_def alarm_return_def Let_def dflt_def)
  have "genuine_arrival ?m" by (simp add: genuine_arrival_def alarm_return_def str_among_def lists_source_def)
  then have entry: "alarm_entry ?e alarm_home ?m = Emit alarm_home [[?n], []]"
    by (rule genuine_entry [rotated]) (simp add: alarm_return_def)
  have m2: "is_obj m2" "jget m2 ''policy'' = fper alarm_home alarm_policy_key" "jget m2 ''policy_available'' = JTrue"
    "jget m2 ''arrival_source'' = JStr ''resident_primary''" "alarm_now ?e m2 = Fin 1000"
    using n by (simp_all add: m2_def alarm_policy_load_def panel_armed_def Let_def alarm_home_reads alarm_now_def)
  have r: "\<not> rq_pending (request_read ?e alarm_home m2)" "\<not> rq_inflight (request_read ?e alarm_home m2)"
    "\<not> rq_cooldown (request_read ?e alarm_home m2)" "rq_now (request_read ?e alarm_home m2) = Fin 1000"
    by (simp_all add: request_read_def Let_def alarm_home_reads m2(5) jor_def)
  have armed: "str_loose ''armed_away'' (jget (panel_armed ?n) ''payload'')" using n(1) by (simp add: panel_armed_def)
  obtain c x where run: "request_build ?e ''T1'' alarm_home (Fin 1000) m2 = Emit c [[x]]" "fmem c pending_question = JNull"
    "jget x ''alarmConfirmationCandidate'' = question_of (Fin 1000) ''T1'' m2"
    using m2(1) by (simp add: request_build_def Let_def)
  have "alarm_ask ?e panel_armed ''T1'' alarm_home ?n = Emit c [[x]]"
    by (simp add: alarm_ask_def Let_def m2_def[symmetric] r m2(3) run(1) armed)
  then have "alarm_return_asked = Emit c [[x], []]" by (simp add: alarm_arrival_def entry)
  then show thesis using that [OF _ run(2,3)] m2(2,4) by (simp add: alarm_home_reads)
qed

theorem acceptance_disarms_once_witness:
  "\<exists>c x c' d. alarm_return_asked = Emit c [[x], []] \<and>
     alarm_press (host_at 2000) (ctx_of (alarm_ack (host_at 1500) c x)) (press_of ''ALARME_DESARMAR_T1'') = Emit c' [[d]] \<and>
     jget d ''arrival_source'' = JStr ''resident_primary''"
proof -
  obtain c x m2 where q: "alarm_return_asked = Emit c [[x], []]" "fmem c pending_question = JNull"
    "jget x ''alarmConfirmationCandidate'' = question_of (Fin 1000) ''T1'' m2" "jget (jget m2 ''policy'') ''confirmation_ttl_s'' = JNum 300"
    "jget m2 ''arrival_source'' = JStr ''resident_primary''"
    by (rule alarm_return_sent)
  have "question_complete (question_of (Fin 1000) ''T1'' m2)" by (simp add: question_complete_def q(4))
  from acceptance_disarms_once [OF q(3) this, of "host_at 1500" c "press_of ''ALARME_DESARMAR_T1''" "host_at 2000"] q(1,2,4,5)
  show ?thesis by (auto simp: question_promotes_def alarm_now_def)
qed

theorem disarm_answers_question_witness:
  "\<exists>w m d. alarm_reached w \<and> (2000, m, d) \<in> set (commands w) \<and> (\<exists>a b q. (a, b, q) \<in> set (asked w) \<and> answers 2000 m d q)"
proof -
  let ?e = "host_at (Fin 1000)" and ?m = "alarm_return False" and ?p = "press_of ''ALARME_DESARMAR_T1''" and ?f = "host_at (Fin 2000)"
  obtain c x m2 where q: "alarm_return_asked = Emit c [[x], []]" "fmem c pending_question = JNull"
    "jget x ''alarmConfirmationCandidate'' = question_of (Fin 1000) ''T1'' m2" "jget (jget m2 ''policy'') ''confirmation_ttl_s'' = JNum 300"
    by (rule alarm_return_sent)
  have o: "is_obj alarm_settings" "is_obj ?m" "is_obj (panel_armed (alarm_normalize ?e ?m))"
    by (simp_all add: alarm_settings_def alarm_return_def panel_armed_def)
  define w0 where "w0 = \<lparr>aw_ctx = alarm_home, asked = [], accepted = 0, commands = []\<rparr>"
  define w1 where "w1 = after_arrival w0 ?e ?m (panel_armed (alarm_normalize ?e ?m)) alarm_return_asked"
  define w2 where "w2 = w1\<lparr>aw_ctx := ctx_of (alarm_ack ?e (aw_ctx w1) x), accepted := Suc (accepted w1)\<rparr>"
  define w3 where "w3 = after_press w2 ?f ?p (alarm_press ?f (aw_ctx w2) ?p)"
  have "alarm_start empty_ctx" by (simp add: alarm_start_def empty_ctx_def)
  from alarm_reached.configures [OF alarm_reached.begins [OF this] o(1)] have "alarm_reached w0"
    by (simp add: w0_def alarm_home_def)
  from alarm_reached.arrives [OF this o(2), of panel_armed ?e "''T1''"] o(3) have w1: "alarm_reached w1"
    by (simp add: w1_def w0_def)
  have 1: "aw_ctx w1 = c" "asked w1 = [(?m, panel_armed (alarm_normalize ?e ?m), question_of (Fin 1000) ''T1'' m2)]"
    by (simp_all add: w1_def w0_def after_arrival_def q(1,3))
  then have w2: "alarm_reached w2"
    unfolding w2_def using alarm_reached.accepts [OF w1, of ?m "panel_armed (alarm_normalize ?e ?m)" x] q(3) by simp
  have w3: "alarm_reached w3" unfolding w3_def by (rule alarm_reached.presses [OF w2]) simp_all
  have "question_complete (question_of (Fin 1000) ''T1'' m2)" by (simp add: question_complete_def q(4))
  then have "fmem (aw_ctx w2) pending_question = question_of (Fin 1000) ''T1'' m2"
    using ack_pending [of x ?e c] q(2,3) by (simp add: w2_def 1(1) question_promotes_def)
  from press_disarms [OF _ this, of ?p ?f] have "emits (alarm_press ?f (aw_ctx w2) ?p)" by (simp add: alarm_now_def q(4))
  then obtain c3 ps where run: "alarm_press ?f (aw_ctx w2) ?p = Emit c3 ps" by (auto simp: emits_iff)
  obtain d where "ps = [[d]]" using press_emits [OF _ run] by auto
  then have in3: "(Fin 2000, ?p, d) \<in> set (commands w3)" unfolding w3_def after_press_def run by simp
  then show ?thesis using disarm_answers_question [OF w3 in3] w3 unfolding numeral_jnum by blast
qed

end
