(* ===== verification/NoticeHub.thy ===== *)
theory NoticeHub
  imports Places Policies JsRegex
begin

text \<open>
  The mobile channel of the notification hub (tab \<open>hub_notificacoes_moveis\<close>, \<open>notification-hub-*.js\<close> and
  \<open>notification-timing.mjs\<close>): every push to a phone goes through it. A caller saves its payload in the message
  (\<open>hub_wrap\<close>), the hub validates the request (\<open>mobile_validate\<close>), calls the service for one or both phones
  (\<open>hub_serve\<close>), and returns the message with the result in \<open>notification_delivery\<close> and the caller's payload back.

  The answers of the service are a parameter: the list of its answers to the calls of this delivery, \<open>None\<close>
  for an accepted call and the error object otherwise. A delivery that waits for an answer has no result yet.
  JSONata's \<open>!=\<close>, which the test gate uses, is a parameter, too. \<open>glob\<close> stands for the memory store of the
  global context, where the state of the internet connection lies.
\<close>

section \<open>Timing of a notice\<close>

fun shaped :: "string \<Rightarrow> string \<Rightarrow> string option" where
  "shaped [] s = Some s"
| "shaped (p # ps) [] = None"
| "shaped (p # ps) (c # s) = (if (if p = CHR ''d'' then is_digit c else c = p) then shaped ps s else None)"

text \<open>\<open>/^\d{4}-\d\d-\d\dT\d\d:\d\d:\d\d(?:\.\d{1,6})?(?:Z|\+00:00)$/\<close>\<close>

definition stamp_text :: "string \<Rightarrow> bool" where
  "stamp_text s = (case shaped ''dddd-dd-ddTdd:dd:dd'' s of
     None \<Rightarrow> False
   | Some r \<Rightarrow> (let zone = (\<lambda>z. z = ''Z'' \<or> z = ''+00:00''); digits = takeWhile is_digit (tl r) in
       zone r \<or> r \<noteq> [] \<and> hd r = CHR ''.'' \<and> digits \<noteq> [] \<and> length digits \<le> 6 \<and> zone (dropWhile is_digit (tl r))))"

definition stamp_of :: "env \<Rightarrow> jv \<Rightarrow> jnum" where
  "stamp_of e v = (case v of
     JStr s \<Rightarrow> if stamp_text s \<and> fin (date_parse e s) \<and> take 19 (iso e (date_parse e s)) = take 19 s then date_parse e s else NaN
   | _ \<Rightarrow> NaN)"

definition timing_keys :: "string list" where
  "timing_keys = [''version'', ''source_observed_at'', ''source_time_kind'', ''first_detected_at'', ''policy_decided_at'']"

definition timing_empty :: "string \<Rightarrow> jv" where
  "timing_empty reason = JObj
    [(''version'', JNum 1), (''state'', JStr ''unknown''), (''reason'', JStr reason), (''source_observed_at'', JNull),
     (''source_time_kind'', JStr ''unknown''), (''first_detected_at'', JNull), (''policy_decided_at'', JNull),
     (''source_to_detection_ms'', JNull), (''detection_to_decision_ms'', JNull), (''decision_to_accept_ms'', JNull)]"

definition timing_shape :: "jv \<Rightarrow> bool" where
  "timing_shape v = (is_obj v \<and> jget v ''version'' = JNum 1 \<and> length (jkeys v) = length timing_keys \<and>
     list_all (\<lambda>k. k \<in> set (jkeys v)) timing_keys \<and>
     str_among (jget v ''source_time_kind'') [''producer_occurrence'', ''producer_observation'', ''unknown''])"

definition in_order :: "jnum list \<Rightarrow> bool" where
  "in_order xs = (\<forall>i < length xs - 1. xs ! i \<le> xs ! Suc i)"

definition timing_times :: "env \<Rightarrow> jv \<Rightarrow> jnum option list" where
  "timing_times e v = map (\<lambda>k. if jget v k = JNull then None else Some (stamp_of e (jget v k)))
     [''source_observed_at'', ''first_detected_at'', ''policy_decided_at'']"

definition time_delta :: "bool \<Rightarrow> jnum option \<Rightarrow> jnum option \<Rightarrow> jv" where
  "time_delta ordered a b = (case (a, b) of (Some x, Some y) \<Rightarrow> if ordered then JNum (y - x) else JNull | _ \<Rightarrow> JNull)"

definition timing_observation :: "env \<Rightarrow> jv \<Rightarrow> string \<Rightarrow> jv" where
  "timing_observation e v accepted_at =
    (let times = timing_times e v; accepted = stamp_of e (JStr accepted_at) in
     if v = JUndef then timing_empty ''metadata_not_supplied''
     else if \<not> timing_shape v then timing_empty ''invalid_metadata''
     else if list_ex (\<lambda>t. case t of Some x \<Rightarrow> \<not> fin x | None \<Rightarrow> False) times \<or>
         (jget v ''source_time_kind'' = JStr ''unknown'') \<noteq> (jget v ''source_observed_at'' = JNull) then timing_empty ''invalid_metadata''
     else if \<not> fin accepted then timing_empty ''acceptance_clock_invalid''
     else if list_all (\<lambda>t. t = None) times then timing_empty ''timestamps_missing''
     else
       (let ordered = in_order (map the (filter (\<lambda>t. t \<noteq> None) times) @ [accepted]); partial = list_ex (\<lambda>t. t = None) times in
        JObj
         [(''version'', JNum 1),
          (''state'', JStr (if \<not> ordered then ''clock_conflict'' else if partial then ''partial'' else ''observed'')),
          (''reason'', if \<not> ordered then JStr ''wall_clock_order_conflict'' else if partial then JStr ''timestamps_missing'' else JNull),
          (''source_observed_at'', jget v ''source_observed_at''), (''source_time_kind'', jget v ''source_time_kind''),
          (''first_detected_at'', jget v ''first_detected_at''), (''policy_decided_at'', jget v ''policy_decided_at''),
          (''source_to_detection_ms'', time_delta ordered (times ! 0) (times ! 1)),
          (''detection_to_decision_ms'', time_delta ordered (times ! 1) (times ! 2)),
          (''decision_to_accept_ms'', time_delta ordered (times ! 2) (Some accepted))]))"

section \<open>The request\<close>

abbreviation hub_context :: string where "hub_context \<equiv> ''_notification_hub_context''"

abbreviation hub_channel :: string where "hub_channel \<equiv> ''_notification_hub_channel''"

abbreviation hub_recipient :: string where "hub_recipient \<equiv> ''_notification_hub_recipient''"

abbreviation hub_reason :: string where "hub_reason \<equiv> ''_notification_hub_failure_reason''"

abbreviation hub_count :: string where "hub_count \<equiv> ''_notification_hub_recipient_count''"

abbreviation prior_failure :: string where "prior_failure \<equiv> ''_notification_hub_prior_failure''"

abbreviation service_attempt :: string where "service_attempt \<equiv> ''notification_service_attempt''"

definition has_own :: "jv \<Rightarrow> string \<Rightarrow> bool" where
  "has_own v k = (k \<in> set (jkeys v))"

text \<open>The caller's change node; in JSONata an absent value leaves its key out.\<close>

definition hub_wrap :: "jv \<Rightarrow> jv \<Rightarrow> jv \<Rightarrow> jv" where
  "hub_wrap notification text' m = jsets m
    [(hub_context, JObj (filter (\<lambda>kv. snd kv \<noteq> JUndef) [(''payload'', jget m ''payload''), (''notification'', jget m ''notification''),
        (''had_notification'', JBool (jget m ''notification'' \<noteq> JUndef))])),
     (''notification'', notification), (''payload'', text')]"

definition recipients_valid :: "jv \<Rightarrow> bool" where
  "recipients_valid v = (case v of
     JArr xs \<Rightarrow> 1 \<le> length xs \<and> length xs \<le> 2 \<and> distinct xs \<and> list_all (\<lambda>x. str_among x residents) xs
   | _ \<Rightarrow> False)"

definition full_text :: "jv \<Rightarrow> bool" where
  "full_text v = (is_str v \<and> v \<noteq> JStr [])"

definition mobile_request :: "jv \<Rightarrow> bool" where
  "mobile_request m =
    (let n = jget m ''notification'' in
     full_text (jget m ''payload'') \<and> is_obj n \<and> full_text (jget n ''source'') \<and>
     str_among (jget n ''profile'') [''simple'', ''actionable'', ''background_command''] \<and>
     (jget n ''data'' = JUndef \<or> is_obj (jget n ''data'')) \<and> recipients_valid (jget n ''recipients'') \<and>
     (jget n ''title'' = JUndef \<or> is_str (jget n ''title'')) \<and>
     (jget n ''profile'' \<noteq> JStr ''background_command'' \<or>
        str_among (jget m ''payload'') [''request_location_update'', ''clear_notification'']))"

definition array_length :: "jv \<Rightarrow> nat" where
  "array_length v = (case v of JArr xs \<Rightarrow> length xs | _ \<Rightarrow> 0)"

text \<open>Output 0: valid. Output 1: invalid.\<close>

definition mobile_validate :: "jv \<Rightarrow> ports" where
  "mobile_validate m =
    (if \<not> mobile_request m then [[], [jset m hub_reason (JStr ''invalid_mobile_contract'')]]
     else [[jset m hub_count (JNum (Fin (of_nat (array_length (jget (jget m ''notification'') ''recipients'')))))], []])"

section \<open>Ends of a delivery\<close>

definition hub_restore :: "jv \<Rightarrow> jv" where
  "hub_restore m =
    (let original = jget m hub_context;
         m1 = (if truthy original \<and> has_own original ''payload'' then jset m ''payload'' (jget original ''payload'') else m);
         m2 = (if jget original ''had_notification'' = JTrue then jset m1 ''notification'' (jget original ''notification'')
           else jdel m1 ''notification'') in
     foldl jdel m2 [hub_context, hub_channel, hub_recipient, ''_notification_hub_target'', hub_reason])"

definition or_null :: "jv \<Rightarrow> jv" where
  "or_null v = dflt v JNull"

definition copied :: "jv \<Rightarrow> jv" where
  "copied v = (case v of JArr xs \<Rightarrow> JArr xs | _ \<Rightarrow> JArr [])"

definition hub_success :: "env \<Rightarrow> jv \<Rightarrow> jv" where
  "hub_success e m =
    (let n = dflt (jget m ''notification'') (JObj []) in
     hub_restore (jset m ''notification_delivery'' (JObj
      [(''version'', JNum 1), (''status'', JStr ''accepted''), (''channel'', jget m hub_channel),
       (''recipient'', or_null (jget m hub_recipient)), (''recipients'', copied (jget n ''recipients'')),
       (''target'', or_null (jget m ''_notification_hub_target'')), (''operation'', or_null (jget n ''operation'')),
       (''source'', dflt (jget n ''source'') (JStr ''unknown'')), (''accepted_at'', JNum (clock e)),
       (''timing'', timing_observation e (jget m ''_notification_timing'') (iso e (clock e)))])))"

definition name_or_unknown :: "jv \<Rightarrow> string" where
  "name_or_unknown v = to_str (dflt v (JStr ''unknown''))"

definition failure_detail :: "jv \<Rightarrow> string" where
  "failure_detail m = take 180 (unlines (to_str (dflt (jget m hub_reason) (dflt (jget m prior_failure)
     (dflt (jget (jget m ''error'') ''message'') (JStr ''channel_service_failed''))))))"

definition failure_observed :: "ctx \<Rightarrow> jv \<Rightarrow> string \<Rightarrow> string \<Rightarrow> bool" where
  "failure_observed c m channel source =
    (let net = js_lower (name_or_unknown (jget (glob c ''startup_readiness_v1'') ''internet_state'')) in
     source \<noteq> ''observabilidade_global'' \<and> \<not> (channel = ''mobile'' \<and> net \<in> {''offline'', ''recovering''}))"

text \<open>The message back to the caller, and the message for the observer.\<close>

definition hub_failure :: "env \<Rightarrow> ctx \<Rightarrow> jv \<Rightarrow> jv \<times> jv option" where
  "hub_failure e c m =
    (let n = dflt (jget m ''notification'') (JObj []); channel = name_or_unknown (jget m hub_channel);
         source = take 100 (name_or_unknown (jget n ''source'')); detail = failure_detail m;
         m1 = jset m ''notification_delivery'' (JObj
          [(''version'', JNum 1), (''status'', JStr ''failed''), (''channel'', JStr channel), (''recipient'', or_null (jget m hub_recipient)),
           (''target'', or_null (jget m ''_notification_hub_target'')), (''operation'', or_null (jget n ''operation'')),
           (''source'', JStr source), (''reason'', JStr detail), (''failed_at'', JNum (clock e))]);
         m2 = jset m1 ''error'' (dflt (jget m1 ''error'') (JObj [(''message'', JStr detail),
           (''source'', JObj [(''id'', JStr (''notification_hub_'' @ channel)), (''type'', JStr ''notification-hub'')])])) in
     (jdel (hub_restore m2) prior_failure,
      if failure_observed c m channel source then Some (JObj
       [(''payload'', JObj [(''observer_kind'', JStr ''notification_hub_failure''), (''incident_key'', JStr (channel @ '':'' @ source)),
          (''notification_channel'', JStr channel), (''notification_source'', JStr source)]),
        (''alert'', JObj [(''title'', JStr (wording e ''hub failure title'' [channel])), (''message'', JStr (wording e ''hub failure'' [channel, source]))]),
        (''_notification_hub_no_observer'', JTrue)]) else None))"

definition hub_reject :: "env \<Rightarrow> jv \<Rightarrow> jv" where
  "hub_reject e m = hub_restore (jset m ''notification_delivery'' (JObj
    [(''version'', JNum 1), (''status'', JStr ''rejected''), (''channel'', JStr (name_or_unknown (jget m hub_channel))),
     (''recipient'', JNull), (''target'', JNull), (''operation'', or_null (jget (jget m ''notification'') ''operation'')),
     (''source'', JStr (take 100 (name_or_unknown (jget (jget m ''notification'') ''source'')))),
     (''reason'', JStr (to_str (dflt (jget m hub_reason) (JStr ''invalid_contract'')))), (''rejected_at'', JNum (clock e))]))"

definition hub_dry_run :: "env \<Rightarrow> ctx \<Rightarrow> jv \<Rightarrow> ctx \<times> jv" where
  "hub_dry_run e c m =
    (let n = dflt (jget m ''notification'') (JObj []); channel = name_or_unknown (jget m hub_channel);
         result = JObj
          [(''version'', JNum 1), (''simulated'', JTrue), (''dispatched'', JFalse),
           (''status'', JStr (if truthy (jget m hub_reason) then ''rejected'' else ''simulated'')), (''channel'', JStr channel),
           (''recipients'', copied (jget n ''recipients'')), (''targets'', copied (jget n ''targets'')),
           (''operation'', or_null (jget n ''operation'')), (''source'', dflt (jget n ''source'') (JStr ''manual_test'')),
           (''reason'', dflt (jget m hub_reason) (JStr ''test_mode'')), (''completed_at'', JNum (clock e)),
           (''timing'', timing_observation e (jget m ''_notification_timing'') (iso e (clock e)))] in
     (fset c (''notification_hub_'' @ channel @ ''_last_dry_run_v1'') result, hub_restore (jset m ''notification_delivery'' result)))"

section \<open>The calls\<close>

text \<open>The data of the service call: the role of the phone, the bound action and the notice.\<close>

definition hub_call :: "jv \<Rightarrow> jv" where
  "hub_call m =
    (let n = jget m ''notification''; primary = (jget m hub_recipient = JStr ''resident_primary'');
         background = (jget n ''profile'' = JStr ''background_command'');
         act = (if jget n ''profile'' = JStr ''actionable'' then ''notify_actionable'' else if primary then ''notify_3'' else ''notify_2'') in
     JObj [(''role'', JStr (if primary then ''mobile_primary'' else ''mobile_secondary'')), (''action'', JStr act),
       (''data'', jsets (JObj [(''message'', jget m ''payload'')])
          ((if \<not> background \<and> truthy (jget n ''title'') then [(''title'', jget n ''title'')] else []) @
           (if jget n ''data'' \<noteq> JUndef then [(''data'', jget n ''data'')] else [])))])"

definition hub_routed :: "jv \<Rightarrow> bool" where
  "hub_routed m = (str_among (jget (jget m ''notification'') ''profile'') [''simple'', ''actionable'', ''background_command''] \<and>
     str_among (jget m hub_recipient) residents)"

definition pair_primary :: "jv \<Rightarrow> bool" where
  "pair_primary m = (jget m hub_count = JNum 2 \<and> jget m hub_recipient = JStr ''resident_primary'')"

abbreviation service_missing_text :: string where
  "service_missing_text \<equiv> ''HomeAssistantError: Service public_bindings.call not found''"

definition service_retry :: "jv \<Rightarrow> jv" where
  "service_retry m =
    (let t = to_str (dflt (jget (jget m ''error'') ''message'') (JStr [])) in
     jsets m [(''notification_service_missing'', JBool (t = service_missing_text \<or> t = service_missing_text @ ''.'')),
       (service_attempt, JNum (num_or (jget m service_attempt) 0))])"

definition retry_allowed :: "jv \<Rightarrow> bool" where
  "retry_allowed m = (jget m ''notification_service_missing'' = JTrue \<and> jnum_of m service_attempt < 12)"

definition retry_prepare :: "jv \<Rightarrow> jv" where
  "retry_prepare m = jdel (jset m service_attempt (JNum (jnum_of m service_attempt + 1))) ''error''"

definition retry_stays_dry :: "jv \<Rightarrow> bool" where
  "retry_stays_dry m = (let n = jget m ''notification'' in
     jget n ''test_mode'' = JTrue \<and> jget n ''delivery_under_test'' \<noteq> JTrue)"

definition first_of_pair :: "jv \<Rightarrow> bool" where
  "first_of_pair m = (array_length (jget (jget m ''notification'') ''recipients'') = 2 \<and> jget m hub_recipient = JStr ''resident_primary'')"

definition leg_failed :: "jv \<Rightarrow> jv" where
  "leg_failed m = jset (jdel (jset m prior_failure (JStr (take 180 (unlines (to_str (dflt (jget (jget m ''error'') ''message'')
     (JStr ''primary_mobile_service_failed'')))))) ) ''error'') hub_recipient (JStr ''resident_secondary'')"

definition second_leg :: "jv \<Rightarrow> jv" where
  "second_leg m = jset m hub_recipient (JStr ''resident_secondary'')"

record hub_result =
  hr_ctx :: ctx
  hr_calls :: "(jv \<times> jv \<times> bool) list"
  hr_back :: jv
  hr_observer :: "jv option"

definition ended :: "ctx \<Rightarrow> jv \<Rightarrow> jv option \<Rightarrow> hub_result option" where
  "ended c m x = Some \<lparr>hr_ctx = c, hr_calls = [], hr_back = m, hr_observer = x\<rparr>"

definition ended_failed :: "env \<Rightarrow> ctx \<Rightarrow> jv \<Rightarrow> hub_result option" where
  "ended_failed e c m = (let (back', x) = hub_failure e c m in ended c back' x)"

definition noted :: "jv \<Rightarrow> bool \<Rightarrow> hub_result option \<Rightarrow> hub_result option" where
  "noted m ok = map_option (\<lambda>r. r\<lparr>hr_calls := (jget m hub_recipient, hub_call m, ok) # hr_calls r\<rparr>)"

text \<open>From the choice of the profile on, one answer of the service per call: after an accepted call the second
  phone of a pair, or the end; after a missing service a pause and the same call again, twelve times at most;
  after another error the second phone of a pair, or the failure.\<close>

fun hub_serve :: "env \<Rightarrow> jv option list \<Rightarrow> ctx \<Rightarrow> jv \<Rightarrow> hub_result option" where
  "hub_serve e [] c m = (if \<not> hub_routed m then ended c (hub_reject e m) None else None)"
| "hub_serve e (None # as) c m =
    (if \<not> hub_routed m then ended c (hub_reject e m) None
     else noted m True
       (if pair_primary m then hub_serve e as c (second_leg m)
        else if jget m prior_failure \<noteq> JUndef then ended_failed e c m
        else ended c (hub_success e m) None))"
| "hub_serve e (Some err # as) c m =
    (if \<not> hub_routed m then ended c (hub_reject e m) None
     else noted m False
       (let m1 = service_retry (jset m ''error'' err) in
        if retry_allowed m1 then
          (if \<not> fin (jnum_of m1 service_attempt) then None
           else if retry_stays_dry (retry_prepare m1) then (let (c1, m2) = hub_dry_run e c (retry_prepare m1) in ended c1 m2 None)
           else hub_serve e as c (retry_prepare m1))
        else if first_of_pair m1 then hub_serve e as c (leg_failed m1)
        else ended_failed e c m1))"

definition first_recipient :: "jv \<Rightarrow> jv" where
  "first_recipient m = (if jget m hub_count = JNum 1 then (case jget (jget m ''notification'') ''recipients'' of JArr (x # xs) \<Rightarrow> x | _ \<Rightarrow> JUndef)
     else JStr ''resident_primary'')"

text \<open>The whole channel: \<open>neq a b\<close> is JSONata's \<open>a != b\<close>.\<close>

definition hub_deliver :: "(jv \<Rightarrow> jv \<Rightarrow> bool) \<Rightarrow> env \<Rightarrow> jv option list \<Rightarrow> ctx \<Rightarrow> jv \<Rightarrow> hub_result option" where
  "hub_deliver neq e answers c m0 =
    (let m = jset m0 hub_channel (JStr ''mobile''); n = jget m ''notification''; dry = (\<lambda>x. let (c1, m1) = hub_dry_run e c x in ended c1 m1 None) in
     case port 0 (mobile_validate m) of
       [] \<Rightarrow> (let bad = hd (port 1 (mobile_validate m)) in
         if jget n ''test_mode'' = JTrue then dry bad else ended c (hub_reject e bad) None)
     | m1 # _ \<Rightarrow>
         if jget n ''test_mode'' = JTrue \<and> neq (jget n ''delivery_under_test'') JTrue then dry m1
         else hub_serve e answers c (jset m1 hub_recipient (first_recipient m1)))"

section \<open>Records of accepted calls\<close>

definition hex_id :: "jv \<Rightarrow> bool" where
  "hex_id v = (case v of JStr s \<Rightarrow> length s = 32 \<and> list_all (\<lambda>x. is_digit x \<or> 97 \<le> code x \<and> code x \<le> 102) s | _ \<Rightarrow> False)"

definition history_entry :: "env \<Rightarrow> jv \<Rightarrow> jv" where
  "history_entry e m =
    (let n = dflt (jget m ''notification'') (JObj []); channel = jget m hub_channel;
         simulated = (jget n ''test_mode'' = JTrue \<and> jget n ''delivery_under_test'' \<noteq> JTrue) in
     JObj [(''version'', JNum 1), (''accepted_at'', JStr (iso e (clock e))),
       (''timing'', timing_observation e (jget m ''_notification_timing'') (iso e (clock e))),
       (''status'', JStr (if simulated then ''simulated'' else ''accepted'')), (''channel'', channel), (''source'', jget n ''source''),
       (''recipient'', or_null (jget m hub_recipient)), (''target'', or_null (jget m ''_notification_hub_target'')),
       (''operation'', dflt (jget n ''operation'') (JStr ''notify'')), (''profile'', or_null (jget n ''profile'')),
       (''notification_id'', or_null (jget n ''notification_id'')), (''title'', or_null (jget n ''title'')),
       (''message'', if channel = JStr ''alexa'' \<and> has_own (dflt (jget n ''data'') (JObj [])) ''message'' then jget (jget n ''data'') ''message''
          else jget m ''payload''),
       (''data'', or_null (jget n ''data'')), (''correlation_id'', or_null (jget m ''_msgid'')),
       (''delivery_under_test'', JBool (jget n ''delivery_under_test'' = JTrue))])"

text \<open>Output 0: the entry for the file of the hour. Output 1: a dry run.\<close>

definition history_record :: "env \<Rightarrow> ctx \<Rightarrow> jv \<Rightarrow> ports run" where
  "history_record e c m =
    (let entry = history_entry e m; text' = JStr (json_str entry); run' = jget m ''_notification_timing_test_run_id'' in
     if \<not> str_among (jget m hub_channel) [''mobile'', ''alexa'', ''persistent''] then Stop (logged NodeError c)
     else if jget entry ''status'' = JStr ''simulated'' then Emit c [[], [JObj [(''payload'', text'),
       (''notification_delivery'', JObj [(''simulated'', JTrue), (''dispatched'', JFalse), (''channel'', jget m hub_channel),
          (''timing'', jget entry ''timing''), (''run_id'', if hex_id run' then run' else JNull)])]]]
     else Emit c [[JObj [(''payload'', text'),
       (''filename'', JStr (''/data/notification-history/'' @ to_str (jget m hub_channel) @ ''/'' @ take 13 (iso e (clock e)) @ ''.jsonl''))]], []])"

definition hub_dry_terminal :: "ctx \<Rightarrow> jv \<Rightarrow> ports run" where
  "hub_dry_terminal c m =
    (let r = jget m ''notification_delivery'' in
     if jget r ''simulated'' \<noteq> JTrue \<or> jget r ''dispatched'' \<noteq> JFalse then Stop (logged NodeError c)
     else if hex_id (jget r ''run_id'') \<and> str_among (jget r ''channel'') [''mobile'', ''alexa'', ''persistent''] \<and> truthy (jget r ''timing'')
       then Stop (logged NodeLog (logged NodeLog c))
     else Stop (logged NodeLog c))"


section \<open>What a delivery keeps\<close>

lemma is_obj_foldl_jdel [simp]: "is_obj (foldl jdel m ks) = is_obj m"
  by (induction ks arbitrary: m) simp_all

lemma jget_foldl_jdel: "jget (foldl jdel m ks) k = (if k \<in> set ks then JUndef else jget m k)"
  by (induction ks arbitrary: m) auto

definition restored :: "jv \<Rightarrow> jv \<Rightarrow> bool" where
  "restored original x = ((truthy original \<and> has_own original ''payload'' \<longrightarrow> jget x ''payload'' = jget original ''payload'') \<and>
     jget x ''notification'' = (if jget original ''had_notification'' = JTrue then jget original ''notification'' else JUndef))"

lemma hub_restore_restores:
  "is_obj m \<Longrightarrow> restored (jget m hub_context) (hub_restore m)"
  by (simp add: hub_restore_def restored_def jget_foldl_jdel Let_def)

lemma hub_restore_delivery:
  "is_obj m \<Longrightarrow> jget (hub_restore m) ''notification_delivery'' = jget m ''notification_delivery''"
  by (simp add: hub_restore_def jget_foldl_jdel Let_def)

definition hub_closes :: "ctx \<Rightarrow> string \<Rightarrow> jv \<Rightarrow> hub_result \<Rightarrow> bool" where
  "hub_closes c s original r = (hr_ctx r = c \<and> jget (jget (hr_back r) ''notification_delivery'') ''status'' = JStr s \<and> restored original (hr_back r))"

lemma success_closes:
  assumes "is_obj m"
  shows "\<exists>r. ended c (hub_success e m) None = Some r \<and> hr_calls r = [] \<and> hub_closes c ''accepted'' (jget m hub_context) r"
proof -
  let ?m = "jset m ''notification_delivery''"
  have "restored (jget m hub_context) (hub_success e m)"
    using hub_restore_restores [of "?m v" for v] assms by (simp add: hub_success_def Let_def)
  then show ?thesis using assms by (simp add: ended_def hub_closes_def hub_success_def hub_restore_delivery Let_def)
qed

lemma failed_closes:
  assumes "is_obj m"
  shows "\<exists>r. ended_failed e c m = Some r \<and> hr_calls r = [] \<and> hub_closes c ''failed'' (jget m hub_context) r"
proof -
  obtain d er where "fst (hub_failure e c m) = jdel (hub_restore (jset (jset m ''notification_delivery'' d) ''error'' er)) prior_failure"
    "jget d ''status'' = JStr ''failed''"
    by (simp add: hub_failure_def Let_def)
  moreover have "restored (jget m hub_context) (jdel (hub_restore (jset (jset m ''notification_delivery'' d) ''error'' er)) prior_failure)"
    using hub_restore_restores [of "jset (jset m ''notification_delivery'' d) ''error'' er"] assms by (simp add: restored_def)
  ultimately show ?thesis
    using assms by (simp add: ended_failed_def ended_def case_prod_beta hub_closes_def hub_restore_delivery)
qed

text \<open>What the retries leave of a message.\<close>

definition msg_kept :: "jv \<Rightarrow> jv \<Rightarrow> bool" where
  "msg_kept m m' = (is_obj m' \<and> (\<forall>k. k \<notin> {service_attempt, ''notification_service_missing'', ''error''} \<longrightarrow> jget m' k = jget m k))"

lemma msg_kept_refl: "is_obj m \<Longrightarrow> msg_kept m m"
  by (simp add: msg_kept_def)

lemma msg_kept_trans: "msg_kept a b \<Longrightarrow> msg_kept b c \<Longrightarrow> msg_kept a c"
  by (simp add: msg_kept_def)

lemma msg_kept_reads:
  assumes "msg_kept m m'"
  shows "hub_routed m' = hub_routed m" "pair_primary m' = pair_primary m" "first_of_pair m' = first_of_pair m"
    "retry_stays_dry m' = retry_stays_dry m" "hub_call m' = hub_call m" "jget m' hub_recipient = jget m hub_recipient"
    "jget m' prior_failure = jget m prior_failure" "jget m' hub_context = jget m hub_context" "is_obj m'"
  using assms by (simp_all add: msg_kept_def hub_routed_def pair_primary_def first_of_pair_def retry_stays_dry_def hub_call_def)

definition at_attempt :: "jv \<Rightarrow> nat \<Rightarrow> bool" where
  "at_attempt m k = (num_or (jget m service_attempt) 0 = Fin (of_nat k))"

definition service_missing :: "jv \<Rightarrow> bool" where
  "service_missing err = (let t = to_str (dflt (jget err ''message'') (JStr [])) in t = service_missing_text \<or> t = service_missing_text @ ''.'')"

lemma retry_reads:
  fixes err
  assumes "is_obj m" "at_attempt m k"
  defines "m1 \<equiv> service_retry (jset m ''error'' err)"
  shows "msg_kept m m1" "msg_kept m (retry_prepare m1)" "retry_allowed m1 = (service_missing err \<and> k < 12)" "fin (jnum_of m1 service_attempt)"
    "at_attempt m1 k" "at_attempt (retry_prepare m1) (Suc k)"
proof -
  have a: "jnum_of m1 service_attempt = Fin (of_nat k)" "is_obj m1"
    using assms by (simp_all add: service_retry_def at_attempt_def Let_def)
  show "fin (jnum_of m1 service_attempt)" "at_attempt m1 k" "at_attempt (retry_prepare m1) (Suc k)" "msg_kept m m1" "msg_kept m (retry_prepare m1)"
    using a assms(1) by (auto simp: at_attempt_def retry_prepare_def msg_kept_def num_or_def m1_def service_retry_def Let_def)
  have "jget m1 ''notification_service_missing'' = JBool (service_missing err)"
    using assms(1) by (simp add: m1_def service_retry_def service_missing_def Let_def)
  then show "retry_allowed m1 = (service_missing err \<and> k < 12)" using a by (simp add: retry_allowed_def)
qed

section \<open>The legs of a delivery\<close>

text \<open>The abstract machine: a leg takes answers until one is accepted or is an error that is not repeated;
  \<open>k\<close> counts the repetitions, which the legs share.\<close>

fun hub_leg :: "nat \<Rightarrow> jv option list \<Rightarrow> (bool \<times> nat \<times> jv option list) option" where
  "hub_leg k [] = None"
| "hub_leg k (None # as) = Some (True, k, as)"
| "hub_leg k (Some err # as) = (if service_missing err \<and> k < 12 then hub_leg (Suc k) as else Some (False, k, as))"

fun hub_legs :: "nat \<Rightarrow> jv list \<Rightarrow> jv option list \<Rightarrow> (jv \<times> bool) list option" where
  "hub_legs k [] as = Some []"
| "hub_legs k (r # rs) as = (case hub_leg k as of
     None \<Rightarrow> None | Some (ok, k', rest) \<Rightarrow> map_option ((#) (r, ok)) (hub_legs k' rs rest))"

lemma hub_leg_bound: "hub_leg k as = Some (ok, k', rest) \<Longrightarrow> k \<le> k' \<and> k' \<le> max k 12 \<and> length as + k = length rest + Suc k'"
  by (induction k as rule: hub_leg.induct) (auto split: if_splits)

lemma hub_leg_returns: "12 < length as + k \<Longrightarrow> k \<le> 12 \<Longrightarrow> hub_leg k as \<noteq> None"
  by (induction k as rule: hub_leg.induct) auto

lemma hub_legs_return: "12 + length rs \<le> length as + k \<Longrightarrow> k \<le> 12 \<Longrightarrow> hub_legs k rs as \<noteq> None"
proof (induction k rs as rule: hub_legs.induct)
  case (2 k r rs as)
  then obtain ok k' rest where leg: "hub_leg k as = Some (ok, k', rest)" using hub_leg_returns [of as k] by fastforce
  then show ?case using 2 hub_leg_bound [OF leg] by auto
qed simp

definition prefixed :: "(jv \<times> jv \<times> bool) list \<Rightarrow> hub_result option \<Rightarrow> hub_result option" where
  "prefixed xs = map_option (\<lambda>r. r\<lparr>hr_calls := xs @ hr_calls r\<rparr>)"

lemma noted_prefixed: "noted m ok r = prefixed [(jget m hub_recipient, hub_call m, ok)] r"
  by (simp add: noted_def prefixed_def)

lemma prefixed_prefixed: "prefixed xs (prefixed ys r) = prefixed (xs @ ys) r"
  by (cases r) (simp_all add: prefixed_def)

definition leg_calls :: "nat \<Rightarrow> jv \<Rightarrow> bool \<Rightarrow> (jv \<times> jv \<times> bool) list" where
  "leg_calls n m ok = replicate n (jget m hub_recipient, hub_call m, False) @ [(jget m hub_recipient, hub_call m, ok)]"

definition after_leg :: "env \<Rightarrow> ctx \<Rightarrow> bool \<Rightarrow> jv option list \<Rightarrow> jv \<Rightarrow> hub_result option" where
  "after_leg e c ok rest m =
    (if ok then (if pair_primary m then hub_serve e rest c (second_leg m)
       else if jget m prior_failure \<noteq> JUndef then ended_failed e c m else ended c (hub_success e m) None)
     else if first_of_pair m then hub_serve e rest c (leg_failed m) else ended_failed e c m)"

lemma serve_leg:
  assumes "is_obj m" "hub_routed m" "\<not> retry_stays_dry m" "at_attempt m k"
  shows "case hub_leg k as of
      None \<Rightarrow> hub_serve e as c m = None
    | Some (ok, k', rest) \<Rightarrow> \<exists>m' n. msg_kept m m' \<and> at_attempt m' k' \<and> hub_serve e as c m = prefixed (leg_calls n m ok) (after_leg e c ok rest m')"
  using assms
proof (induction k as arbitrary: m rule: hub_leg.induct)
  case (1 k)
  then show ?case by simp
next
  case (2 k as)
  then have "hub_serve e (None # as) c m = prefixed (leg_calls 0 m True) (after_leg e c True as m)"
    by (simp add: noted_prefixed leg_calls_def after_leg_def)
  then show ?case using 2 msg_kept_refl by (fastforce simp del: hub_serve.simps)
next
  case (3 k err as)
  define m1 where "m1 = service_retry (jset m ''error'' err)"
  note r = retry_reads [OF 3(2) 3(5), of err, folded m1_def]
  show ?case
  proof (cases "service_missing err \<and> k < 12")
    case False
    have "hub_serve e (Some err # as) c m = prefixed (leg_calls 0 m False) (after_leg e c False as m1)"
      using 3(3) r(3) False by (simp add: noted_prefixed leg_calls_def after_leg_def m1_def[symmetric])
    then show ?thesis using False r(1,5) by (auto simp del: hub_serve.simps)
  next
    case True
    define m2 where "m2 = retry_prepare m1"
    have m2: "msg_kept m m2" "at_attempt m2 (Suc k)" using r(2,6) by (simp_all add: m2_def)
    note k2 = msg_kept_reads [OF m2(1)]
    have serve: "hub_serve e (Some err # as) c m = prefixed [(jget m hub_recipient, hub_call m, False)] (hub_serve e as c m2)"
      using 3(3,4) r(3,4) True k2(4) by (simp add: noted_prefixed m1_def[symmetric] m2_def[symmetric])
    have ih: "case hub_leg (Suc k) as of
        None \<Rightarrow> hub_serve e as c m2 = None
      | Some (ok, k', rest) \<Rightarrow> \<exists>m' n. msg_kept m2 m' \<and> at_attempt m' k' \<and> hub_serve e as c m2 = prefixed (leg_calls n m2 ok) (after_leg e c ok rest m')"
      by (rule 3(1) [OF True k2(9) _ _ m2(2)]) (use 3(3,4) k2 in simp_all)
    show ?thesis
    proof (cases "hub_leg (Suc k) as")
      case None
      then show ?thesis using ih serve True by (simp add: prefixed_def)
    next
      case (Some x)
      obtain ok k' rest where x: "x = (ok, k', rest)" by (cases x)
      obtain m' n where m': "msg_kept m2 m'" "at_attempt m' k'" "hub_serve e as c m2 = prefixed (leg_calls n m2 ok) (after_leg e c ok rest m')"
        using ih Some x by auto
      have "hub_serve e (Some err # as) c m = prefixed (leg_calls (Suc n) m ok) (after_leg e c ok rest m')"
        unfolding serve m'(3) prefixed_prefixed by (simp add: leg_calls_def k2)
      then show ?thesis using msg_kept_trans [OF m2(1) m'(1)] m'(2) Some x True by (auto simp del: hub_serve.simps)
    qed
  qed
qed

definition ok_calls :: "hub_result \<Rightarrow> jv list" where
  "ok_calls r = map fst (filter (snd \<circ> snd) (hr_calls r))"

lemma ok_calls_prefixed:
  "prefixed (leg_calls n m ok) (Some r) = Some r' \<Longrightarrow> ok_calls r' = (if ok then [jget m hub_recipient] else []) @ ok_calls r"
  by (auto simp: prefixed_def leg_calls_def ok_calls_def filter_replicate)

lemma hub_closes_prefixed: "prefixed xs (Some r) = Some r' \<Longrightarrow> hub_closes c s x r' = hub_closes c s x r"
  by (auto simp: prefixed_def hub_closes_def)

text \<open>The last leg ends the delivery.\<close>

lemma last_leg:
  assumes "is_obj m" "hub_routed m" "\<not> retry_stays_dry m" "at_attempt m k" "\<not> pair_primary m" "\<not> first_of_pair m"
  shows "case hub_leg k as of
      None \<Rightarrow> hub_serve e as c m = None
    | Some (ok, k', rest) \<Rightarrow> \<exists>r. hub_serve e as c m = Some r \<and> ok_calls r = (if ok then [jget m hub_recipient] else []) \<and>
        hub_closes c (if ok \<and> jget m prior_failure = JUndef then ''accepted'' else ''failed'') (jget m hub_context) r"
proof (cases "hub_leg k as")
  case None
  then show ?thesis using serve_leg [OF assms(1-4), where as = as and e = e and c = c] by simp
next
  case (Some x)
  obtain ok k' rest where x: "x = (ok, k', rest)" by (cases x)
  obtain m' n where m': "msg_kept m m'" "hub_serve e as c m = prefixed (leg_calls n m ok) (after_leg e c ok rest m')"
    using serve_leg [OF assms(1-4), where as = as and e = e and c = c] Some x by auto
  note kr = msg_kept_reads [OF m'(1)]
  have "\<exists>r. after_leg e c ok rest m' = Some r \<and> hr_calls r = [] \<and>
      hub_closes c (if ok \<and> jget m prior_failure = JUndef then ''accepted'' else ''failed'') (jget m hub_context) r"
    using success_closes [OF kr(9), of c e] failed_closes [OF kr(9), of e c] assms(5,6) kr by (auto simp: after_leg_def)
  then obtain r where r: "after_leg e c ok rest m' = Some r" "hr_calls r = []"
    "hub_closes c (if ok \<and> jget m prior_failure = JUndef then ''accepted'' else ''failed'') (jget m hub_context) r" by blast
  obtain r' where r': "prefixed (leg_calls n m ok) (Some r) = Some r'" by (simp add: prefixed_def)
  have "ok_calls r' = (if ok then [jget m hub_recipient] else [])" using ok_calls_prefixed [OF r'] r(2) by (simp add: ok_calls_def)
  then show ?thesis using hub_closes_prefixed [OF r'] r(1,3) r' m'(2) Some x by auto
qed


definition leg_order :: "jv \<Rightarrow> jv list" where
  "leg_order m = (case jget (jget m ''notification'') ''recipients'' of JArr [x] \<Rightarrow> [x]
     | _ \<Rightarrow> [JStr ''resident_primary'', JStr ''resident_secondary''])"

definition fresh_message :: "jv \<Rightarrow> bool" where
  "fresh_message m = (is_obj m \<and> jget m service_attempt = JUndef \<and> jget m prior_failure = JUndef)"

definition real_request :: "jv \<Rightarrow> bool" where
  "real_request m = (mobile_request m \<and> jget (jget m ''notification'') ''test_mode'' \<noteq> JTrue)"

text \<open>The message with which the legs begin.\<close>

definition leg_start :: "jv \<Rightarrow> jv" where
  "leg_start m =
    (let m1 = jset (jset m hub_channel (JStr ''mobile'')) hub_count (JNum (Fin (of_nat (array_length (jget (jget m ''notification'') ''recipients''))))) in
     jset m1 hub_recipient (first_recipient m1))"

lemma deliver_serves:
  assumes "is_obj m" "real_request m"
  shows "hub_deliver neq e answers c m = hub_serve e answers c (leg_start m)"
proof -
  have "mobile_request (jset m hub_channel v) = mobile_request m" for v by (simp add: mobile_request_def)
  then show ?thesis using assms by (simp add: hub_deliver_def real_request_def mobile_validate_def leg_start_def Let_def)
qed

lemma request_recipients:
  assumes "mobile_request m"
  obtains x where "jget (jget m ''notification'') ''recipients'' = JArr [x]" "str_among x residents"
  | x y where "jget (jget m ''notification'') ''recipients'' = JArr [x, y]" "x \<noteq> y" "str_among x residents" "str_among y residents"
proof -
  obtain xs where xs: "jget (jget m ''notification'') ''recipients'' = JArr xs" "1 \<le> length xs" "length xs \<le> 2" "distinct xs"
    "list_all (\<lambda>x. str_among x residents) xs"
    using assms by (cases "jget (jget m ''notification'') ''recipients''") (auto simp: mobile_request_def recipients_valid_def Let_def)
  from xs(2,3) have "length xs = 1 \<or> length xs = 2" by arith
  then show thesis using that xs by (auto simp: length_Suc_conv numeral_2_eq_2)
qed

lemma leg_start_reads:
  assumes "is_obj m" "real_request m"
  shows "is_obj (leg_start m)" "hub_routed (leg_start m)" "\<not> retry_stays_dry (leg_start m)"
    "jget (leg_start m) hub_context = jget m hub_context" "jget (leg_start m) prior_failure = jget m prior_failure"
    "jget (leg_start m) service_attempt = jget m service_attempt"
    "jget (leg_start m) ''notification'' = jget m ''notification''"
proof -
  show "is_obj (leg_start m)" "\<not> retry_stays_dry (leg_start m)"
    "jget (leg_start m) hub_context = jget m hub_context" "jget (leg_start m) prior_failure = jget m prior_failure"
    "jget (leg_start m) service_attempt = jget m service_attempt" "jget (leg_start m) ''notification'' = jget m ''notification''"
    using assms by (simp_all add: leg_start_def retry_stays_dry_def real_request_def Let_def)
  have "str_among (jget (jget m ''notification'') ''profile'') [''simple'', ''actionable'', ''background_command'']" "mobile_request m"
    using assms(2) by (simp_all add: real_request_def mobile_request_def Let_def)
  then show "hub_routed (leg_start m)"
    by (elim request_recipients)
      (use assms(1) in \<open>simp_all add: hub_routed_def leg_start_def first_recipient_def array_length_def str_among_def residents_def Let_def\<close>)
qed

lemma second_messages:
  assumes "msg_kept (leg_start m) m'" "is_obj m" "real_request m" "at_attempt m' k" "x = second_leg m' \<or> x = leg_failed m'"
  shows "is_obj x" "hub_routed x" "\<not> retry_stays_dry x" "at_attempt x k" "\<not> pair_primary x" "\<not> first_of_pair x"
    "jget x hub_recipient = JStr ''resident_secondary''" "jget x hub_context = jget m hub_context"
    "jget m prior_failure = JUndef \<Longrightarrow> jget x prior_failure = JUndef \<longleftrightarrow> x = second_leg m'"
proof -
  note s = leg_start_reads [OF assms(2,3)]
  note k = msg_kept_reads [OF assms(1)]
  have n: "jget m' ''notification'' = jget m ''notification''" using assms(1) s(7) by (simp add: msg_kept_def)
  have routed: "str_among (jget (jget m ''notification'') ''profile'') [''simple'', ''actionable'', ''background_command'']"
    using s(2,7) by (simp add: hub_routed_def)
  have dry: "\<not> (jget (jget m ''notification'') ''test_mode'' = JTrue \<and> jget (jget m ''notification'') ''delivery_under_test'' \<noteq> JTrue)"
    using assms(3) by (simp add: real_request_def)
  show "is_obj x" "hub_routed x" "\<not> retry_stays_dry x" "at_attempt x k" "\<not> pair_primary x" "\<not> first_of_pair x"
    "jget x hub_recipient = JStr ''resident_secondary''" "jget x hub_context = jget m hub_context"
    using assms(4,5) k(8,9) s(4) n routed dry
    by (auto simp: second_leg_def leg_failed_def hub_routed_def retry_stays_dry_def at_attempt_def pair_primary_def first_of_pair_def
        str_among_def residents_def)
  show "jget x prior_failure = JUndef \<longleftrightarrow> x = second_leg m'" if "jget m prior_failure = JUndef"
    using assms(5) k(7,9) s(5) that by (auto simp: second_leg_def leg_failed_def)
qed

lemma delivery_legs:
  assumes "fresh_message m" "real_request m"
  shows "case hub_legs 0 (leg_order m) answers of
      None \<Rightarrow> hub_deliver neq e answers c m = None
    | Some legs \<Rightarrow> \<exists>r. hub_deliver neq e answers c m = Some r \<and> ok_calls r = map fst (filter snd legs) \<and>
        hub_closes c (if list_all snd legs then ''accepted'' else ''failed'') (jget m hub_context) r"
proof -
  have o: "is_obj m" and fresh: "jget m service_attempt = JUndef" "jget m prior_failure = JUndef" and req: "mobile_request m"
    using assms by (simp_all add: fresh_message_def real_request_def)
  let ?m = "leg_start m"
  note s = leg_start_reads [OF o assms(2)]
  have a0: "at_attempt ?m 0" using s(6) fresh by (simp add: at_attempt_def)
  have deliver: "hub_deliver neq e answers c m = hub_serve e answers c ?m" by (rule deliver_serves [OF o assms(2)])
  from req show ?thesis
  proof (cases rule: request_recipients)
    case (1 x)
    have r: "jget ?m hub_recipient = x" "\<not> pair_primary ?m" "\<not> first_of_pair ?m"
      using 1 o by (simp_all add: leg_start_def first_recipient_def array_length_def pair_primary_def first_of_pair_def Let_def)
    have "leg_order m = [x]" using 1 by (simp add: leg_order_def)
    then show ?thesis
      using last_leg [OF s(1-3) a0 r(2,3), where as = answers and e = e and c = c] r(1) s(4,5) fresh unfolding deliver
      by (cases "hub_leg 0 answers") auto
  next
    case (2 x y)
    have r: "jget ?m hub_recipient = JStr ''resident_primary''" "pair_primary ?m" "first_of_pair ?m"
      using 2 o by (simp_all add: leg_start_def first_recipient_def array_length_def pair_primary_def first_of_pair_def Let_def)
    have order: "leg_order m = [JStr ''resident_primary'', JStr ''resident_secondary'']" using 2 by (simp add: leg_order_def)
    show ?thesis
    proof (cases "hub_leg 0 answers")
      case None
      then show ?thesis using serve_leg [OF s(1-3) a0, where as = answers and e = e and c = c] order deliver by simp
    next
      case (Some z)
      obtain ok k rest where z: "z = (ok, k, rest)" by (cases z)
      obtain m' n where m': "msg_kept ?m m'" "at_attempt m' k" "hub_serve e answers c ?m = prefixed (leg_calls n ?m ok) (after_leg e c ok rest m')"
        using serve_leg [OF s(1-3) a0, where as = answers and e = e and c = c] Some z by auto
      define w where "w = (if ok then second_leg m' else leg_failed m')"
      have w: "w = second_leg m' \<or> w = leg_failed m'" by (simp add: w_def)
      note sec = second_messages [OF m'(1) o assms(2) m'(2) w]
      have w_ok: "jget w prior_failure = JUndef \<longleftrightarrow> ok"
        using msg_kept_reads(7,9) [OF m'(1)] s(5) fresh by (auto simp: w_def second_leg_def leg_failed_def)
      have after: "after_leg e c ok rest m' = hub_serve e rest c w"
        using msg_kept_reads(2,3) [OF m'(1)] r by (simp add: after_leg_def w_def)
      have last': "case hub_leg k rest of
          None \<Rightarrow> hub_serve e rest c w = None
        | Some (ok2, k', rest') \<Rightarrow> \<exists>r. hub_serve e rest c w = Some r \<and> ok_calls r = (if ok2 then [JStr ''resident_secondary''] else []) \<and>
            hub_closes c (if ok2 \<and> ok then ''accepted'' else ''failed'') (jget m hub_context) r"
        by (rule last_leg [OF sec(1-6), where as = rest and e = e and c = c, unfolded sec(7,8) w_ok])
      show ?thesis
      proof (cases "hub_leg k rest")
        case None
        then show ?thesis using last' Some z order unfolding deliver m'(3) after by (simp add: prefixed_def)
      next
        case (Some z2)
        obtain ok2 k' rest' where z2: "z2 = (ok2, k', rest')" by (cases z2)
        obtain r2 where r2: "hub_serve e rest c w = Some r2" "ok_calls r2 = (if ok2 then [JStr ''resident_secondary''] else [])"
          "hub_closes c (if ok2 \<and> ok then ''accepted'' else ''failed'') (jget m hub_context) r2"
          using last' Some z2 by auto
        obtain r' where r': "prefixed (leg_calls n ?m ok) (Some r2) = Some r'" by (simp add: prefixed_def)
        have legs: "hub_legs 0 (leg_order m) answers = Some [(JStr ''resident_primary'', ok), (JStr ''resident_secondary'', ok2)]"
          using \<open>hub_leg 0 answers = Some z\<close> z Some z2 order by simp
        have "ok_calls r' = map fst (filter snd [(JStr ''resident_primary'', ok), (JStr ''resident_secondary'', ok2)])"
          using ok_calls_prefixed [OF r'] r2(2) r(1) by simp
        moreover have "hub_closes c (if list_all snd [(JStr ''resident_primary'', ok), (JStr ''resident_secondary'', ok2)] then ''accepted'' else ''failed'')
            (jget m hub_context) r'"
          using hub_closes_prefixed [OF r'] r2(3) by (simp add: conj_commute)
        ultimately show ?thesis unfolding legs deliver m'(3) after r2(1) r' by simp
      qed
    qed
  qed
qed


text \<open>C16: A request delivers its notice the way the legs do: one leg per phone, the primary one first, a leg repeated
  only while the service is missing and twelve times in all; the phones that take the notice are those whose
  leg is accepted, the status is accepted when all are, and the caller gets its payload and notification back.\<close>

theorem delivery_refines_legs:
  assumes "fresh_message m" "real_request m"
  shows "case hub_legs 0 (leg_order m) answers of
      None \<Rightarrow> hub_deliver neq e answers c m = None
    | Some legs \<Rightarrow> \<exists>r. hub_deliver neq e answers c m = Some r \<and> ok_calls r = map fst (filter snd legs) \<and>
        hub_closes c (if list_all snd legs then ''accepted'' else ''failed'') (jget m hub_context) r"
  using assms by (rule delivery_legs)

lemma hub_legs_order: "hub_legs k rs as = Some legs \<Longrightarrow> map fst legs = rs"
  by (induction k rs as arbitrary: legs rule: hub_legs.induct) (auto split: option.splits prod.splits)

lemma accepted_legs: "distinct (map fst legs) \<Longrightarrow>
    distinct (map fst (filter snd legs)) \<and> set (map fst (filter snd legs)) \<subseteq> set (map fst legs) \<and>
    (list_all snd legs \<longleftrightarrow> set (map fst (filter snd legs)) = set (map fst legs))"
proof -
  assume d: "distinct (map fst legs)"
  then have "inj_on fst (set legs)" by (simp add: distinct_map)
  then have "fst ` {x \<in> set legs. snd x} = fst ` set legs \<longleftrightarrow> {x \<in> set legs. snd x} = set legs"
    by (rule inj_on_image_eq_iff) auto
  moreover have "{x \<in> set legs. snd x} = set legs \<longleftrightarrow> list_all snd legs" by (auto simp: list_all_iff)
  ultimately show ?thesis using distinct_map_filter [OF d] by auto
qed

lemma wrap_context:
  assumes "is_obj m" "jget m ''payload'' \<noteq> JUndef" "restored (jget (hub_wrap n t m) hub_context) x"
  shows "jget x ''payload'' = jget m ''payload''" "jget x ''notification'' = jget m ''notification''"
  using assms by (auto simp: hub_wrap_def restored_def has_own_def jkeys_def split: if_splits)

text \<open>C17: Every delivery returns: fourteen answers of the service are enough for any request, whatever they are.
  The caller finds its payload and its notification as they were; no phone takes the notice twice, none that
  was not named takes it, and the status is accepted exactly when every named phone has taken it.\<close>

theorem delivery_returns:
  assumes "is_obj m" "jget m ''payload'' \<noteq> JUndef" "fresh_message (hub_wrap n t m)" "real_request (hub_wrap n t m)" "14 \<le> length answers"
  shows "\<exists>r. hub_deliver neq e answers c (hub_wrap n t m) = Some r \<and>
    jget (hr_back r) ''payload'' = jget m ''payload'' \<and> jget (hr_back r) ''notification'' = jget m ''notification'' \<and>
    distinct (ok_calls r) \<and> set (ok_calls r) \<subseteq> set (leg_order (hub_wrap n t m)) \<and>
    (jget (jget (hr_back r) ''notification_delivery'') ''status'' = JStr ''accepted'' \<longleftrightarrow> set (ok_calls r) = set (leg_order (hub_wrap n t m)))"
proof -
  let ?m = "hub_wrap n t m"
  have "mobile_request ?m" using assms(4) by (simp add: real_request_def)
  then have order: "length (leg_order ?m) \<le> 2" "distinct (leg_order ?m)"
    by (auto elim!: request_recipients simp: leg_order_def)
  obtain legs where legs: "hub_legs 0 (leg_order ?m) answers = Some legs"
    using hub_legs_return [of "leg_order ?m" answers 0] order(1) assms(5) by auto
  obtain r where r: "hub_deliver neq e answers c ?m = Some r" "ok_calls r = map fst (filter snd legs)"
    "hub_closes c (if list_all snd legs then ''accepted'' else ''failed'') (jget ?m hub_context) r"
    using delivery_legs [OF assms(3,4), of neq e answers c] legs by auto
  have m: "map fst legs = leg_order ?m" by (rule hub_legs_order [OF legs])
  have back': "jget (hr_back r) ''payload'' = jget m ''payload''" "jget (hr_back r) ''notification'' = jget m ''notification''"
    using wrap_context [OF assms(1,2), of n t "hr_back r"] r(3) by (simp_all add: hub_closes_def)
  have status: "jget (jget (hr_back r) ''notification_delivery'') ''status'' = JStr ''accepted'' \<longleftrightarrow> list_all snd legs"
    using r(3) by (simp add: hub_closes_def)
  have "distinct (ok_calls r) \<and> set (ok_calls r) \<subseteq> set (leg_order ?m) \<and> (list_all snd legs \<longleftrightarrow> set (ok_calls r) = set (leg_order ?m))"
    using accepted_legs [of legs] order(2) unfolding m r(2) by simp
  then show ?thesis using r(1) back' status by blast
qed

text \<open>A test request is simulated when the gate's \<open>!=\<close> tells the absent flag from \<open>true\<close>. JSONata's does not: with
  an absent operand both \<open>=\<close> and \<open>!=\<close> are false; then the request is delivered to the phones.\<close>

lemma test_request_simulated:
  assumes "is_obj m" "mobile_request m" "jget (jget m ''notification'') ''test_mode'' = JTrue" "neq (jget (jget m ''notification'') ''delivery_under_test'') JTrue"
  shows "\<exists>r. hub_deliver neq e answers c m = Some r \<and> hr_calls r = []"
proof -
  have "mobile_request (jset m hub_channel v) = mobile_request m" for v by (simp add: mobile_request_def)
  then show ?thesis using assms by (simp add: hub_deliver_def mobile_validate_def ended_def case_prod_beta Let_def)
qed

lemma test_request_delivered:
  assumes "is_obj m" "mobile_request m" "jget (jget m ''notification'') ''test_mode'' = JTrue" "\<not> neq (jget (jget m ''notification'') ''delivery_under_test'') JTrue"
  shows "hub_deliver neq e answers c m = hub_serve e answers c (leg_start m)"
proof -
  have "mobile_request (jset m hub_channel v) = mobile_request m" for v by (simp add: mobile_request_def)
  then show ?thesis using assms by (simp add: hub_deliver_def mobile_validate_def leg_start_def Let_def)
qed

section \<open>The theorems on concrete messages\<close>

definition hub_request :: jv where
  "hub_request = JObj [(''source'', JStr ''clima''), (''profile'', JStr ''simple''),
     (''recipients'', JArr [JStr ''resident_secondary'', JStr ''resident_primary''])]"

definition hub_caller :: jv where
  "hub_caller = JObj [(''payload'', JNum 7)]"

definition missing_answer :: "jv option" where
  "missing_answer = Some (JObj [(''message'', JStr service_missing_text)])"

definition refused_answer :: "jv option" where
  "refused_answer = Some (JObj [(''message'', JStr ''timeout'')])"

abbreviation hub_example :: jv where
  "hub_example \<equiv> hub_wrap hub_request (JStr ''oi'') hub_caller"

lemma hub_example_reads:
  "is_obj hub_caller" "jget hub_caller ''payload'' \<noteq> JUndef" "fresh_message hub_example" "real_request hub_example"
  "leg_order hub_example = [JStr ''resident_primary'', JStr ''resident_secondary'']"
  by (simp_all add: hub_wrap_def hub_caller_def hub_request_def fresh_message_def real_request_def mobile_request_def full_text_def
      recipients_valid_def str_among_def residents_def leg_order_def Let_def)

lemma missing_known: "service_missing (JObj [(''message'', JStr service_missing_text)])" "\<not> service_missing (JObj [(''message'', JStr ''timeout'')])"
  by (simp_all add: service_missing_def dflt_def)

theorem delivery_refines_legs_witness:
  "\<exists>r. hub_deliver (\<noteq>) (host_at 0) [missing_answer, None, refused_answer] empty_ctx hub_example = Some r \<and>
     ok_calls r = [JStr ''resident_primary'']"
  using delivery_refines_legs [OF hub_example_reads(3,4), of "(\<noteq>)" "host_at 0" "[missing_answer, None, refused_answer]" empty_ctx]
  by (simp add: hub_example_reads(5) missing_answer_def refused_answer_def missing_known) blast

theorem delivery_returns_witness:
  "\<exists>r. hub_deliver (\<noteq>) (host_at 0) (replicate 13 missing_answer @ [None]) empty_ctx hub_example = Some r \<and> jget (hr_back r) ''payload'' = JNum 7"
  using delivery_returns [OF hub_example_reads(1-4), of "replicate 13 missing_answer @ [None]" "(\<noteq>)" "host_at 0" empty_ctx]
  by (auto simp: hub_caller_def)

end
