(* ===== verification/Spec2Isabelle.thy ===== *)
theory Spec2Isabelle
  imports LightLifecycle RefreshResult VehicleLife PeopleLocation PeopleLife PeopleRefresh ArrivalContext ResidentNotices AlarmArrival NoticeHub
begin

text \<open>
  A verification library for the home automation in this repository: the Node-RED flows whose function nodes
  are \<open>src/nodered/tools/functions/*.js\<close>, wired together in \<open>src/nodered/flows.json\<close>. It covers the part that
  decides where the residents and the car are, when somebody arrives, when the car is woken, when the security
  light is on, when the residents are notified, and when they may disarm the alarm from their phones.

  The parts and how they meet.

  \<^item> \<open>Policies\<close>: the two configuration tabs. A parameter message is validated, checked for conflicts and
    merged into \<open>location_policy_v1\<close> or \<open>security_light_policy_v1\<close>, which all other tabs read.
  \<^item> \<open>PeopleLocation\<close> (\<open>people-location-*.js\<close> and the selection nodes that
    \<open>src/nodered/tools/update-people-location-selection.mjs\<close> installs): several trackers per resident become one
    source, its coordinates become a zone, a change of zone becomes one message.
  \<^item> \<open>PeopleLife\<close> (\<open>people-lifecycle-*.js\<close>, \<open>people-notification-*.js\<close>): zones over time become the context of
    the residents, arrivals, and early notices.
  \<^item> \<open>PeopleRefresh\<close> (\<open>people-refresh-*.js\<close>, \<open>people-location-refresh-*.js\<close>): when the phone of a resident is asked
    for a position, with its retries and backoff.
  \<^item> \<open>ResidentNotices\<close> (\<open>resident-notifications-*.js\<close>): the push that tells one resident about the arrival of the
    other, with its reservation, retries and receipts.
  \<^item> \<open>NoticeHub\<close> (\<open>notification-hub-*.js\<close>, \<open>src/nodered/tools/notification-timing.mjs\<close>): the channel every push to
    a phone goes through, with one leg per phone and repeated calls while the service is missing.
  \<^item> \<open>AlarmArrival\<close> (\<open>alarm-arrival-*.js\<close>): an arrival asks the residents whether to disarm the alarm; the
    question, its acceptance by the notification service, the answer and the command. The reader of the alarm
    panel is a parameter; as it is configured, no arrival gets as far as the question.
  \<^item> \<open>VehicleLife\<close> (\<open>vehicle-lifecycle-*.js\<close>): reports of the car become its context, its arrival, and the evidence
    that a refresh has brought new telemetry.
  \<^item> \<open>ArrivalContext\<close> (\<open>arrival-context-*.js\<close>): the coordinator. A request starts a cycle, both domains answer
    with a snapshot, one joint refresh command goes out; departures give a command of their own, and an arrival
    at home starts a confirmation that asks for the car until it is answered or expires.
  \<^item> \<open>RefreshPolicy\<close>, \<open>RefreshCoord\<close>, \<open>RefreshResult\<close> (\<open>vehicle-primary-refresh-*.js\<close>, \<open>vehicle-refresh-*.js\<close> and
    the other \<open>vehicle-primary-*.js\<close>): how often the car may be asked, whether a command wakes it, probes the
    cache or is held back, and what an accepted or failed call, the provider's retry time and a publication
    leave in the stored state. A failure that concerns the engine lends the light to the automation.
  \<^item> \<open>LightBypass\<close>, \<open>LightContext\<close>, \<open>LightArrival\<close>, \<open>LightOff\<close> (\<open>security-light-*.js\<close>): the engine bypass, the caches
    of people, car and sun with the evidence for local returns, the arrival that switches the light on, and
    the ways it is switched off. \<open>LightLifecycle\<close> composes them into one transition system.

  How the model reads the code.

  \<^item> \<open>Jsv\<close> has the values of JavaScript (finite numbers are exact rationals, \<open>NaN\<close> and the infinities are values
    of their own), \<open>JsText\<close> number and JSON texts and \<open>Date.parse\<close>-free conversions, \<open>JsRegex\<close> the regular expressions
    the nodes match.
  \<^item> \<open>NodeRed\<close> has what a function node sees: the environment \<open>env\<close> (the clock, read once per node, and the
    parsing and printing of dates, which are parameters), the context stores \<open>ctx\<close> (flow memory, persistent
    flow store, global store, and the calls of \<open>node.error\<close>, \<open>node.warn\<close>, \<open>node.log\<close>), and its result \<open>run\<close>: \<open>Emit\<close> with
    the messages by output, \<open>Stop\<close> for \<open>return null\<close>, \<open>Raise\<close> for an exception. \<open>wire\<close> connects two nodes. The
    stores return values: a node that changes an object it has read is modelled as changing its own copy,
    which it then stores.
  \<^item> Each node is one definition with the name of its file, over the definitions of its parts; a record stands
    for the working object the nodes of a tab hand along in the message (\<open>msg._people\<close>, \<open>msg._bypass\<close> and so
    on). A switch of the canvas is a predicate. A tab is the \<open>wire\<close> of its nodes, its handlers by kind of
    message.
  \<^item> Test messages run through the same nodes with the suffix \<open>__test\<close> on every key. The locale \<open>dry_run\<close> states
    that contract and is interpreted for each tab.

  What the lemmas show: each node's effect on the stores (its frame), repair of whatever a store holds,
  invariants over arbitrary interleavings of messages, restarts and parameter changes (\<open>reach\<close>-style inductive
  predicates), refinement of the ownership machine of the bypass and of the merge of concurrent updates, and
  properties across tabs. This theory has those that span tabs: the light is lent after a failure and given
  back after recovery.

  Bounds: loops of the nodes run over the two residents, over lists in the message or over the entries of an
  object, so they are folds and need no fuel; the regular expressions are matched by structural recursion over
  the text, and number texts are read and written with their digits bounded by the text. The one loop that waits
  for answers, the calls of \<open>NoticeHub\<close>, is a recursion over the list of answers, and fourteen are enough.

  Not modelled: the pictures and texts of \<open>node.status\<close>; rounding of doubles (times are integral milliseconds,
  far below the range where doubles lose integers; distances are real numbers); tests and manual fixtures;
  the installers under \<open>src/nodered/tools\<close> beyond the nodes named above; the external lighting, the remote commands
  of the dashboard and the hub's channels for speakers and persistent notices; and the tabs that only watch the
  installation (storage, internet, VPN, Zigbee, Tuya, MQTT, host, updates and backups), whose manifest entries
  say so one by one. Timers of Node-RED are messages that may arrive at any time.
\<close>

section \<open>Lending the light to the automation\<close>

lemma bypass_output_frame:
  "glob (ctx_of (bypass_output e m c d)) = glob c" "fper (ctx_of (bypass_output e m c d)) = fper c"
  by (simp_all add: bypass_output_def Let_def)

lemma bypass_flow_frame:
  "glob (ctx_of (bypass_flow e c m)) = glob c"
  "k \<notin> {bypass_state_key, bypass_automatic_key} \<Longrightarrow> \<not> test_msg m \<Longrightarrow>
    fper (ctx_of (bypass_flow e c m)) k = fper c k"
proof -
  show "glob (ctx_of (bypass_flow e c m)) = glob c"
    by (cases "by_branch (bypass_facts c m)")
       (simp_all add: bypass_flow_def bypass_output_frame bypass_switch_def bypass_handler_defs Let_def)
  have "\<not> by_test (bypass_facts c m)" if "\<not> test_msg m" using that by simp
  then show "fper (ctx_of (bypass_flow e c m)) k = fper c k"
    if "k \<notin> {bypass_state_key, bypass_automatic_key}" "\<not> test_msg m"
    using that
    by (cases "by_branch (bypass_facts c m)")
       (simp_all add: bypass_flow_def bypass_output_frame bypass_switch_def bypass_handler_defs sset_def Let_def)
qed

lemma evidence_confirmed_cong:
  "(\<And>k. k \<in> {''semantic_evidence_window_ms'', ''last_attempt_at'', ''last_request_at'', ''baseline_observed_at''} \<Longrightarrow>
      jget s' k = jget s k) \<Longrightarrow> evidence_confirmed now fut s' v = evidence_confirmed now fut s v"
  by (simp add: evidence_confirmed_def attempt_current_def evidence_request_def)

lemma failed_state_other:
  "k \<in> {''semantic_evidence_window_ms'', ''last_attempt_at'', ''last_request_at'', ''baseline_observed_at''} \<Longrightarrow>
     jget (failure_noted n now cls source (failed_state now cls source s)) k = jget s k"
  by (auto simp: failure_noted_other failed_state_def failed_engine_def Let_def)

lemma telemetry_recovery:
  assumes "jget (stored_refresh c) ''engine_bypass_recovery_pending'' = JTrue"
  shows "\<exists>c1 ps. refresh_telemetry e c = Emit c1 ps \<and> port 2 ps = [bypass_message ''OFF'' ''api_recovered''] \<and>
    owner_of False c1 = owner_of False c"
  using assms by (auto simp: refresh_telemetry_def take_flag_def Let_def owner_of_def sget_def port_def)

text \<open>What a failure that commands the bypass leaves for the lifecycle of the car.\<close>

lemma failure_left:
  fixes e1 c1 on
  assumes "refresh_error e c m = Emit c1 ps" and "port 1 ps = [on]" and "is_obj (stored_refresh c)"
  defines "c2 \<equiv> ctx_of (bypass_flow e1 c1 on)"
  shows "glob c2 = glob c" "owner_of False c2 = owner_step AutoActivation (owner_of False c)"
    "waiting_evidence (fper c2 refresh_key)" "jget (fper c2 refresh_key) ''engine_communication_failed'' = JTrue"
    "evidence_confirmed now fut (fper c2 refresh_key) v = evidence_confirmed now fut (stored_refresh c) v"
proof -
  let ?k = "failure_class (error_message m)" and ?src = "error_source m"
  have on: "on = bypass_message ''ON'' ''api_failure''" and rel: "engine_relevant ?k ?src"
    using port1_failed(1,2) [OF assms(1)] assms(2) by auto
  note f = failed_stored [OF assms(1,3)]
  obtain n where st: "stored_refresh c1 = failure_noted n (clock e) ?k ?src (failed_state (clock e) ?k ?src (stored_refresh c))"
    using f(1) by blast
  have own1: "owner_of False c1 = owner_of False c" by (simp add: owner_of_def sget_def f(2))
  show "owner_of False c2 = owner_step AutoActivation (owner_of False c)"
    using bypass_after_command [OF bypass_message_branch(1) bypass_message_test, of e1 c1] own1 on by (simp add: c2_def)
  have "glob c1 = glob c"
    using assms(1) by (auto simp: refresh_error_def refresh_failed_def Let_def split: if_splits)
  then show "glob c2 = glob c" by (simp add: c2_def bypass_flow_frame)
  have "jget (fper c2 refresh_key) k = jget (fper c1 refresh_key) k" for k
    using bypass_flow_frame(2) [OF _ bypass_message_test, of refresh_key] by (simp add: c2_def on)
  moreover have "jget (fper c1 refresh_key) k = jget (stored_refresh c1) k" for k
    by simp
  ultimately have get: "jget (fper c2 refresh_key) k = jget (stored_refresh c1) k" for k by metis
  show "jget (fper c2 refresh_key) ''engine_communication_failed'' = JTrue"
    unfolding get st by (subst failure_noted_other) (simp_all add: failed_engine_failed [OF assms(3) rel])
  have "jget (failed_state (clock e) ?k ?src (stored_refresh c)) ''awaiting_evidence'' = JTrue"
    using assms(3) by (simp add: failed_state_def failed_engine_def Let_def jget_jsets)
  then show "waiting_evidence (fper c2 refresh_key)"
    unfolding waiting_evidence_def get st by (subst failure_noted_other) simp_all
  show "evidence_confirmed now fut (fper c2 refresh_key) v = evidence_confirmed now fut (stored_refresh c) v"
    by (rule evidence_confirmed_cong) (simp only: get st failed_state_other)
qed

lemma evidence_recovers:
  assumes "vehicle_flow e c m = Emit c' ps" "\<not> test_msg m" "brings_evidence e c m"
    and "jget (fper c refresh_key) ''engine_communication_failed'' = JTrue"
  shows "jget (stored_refresh c') ''engine_bypass_recovery_pending'' = JTrue" "owner_of False c' = owner_of False c"
    "is_obj (stored_refresh c')"
proof -
  let ?d = "read_vehicle e c m"
  obtain ctx where s: "fper c' refresh_key = confirmed_state (clock e) (vh_comm_failed ?d) ctx (object_or_empty (fper c refresh_key))"
    using vehicle_flow_facts(5) [OF assms(1)] assms(2,3) by (auto simp: sget_def)
  have "vh_comm_failed ?d" using assms(2,4) by (simp add: comm_failed_def sget_def)
  then show "jget (stored_refresh c') ''engine_bypass_recovery_pending'' = JTrue" "is_obj (stored_refresh c')"
    using s by (simp_all add: stored_refresh_def dflt_def confirmed_state_def Let_def jspread_def jget_jsets)
  show "owner_of False c' = owner_of False c"
    using vehicle_flow_facts(8) [OF assms(1)] assms(2) by (simp add: owner_of_def vehicle_keys_def)
qed

text \<open>C5: The light is lent to the automation and given back. A failure of the car's API that commands the
  bypass, followed by telemetry that closes the attempt and by the next publication, leaves the light with
  whoever had it: the publication commands the bypass off once, a person's switch stays theirs, and a
  switch that was off before the failure is off again. The path crosses the error handler, the bypass, the
  lifecycle of the car and the publisher.\<close>

theorem bypass_lent_and_returned:
  assumes "refresh_error e c m = Emit c1 ps" and "port 1 ps = [on]" and "is_obj (stored_refresh c)"
    and "vehicle_flow e2 (ctx_of (bypass_flow e1 c1 on)) car = Emit c3 ps3" and "\<not> test_msg car"
    and "evidence_confirmed (clock e2) (jnum_of (glob c ''location_policy_v1'') ''future_tolerance_seconds'' * 1000)
      (stored_refresh c) (reported_past e2 (jnum_of (glob c ''location_policy_v1'') ''future_tolerance_seconds'' * 1000)
        (reported_at e2 car ''vehicle_primary_last_updated''))"
  shows "\<exists>c4 ps4 off. refresh_telemetry e3 c3 = Emit c4 ps4 \<and> port 2 ps4 = [off] \<and>
    owner_of False (ctx_of (bypass_flow e4 c4 off)) = (case owner_of False c of Manual \<Rightarrow> Manual | _ \<Rightarrow> Disabled)"
proof -
  let ?c2 = "ctx_of (bypass_flow e1 c1 on)"
  note left = failure_left [where ?e1.0 = e1, OF assms(1-3)]
  have o2: "object_or_empty (fper ?c2 refresh_key) = fper ?c2 refresh_key"
    using left(4) by (cases "fper ?c2 refresh_key") (simp_all add: object_or_empty_def)
  have "brings_evidence e2 ?c2 car"
    using assms(5,6) left(1,3,5) o2
    by (simp add: brings_evidence_def Let_def sget_def vehicle_future_def read_vehicle_def)
  note rec = evidence_recovers [OF assms(4,5) this left(4)]
  obtain c4 ps4 where t: "refresh_telemetry e3 c3 = Emit c4 ps4" "port 2 ps4 = [bypass_message ''OFF'' ''api_recovered'']"
    "owner_of False c4 = owner_of False c3"
    using rec(1) telemetry_recovery by blast
  then have "owner_of False (ctx_of (bypass_flow e4 c4 (bypass_message ''OFF'' ''api_recovered''))) =
      owner_step AutoRecovery (owner_of False c3)"
    using bypass_after_command [OF bypass_message_branch(3) bypass_message_test] by simp
  then show ?thesis
    using t rec(2) left(2) by (cases "owner_of False c") auto
qed

lemma timeout_commands:
  assumes "is_obj (stored_refresh c)" "jget (stored_refresh c) ''engine_communication_failed'' = JUndef"
  shows "\<exists>c1 ps on. refresh_error e c (failed_call ''timeout'') = Emit c1 ps \<and> port 1 ps = [on]"
  using timeout_call assms by (simp add: refresh_error_def refresh_failed_def Let_def port_def)

theorem bypass_lent_and_returned_witness:
  "\<exists>c1 ps on c3 ps3 c4 ps4 off. refresh_error (host_at 950000) (pset default_policies refresh_key awaiting_state) (failed_call ''timeout'') = Emit c1 ps \<and>
     vehicle_flow (car_env 1000000) (ctx_of (bypass_flow (host_at 950000) c1 on)) (car_report ''home'' ''home'' ''off'') = Emit c3 ps3 \<and>
     refresh_telemetry (host_at 1000001) c3 = Emit c4 ps4 \<and> port 2 ps4 = [off] \<and>
     owner_of False (ctx_of (bypass_flow (host_at 1000002) c4 off)) = Disabled"
proof -
  let ?c = "pset default_policies refresh_key awaiting_state" and ?car = "car_report ''home'' ''home'' ''off''"
  have st: "stored_refresh ?c = awaiting_state" "is_obj (stored_refresh ?c)"
    "jget (stored_refresh ?c) ''engine_communication_failed'' = JUndef"
    by (simp_all add: stored_refresh_def dflt_def awaiting_state_def)
  obtain c1 ps on where f: "refresh_error (host_at 950000) ?c (failed_call ''timeout'') = Emit c1 ps" "port 1 ps = [on]"
    using timeout_commands [OF st(2,3)] by blast
  have pol: "glob (ctx_of (bypass_flow (host_at 950000) c1 on)) ''location_policy_v1'' = std_location"
    using failure_left(1) [OF f st(2)] by simp
  obtain c3 ps3 where v: "vehicle_flow (car_env 1000000) (ctx_of (bypass_flow (host_at 950000) c1 on)) ?car = Emit c3 ps3"
    by (rule car_runs [OF pol])
  have own: "owner_of False ?c = Disabled"
    by (simp add: owner_of_def sget_def)
  have g: "glob ?c ''location_policy_v1'' = std_location" "fper ?c refresh_key = awaiting_state" by simp_all
  have ev: "evidence_confirmed (clock (car_env 1000000)) (jnum_of (glob ?c ''location_policy_v1'') ''future_tolerance_seconds'' * 1000)
      (stored_refresh ?c) (reported_past (car_env 1000000) (jnum_of (glob ?c ''location_policy_v1'') ''future_tolerance_seconds'' * 1000)
        (reported_at (car_env 1000000) ?car ''vehicle_primary_last_updated''))"
    using awaiting_evidence [OF g] st(1)
    by (simp add: brings_evidence_def Let_def sget_def vehicle_future_def read_vehicle_def object_or_empty_def awaiting_state_def
        car_report_reads)
  show ?thesis
    using bypass_lent_and_returned [where ?e3.0 = "host_at 1000001" and ?e4.0 = "host_at 1000002",
      OF f st(2) v car_report_reads(1) ev, unfolded own owner.case] f(1) v by blast
qed

end
